(* ===== verification/Floxy_Prelude.thy ===== *)
theory Floxy_Prelude
  imports Main "HOL-Library.AList" "HOL-Library.Sublist"
begin

text \<open>
  Shared vocabulary of the floxy development.
  \<^item> Go errors as values (\<open>error\<close>, with \<open>fmt.Errorf ("...: %w", err)\<close> as \<open>Wrap\<close>)
    and the outcome of a Go call (\<open>res\<close>): a value, an error, a panic, a goroutine that
    blocks for ever, or a recursion cut off by its fuel.
  \<^item> Stateful Go code as state passing functions of type \<open>('s, 'a) go\<close>. The state is kept on
    every outcome: neither the in-memory store nor \<open>MemoryTxManager\<close> undoes anything when an
    error is returned.
  \<^item> A small logic for such code: \<open>go_rel R m\<close> says that running \<open>m\<close> relates the state
    before to the state after by \<open>R\<close>, whatever the outcome; \<open>settles m\<close> that it
    does not stop for want of fuel, \<open>go_ok\<close> both.
  \<^item> Go maps as association lists. The order of such a list is one iteration order of the map;
    Go leaves that order open, and every theorem is about arbitrary lists.
  \<^item> Decimal printing of integers (\<open>%d\<close>) and its injectivity.
\<close>

section \<open>Errors and outcomes\<close>

datatype error =
    EntityNotFound              \<comment> \<open>\<open>ErrEntityNotFound\<close>\<close>
  | Err string                  \<comment> \<open>\<open>errors.New\<close> and \<open>fmt.Errorf\<close> without \<open>%w\<close>\<close>
  | Wrap string error           \<comment> \<open>\<open>fmt.Errorf ("<prefix>%w", err)\<close>\<close>

fun errStr :: "error \<Rightarrow> string" where
  "errStr EntityNotFound = ''entity not found''"
| "errStr (Err s) = s"
| "errStr (Wrap c e) = c @ errStr e"

text \<open>\<open>errors.Is (err, ErrEntityNotFound)\<close> follows the chain of wrapped errors.\<close>

fun errIsNotFound :: "error \<Rightarrow> bool" where
  "errIsNotFound EntityNotFound = True"
| "errIsNotFound (Err s) = False"
| "errIsNotFound (Wrap c e) = errIsNotFound e"

datatype 'a res = Ok 'a | Fail error | Panic string | Deadlock | OutOfFuel

type_synonym ('s, 'a) go = "'s \<Rightarrow> 'a res \<times> 's"

section \<open>Sequencing\<close>

definition gret :: "'a \<Rightarrow> ('s, 'a) go" where
  "gret x = (\<lambda>s. (Ok x, s))"

definition gfail :: "error \<Rightarrow> ('s, 'a) go" where
  "gfail e = (\<lambda>s. (Fail e, s))"

definition gpanic :: "string \<Rightarrow> ('s, 'a) go" where
  "gpanic p = (\<lambda>s. (Panic p, s))"

definition gdeadlock :: "('s, 'a) go" where
  "gdeadlock = (\<lambda>s. (Deadlock, s))"

definition gfuel :: "('s, 'a) go" where
  "gfuel = (\<lambda>s. (OutOfFuel, s))"

definition gread :: "('s \<Rightarrow> 'a) \<Rightarrow> ('s, 'a) go" where
  "gread f = (\<lambda>s. (Ok (f s), s))"

definition gmodify :: "('s \<Rightarrow> 's) \<Rightarrow> ('s, unit) go" where
  "gmodify f = (\<lambda>s. (Ok (), f s))"

definition gbind :: "('s, 'a) go \<Rightarrow> ('a \<Rightarrow> ('s, 'b) go) \<Rightarrow> ('s, 'b) go" where
  "gbind m k = (\<lambda>s. case m s of (r, s') \<Rightarrow>
     (case r of Ok x \<Rightarrow> k x s' | Fail e \<Rightarrow> (Fail e, s') | Panic p \<Rightarrow> (Panic p, s')
      | Deadlock \<Rightarrow> (Deadlock, s') | OutOfFuel \<Rightarrow> (OutOfFuel, s')))"

definition gseq :: "('s, 'a) go \<Rightarrow> ('s, 'b) go \<Rightarrow> ('s, 'b) go" where
  "gseq m k = gbind m (\<lambda>_. k)"

text \<open>\<open>if err := m; err != nil { return fmt.Errorf ("<c>%w", err) }\<close>\<close>

definition gwrap :: "string \<Rightarrow> ('s, 'a) go \<Rightarrow> ('s, 'a) go" where
  "gwrap c m = (\<lambda>s. case m s of (r, s') \<Rightarrow>
     ((case r of Fail e \<Rightarrow> Fail (Wrap c e) | _ \<Rightarrow> r), s'))"

text \<open>\<open>x, err := m\<close> with the error inspected by the caller.\<close>

definition gtry :: "('s, 'a) go \<Rightarrow> ('s, error + 'a) go" where
  "gtry m = (\<lambda>s. case m s of (r, s') \<Rightarrow>
     ((case r of Ok x \<Rightarrow> Ok (Inr x) | Fail e \<Rightarrow> Ok (Inl e) | Panic p \<Rightarrow> Panic p
       | Deadlock \<Rightarrow> Deadlock | OutOfFuel \<Rightarrow> OutOfFuel), s'))"

text \<open>\<open>_ = m\<close>: the error is dropped, a panic or a blocked goroutine is not.\<close>

definition gignore :: "('s, 'a) go \<Rightarrow> ('s, unit) go" where
  "gignore m = gbind (gtry m) (\<lambda>_. gret ())"

text \<open>\<open>defer c; m\<close>: the deferred call runs after a return and after a panic.\<close>

definition gfinally :: "('s, 'a) go \<Rightarrow> ('s, unit) go \<Rightarrow> ('s, 'a) go" where
  "gfinally m c = (\<lambda>s. case m s of (r, s') \<Rightarrow>
     (case r of Deadlock \<Rightarrow> (Deadlock, s') | OutOfFuel \<Rightarrow> (OutOfFuel, s')
      | _ \<Rightarrow> (r, snd (c s'))))"

text \<open>
  \<open>defer func () { if cleanup { c } } (); m\<close>, where \<open>m\<close> answers whether it switched the
  clean-up off before returning normally.
\<close>

definition gunless :: "('s, bool) go \<Rightarrow> ('s, unit) go \<Rightarrow> ('s, unit) go" where
  "gunless m c = (\<lambda>s. case m s of (r, s') \<Rightarrow>
     (case r of Ok off \<Rightarrow> (Ok (), if off then s' else snd (c s')) | Fail e \<Rightarrow> (Fail e, snd (c s'))
      | Panic p \<Rightarrow> (Panic p, snd (c s')) | Deadlock \<Rightarrow> (Deadlock, s') | OutOfFuel \<Rightarrow> (OutOfFuel, s')))"

primrec gforeach :: "('a \<Rightarrow> ('s, unit) go) \<Rightarrow> 'a list \<Rightarrow> ('s, unit) go" where
  "gforeach f [] = gret ()"
| "gforeach f (x # xs) = gseq (f x) (gforeach f xs)"

text \<open>A loop that hands a value from round to round.\<close>

primrec gfold :: "('a \<Rightarrow> 'b \<Rightarrow> ('s, 'b) go) \<Rightarrow> 'a list \<Rightarrow> 'b \<Rightarrow> ('s, 'b) go" where
  "gfold f [] b = gret b"
| "gfold f (x # xs) b = gbind (f x b) (gfold f xs)"

text \<open>A call on a component of the state (the engine calling its store).\<close>

definition gzoom :: "('w \<Rightarrow> 's) \<Rightarrow> ('s \<Rightarrow> 'w \<Rightarrow> 'w) \<Rightarrow> ('s, 'a) go \<Rightarrow> ('w, 'a) go" where
  "gzoom get put m = (\<lambda>w. case m (get w) of (r, s') \<Rightarrow> (r, put s' w))"

lemmas go_run = gret_def gfail_def gpanic_def gdeadlock_def gfuel_def gread_def gmodify_def
  gbind_def gseq_def gwrap_def gtry_def gignore_def gfinally_def gunless_def gzoom_def

lemma gbind_Ok [simp]: "m s = (Ok x, s') \<Longrightarrow> gbind m k s = k x s'"
  by (simp add: gbind_def)

lemma gbind_Fail [simp]: "m s = (Fail e, s') \<Longrightarrow> gbind m k s = (Fail e, s')"
  by (simp add: gbind_def)

lemma gseq_Ok [simp]: "m s = (Ok x, s') \<Longrightarrow> gseq m k s = k s'"
  by (simp add: gseq_def)

lemma gseq_Fail [simp]: "m s = (Fail e, s') \<Longrightarrow> gseq m k s = (Fail e, s')"
  by (simp add: gseq_def)

lemma gwrap_Ok [simp]: "m s = (Ok x, s') \<Longrightarrow> gwrap c m s = (Ok x, s')"
  by (simp add: gwrap_def)

lemma gwrap_Fail [simp]: "m s = (Fail e, s') \<Longrightarrow> gwrap c m s = (Fail (Wrap c e), s')"
  by (simp add: gwrap_def)

lemma gtry_Ok [simp]: "m s = (Ok x, s') \<Longrightarrow> gtry m s = (Ok (Inr x), s')"
  by (simp add: gtry_def)

lemma gtry_Fail [simp]: "m s = (Fail e, s') \<Longrightarrow> gtry m s = (Ok (Inl e), s')"
  by (simp add: gtry_def)

lemma gignore_Ok [simp]: "m s = (Ok x, s') \<Longrightarrow> gignore m s = (Ok (), s')"
  by (simp add: gignore_def gret_def)

lemma gignore_Fail [simp]: "m s = (Fail e, s') \<Longrightarrow> gignore m s = (Ok (), s')"
  by (simp add: gignore_def gret_def)

lemma gret_app [simp]: "gret x s = (Ok x, s)"
  by (simp add: gret_def)

lemma gfail_app [simp]: "gfail e s = (Fail e, s)"
  by (simp add: gfail_def)

lemma gread_app [simp]: "gread f s = (Ok (f s), s)"
  by (simp add: gread_def)

lemma gmodify_app [simp]: "gmodify f s = (Ok (), f s)"
  by (simp add: gmodify_def)

text \<open>Taking a successful run apart.\<close>

lemma gbind_OkE:
  assumes "gbind m k s = (Ok y, t)"
  obtains x u where "m s = (Ok x, u)" "k x u = (Ok y, t)"
  using assms by (auto simp: gbind_def split: prod.splits res.splits)

lemma gseq_OkE:
  assumes "gseq m k s = (Ok y, t)"
  obtains x u where "m s = (Ok x, u)" "k u = (Ok y, t)"
  using assms unfolding gseq_def by (rule gbind_OkE)

lemma gwrap_OkD: "gwrap c m s = (Ok y, t) \<Longrightarrow> m s = (Ok y, t)"
  by (auto simp: gwrap_def split: prod.splits res.splits)

section \<open>A relation between the states before and after\<close>

named_theorems settling \<open>code that never stops for want of fuel\<close>
named_theorems returning \<open>code that returns a value or an error\<close>
named_theorems ok_rules \<open>rules that derive \<open>go_ok\<close> for composed code\<close>

definition go_rel :: "('s \<Rightarrow> 's \<Rightarrow> bool) \<Rightarrow> ('s, 'a) go \<Rightarrow> bool" where
  "go_rel R m \<longleftrightarrow> (\<forall>s. R s (snd (m s)))"

lemma go_relD: "go_rel R m \<Longrightarrow> m s = (r, s') \<Longrightarrow> R s s'"
  unfolding go_rel_def by (metis snd_conv)

lemma go_rel_snd: "go_rel R m \<Longrightarrow> R s (snd (m s))"
  unfolding go_rel_def by blast

text \<open>Code that never stops for want of fuel.\<close>

definition settles :: "('s, 'a) go \<Rightarrow> bool" where
  "settles m \<longleftrightarrow> (\<forall>s. fst (m s) \<noteq> OutOfFuel)"

lemma settles_pure [settling]:
  "settles (gret x)" "settles (gfail e)" "settles (gpanic p)" "settles gdeadlock" "settles (gread f)"
  "settles (gmodify g)"
  by (simp_all add: settles_def go_run)

lemma settles_bind [settling]: "settles m \<Longrightarrow> (\<And>x. settles (k x)) \<Longrightarrow> settles (gbind m k)"
  by (auto simp: settles_def gbind_def split: prod.split res.split) (metis fst_conv)

lemma settles_seq [settling]: "settles m \<Longrightarrow> settles k \<Longrightarrow> settles (gseq m k)"
  unfolding gseq_def by (rule settles_bind)

lemma settles_wrap [settling]: "settles m \<Longrightarrow> settles (gwrap c m)"
  by (auto simp: settles_def gwrap_def split: prod.split res.split) (metis fst_conv)

lemma settles_try [settling]: "settles m \<Longrightarrow> settles (gtry m)"
  by (auto simp: settles_def gtry_def split: prod.split res.split) (metis fst_conv)

lemma settles_ignore [settling]: "settles m \<Longrightarrow> settles (gignore m)"
  unfolding gignore_def by (intro settles_bind settles_try settles_pure)

lemma settles_finally [settling]: "settles m \<Longrightarrow> settles (gfinally m c)"
  by (auto simp: settles_def gfinally_def split: prod.split res.split) (metis fst_conv)

lemma settles_unless [settling]: "settles m \<Longrightarrow> settles (gunless m c)"
  by (auto simp: settles_def gunless_def split: prod.split res.split) (metis fst_conv)

lemma settles_foreach [settling]: "(\<And>x. settles (f x)) \<Longrightarrow> settles (gforeach f xs)"
  by (induction xs) (auto intro: settles_pure settles_seq)

lemma settles_fold [settling]: "(\<And>x b. settles (f x b)) \<Longrightarrow> settles (gfold f xs b)"
  by (induction xs arbitrary: b) (auto intro: settles_pure settles_bind)

lemma settles_zoom [settling]: "settles m \<Longrightarrow> settles (gzoom get put m)"
  by (auto simp: settles_def gzoom_def split: prod.split) (metis fst_conv)

lemma settles_if [settling]: "settles a \<Longrightarrow> settles b \<Longrightarrow> settles (if c then a else b)"
  by simp

lemma settles_option [settling]: "settles a \<Longrightarrow> (\<And>x. settles (f x)) \<Longrightarrow> settles (case_option a f x)"
  by (cases x) auto

text \<open>Code that returns: no panic, no blocked goroutine.\<close>

definition returns :: "('s, 'a) go \<Rightarrow> bool" where
  "returns m \<longleftrightarrow> (\<forall>s. case fst (m s) of Ok _ \<Rightarrow> True | Fail _ \<Rightarrow> True | _ \<Rightarrow> False)"

lemma returnsE:
  assumes "returns m"
  obtains x t where "m s = (Ok x, t)" | e t where "m s = (Fail e, t)"
  using assms unfolding returns_def by (cases "m s"; cases "fst (m s)") (auto dest: spec [of _ s])

lemma returns_pure [returning]:
  "returns (gret x)" "returns (gfail e)" "returns (gread f)" "returns (gmodify g)"
  by (simp_all add: returns_def go_run)

lemma returns_bind [returning]:
  assumes m: "returns m" and k: "\<And>x. returns (k x)"
  shows "returns (gbind m k)"
  unfolding returns_def
proof
  fix s
  show "case fst (gbind m k s) of Ok _ \<Rightarrow> True | Fail _ \<Rightarrow> True | _ \<Rightarrow> False"
    by (rule returnsE [OF m, of s]) (use k [unfolded returns_def] in auto)
qed

lemma returns_seq [returning]: "returns m \<Longrightarrow> returns k \<Longrightarrow> returns (gseq m k)"
  unfolding gseq_def by (rule returns_bind)

lemma returns_wrap [returning]:
  assumes "returns m" shows "returns (gwrap c m)"
  unfolding returns_def
proof
  fix s
  show "case fst (gwrap c m s) of Ok _ \<Rightarrow> True | Fail _ \<Rightarrow> True | _ \<Rightarrow> False"
    by (rule returnsE [OF assms, of s]) auto
qed

lemma returns_try [returning]:
  assumes "returns m" shows "returns (gtry m)"
  unfolding returns_def
proof
  fix s
  show "case fst (gtry m s) of Ok _ \<Rightarrow> True | Fail _ \<Rightarrow> True | _ \<Rightarrow> False"
    by (rule returnsE [OF assms, of s]) auto
qed

lemma returns_ignore [returning]: "returns m \<Longrightarrow> returns (gignore m)"
  unfolding gignore_def by (intro returning)

lemma returns_foreach [returning]: "(\<And>x. returns (f x)) \<Longrightarrow> returns (gforeach f xs)"
  by (induction xs) (simp_all only: gforeach.simps, (intro returning | assumption | simp)+)

lemma returns_cases [returning]:
  "returns a \<Longrightarrow> returns b \<Longrightarrow> returns (if c then a else b)"
  "returns a \<Longrightarrow> (\<And>x. returns (f x)) \<Longrightarrow> returns (case_option a f opt)"
  "(\<And>x. returns (g x)) \<Longrightarrow> (\<And>x. returns (h x)) \<Longrightarrow> returns (case_sum g h sm)"
  "(\<And>x y. returns (p x y)) \<Longrightarrow> returns (case_prod p pr)"
  "returns (l v) \<Longrightarrow> returns (Let v l)"
  by (simp, cases opt, simp_all, cases sm, simp_all, cases pr, simp)

text \<open>Both together.\<close>

definition go_ok :: "('s \<Rightarrow> 's \<Rightarrow> bool) \<Rightarrow> ('s, 'a) go \<Rightarrow> bool" where
  "go_ok R m \<longleftrightarrow> go_rel R m \<and> settles m"

lemma go_okD: "go_ok R m \<Longrightarrow> m s = (r, s') \<Longrightarrow> R s s' \<and> r \<noteq> OutOfFuel"
  unfolding go_ok_def settles_def by (metis fst_conv go_relD)

text \<open>
  The control structures keep every reflexive and transitive relation. \<open>preorder\<close> is stated
  on the relation, so that one proof serves invariants (\<open>P s \<longrightarrow> P s'\<close>), growth of logs
  and counters, and unchanged fields alike.
\<close>

locale go_preorder =
  fixes R :: "'s \<Rightarrow> 's \<Rightarrow> bool"
  assumes R_refl: "R s s"
    and R_trans: "R s t \<Longrightarrow> R t u \<Longrightarrow> R s u"
begin

lemma rel_pure:
  "go_rel R (gret x)" "go_rel R (gfail e)" "go_rel R (gpanic p)" "go_rel R gdeadlock"
  "go_rel R gfuel" "go_rel R (gread f)"
  by (simp_all add: go_rel_def go_run R_refl)

lemma rel_bind:
  assumes m: "go_rel R m" and k: "\<And>x. go_rel R (k x)"
  shows "go_rel R (gbind m k)"
  unfolding go_rel_def
proof
  fix s
  obtain r s' where ms: "m s = (r, s')" by (cases "m s")
  with m have "R s s'" by (rule go_relD)
  then show "R s (snd (gbind m k s))"
    using go_rel_snd [OF k] by (cases r) (auto simp: gbind_def ms intro: R_trans)
qed

lemma rel_seq: "go_rel R m \<Longrightarrow> go_rel R k \<Longrightarrow> go_rel R (gseq m k)"
  unfolding gseq_def by (rule rel_bind)

lemma rel_wrap: "go_rel R m \<Longrightarrow> go_rel R (gwrap c m)"
  by (auto simp: go_rel_def gwrap_def split: prod.split) (metis snd_conv)

lemma rel_try: "go_rel R m \<Longrightarrow> go_rel R (gtry m)"
  by (auto simp: go_rel_def gtry_def split: prod.split) (metis snd_conv)

lemma rel_ignore: "go_rel R m \<Longrightarrow> go_rel R (gignore m)"
  unfolding gignore_def by (intro rel_bind rel_try rel_pure)

lemma rel_finally:
  assumes m: "go_rel R m" and c: "go_rel R c"
  shows "go_rel R (gfinally m c)"
  unfolding go_rel_def
proof
  fix s
  obtain r s' where ms: "m s = (r, s')" by (cases "m s")
  with m have "R s s'" by (rule go_relD)
  then show "R s (snd (gfinally m c s))"
    using go_rel_snd [OF c] by (cases r) (auto simp: gfinally_def ms intro: R_trans)
qed

lemma rel_unless:
  assumes m: "go_rel R m" and c: "go_rel R c"
  shows "go_rel R (gunless m c)"
  unfolding go_rel_def
proof
  fix s
  obtain r s' where ms: "m s = (r, s')" by (cases "m s")
  with m have "R s s'" by (rule go_relD)
  then show "R s (snd (gunless m c s))"
    using go_rel_snd [OF c] by (cases r) (auto simp: gunless_def ms intro: R_trans)
qed

lemma rel_foreach: "(\<And>x. go_rel R (f x)) \<Longrightarrow> go_rel R (gforeach f xs)"
  by (induction xs) (auto intro: rel_pure rel_seq)

lemma rel_fold: "(\<And>x b. go_rel R (f x b)) \<Longrightarrow> go_rel R (gfold f xs b)"
  by (induction xs arbitrary: b) (auto intro: rel_pure rel_bind)

lemma rel_if: "go_rel R a \<Longrightarrow> go_rel R b \<Longrightarrow> go_rel R (if c then a else b)"
  by simp

lemma rel_option: "go_rel R a \<Longrightarrow> (\<And>x. go_rel R (f x)) \<Longrightarrow> go_rel R (case_option a f x)"
  by (cases x) auto

lemma rel_sum: "(\<And>x. go_rel R (f x)) \<Longrightarrow> (\<And>x. go_rel R (g x)) \<Longrightarrow> go_rel R (case_sum f g x)"
  by (cases x) auto

lemma rel_prod: "(\<And>x y. go_rel R (f x y)) \<Longrightarrow> go_rel R (case_prod f p)"
  by (cases p) auto

lemma rel_list: "go_rel R a \<Longrightarrow> (\<And>x xs. go_rel R (f x xs)) \<Longrightarrow> go_rel R (case_list a f x)"
  by (cases x) auto

lemma rel_let: "go_rel R (f x) \<Longrightarrow> go_rel R (Let x f)"
  by simp

lemmas rel_control = rel_pure rel_bind rel_seq rel_wrap rel_try rel_ignore rel_finally rel_unless
  rel_foreach rel_fold rel_if rel_option rel_sum rel_prod rel_list rel_let

lemma ok_pure:
  "go_ok R (gret x)" "go_ok R (gfail e)" "go_ok R (gpanic p)" "go_ok R gdeadlock" "go_ok R (gread f)"
  by (simp_all add: go_ok_def rel_pure settles_pure)

lemma ok_bind: "go_ok R m \<Longrightarrow> (\<And>x. go_ok R (k x)) \<Longrightarrow> go_ok R (gbind m k)"
  by (simp add: go_ok_def rel_bind settles_bind)

lemma ok_seq: "go_ok R m \<Longrightarrow> go_ok R k \<Longrightarrow> go_ok R (gseq m k)"
  by (simp add: go_ok_def rel_seq settles_seq)

lemma ok_wrap: "go_ok R m \<Longrightarrow> go_ok R (gwrap c m)"
  by (simp add: go_ok_def rel_wrap settles_wrap)

lemma ok_try: "go_ok R m \<Longrightarrow> go_ok R (gtry m)"
  by (simp add: go_ok_def rel_try settles_try)

lemma ok_ignore: "go_ok R m \<Longrightarrow> go_ok R (gignore m)"
  by (simp add: go_ok_def rel_ignore settles_ignore)

lemma ok_finally: "go_ok R m \<Longrightarrow> go_ok R c \<Longrightarrow> go_ok R (gfinally m c)"
  by (simp add: go_ok_def rel_finally settles_finally)

lemma ok_unless: "go_ok R m \<Longrightarrow> go_ok R c \<Longrightarrow> go_ok R (gunless m c)"
  by (simp add: go_ok_def rel_unless settles_unless)

lemma ok_foreach: "(\<And>x. go_ok R (f x)) \<Longrightarrow> go_ok R (gforeach f xs)"
  by (simp add: go_ok_def rel_foreach settles_foreach)

lemma ok_if: "go_ok R a \<Longrightarrow> go_ok R b \<Longrightarrow> go_ok R (if c then a else b)"
  by simp

lemma ok_option: "go_ok R a \<Longrightarrow> (\<And>x. go_ok R (f x)) \<Longrightarrow> go_ok R (case_option a f x)"
  by (cases x) auto

lemma ok_sum: "(\<And>x. go_ok R (f x)) \<Longrightarrow> (\<And>x. go_ok R (g x)) \<Longrightarrow> go_ok R (case_sum f g x)"
  by (cases x) auto

lemma ok_prod: "(\<And>x y. go_ok R (f x y)) \<Longrightarrow> go_ok R (case_prod f p)"
  by (cases p) auto

lemma ok_let: "go_ok R (f x) \<Longrightarrow> go_ok R (Let x f)"
  by simp

lemmas ok_control = ok_pure ok_bind ok_seq ok_wrap ok_try ok_ignore ok_finally ok_unless ok_foreach
  ok_if ok_option ok_sum ok_prod ok_let

end

section \<open>Maps as association lists\<close>

lemma map_of_update [simp]: "map_of (AList.update k v al) = (map_of al)(k \<mapsto> v)"
  by (rule update_conv')

lemma map_of_delete [simp]: "map_of (AList.delete k al) = (map_of al)(k := None)"
  by (rule delete_conv')

lemma distinct_keys_update [simp]:
  "distinct (map fst al) \<Longrightarrow> distinct (map fst (AList.update k v al))"
  by (rule distinct_update)

lemma distinct_keys_delete [simp]:
  "distinct (map fst al) \<Longrightarrow> distinct (map fst (AList.delete k al))"
  by (rule distinct_delete)

lemma distinct_keys_filter: "distinct (map fst al) \<Longrightarrow> distinct (map fst (filter P al))"
  by (induction al) auto

lemma set_update_subset: "set (AList.update k v al) \<subseteq> insert (k, v) (set al)"
  by (induction al) auto

lemma in_set_map_of: "distinct (map fst al) \<Longrightarrow> (k, v) \<in> set al \<longleftrightarrow> map_of al k = Some v"
  by (simp add: map_of_eq_Some_iff)

text \<open>Removing the first occurrence, as the \<open>append(xs[:i], xs[i+1:]...)\<close> loops do.\<close>

lemma set_remove1_distinct: "distinct xs \<Longrightarrow> set (remove1 x xs) = set xs - {x}"
  by simp

lemma find_unique: "x \<in> set xs \<Longrightarrow> P x \<Longrightarrow> \<forall>y \<in> set xs. P y \<longrightarrow> y = x \<Longrightarrow> find P xs = Some x"
proof (induction xs)
  case (Cons z zs)
  show ?case
  proof (cases "P z")
    case True
    with Cons.prems(3) have "z = x" by (meson list.set_intros(1))
    with True show ?thesis by simp
  next
    case False
    with Cons.prems(1,2) have "x \<in> set zs" by (metis set_ConsD)
    from Cons.IH [OF this Cons.prems(2)] Cons.prems(3) have "find P zs = Some x" by (meson list.set_intros(2))
    with False show ?thesis by simp
  qed
qed simp

section \<open>Decimal printing\<close>

definition digit :: "nat \<Rightarrow> char" where
  "digit n = char_of (48 + n)"

fun ndigits :: "nat \<Rightarrow> string" where
  "ndigits n = (if n < 10 then [digit n] else ndigits (n div 10) @ [digit (n mod 10)])"

declare ndigits.simps [simp del]

definition itoa :: "int \<Rightarrow> string" where
  "itoa i = (if i < 0 then CHR ''-'' # ndigits (nat (- i)) else ndigits (nat i))"

definition undigits :: "string \<Rightarrow> nat" where
  "undigits s = foldl (\<lambda>a c. 10 * a + (of_char c - 48)) 0 s"

lemma of_char_digit: "n < 10 \<Longrightarrow> (of_char (digit n) :: nat) = 48 + n"
  by (simp add: digit_def)

lemma undigits_ndigits: "undigits (ndigits n) = n"
proof (induction n rule: ndigits.induct)
  case (1 n)
  show ?case
  proof (cases "n < 10")
    case True
    then show ?thesis by (simp add: ndigits.simps [of n] undigits_def of_char_digit)
  next
    case False
    with 1 have "undigits (ndigits (n div 10)) = n div 10" by simp
    with False show ?thesis
      by (simp add: ndigits.simps [of n] undigits_def of_char_digit)
  qed
qed

lemma ndigits_inject [simp]: "ndigits m = ndigits n \<longleftrightarrow> m = n"
  by (metis undigits_ndigits)

lemma ndigits_chars: "c \<in> set (ndigits n) \<Longrightarrow> \<exists>d < 10. c = digit d"
proof (induction n rule: ndigits.induct)
  case (1 n)
  show ?case
  proof (cases "n < 10")
    case True
    with 1 show ?thesis by (auto simp: ndigits.simps [of n])
  next
    case False
    with "1.prems" have "c \<in> set (ndigits (n div 10)) \<or> c = digit (n mod 10)"
      by (auto simp: ndigits.simps [of n])
    with 1(1) [OF False] show ?thesis by (auto intro: exI [of _ "n mod 10"])
  qed
qed

lemma digit_less_colon: "d < 10 \<Longrightarrow> digit d \<noteq> c \<or> (48 \<le> (of_char c :: nat) \<and> (of_char c :: nat) < 58)"
  by (auto simp: of_char_digit)

lemma not_in_ndigits: "\<not> (48 \<le> (of_char c :: nat) \<and> (of_char c :: nat) < 58) \<Longrightarrow> c \<notin> set (ndigits n)"
  using ndigits_chars digit_less_colon by blast

lemma itoa_inject [simp]: "itoa i = itoa j \<longleftrightarrow> i = j"
proof -
  have m: "CHR ''-'' \<notin> set (ndigits n)" for n by (rule not_in_ndigits) simp
  have "CHR ''-'' # xs \<noteq> ndigits n" for xs n using m [of n] by (metis list.set_intros(1))
  then show ?thesis by (auto simp: itoa_def) (metis)+
qed

lemma not_in_itoa:
  assumes "\<not> (48 \<le> (of_char c :: nat) \<and> (of_char c :: nat) < 58)" and "c \<noteq> CHR ''-''"
  shows "c \<notin> set (itoa i)"
  using assms not_in_ndigits [OF assms(1)] by (simp add: itoa_def)

text \<open>A separator that occurs in neither left part splits uniquely.\<close>

lemma append_sep_inject:
  assumes "c \<notin> set xs" "c \<notin> set ys" "xs @ c # us = ys @ c # vs"
  shows "xs = ys \<and> us = vs"
  using assms
proof (induction xs arbitrary: ys)
  case Nil
  then show ?case by (cases ys) auto
next
  case (Cons x xs)
  then show ?case by (cases ys) auto
qed

section \<open>Quoting\<close>

text \<open>
  \<open>%q\<close> escapes the quote, the backslash and the control characters; bytes from 128 on are taken as parts of
  printable characters.
\<close>

definition hexDigit :: "nat \<Rightarrow> char" where
  "hexDigit n = (if n < 10 then char_of (48 + n) else char_of (87 + n))"

definition quoteChar :: "char \<Rightarrow> string" where
  "quoteChar c = (let n = of_char c :: nat in
     if n = 34 \<or> n = 92 then [CHR 92, c]
     else if 7 \<le> n \<and> n \<le> 13 then [CHR 92, ''abtnvfr'' ! (n - 7)]
     else if n < 32 \<or> n = 127 then [CHR 92, CHR ''x'', hexDigit (n div 16), hexDigit (n mod 16)]
     else [c])"

definition goQuote :: "string \<Rightarrow> string" where
  "goQuote s = CHR 34 # concat (map quoteChar s) @ [CHR 34]"

section \<open>64-bit integers\<close>

text \<open>Two's complement wrap-around of Go's \<open>int64\<close> arithmetic.\<close>

definition wrap64 :: "int \<Rightarrow> int" where
  "wrap64 x = (x + 2 ^ 63) mod 2 ^ 64 - 2 ^ 63"

lemma wrap64_range: "- (2 ^ 63) \<le> wrap64 x" "wrap64 x < 2 ^ 63"
  by (simp_all add: wrap64_def)

lemma wrap64_id: "- (2 ^ 63) \<le> x \<Longrightarrow> x < 2 ^ 63 \<Longrightarrow> wrap64 x = x"
  by (simp add: wrap64_def)

end
