(* ===== verification/Models.thy ===== *)
theory Models
  imports Floxy_Prelude
begin

text \<open>
  The data of \<open>models.go\<close>: statuses and kinds as datatypes with the source's constants as
  constructors, structs as records. Go's string types are open, so a kind that the code also
  meets outside its constants has a further constructor: an unknown step type or join strategy
  (\<open>JoinStrategyOther ''''\<close> is the unset strategy), a human decision that is neither constant,
  and the empty step status such a decision leads to.

  Times and durations are integers (nanoseconds). A JSON text (\<open>json.RawMessage\<close>) is absent, a
  valid document, represented by its value, or bytes that are no JSON document.
\<close>

section \<open>Kinds and statuses\<close>

definition PriorityLow :: int where "PriorityLow = 0"
definition PriorityLower :: int where "PriorityLower = 25"
definition PriorityNormal :: int where "PriorityNormal = 50"
definition PriorityHigher :: int where "PriorityHigher = 75"
definition PriorityHigh :: int where "PriorityHigh = 100"

lemmas priority_defs =
  PriorityLow_def PriorityLower_def PriorityNormal_def PriorityHigher_def PriorityHigh_def

datatype WorkflowStatus =
    StatusPending | StatusRunning | StatusCompleted | StatusFailed | StatusRollingBack
  | StatusCancelling | StatusCancelled | StatusAborted | StatusDLQ

datatype StepStatus =
    StepStatusPending | StepStatusRunning | StepStatusCompleted | StepStatusFailed
  | StepStatusSkipped | StepStatusCompensation | StepStatusRolledBack
  | StepStatusWaitingDecision | StepStatusConfirmed | StepStatusRejected | StepStatusPaused
  | StepStatusEmpty \<comment> \<open>the zero value of the string type\<close>

datatype StepType =
    StepTypeTask | StepTypeParallel | StepTypeCondition | StepTypeFork | StepTypeJoin
  | StepTypeSavePoint | StepTypeHuman | StepTypeOther string

datatype JoinStrategy = JoinStrategyAll | JoinStrategyAny | JoinStrategyOther string

datatype HumanDecision =
    HumanDecisionConfirmed | HumanDecisionRejected | HumanDecisionOther string

datatype CancelType = CancelTypeCancel | CancelTypeAbort

datatype RetryStrategy =
    RetryStrategyFixed | RetryStrategyExponential | RetryStrategyLinear | RetryStrategyOther nat

fun stepTypeStr :: "StepType \<Rightarrow> string" where
  "stepTypeStr StepTypeTask = ''task''"
| "stepTypeStr StepTypeParallel = ''parallel''"
| "stepTypeStr StepTypeCondition = ''condition''"
| "stepTypeStr StepTypeFork = ''fork''"
| "stepTypeStr StepTypeJoin = ''join''"
| "stepTypeStr StepTypeSavePoint = ''save_point''"
| "stepTypeStr StepTypeHuman = ''human''"
| "stepTypeStr (StepTypeOther s) = s"

fun stepStatusStr :: "StepStatus \<Rightarrow> string" where
  "stepStatusStr StepStatusPending = ''pending''"
| "stepStatusStr StepStatusRunning = ''running''"
| "stepStatusStr StepStatusCompleted = ''completed''"
| "stepStatusStr StepStatusFailed = ''failed''"
| "stepStatusStr StepStatusSkipped = ''skipped''"
| "stepStatusStr StepStatusCompensation = ''compensation''"
| "stepStatusStr StepStatusRolledBack = ''rolled_back''"
| "stepStatusStr StepStatusWaitingDecision = ''waiting_decision''"
| "stepStatusStr StepStatusConfirmed = ''confirmed''"
| "stepStatusStr StepStatusRejected = ''rejected''"
| "stepStatusStr StepStatusPaused = ''paused''"
| "stepStatusStr StepStatusEmpty = ''''"

fun workflowStatusStr :: "WorkflowStatus \<Rightarrow> string" where
  "workflowStatusStr StatusPending = ''pending''"
| "workflowStatusStr StatusRunning = ''running''"
| "workflowStatusStr StatusCompleted = ''completed''"
| "workflowStatusStr StatusFailed = ''failed''"
| "workflowStatusStr StatusRollingBack = ''rolling_back''"
| "workflowStatusStr StatusCancelling = ''cancelling''"
| "workflowStatusStr StatusCancelled = ''cancelled''"
| "workflowStatusStr StatusAborted = ''aborted''"
| "workflowStatusStr StatusDLQ = ''dlq''"

fun joinStrategyStr :: "JoinStrategy \<Rightarrow> string" where
  "joinStrategyStr JoinStrategyAll = ''all''"
| "joinStrategyStr JoinStrategyAny = ''any''"
| "joinStrategyStr (JoinStrategyOther s) = s"

fun humanDecisionStr :: "HumanDecision \<Rightarrow> string" where
  "humanDecisionStr HumanDecisionConfirmed = ''confirmed''"
| "humanDecisionStr HumanDecisionRejected = ''rejected''"
| "humanDecisionStr (HumanDecisionOther s) = s"

fun cancelTypeStr :: "CancelType \<Rightarrow> string" where
  "cancelTypeStr CancelTypeCancel = ''cancel''"
| "cancelTypeStr CancelTypeAbort = ''abort''"

section \<open>JSON\<close>

text \<open>
  A JSON value. A number is its literal, a time is the value \<open>encoding/json\<close> prints for a
  \<open>time.Time\<close>, an object is a list of members.
\<close>

datatype jval =
    JNull | JBool bool | JNum string | JStr string | JTime int
  | JList "jval list" | JObj "(string \<times> jval) list"

datatype raw = RawNil | RawJson jval | RawBad string

text \<open>
  \<open>json.Unmarshal (r, &m)\<close> into a fresh \<open>map[string]any\<close>: an object fills the map, \<open>null\<close> leaves
  the map nil without an error (\<open>Some None\<close>), anything else is an error.
\<close>

fun unmarshalMap :: "raw \<Rightarrow> (string \<times> jval) list option option" where
  "unmarshalMap (RawJson (JObj kvs)) = Some (Some kvs)"
| "unmarshalMap (RawJson JNull) = Some None"
| "unmarshalMap _ = None"

text \<open>\<open>json.RawMessage.MarshalJSON\<close>: \<open>nil\<close> is \<open>null\<close>, invalid bytes are an error.\<close>

fun marshalRaw :: "raw \<Rightarrow> jval option" where
  "marshalRaw RawNil = Some JNull"
| "marshalRaw (RawJson v) = Some v"
| "marshalRaw (RawBad s) = None"

definition jnum :: "int \<Rightarrow> jval" where
  "jnum i = JNum (itoa i)"

definition jstrs :: "string list \<Rightarrow> jval" where
  "jstrs xs = JList (map JStr xs)"

section \<open>Structs\<close>

record StepDefinition =
  sd_Name :: string
  sd_Type :: StepType
  sd_Handler :: string
  sd_MaxRetries :: int
  sd_Next :: "string list"
  sd_Prev :: string
  sd_Else :: string
  sd_OnFailure :: string
  sd_Condition :: string
  sd_Parallel :: "string list"
  sd_WaitFor :: "string list"
  sd_JoinStrategy :: JoinStrategy
  sd_Metadata :: "(string \<times> jval) list"
  sd_NoIdempotent :: bool
  sd_Delay :: int
  sd_RetryDelay :: int
  sd_RetryStrategy :: RetryStrategy
  sd_Timeout :: int

text \<open>The zero value of the struct, from which the literals of the builder start.\<close>

definition emptyStepDefinition :: StepDefinition where
  "emptyStepDefinition = \<lparr>sd_Name = '''', sd_Type = StepTypeOther '''', sd_Handler = '''',
     sd_MaxRetries = 0, sd_Next = [], sd_Prev = '''', sd_Else = '''', sd_OnFailure = '''',
     sd_Condition = '''', sd_Parallel = [], sd_WaitFor = [], sd_JoinStrategy = JoinStrategyOther '''',
     sd_Metadata = [], sd_NoIdempotent = False, sd_Delay = 0, sd_RetryDelay = 0,
     sd_RetryStrategy = RetryStrategyFixed, sd_Timeout = 0\<rparr>"

record GraphDefinition =
  gd_Steps :: "(string \<times> StepDefinition) list"
  gd_Start :: string
  gd_DLQEnabled :: bool

record WorkflowDefinition =
  wd_ID :: string
  wd_Name :: string
  wd_Version :: int
  wd_Definition :: GraphDefinition
  wd_CreatedAt :: int

abbreviation stepsOf :: "WorkflowDefinition \<Rightarrow> (string \<times> StepDefinition) list" where
  "stepsOf def \<equiv> gd_Steps (wd_Definition def)"

text \<open>The map lookup \<open>def.Definition.Steps[name]\<close>.\<close>

definition stepDefOf :: "WorkflowDefinition \<Rightarrow> string \<Rightarrow> StepDefinition option" where
  "stepDefOf def = map_of (stepsOf def)"

record WorkflowInstance =
  wi_ID :: int
  wi_WorkflowID :: string
  wi_Status :: WorkflowStatus
  wi_Input :: raw
  wi_Output :: raw
  wi_Error :: "string option"
  wi_StartedAt :: "int option"
  wi_CompletedAt :: "int option"
  wi_CreatedAt :: int
  wi_UpdatedAt :: int

record WorkflowStep =
  ws_ID :: int
  ws_InstanceID :: int
  ws_StepName :: string
  ws_StepType :: StepType
  ws_Status :: StepStatus
  ws_Input :: raw
  ws_Output :: raw
  ws_Error :: "string option"
  ws_RetryCount :: int
  ws_MaxRetries :: int
  ws_CompensationRetryCount :: int
  ws_IdempotencyKey :: string
  ws_StartedAt :: "int option"
  ws_CompletedAt :: "int option"
  ws_CreatedAt :: int

record QueueItem =
  qi_ID :: int
  qi_InstanceID :: int
  qi_StepID :: "int option"
  qi_ScheduledAt :: int
  qi_AttemptedAt :: "int option"
  qi_AttemptedBy :: "string option"
  qi_Priority :: int

record WorkflowEvent =
  ev_ID :: int
  ev_InstanceID :: int
  ev_StepID :: "int option"
  ev_EventType :: string
  ev_Payload :: jval
  ev_CreatedAt :: int

record WorkflowCancelRequest =
  cr_ID :: int
  cr_InstanceID :: int
  cr_RequestedBy :: string
  cr_CancelType :: CancelType
  cr_Reason :: "string option"
  cr_CreatedAt :: int

record HumanDecisionRecord =
  hd_ID :: int
  hd_InstanceID :: int
  hd_StepID :: int
  hd_DecidedBy :: string
  hd_Decision :: HumanDecision
  hd_Comment :: "string option"
  hd_DecidedAt :: int
  hd_CreatedAt :: int

record DeadLetterRecord =
  dl_ID :: int
  dl_InstanceID :: int
  dl_WorkflowID :: string
  dl_StepID :: int
  dl_StepName :: string
  dl_StepType :: string
  dl_Input :: raw
  dl_Error :: "string option"
  dl_Reason :: string
  dl_CreatedAt :: int

record SummaryStats =
  ss_TotalWorkflows :: nat
  ss_CompletedWorkflows :: nat
  ss_FailedWorkflows :: nat
  ss_RunningWorkflows :: nat
  ss_PendingWorkflows :: nat
  ss_ActiveWorkflows :: nat

record ActiveWorkflowInstance =
  aw_ID :: int
  aw_WorkflowID :: string
  aw_WorkflowName :: string
  aw_Status :: string
  aw_StartedAt :: int
  aw_UpdatedAt :: int
  aw_CurrentStep :: string
  aw_TotalSteps :: nat
  aw_CompletedSteps :: nat
  aw_RolledBackSteps :: nat

section \<open>Printed kinds identify the kind\<close>

lemma stepStatusStr_inject [simp]: "stepStatusStr a = stepStatusStr b \<longleftrightarrow> a = b"
  by (cases a; cases b) auto

lemma workflowStatusStr_inject [simp]: "workflowStatusStr a = workflowStatusStr b \<longleftrightarrow> a = b"
  by (cases a; cases b) auto

end
