(* ===== verification/Graph.thy ===== *)
theory Graph
  imports Models
begin

text \<open>
  The questions the engine asks about a workflow graph (the helpers at the end of \<open>engine.go\<close>).
  The loops that climb the \<open>Prev\<close> links with a \<open>visited\<close> map are instances of one function,
  \<open>prevWalk\<close>, which ends because each round visits a new step of the definition.

  Where the source ranges over the map of steps and takes the first hit, the definitions take
  the first hit of the association list, that is, of an arbitrary iteration order.
\<close>

definition rootStepName :: string where
  "rootStepName = ''_root_''"

definition isVirtualStep :: "string \<Rightarrow> bool" where
  "isVirtualStep stepName \<longleftrightarrow> length stepName > 5 \<and> take 5 stepName = ''cond#''"

definition isForkType :: "StepType \<Rightarrow> bool" where
  "isForkType t \<longleftrightarrow> t = StepTypeFork \<or> t = StepTypeParallel"

section \<open>Climbing the \<open>Prev\<close> links\<close>

text \<open>
  One loop \<open>for !stop (current) { if visited[current] { break }; visited[current] = true;
  def, ok := steps[current]; if !ok { break }; ... }\<close>. The body answers (\<open>Inl\<close>) or names the next
  step (\<open>Inr\<close>); \<open>None\<close> is a loop that ended without an answer.
\<close>

function prevWalk ::
    "(string \<times> StepDefinition) list \<Rightarrow> (string \<Rightarrow> bool) \<Rightarrow> (string \<Rightarrow> StepDefinition \<Rightarrow> 'r + string) \<Rightarrow>
     string list \<Rightarrow> string \<Rightarrow> 'r option" where
  "prevWalk steps stop body visited current =
     (if stop current \<or> current \<in> set visited then None
      else case map_of steps current of
        None \<Rightarrow> None
      | Some sd \<Rightarrow>
          (case body current sd of
             Inl r \<Rightarrow> Some r
           | Inr next \<Rightarrow> prevWalk steps stop body (current # visited) next))"
  by pat_completeness auto
termination
proof (relation "measure (\<lambda>(steps, _, _, visited, _). card (set (map fst steps) - set visited))", goal_cases)
  case 1
  then show ?case by simp
next
  case (2 steps stop body visited current sd nxt)
  have "current \<in> set (map fst steps) - set visited"
    using 2(1,2) by (auto dest!: map_of_SomeD intro: rev_image_eqI)
  then have "card (set (map fst steps) - set (current # visited)) < card (set (map fst steps) - set visited)"
    by (intro psubset_card_mono) auto
  then show ?case by simp
qed

declare prevWalk.simps [simp del]

definition atTop :: "string \<Rightarrow> bool" where
  "atTop name \<longleftrightarrow> name = '''' \<or> name = rootStepName"

definition isStepDescendantOf :: "WorkflowDefinition \<Rightarrow> string \<Rightarrow> string \<Rightarrow> bool" where
  "isStepDescendantOf def stepName ancestor \<longleftrightarrow>
     prevWalk (stepsOf def) (\<lambda>n. n = '''')
       (\<lambda>n sd. if n = ancestor then Inl () else Inr (sd_Prev sd)) [] stepName = Some ()"

definition findConditionStepInBranch :: "StepDefinition \<Rightarrow> WorkflowDefinition \<Rightarrow> string" where
  "findConditionStepInBranch stepDef def =
     (case prevWalk (stepsOf def) atTop
        (\<lambda>n sd. if sd_Type sd = StepTypeCondition then Inl n else Inr (sd_Prev sd)) [] (sd_Prev stepDef) of
        None \<Rightarrow> '''' | Some n \<Rightarrow> n)"

text \<open>
  \<open>findNearestSavePoint\<close>: at a step without \<open>Prev\<close> the loop goes on with the definition of the
  first step of the map that has one, keeping the name of the current step.
\<close>

definition findNearestSavePoint :: "string \<Rightarrow> WorkflowDefinition \<Rightarrow> string" where
  "findNearestSavePoint stepName def =
     (case prevWalk (stepsOf def) (\<lambda>n. n = '''')
        (\<lambda>n sd. let sd' = (if sd_Prev sd = '''' then
                     (case find (\<lambda>(m, d). sd_Prev d \<noteq> '''') (stepsOf def) of
                        None \<Rightarrow> sd | Some (m, d) \<Rightarrow> d) else sd)
                in if sd_Type sd' = StepTypeSavePoint then Inl n else Inr (sd_Prev sd')) [] stepName of
        None \<Rightarrow> rootStepName | Some n \<Rightarrow> n)"

section \<open>Forks and branches\<close>

definition findForkOf :: "WorkflowDefinition \<Rightarrow> string \<Rightarrow> string" where
  "findForkOf def stepName =
     (case find (\<lambda>(n, sd). sd_Type sd = StepTypeFork \<and> stepName \<in> set (sd_Parallel sd)) (stepsOf def) of
        None \<Rightarrow> '''' | Some (n, sd) \<Rightarrow> n)"

definition isStepInParallelBranch :: "string \<Rightarrow> StepDefinition \<Rightarrow> WorkflowDefinition \<Rightarrow> bool" where
  "isStepInParallelBranch stepName forkStepDef def \<longleftrightarrow>
     stepName \<in> set (sd_Parallel forkStepDef) \<or>
     list_ex (isStepDescendantOf def stepName) (sd_Parallel forkStepDef)"

text \<open>
  \<open>isTerminalStepInForkBranch\<close>; \<open>forkOf\<close> is \<open>findForkStepForParallelStep\<close> for the instance, which
  looks the definition up again.
\<close>

definition isTerminalStepInForkBranch ::
    "(string \<Rightarrow> string) \<Rightarrow> string \<Rightarrow> WorkflowDefinition \<Rightarrow> bool" where
  "isTerminalStepInForkBranch forkOf stepName def =
     (case stepDefOf def stepName of
        None \<Rightarrow> False
      | Some sd \<Rightarrow>
          if sd_Type sd = StepTypeJoin then False
          else if length (sd_Next sd) > 0 then False
          else if forkOf stepName \<noteq> '''' then True
          else prevWalk (stepsOf def) atTop
                 (\<lambda>n d. if sd_Type d = StepTypeFork then Inl ()
                        else if list_ex (\<lambda>(m, f). sd_Type f = StepTypeFork \<and> n \<in> set (sd_Parallel f)) (stepsOf def)
                        then Inl () else Inr (sd_Prev d)) [] (sd_Prev sd) = Some ())"

definition findJoinStepForForkBranch ::
    "(string \<Rightarrow> string) \<Rightarrow> string \<Rightarrow> WorkflowDefinition \<Rightarrow> string" where
  "findJoinStepForForkBranch forkOf stepName def =
     (let climbed = (case stepDefOf def stepName of
              None \<Rightarrow> ''''
            | Some sd \<Rightarrow>
                (case prevWalk (stepsOf def) atTop
                   (\<lambda>n d. if sd_Type d = StepTypeFork then Inl n
                          else if findForkOf def n \<noteq> '''' then Inl (findForkOf def n)
                          else Inr (sd_Prev d)) [] (sd_Prev sd) of
                   None \<Rightarrow> '''' | Some f \<Rightarrow> f));
          forkStepName = (if forkOf stepName = '''' then climbed else forkOf stepName)
      in if forkStepName = '''' then ''''
         else case stepDefOf def forkStepName of
           None \<Rightarrow> ''''
         | Some fd \<Rightarrow>
             (case find (\<lambda>n. case stepDefOf def n of
                 None \<Rightarrow> False | Some nd \<Rightarrow> sd_Type nd = StepTypeJoin) (sd_Next fd) of
                None \<Rightarrow> '''' | Some n \<Rightarrow> n))"

definition ranStatus :: "StepStatus \<Rightarrow> bool" where
  "ranStatus st \<longleftrightarrow> st \<in> {StepStatusCompleted, StepStatusFailed, StepStatusCompensation}"

datatype branch = BranchNext | BranchElse | BranchNone

definition determineExecutedBranch ::
    "StepDefinition \<Rightarrow> (string \<rightharpoonup> WorkflowStep) \<Rightarrow> branch" where
  "determineExecutedBranch stepDef stepMap =
     (let ran = (\<lambda>n. case stepMap n of None \<Rightarrow> False | Some st \<Rightarrow> ranStatus (ws_Status st))
      in if list_ex ran (sd_Next stepDef) then BranchNext
         else if sd_Else stepDef \<noteq> '''' \<and> ran (sd_Else stepDef) then BranchElse
         else BranchNone)"

end
