(* ===== verification/Validation.thy ===== *)
theory Validation
  imports Graph
begin

text \<open>
  \<open>ValidateWorkflowDefinition\<close> and \<open>detectCycles\<close> of \<open>builder.go\<close>: the checks every definition
  passes before it is stored or started. Errors are values of \<open>verror\<close>, one constructor per
  message. The depth-first search keeps Go's two maps: \<open>visited\<close> as a list, and \<open>recStack\<close> as
  the path from the start step to the current one (the source clears the entry of a step when
  it leaves it).
\<close>

datatype verror =
    StepNameRequired | StepNameRoot | StepNameVirtual
  | UnknownNext string string | UnknownCompensation string string | UnknownElse string string
  | UnknownParallel string string | UnknownWaitFor string string
  | TaskWithoutHandler string | CycleDetected string string

text \<open>The messages.\<close>

fun verrorStr :: "verror \<Rightarrow> string" where
  "verrorStr StepNameRequired = ''step name is required''"
| "verrorStr StepNameRoot = ''step name cannot be _root_''"
| "verrorStr StepNameVirtual = ''step name cannot start with 'cond#'' @ [CHR 39]"
| "verrorStr (UnknownNext s n) = ''step '' @ goQuote s @ '' references unknown step: '' @ goQuote n"
| "verrorStr (UnknownCompensation s n) = ''step '' @ goQuote s @ '' references unknown compensation step: '' @ goQuote n"
| "verrorStr (UnknownElse s n) = ''step '' @ goQuote s @ '' references unknown else step: '' @ goQuote n"
| "verrorStr (UnknownParallel s n) = ''step '' @ goQuote s @ '' references unknown parallel step: '' @ goQuote n"
| "verrorStr (UnknownWaitFor s n) = ''join step '' @ goQuote s @ '' references unknown step in waitFor: '' @ goQuote n"
| "verrorStr (TaskWithoutHandler s) = ''task step '' @ goQuote s @ '' must have a handler''"
| "verrorStr (CycleDetected a b) = ''cycle detected: '' @ a @ '' -> '' @ b"

definition verrorErr :: "WorkflowDefinition \<Rightarrow> verror \<Rightarrow> error" where
  "verrorErr def e = Err (''def '' @ goQuote (wd_Name def) @ '': '' @ verrorStr e)"

section \<open>Cycle detection\<close>

definition outgoing :: "StepDefinition \<Rightarrow> string list" where
  "outgoing sd =
     sd_Next sd @ (if sd_OnFailure sd \<noteq> '''' then [sd_OnFailure sd] else []) @
     (if sd_Else sd \<noteq> '''' then [sd_Else sd] else []) @ sd_Parallel sd @ sd_WaitFor sd"

definition skipTarget :: "(string \<times> StepDefinition) list \<Rightarrow> string \<Rightarrow> bool" where
  "skipTarget steps n \<longleftrightarrow> n = '''' \<or> isVirtualStep n \<or> map_of steps n = None"

text \<open>
  The loop over the targets of the step at the head of \<open>path\<close>. Result: the edge that closes a
  cycle, if any, and the visited steps.
\<close>

function detectTargets ::
    "(string \<times> StepDefinition) list \<Rightarrow> string list \<Rightarrow> string list \<Rightarrow> string list \<Rightarrow>
     (string \<times> string) option \<times> string list" where
  "detectTargets steps path [] visited = (None, visited)"
| "detectTargets steps path (n # ns) visited =
     (if skipTarget steps n then detectTargets steps path ns visited
      else if n \<notin> set visited then
        (case detectTargets steps (n # path) (outgoing (the (map_of steps n))) (n # visited) of
           (Some e, v) \<Rightarrow> (Some e, v)
         | (None, v) \<Rightarrow> detectTargets steps path ns v)
      else if n \<in> set path then (Some (hd path, n), visited)
      else detectTargets steps path ns visited)"
  by pat_completeness auto

lemma detectTargets_grows:
  "detectTargets_dom (steps, path, ns, visited) \<Longrightarrow>
   set visited \<subseteq> set (snd (detectTargets steps path ns visited))"
proof (induction steps path ns visited rule: detectTargets.pinduct)
  case (1 steps path visited)
  then show ?case by (simp add: detectTargets.psimps)
next
  case (2 steps path n ns visited)
  note step = detectTargets.psimps(2) [OF 2(1)]
  show ?case
  proof (cases "skipTarget steps n")
    case True
    with 2(2) show ?thesis by (simp add: step)
  next
    case new: False
    show ?thesis
    proof (cases "n \<in> set visited")
      case True
      with new 2(5) show ?thesis by (auto simp: step)
    next
      case False
      obtain e v where d: "detectTargets steps (n # path) (outgoing (the (map_of steps n))) (n # visited) = (e, v)"
        by fastforce
      from 2(3) [OF new False] have "set visited \<subseteq> set v" by (simp add: d)
      with 2(4) [OF new False d [symmetric]] show ?thesis
        using new False by (cases e) (auto simp: step d)
    qed
  qed
qed

termination detectTargets
proof (relation "inv_image (finite_psubset <*lex*> less_than)
    (\<lambda>(steps, path, ns, visited). (set (map fst steps) - set visited, length ns))", goal_cases)
  case 1
  then show ?case by (auto intro: wf_lex_prod)
next
  case (2 steps path n ns visited)
  then show ?case by simp
next
  case (3 steps path n ns visited)
  have "n \<in> set (map fst steps)" using 3(1) by (auto simp: skipTarget_def dest!: map_of_SomeD intro: rev_image_eqI)
  with 3 show ?case by (auto simp: finite_psubset_def)
next
  case (4 steps path n ns visited e v)
  have "n \<in> set (map fst steps)" using 4(1) by (auto simp: skipTarget_def dest!: map_of_SomeD intro: rev_image_eqI)
  moreover have "set (n # visited) \<subseteq> set v"
    using detectTargets_grows [OF 4(5)] 4(3) by (metis snd_conv)
  ultimately show ?case using 4(2) by (auto simp: finite_psubset_def)
next
  case (5 steps path n ns visited)
  then show ?case by simp
qed

definition detectCycles :: "(string \<times> StepDefinition) list \<Rightarrow> string \<Rightarrow> (string \<times> string) option" where
  "detectCycles steps start =
     (case map_of steps start of
        None \<Rightarrow> None
      | Some sd \<Rightarrow> fst (detectTargets steps [start] (outgoing sd) [start]))"

definition edges :: "(string \<times> StepDefinition) list \<Rightarrow> (string \<times> string) set" where
  "edges steps = {(a, b). \<exists>sd. map_of steps a = Some sd \<and> b \<in> set (outgoing sd) \<and> \<not> skipTarget steps b}"

lemma edges_iff: "(a, b) \<in> edges steps \<longleftrightarrow>
    (\<exists>sd. map_of steps a = Some sd \<and> b \<in> set (outgoing sd) \<and> \<not> skipTarget steps b)"
  by (simp add: edges_def)

text \<open>
  The finished steps (visited, no longer on the path) are closed under edges and carry no cycle.
\<close>

definition finishedOK :: "(string \<times> string) set \<Rightarrow> string set \<Rightarrow> bool" where
  "finishedOK E F \<longleftrightarrow> (\<forall>a b. a \<in> F \<longrightarrow> (a, b) \<in> E \<longrightarrow> b \<in> F) \<and> acyclic (E \<inter> F \<times> F)"

lemma finishedOK_insert:
  assumes ok: "finishedOK E F" and n: "n \<notin> F" and out: "\<And>b. (n, b) \<in> E \<Longrightarrow> b \<in> F"
  shows "finishedOK E (insert n F)"
proof -
  have closed: "\<And>a b. a \<in> F \<Longrightarrow> (a, b) \<in> E \<Longrightarrow> b \<in> F" and acyc: "acyclic (E \<inter> F \<times> F)"
    using ok unfolding finishedOK_def by blast+
  let ?r = "E \<inter> insert n F \<times> insert n F"
  have stay: "y \<in> F \<and> (x \<in> F \<longrightarrow> (x, y) \<in> (E \<inter> F \<times> F)\<^sup>+)" if "(x, y) \<in> ?r\<^sup>+" for x y
    using that
  proof (induction rule: trancl_induct)
    case (base y)
    then show ?case using closed out by blast
  next
    case (step y z)
    then show ?case using closed by (blast intro: trancl_into_trancl)
  qed
  have "acyclic ?r" unfolding acyclic_def using stay acyc unfolding acyclic_def by blast
  then show ?thesis unfolding finishedOK_def using closed out by blast
qed

lemma detectTargets_sound:
  assumes "detectTargets steps path ns vis = (None, v)"
    and "set path \<subseteq> set vis" "finishedOK (edges steps) (set vis - set path)"
  shows "set vis \<subseteq> set v \<and> finishedOK (edges steps) (set v - set path) \<and>
    (\<forall>m \<in> set ns. skipTarget steps m \<or> m \<in> set v - set path)"
  using assms
proof (induction steps path ns vis arbitrary: v rule: detectTargets.induct)
  case (1 steps path vis)
  then show ?case by simp
next
  case (2 steps path n ns vis)
  consider (skip) "skipTarget steps n" | (new) "\<not> skipTarget steps n" "n \<notin> set vis"
    | (old) "\<not> skipTarget steps n" "n \<in> set vis" by blast
  then show ?case
  proof cases
    case skip
    with 2 show ?thesis by simp
  next
    case old
    with 2(5) have "n \<notin> set path" by (auto split: if_splits)
    with old 2(5) have "detectTargets steps path ns vis = (None, v)" by simp
    from 2(4) [OF old(1) _ \<open>n \<notin> set path\<close> this 2(6,7)] old \<open>n \<notin> set path\<close> show ?thesis by auto
  next
    case new
    obtain e w where d: "detectTargets steps (n # path) (outgoing (the (map_of steps n))) (n # vis) = (e, w)"
      by fastforce
    with new 2(5) have e: "e = None" and rest: "detectTargets steps path ns w = (None, v)"
      by (auto split: option.splits)
    have npath: "n \<notin> set path" using new 2(6) by blast
    have "set (n # vis) - set (n # path) = set vis - set path" using new npath by auto
    then have IH: "set (n # vis) \<subseteq> set w" "finishedOK (edges steps) (set w - set (n # path))"
      "\<forall>m \<in> set (outgoing (the (map_of steps n))). skipTarget steps m \<or> m \<in> set w - set (n # path)"
      using 2(2) [OF new d [unfolded e]] 2(6,7) by auto
    have "set w - set path = insert n (set w - set (n # path))" using IH(1) npath by auto
    moreover have "finishedOK (edges steps) (insert n (set w - set (n # path)))"
      using IH(2,3) by (intro finishedOK_insert) (auto simp: edges_iff)
    ultimately have "finishedOK (edges steps) (set w - set path)" by simp
    moreover have "set path \<subseteq> set w" using IH(1) 2(6) by auto
    ultimately have "set w \<subseteq> set v \<and> finishedOK (edges steps) (set v - set path) \<and>
        (\<forall>m \<in> set ns. skipTarget steps m \<or> m \<in> set v - set path)"
      using 2(3) [OF new d [symmetric] e rest] by blast
    then show ?thesis using IH(1) npath by auto
  qed
qed

lemma detectTargets_complete:
  assumes "detectTargets steps path ns vis = (Some e, v)"
    and "path \<noteq> []" "\<And>m. m \<in> set ns \<Longrightarrow> \<not> skipTarget steps m \<Longrightarrow> (hd path, m) \<in> edges steps"
    and "\<And>x. x \<in> set path \<Longrightarrow> (start, x) \<in> (edges steps)\<^sup>* \<and> (x, hd path) \<in> (edges steps)\<^sup>*"
  shows "\<exists>x. (start, x) \<in> (edges steps)\<^sup>* \<and> (x, x) \<in> (edges steps)\<^sup>+"
  using assms
proof (induction steps path ns vis arbitrary: e v rule: detectTargets.induct)
  case (1 steps path vis)
  then show ?case by simp
next
  case (2 steps path n ns vis)
  consider (skip) "skipTarget steps n" | (new) "\<not> skipTarget steps n" "n \<notin> set vis"
    | (loop) "\<not> skipTarget steps n" "n \<in> set vis" "n \<in> set path"
    | (old) "\<not> skipTarget steps n" "n \<in> set vis" "n \<notin> set path" by blast
  then show ?case
  proof cases
    case skip
    with 2 show ?thesis by simp
  next
    case old
    with 2 show ?thesis by simp
  next
    case loop
    then have "(hd path, n) \<in> edges steps" using 2(7) by simp
    with 2(8) [OF loop(3)] show ?thesis by (blast intro: rtrancl_into_trancl1)
  next
    case new
    have e1: "(hd path, n) \<in> edges steps" using 2(7) new by simp
    have hdp: "hd path \<in> set path" using 2(6) by simp
    obtain f w where d: "detectTargets steps (n # path) (outgoing (the (map_of steps n))) (n # vis) = (f, w)"
      by fastforce
    show ?thesis
    proof (cases f)
      case None
      with new d 2(5) have "detectTargets steps path ns w = (Some e, v)" by simp
      from 2(3) [OF new d [symmetric] None this 2(6)] 2(7,8) show ?thesis by simp
    next
      case (Some g)
      have "(hd (n # path), m) \<in> edges steps"
        if "m \<in> set (outgoing (the (map_of steps n)))" "\<not> skipTarget steps m" for m
        using that new(1) by (auto simp: edges_iff skipTarget_def)
      moreover have "(start, x) \<in> (edges steps)\<^sup>* \<and> (x, hd (n # path)) \<in> (edges steps)\<^sup>*"
        if "x \<in> set (n # path)" for x
        using that 2(8) [OF hdp] 2(8) [of x] e1 by (auto intro: rtrancl_into_rtrancl)
      ultimately show ?thesis using 2(2) [OF new d [unfolded Some]] by blast
    qed
  qed
qed

lemma detectCycles_iff:
  "detectCycles steps start = None \<longleftrightarrow>
   (\<forall>x. (start, x) \<in> (edges steps)\<^sup>* \<longrightarrow> (x, x) \<notin> (edges steps)\<^sup>+)"
proof (cases "map_of steps start")
  case None
  then have "\<And>y. (start, y) \<notin> edges steps" by (simp add: edges_iff)
  then have "\<And>x. (start, x) \<in> (edges steps)\<^sup>* \<Longrightarrow> x = start" "\<And>x. (start, x) \<notin> (edges steps)\<^sup>+"
    by (blast elim: converse_rtranclE, blast dest: tranclD)
  with None show ?thesis by (auto simp: detectCycles_def)
next
  case (Some sd)
  obtain e v where d: "detectTargets steps [start] (outgoing sd) [start] = (e, v)" by fastforce
  have dc: "detectCycles steps start = e" using Some d by (simp add: detectCycles_def)
  show ?thesis
  proof (cases e)
    case (Some g)
    have "\<exists>x. (start, x) \<in> (edges steps)\<^sup>* \<and> (x, x) \<in> (edges steps)\<^sup>+"
      using d [unfolded Some] by (rule detectTargets_complete) (auto simp: edges_iff \<open>map_of steps start = Some sd\<close>)
    then show ?thesis using dc Some by auto
  next
    case None
    have "finishedOK (edges steps) {}" by (simp add: finishedOK_def acyclic_def)
    then have ok: "finishedOK (edges steps) (set v - {start})" "\<forall>m \<in> set (outgoing sd). skipTarget steps m \<or> m \<in> set v - {start}"
      using detectTargets_sound [OF d [unfolded None]] by simp_all
    have fin: "finishedOK (edges steps) (insert start (set v - {start}))" (is "finishedOK ?E ?F")
      using ok Some by (intro finishedOK_insert) (auto simp: edges_iff)
    have "x \<in> ?F" if "(start, x) \<in> ?E\<^sup>*" for x
      using that fin by induction (auto simp: finishedOK_def)
    moreover have "(x, x) \<notin> ?E\<^sup>+" if "x \<in> ?F" for x
    proof
      have "y \<in> ?F \<and> (x, y) \<in> (?E \<inter> ?F \<times> ?F)\<^sup>+" if "(x, y) \<in> ?E\<^sup>+" for y
        using that
      proof induction
        case (base y)
        then show ?case using \<open>x \<in> ?F\<close> fin unfolding finishedOK_def by blast
      next
        case (step y z)
        then show ?case using fin unfolding finishedOK_def by (blast intro: trancl_into_trancl)
      qed
      moreover assume "(x, x) \<in> ?E\<^sup>+"
      ultimately show False using fin unfolding finishedOK_def acyclic_def by blast
    qed
    ultimately show ?thesis using dc None by simp
  qed
qed

section \<open>Validation\<close>

definition validateStepName :: "string \<Rightarrow> verror option" where
  "validateStepName name =
     (if name = '''' then Some StepNameRequired
      else if name = rootStepName then Some StepNameRoot
      else if isVirtualStep name then Some StepNameVirtual
      else None)"

definition knownStep :: "WorkflowDefinition \<Rightarrow> string \<Rightarrow> bool" where
  "knownStep def n \<longleftrightarrow> stepDefOf def n \<noteq> None"

text \<open>The first unknown reference of a list, if any.\<close>

definition firstUnknown :: "(string \<Rightarrow> bool) \<Rightarrow> (string \<Rightarrow> verror) \<Rightarrow> string list \<Rightarrow> verror option" where
  "firstUnknown known err ns = map_option err (find (\<lambda>n. \<not> known n) ns)"

fun orElse :: "'a option \<Rightarrow> 'a option \<Rightarrow> 'a option" where
  "orElse (Some x) y = Some x"
| "orElse None y = y"

definition validateStep :: "WorkflowDefinition \<Rightarrow> string \<Rightarrow> StepDefinition \<Rightarrow> verror option" where
  "validateStep def stepName sd =
     (let known = knownStep def; knownOrVirtual = (\<lambda>n. isVirtualStep n \<or> knownStep def n) in
      orElse (validateStepName stepName) (
      orElse (firstUnknown known (UnknownNext stepName) (sd_Next sd)) (
      orElse (if sd_OnFailure sd \<noteq> '''' \<and> \<not> known (sd_OnFailure sd)
              then Some (UnknownCompensation stepName (sd_OnFailure sd)) else None) (
      orElse (if sd_Else sd \<noteq> '''' \<and> \<not> known (sd_Else sd)
              then Some (UnknownElse stepName (sd_Else sd)) else None) (
      orElse (firstUnknown knownOrVirtual (UnknownParallel stepName) (sd_Parallel sd)) (
      orElse (if sd_Type sd = StepTypeJoin
              then firstUnknown knownOrVirtual (UnknownWaitFor stepName) (sd_WaitFor sd) else None) (
      if sd_Type sd = StepTypeTask \<and> sd_Handler sd = ''''
      then Some (TaskWithoutHandler stepName) else None)))))))"

fun firstError :: "('a \<Rightarrow> 'e option) \<Rightarrow> 'a list \<Rightarrow> 'e option" where
  "firstError f [] = None"
| "firstError f (x # xs) = orElse (f x) (firstError f xs)"

definition ValidateWorkflowDefinition :: "WorkflowDefinition \<Rightarrow> verror option" where
  "ValidateWorkflowDefinition def =
     orElse (firstError (\<lambda>(n, sd). validateStep def n sd) (stepsOf def))
       (case detectCycles (stepsOf def) (gd_Start (wd_Definition def)) of
          None \<Rightarrow> None | Some (a, b) \<Rightarrow> Some (CycleDetected a b))"

lemma orElse_None [simp]: "orElse a b = None \<longleftrightarrow> a = None \<and> b = None"
  by (cases a) auto

lemma firstUnknown_None [simp]: "firstUnknown known err ns = None \<longleftrightarrow> (\<forall>n \<in> set ns. known n)"
  by (auto simp: firstUnknown_def find_None_iff)

lemma firstError_None [simp]: "firstError f xs = None \<longleftrightarrow> (\<forall>x \<in> set xs. f x = None)"
  by (induction xs) auto

lemma validateStepName_None: "validateStepName n = None \<longleftrightarrow> n \<noteq> '''' \<and> n \<noteq> rootStepName \<and> \<not> isVirtualStep n"
  by (auto simp: validateStepName_def)

text \<open>What a valid definition is, as a property of the graph.\<close>

definition validStep :: "WorkflowDefinition \<Rightarrow> string \<Rightarrow> StepDefinition \<Rightarrow> bool" where
  "validStep def n sd \<longleftrightarrow>
     n \<noteq> '''' \<and> n \<noteq> rootStepName \<and> \<not> isVirtualStep n \<and>
     (\<forall>m \<in> set (sd_Next sd). knownStep def m) \<and>
     (sd_OnFailure sd = '''' \<or> knownStep def (sd_OnFailure sd)) \<and>
     (sd_Else sd = '''' \<or> knownStep def (sd_Else sd)) \<and>
     (\<forall>m \<in> set (sd_Parallel sd). isVirtualStep m \<or> knownStep def m) \<and>
     (sd_Type sd = StepTypeJoin \<longrightarrow> (\<forall>m \<in> set (sd_WaitFor sd). isVirtualStep m \<or> knownStep def m)) \<and>
     (sd_Type sd = StepTypeTask \<longrightarrow> sd_Handler sd \<noteq> '''')"

definition validDefinition :: "WorkflowDefinition \<Rightarrow> bool" where
  "validDefinition def \<longleftrightarrow>
     (\<forall>(n, sd) \<in> set (stepsOf def). validStep def n sd) \<and>
     (\<forall>x. (gd_Start (wd_Definition def), x) \<in> (edges (stepsOf def))\<^sup>* \<longrightarrow>
          (x, x) \<notin> (edges (stepsOf def))\<^sup>+)"

lemma validateStep_None: "validateStep def n sd = None \<longleftrightarrow> validStep def n sd"
  by (auto simp: validateStep_def validStep_def validateStepName_None Let_def)


end
