(* ===== verification/Plugins.thy ===== *)
theory Plugins
  imports Models
begin

text \<open>
  The plugin manager of \<open>plugins.go\<close>. A plugin is user code: its hooks are functions from the
  arguments the engine passes to the error they return (\<open>None\<close> for \<open>nil\<close>). Only the errors of
  \<open>OnWorkflowStart\<close> and \<open>OnStepStart\<close> reach the engine; those of the other hooks are logged.
\<close>

record plugin =
  pl_Name :: string
  pl_Priority :: int
  pl_OnWorkflowStart :: "WorkflowInstance \<Rightarrow> error option"
  pl_OnWorkflowComplete :: "WorkflowInstance \<Rightarrow> error option"
  pl_OnWorkflowFailed :: "WorkflowInstance \<Rightarrow> error option"
  pl_OnStepStart :: "WorkflowInstance \<Rightarrow> WorkflowStep \<Rightarrow> error option"
  pl_OnStepComplete :: "WorkflowInstance \<Rightarrow> WorkflowStep \<Rightarrow> error option"
  pl_OnStepFailed :: "WorkflowInstance \<Rightarrow> WorkflowStep \<Rightarrow> error \<Rightarrow> error option"
  pl_OnRollbackStepChain :: "int \<Rightarrow> string \<Rightarrow> int \<Rightarrow> error option"

type_synonym PluginManager = "plugin list"

definition NewBasePlugin :: "string \<Rightarrow> int \<Rightarrow> plugin" where
  "NewBasePlugin name priority = \<lparr>pl_Name = name, pl_Priority = priority,
     pl_OnWorkflowStart = (\<lambda>_. None), pl_OnWorkflowComplete = (\<lambda>_. None),
     pl_OnWorkflowFailed = (\<lambda>_. None), pl_OnStepStart = (\<lambda>_ _. None),
     pl_OnStepComplete = (\<lambda>_ _. None), pl_OnStepFailed = (\<lambda>_ _ _. None),
     pl_OnRollbackStepChain = (\<lambda>_ _ _. None)\<rparr>"

definition NewPluginManager :: PluginManager where
  "NewPluginManager = []"

definition RegisterInManager :: "plugin \<Rightarrow> PluginManager \<Rightarrow> PluginManager" where
  "RegisterInManager p pm = sort_key pl_Priority (pm @ [p])"

text \<open>Hooks whose first error stops the loop and is returned with the plugin's name.\<close>

primrec firstHookError :: "(plugin \<Rightarrow> error option) \<Rightarrow> PluginManager \<Rightarrow> error option" where
  "firstHookError hook [] = None"
| "firstHookError hook (p # ps) =
     (case hook p of None \<Rightarrow> firstHookError hook ps
      | Some e \<Rightarrow> Some (Wrap (''plugin '' @ pl_Name p @ '' failed: '') e))"

definition ExecuteWorkflowStart :: "PluginManager \<Rightarrow> WorkflowInstance \<Rightarrow> error option" where
  "ExecuteWorkflowStart pm instance = firstHookError (\<lambda>p. pl_OnWorkflowStart p instance) pm"

definition ExecuteStepStart :: "PluginManager \<Rightarrow> WorkflowInstance \<Rightarrow> WorkflowStep \<Rightarrow> error option" where
  "ExecuteStepStart pm instance step = firstHookError (\<lambda>p. pl_OnStepStart p instance step) pm"

text \<open>
  Hooks whose errors are logged only: the plugins called, in order, with their errors. The manager
  itself returns \<open>nil\<close>.
\<close>

definition hookLog :: "(plugin \<Rightarrow> error option) \<Rightarrow> PluginManager \<Rightarrow> (string \<times> error option) list" where
  "hookLog hook pm = map (\<lambda>p. (pl_Name p, hook p)) pm"

definition ExecuteWorkflowComplete :: "PluginManager \<Rightarrow> WorkflowInstance \<Rightarrow> (string \<times> error option) list" where
  "ExecuteWorkflowComplete pm instance = hookLog (\<lambda>p. pl_OnWorkflowComplete p instance) pm"

definition ExecuteWorkflowFailed :: "PluginManager \<Rightarrow> WorkflowInstance \<Rightarrow> (string \<times> error option) list" where
  "ExecuteWorkflowFailed pm instance = hookLog (\<lambda>p. pl_OnWorkflowFailed p instance) pm"

definition ExecuteStepComplete ::
    "PluginManager \<Rightarrow> WorkflowInstance \<Rightarrow> WorkflowStep \<Rightarrow> (string \<times> error option) list" where
  "ExecuteStepComplete pm instance step = hookLog (\<lambda>p. pl_OnStepComplete p instance step) pm"

definition ExecuteStepFailed ::
    "PluginManager \<Rightarrow> WorkflowInstance \<Rightarrow> WorkflowStep \<Rightarrow> error \<Rightarrow> (string \<times> error option) list" where
  "ExecuteStepFailed pm instance step err = hookLog (\<lambda>p. pl_OnStepFailed p instance step err) pm"

definition ExecuteRollbackStepChain ::
    "PluginManager \<Rightarrow> int \<Rightarrow> string \<Rightarrow> int \<Rightarrow> (string \<times> error option) list" where
  "ExecuteRollbackStepChain pm instanceID stepName depth =
     hookLog (\<lambda>p. pl_OnRollbackStepChain p instanceID stepName depth) pm"

section \<open>Execution order\<close>

lemma set_RegisterInManager: "set (RegisterInManager p pm) = insert p (set pm)"
  by (simp add: RegisterInManager_def)

lemma firstHookError_None: "firstHookError hook pm = None \<longleftrightarrow> (\<forall>p \<in> set pm. hook p = None)"
  by (induction pm) (auto split: option.split)

lemma firstHookError_first:
  assumes "sorted (map pl_Priority pm)" "firstHookError hook pm = Some e"
  shows "\<exists>p \<in> set pm. hook p \<noteq> None \<and> e = Wrap (''plugin '' @ pl_Name p @ '' failed: '') (the (hook p)) \<and>
    (\<forall>q \<in> set pm. hook q \<noteq> None \<longrightarrow> pl_Priority p \<le> pl_Priority q)"
  using assms
proof (induction pm)
  case Nil
  then show ?case by simp
next
  case (Cons p pm)
  show ?case
  proof (cases "hook p")
    case None
    with Cons show ?thesis by auto
  next
    case (Some err)
    with Cons.prems show ?thesis by (intro bexI [of _ p]) auto
  qed
qed

text \<open>
  The order of hooks. Whatever the order of registration, the manager runs the hooks by
  ascending priority: when some plugin refuses the start of a workflow, the error returned is
  that of a refusing plugin of least priority.
\<close>

theorem plugin_order:
  assumes "pm = fold RegisterInManager ps NewPluginManager"
    and "ExecuteWorkflowStart pm instance = Some e"
  shows "\<exists>p \<in> set ps. pl_OnWorkflowStart p instance \<noteq> None \<and>
    e = Wrap (''plugin '' @ pl_Name p @ '' failed: '') (the (pl_OnWorkflowStart p instance)) \<and>
    (\<forall>q \<in> set ps. pl_OnWorkflowStart q instance \<noteq> None \<longrightarrow> pl_Priority p \<le> pl_Priority q)"
proof -
  have *: "sorted (map pl_Priority (fold RegisterInManager ps pm0)) \<and>
      set (fold RegisterInManager ps pm0) = set ps \<union> set pm0"
    if "sorted (map pl_Priority pm0)" for pm0
    using that
  proof (induction ps arbitrary: pm0)
    case Nil
    then show ?case by simp
  next
    case (Cons p ps)
    have "sorted (map pl_Priority (RegisterInManager p pm0))" by (simp add: RegisterInManager_def)
    from Cons.IH [OF this] show ?case by (auto simp: set_RegisterInManager)
  qed
  have "sorted (map pl_Priority pm)" "set pm = set ps"
    using * [of NewPluginManager] assms(1) by (simp_all add: NewPluginManager_def)
  with firstHookError_first [of pm "\<lambda>p. pl_OnWorkflowStart p instance" e] assms(2)
  show ?thesis by (simp add: ExecuteWorkflowStart_def)
qed

definition refusing :: "string \<Rightarrow> int \<Rightarrow> plugin" where
  "refusing n p = (NewBasePlugin n p)\<lparr>pl_OnWorkflowStart := (\<lambda>_. Some (Err n))\<rparr>"

definition anInstance :: WorkflowInstance where
  "anInstance = \<lparr>wi_ID = 1, wi_WorkflowID = ''w'', wi_Status = StatusPending, wi_Input = RawNil,
     wi_Output = RawNil, wi_Error = None, wi_StartedAt = None, wi_CompletedAt = None,
     wi_CreatedAt = 0, wi_UpdatedAt = 0\<rparr>"

theorem plugin_order_witness:
  "\<exists>p \<in> set [refusing ''high'' 100, refusing ''low'' 0]. pl_OnWorkflowStart p anInstance \<noteq> None \<and>
     Wrap ''plugin low failed: '' (Err ''low'') =
       Wrap (''plugin '' @ pl_Name p @ '' failed: '') (the (pl_OnWorkflowStart p anInstance)) \<and>
     (\<forall>q \<in> set [refusing ''high'' 100, refusing ''low'' 0].
        pl_OnWorkflowStart q anInstance \<noteq> None \<longrightarrow> pl_Priority p \<le> pl_Priority q)"
  by (rule plugin_order [OF refl])
    (simp add: RegisterInManager_def NewPluginManager_def ExecuteWorkflowStart_def refusing_def
      NewBasePlugin_def)

end
