(* ===== verification/Retry.thy ===== *)
theory Retry
  imports Models
begin

text \<open>
  \<open>CalculateRetryDelay\<close> of \<open>helpers.go\<close>. The exponential branch computes in \<open>float64\<close>:
  the base delay is rounded to a 53-bit significand (\<open>round53\<close>, round half to even), the product
  with a power of two is exact, and the conversion back to \<open>int64\<close> truncates. Go leaves the
  conversion of a value outside \<open>int64\<close> to the implementation; it is the parameter \<open>conv\<close>.
  The linear branch multiplies \<open>int64\<close> values and wraps around.
\<close>

function excess53 :: "nat \<Rightarrow> nat" where
  "excess53 n = (if n < 2 ^ 53 then 0 else Suc (excess53 (n div 2)))"
  by pat_completeness auto
termination
  by (relation "measure id") auto

declare excess53.simps [simp del]

definition round53 :: "int \<Rightarrow> int" where
  "round53 x =
     (let n = nat \<bar>x\<bar>; k = excess53 n; q = n div 2 ^ k; r = n mod 2 ^ k;
          up = 2 * r > 2 ^ k \<or> (2 * r = 2 ^ k \<and> odd q)
      in sgn x * int ((if k \<noteq> 0 \<and> up then q + 1 else q) * 2 ^ k))"

definition floatToInt64 :: "(int \<Rightarrow> int) \<Rightarrow> int \<Rightarrow> int" where
  "floatToInt64 conv v = (if - (2 ^ 63) \<le> v \<and> v < 2 ^ 63 then v else conv v)"

definition CalculateRetryDelay :: "(int \<Rightarrow> int) \<Rightarrow> RetryStrategy \<Rightarrow> int \<Rightarrow> int \<Rightarrow> int" where
  "CalculateRetryDelay conv strategy baseDelay retryAttempt =
     (case strategy of
        RetryStrategyExponential \<Rightarrow>
          floatToInt64 conv
            (if 0 \<le> retryAttempt then round53 baseDelay * 2 ^ nat retryAttempt
             else sgn baseDelay * (\<bar>round53 baseDelay\<bar> div 2 ^ nat (- retryAttempt)))
      | RetryStrategyLinear \<Rightarrow> wrap64 (baseDelay * retryAttempt)
      | RetryStrategyFixed \<Rightarrow> baseDelay
      | RetryStrategyOther _ \<Rightarrow> baseDelay)"

lemma excess53_small: "n < 2 ^ 53 \<Longrightarrow> excess53 n = 0"
  by (simp add: excess53.simps [of n])

lemma round53_small: "\<bar>x\<bar> < 2 ^ 53 \<Longrightarrow> round53 x = x"
proof -
  assume "\<bar>x\<bar> < 2 ^ 53"
  then have "nat \<bar>x\<bar> < 2 ^ 53" by simp
  then show ?thesis by (simp add: round53_def excess53_small sgn_mult_abs)
qed

lemma CalculateRetryDelay_exponential_small:
  assumes "\<bar>b\<bar> < 2 ^ 53" "0 \<le> a" "\<bar>b * 2 ^ nat a\<bar> < 2 ^ 63"
  shows "CalculateRetryDelay conv RetryStrategyExponential b a = b * 2 ^ nat a"
proof -
  have "- (2 ^ 63) \<le> b * 2 ^ nat a \<and> b * 2 ^ nat a < 2 ^ 63" using assms(3) by linarith
  with assms show ?thesis by (simp add: CalculateRetryDelay_def floatToInt64_def round53_small)
qed



end
