(* ===== verification/Environment.thy ===== *)
theory Environment
  imports Models Complex_Main
begin

text \<open>
  What the program takes from outside: the clock, random identifiers and numbers, the template
  engine behind condition expressions, the platform's conversion of large floats, the calls that
  other goroutines make while a handler runs, and the handlers themselves. Every reading is
  numbered, so an environment can answer each one differently; no theorem assumes more about it
  than it states.

  The second part is \<open>execution_context.go\<close> and \<open>step_handler.go\<close>: the context a handler gets and
  the wrapper that turns a panic of a handler into an error.
\<close>

section \<open>Environment\<close>

text \<open>Calls of other goroutines that matter to a running step: requests and the cancel worker's tick.\<close>

datatype apicall =
    ApiCancel int string string   \<comment> \<open>\<open>CancelWorkflow (instanceID, requestedBy, reason)\<close>\<close>
  | ApiAbort int string string    \<comment> \<open>\<open>AbortWorkflow\<close>\<close>
  | ApiCancelTick                 \<comment> \<open>one round of \<open>cancelRequestsWorker\<close>\<close>

record env =
  clk :: "nat \<Rightarrow> int"                  \<comment> \<open>readings of \<open>time.Now\<close>\<close>
  uuid :: "nat \<Rightarrow> string"              \<comment> \<open>results of \<open>uuid.NewString\<close>\<close>
  rnd :: "nat \<Rightarrow> rat"                  \<comment> \<open>results of \<open>rand.Float64\<close>, in \<open>[0, 1)\<close>\<close>
  conv64 :: "int \<Rightarrow> int"               \<comment> \<open>float to \<open>int64\<close> conversion out of range\<close>
  tplParse :: "string \<Rightarrow> error option"   \<comment> \<open>\<open>template.Parse\<close> of a condition: its error, if any\<close>
  tplExecute :: "string \<Rightarrow> (string \<times> jval) list \<Rightarrow> error + string"
                                       \<comment> \<open>\<open>Execute\<close> of the parsed condition on the data\<close>
  during :: "nat \<Rightarrow> apicall list"      \<comment> \<open>calls made while the n-th handler call runs\<close>

text \<open>
  A concrete environment for examples: the clock advances by one second per reading, templates
  render to \<open>true\<close>, nobody calls in while a handler runs.
\<close>

definition env0 :: env where
  "env0 = \<lparr>clk = (\<lambda>n. int n * 1000000000), uuid = (\<lambda>n. ''key-'' @ itoa (int n)), rnd = (\<lambda>_. 1 / 2),
     conv64 = (\<lambda>_. 0), tplParse = (\<lambda>_. None), tplExecute = (\<lambda>_ _. Inr ''true''), during = (\<lambda>_. [])\<rparr>"

section \<open>Step context and handlers\<close>

record executionContext =
  ec_instanceID :: int
  ec_stepName :: string
  ec_idempotencyKey :: string
  ec_retryCount :: int
  ec_variables :: "(string \<times> jval) list"

definition CloneData :: "executionContext \<Rightarrow> (string \<times> jval) list" where
  "CloneData c = foldr (\<lambda>(k, v) m. AList.update k v m) (ec_variables c) []"

definition GetVariable :: "executionContext \<Rightarrow> string \<Rightarrow> jval option" where
  "GetVariable c key = map_of (ec_variables c) key"

datatype hres = HOk raw | HErr error | HPanic string

text \<open>
  A handler: its answer to the n-th handler call of the engine, given the context and the input.
  Handlers are user code; the number lets the same handler answer differently each time.
\<close>

record handler =
  hn_Name :: string
  hn_Execute :: "nat \<Rightarrow> executionContext \<Rightarrow> raw \<Rightarrow> hres"

text \<open>\<open>noPanicStepHandler.Execute\<close>: a panic of the wrapped handler is an error (without the stack trace).\<close>

definition noPanicExecute :: "handler \<Rightarrow> nat \<Rightarrow> executionContext \<Rightarrow> raw \<Rightarrow> error + raw" where
  "noPanicExecute h n ctx input =
     (case hn_Execute h n ctx input of
        HOk out \<Rightarrow> Inr out
      | HErr e \<Rightarrow> Inl e
      | HPanic p \<Rightarrow> Inl (Err (''panic in handler '' @ goQuote (hn_Name h) @ '': '' @ p)))"

lemma map_of_CloneData: "map_of (CloneData c) = map_of (ec_variables c)"
proof -
  have "map_of (foldr (\<lambda>(k, v) m. AList.update k v m) xs []) = map_of xs"
    for xs :: "(string \<times> jval) list"
    by (induction xs) auto
  then show ?thesis by (simp add: CloneData_def)
qed

section \<open>Conditions\<close>

text \<open>
  \<open>evaluateCondition\<close> of \<open>evaluate_condition.go\<close> on top of the template engine. The cache of parsed
  templates does not change the answer: a cached template is the parse of the same text.
\<close>

definition isSpace :: "char \<Rightarrow> bool" where
  "isSpace c \<longleftrightarrow> c = CHR '' '' \<or> c \<in> {CHR 9, CHR 10, CHR 11, CHR 12, CHR 13}"

definition TrimSpace :: "string \<Rightarrow> string" where
  "TrimSpace s = rev (dropWhile isSpace (rev (dropWhile isSpace s)))"

definition ParseBool :: "string \<Rightarrow> bool option" where
  "ParseBool s =
     (if s \<in> {''1'', ''t'', ''T'', ''true'', ''TRUE'', ''True''} then Some True
      else if s \<in> {''0'', ''f'', ''F'', ''false'', ''FALSE'', ''False''} then Some False
      else None)"

definition evaluateCondition :: "env \<Rightarrow> string \<Rightarrow> executionContext \<Rightarrow> error + bool" where
  "evaluateCondition E expr stepCtx =
     (case tplParse E expr of
        Some err \<Rightarrow> Inl (Wrap ''parse condition: '' err)
      | None \<Rightarrow>
          (case tplExecute E expr (CloneData stepCtx) of
             Inl err \<Rightarrow> Inl (Wrap ''execute condition: '' err)
           | Inr buf \<Rightarrow>
               (let result = TrimSpace buf in
                if result = ''true'' then Inr True
                else if result = ''false'' then Inr False
                else case ParseBool result of
                  Some b \<Rightarrow> Inr b
                | None \<Rightarrow> Inl (Err (''invalid condition output: '' @ goQuote result)))))"

end
