(* ===== verification/MemoryStore.thy ===== *)
theory MemoryStore
  imports Environment
begin

text \<open>
  The in-memory implementation of the \<open>Store\<close> interface (\<open>memory_store.go\<close>), operation by
  operation. Every operation holds the store's mutex from start to end, so it is one transition
  of the state.

  \<^item> What the operations read from their surroundings (clock, random identifiers) comes from an
    \<open>env\<close>; the store counts its readings (\<open>ms_cursor\<close>), so two readings may differ and nothing
    is assumed about them.
  \<^item> Go keeps pointers to the registered definitions. \<open>ms_definitions\<close> gives the address of the
    object registered under an identifier and \<open>ms_defheap\<close> the object. The slice \<open>WaitingFor\<close> of a
    join state may be the very slice of a step definition (\<open>executeFork\<close> passes it on without a
    copy), so \<open>js_WaitingFor\<close> is a reference (\<open>wref\<close>): its own list, or the \<open>WaitFor\<close> or \<open>Parallel\<close>
    field of a step of the object at an address. Writing an element through such a
    reference changes the definition; appending makes the slice the join state's own (the spare
    capacity a Go slice may have is not represented).
  \<^item> The step, instance and queue tables hold the objects by value; operations that return a
    pointer to a live object return its current value, and the engine model says where it
    depends on later changes.
  \<^item> \<open>sort.Slice\<close> is a stable sort here, which it is for slices of up to twelve elements.
\<close>

datatype wref = WOwn "string list" | WDef nat string | WPar nat string

record JoinState =
  js_InstanceID :: int
  js_JoinStepName :: string
  js_WaitingFor :: wref
  js_Completed :: "string list"
  js_Failed :: "string list"
  js_JoinStrategy :: JoinStrategy
  js_IsReady :: bool
  js_CreatedAt :: int
  js_UpdatedAt :: int

record MemoryStore =
  ms_definitions :: "(string \<times> nat) list"
  ms_defheap :: "(nat \<times> WorkflowDefinition) list"
  ms_instances :: "(int \<times> WorkflowInstance) list"
  ms_steps :: "(int \<times> WorkflowStep) list"
  ms_stepsByInstance :: "(int \<times> int list) list"
  ms_queue :: "(int \<times> QueueItem) list"
  ms_events :: "WorkflowEvent list"
  ms_eventsByInstance :: "(int \<times> int list) list"
  ms_joinStates :: "(string \<times> JoinState) list"
  ms_cancelRequests :: "(int \<times> WorkflowCancelRequest) list"
  ms_humanDecisions :: "(int \<times> HumanDecisionRecord) list"
  ms_deadLetters :: "(int \<times> DeadLetterRecord) list"
  ms_nextInstanceID :: int
  ms_nextStepID :: int
  ms_nextQueueID :: int
  ms_nextEventID :: int
  ms_nextCancelRequestID :: int
  ms_nextHumanDecisionID :: int
  ms_nextDeadLetterID :: int
  ms_agingEnabled :: bool
  ms_agingRate :: rat
  ms_cursor :: nat

type_synonym 'a sgo = "(MemoryStore, 'a) go"

section \<open>Construction and settings\<close>

definition NewMemoryStore :: MemoryStore where
  "NewMemoryStore = \<lparr>ms_definitions = [], ms_defheap = [], ms_instances = [], ms_steps = [],
     ms_stepsByInstance = [], ms_queue = [], ms_events = [], ms_eventsByInstance = [],
     ms_joinStates = [], ms_cancelRequests = [], ms_humanDecisions = [], ms_deadLetters = [],
     ms_nextInstanceID = 1, ms_nextStepID = 1, ms_nextQueueID = 1, ms_nextEventID = 1,
     ms_nextCancelRequestID = 1, ms_nextHumanDecisionID = 1, ms_nextDeadLetterID = 1,
     ms_agingEnabled = True, ms_agingRate = 1 / 2, ms_cursor = 0\<rparr>"

definition SetAgingEnabled :: "bool \<Rightarrow> unit sgo" where
  "SetAgingEnabled enabled = gmodify (\<lambda>s. s\<lparr>ms_agingEnabled := enabled\<rparr>)"

definition SetAgingRate :: "rat \<Rightarrow> unit sgo" where
  "SetAgingRate rate = gmodify (\<lambda>s. s\<lparr>ms_agingRate := rate\<rparr>)"

section \<open>Definitions\<close>

definition defAt :: "MemoryStore \<Rightarrow> string \<Rightarrow> WorkflowDefinition option" where
  "defAt s i = (case map_of (ms_definitions s) i of None \<Rightarrow> None | Some a \<Rightarrow> map_of (ms_defheap s) a)"

lemma defAt_cong:
  "ms_definitions t = ms_definitions s \<Longrightarrow> ms_defheap t = ms_defheap s \<Longrightarrow> defAt t i = defAt s i"
  by (simp add: defAt_def cong: option.case_cong)

definition freshAddr :: "MemoryStore \<Rightarrow> nat" where
  "freshAddr s = Suc (foldr max (map fst (ms_defheap s)) 0)"

text \<open>The object passed in is registered itself; its identifier and creation time are filled in.\<close>

definition SaveWorkflowDefinition :: "env \<Rightarrow> WorkflowDefinition \<Rightarrow> WorkflowDefinition sgo" where
  "SaveWorkflowDefinition E def s =
     (let a = freshAddr s; c = ms_cursor s in
      case defAt s (wd_ID def) of
        Some existing \<Rightarrow>
          (let def' = def\<lparr>wd_ID := wd_ID existing, wd_CreatedAt := wd_CreatedAt existing\<rparr>
           in (Ok def', s\<lparr>ms_definitions := AList.update (wd_ID def') a (ms_definitions s),
                          ms_defheap := AList.update a def' (ms_defheap s)\<rparr>))
      | None \<Rightarrow>
          (let i = (if wd_ID def = '''' then uuid E c else wd_ID def);
               def' = def\<lparr>wd_ID := i, wd_CreatedAt := clk E (Suc c)\<rparr>
           in (Ok def', s\<lparr>ms_definitions := AList.update i a (ms_definitions s),
                          ms_defheap := AList.update a def' (ms_defheap s),
                          ms_cursor := Suc (Suc c)\<rparr>)))"

definition GetWorkflowDefinition :: "string \<Rightarrow> WorkflowDefinition sgo" where
  "GetWorkflowDefinition i s =
     (case defAt s i of None \<Rightarrow> (Fail EntityNotFound, s) | Some def \<Rightarrow> (Ok def, s))"

section \<open>Instances\<close>

definition CreateInstance :: "env \<Rightarrow> string \<Rightarrow> raw \<Rightarrow> WorkflowInstance sgo" where
  "CreateInstance E workflowID input s =
     (let now = clk E (ms_cursor s);
          instance = \<lparr>wi_ID = ms_nextInstanceID s, wi_WorkflowID = workflowID,
            wi_Status = StatusPending, wi_Input = input, wi_Output = RawNil, wi_Error = None,
            wi_StartedAt = None, wi_CompletedAt = None, wi_CreatedAt = now, wi_UpdatedAt = now\<rparr>
      in (Ok instance,
          s\<lparr>ms_instances := AList.update (wi_ID instance) instance (ms_instances s),
            ms_nextInstanceID := ms_nextInstanceID s + 1, ms_cursor := Suc (ms_cursor s)\<rparr>))"

text \<open>
  The assignments of \<open>UpdateInstanceStatus\<close>; the clock is read a second time for \<open>CompletedAt\<close> or
  \<open>StartedAt\<close> (never for both).
\<close>

definition stampsCompletion :: "WorkflowStatus \<Rightarrow> bool" where
  "stampsCompletion status \<longleftrightarrow> status \<in> {StatusCompleted, StatusFailed, StatusCancelled}"

definition stampsStart :: "WorkflowStatus \<Rightarrow> WorkflowInstance \<Rightarrow> bool" where
  "stampsStart status instance \<longleftrightarrow> wi_StartedAt instance = None \<and> status = StatusRunning"

definition instanceAfter ::
    "int \<Rightarrow> int \<Rightarrow> WorkflowStatus \<Rightarrow> raw \<Rightarrow> string option \<Rightarrow> WorkflowInstance \<Rightarrow> WorkflowInstance" where
  "instanceAfter now later status output errMsg instance =
     (let i1 = instance\<lparr>wi_Status := status, wi_Output := output, wi_Error := errMsg, wi_UpdatedAt := now\<rparr>;
          i2 = (if stampsCompletion status then i1\<lparr>wi_CompletedAt := Some later\<rparr> else i1)
      in if stampsStart status instance then i2\<lparr>wi_StartedAt := Some later\<rparr> else i2)"

definition UpdateInstanceStatus ::
    "env \<Rightarrow> int \<Rightarrow> WorkflowStatus \<Rightarrow> raw \<Rightarrow> string option \<Rightarrow> unit sgo" where
  "UpdateInstanceStatus E instanceID status output errMsg s =
     (case map_of (ms_instances s) instanceID of
        None \<Rightarrow> (Fail EntityNotFound, s)
      | Some instance \<Rightarrow>
          (Ok (), s\<lparr>ms_instances := AList.update instanceID
             (instanceAfter (clk E (ms_cursor s)) (clk E (Suc (ms_cursor s))) status output errMsg instance)
             (ms_instances s),
             ms_cursor := (if stampsCompletion status \<or> stampsStart status instance
                           then Suc (Suc (ms_cursor s)) else Suc (ms_cursor s))\<rparr>))"

lemma instanceAfter_simps [simp]:
  "wi_ID (instanceAfter a b st out err i) = wi_ID i"
  "wi_WorkflowID (instanceAfter a b st out err i) = wi_WorkflowID i"
  "wi_Status (instanceAfter a b st out err i) = st" "wi_Input (instanceAfter a b st out err i) = wi_Input i"
  "wi_Output (instanceAfter a b st out err i) = out" "wi_Error (instanceAfter a b st out err i) = err"
  "wi_CreatedAt (instanceAfter a b st out err i) = wi_CreatedAt i"
  by (simp_all add: instanceAfter_def Let_def)

definition GetInstance :: "int \<Rightarrow> WorkflowInstance sgo" where
  "GetInstance instanceID s =
     (case map_of (ms_instances s) instanceID of
        None \<Rightarrow> (Fail EntityNotFound, s) | Some instance \<Rightarrow> (Ok instance, s))"

section \<open>Steps\<close>

text \<open>Result: the step as stored, with the identifier the caller's struct has afterwards.\<close>

definition CreateStep :: "env \<Rightarrow> WorkflowStep \<Rightarrow> WorkflowStep sgo" where
  "CreateStep E step s =
     (let c = ms_cursor s;
          step' = step\<lparr>
            ws_IdempotencyKey := (if ws_IdempotencyKey step = '''' then uuid E c
                                  else ws_IdempotencyKey step),
            ws_ID := ms_nextStepID s, ws_CreatedAt := clk E (Suc c)\<rparr>;
          ids = (case map_of (ms_stepsByInstance s) (ws_InstanceID step) of
                   None \<Rightarrow> [] | Some xs \<Rightarrow> xs)
      in (Ok step',
          s\<lparr>ms_nextStepID := ms_nextStepID s + 1,
            ms_steps := AList.update (ws_ID step') step' (ms_steps s),
            ms_stepsByInstance := AList.update (ws_InstanceID step) (ids @ [ws_ID step'])
                                    (ms_stepsByInstance s),
            ms_cursor := Suc (Suc c)\<rparr>))"

text \<open>The assignments of \<open>UpdateStep\<close> to the stored step.\<close>

definition stepAfter :: "int \<Rightarrow> StepStatus \<Rightarrow> raw \<Rightarrow> string option \<Rightarrow> WorkflowStep \<Rightarrow> WorkflowStep" where
  "stepAfter now status output errMsg step =
     (let s1 = step\<lparr>ws_Status := status, ws_Output := output, ws_Error := errMsg\<rparr>;
          s2 = (if status \<in> {StepStatusCompleted, StepStatusFailed, StepStatusSkipped}
                then s1\<lparr>ws_CompletedAt := Some now\<rparr> else s1);
          s3 = (if ws_StartedAt s2 = None \<and> status = StepStatusRunning
                then s2\<lparr>ws_StartedAt := Some now\<rparr> else s2)
      in if status = StepStatusFailed then s3\<lparr>ws_RetryCount := ws_RetryCount s3 + 1\<rparr> else s3)"

definition UpdateStep :: "env \<Rightarrow> int \<Rightarrow> StepStatus \<Rightarrow> raw \<Rightarrow> string option \<Rightarrow> unit sgo" where
  "UpdateStep E stepID status output errMsg s =
     (case map_of (ms_steps s) stepID of
        None \<Rightarrow> (Fail EntityNotFound, s)
      | Some step \<Rightarrow>
          (Ok (), s\<lparr>ms_steps := AList.update stepID
             (stepAfter (clk E (ms_cursor s)) status output errMsg step) (ms_steps s),
             ms_cursor := Suc (ms_cursor s)\<rparr>))"

lemma stepAfter_simps [simp]:
  "ws_Status (stepAfter now st out err step) = st" "ws_Output (stepAfter now st out err step) = out"
  "ws_Error (stepAfter now st out err step) = err" "ws_ID (stepAfter now st out err step) = ws_ID step"
  "ws_InstanceID (stepAfter now st out err step) = ws_InstanceID step"
  "ws_StepName (stepAfter now st out err step) = ws_StepName step"
  "ws_StepType (stepAfter now st out err step) = ws_StepType step"
  "ws_Input (stepAfter now st out err step) = ws_Input step"
  "ws_MaxRetries (stepAfter now st out err step) = ws_MaxRetries step"
  "ws_CompensationRetryCount (stepAfter now st out err step) = ws_CompensationRetryCount step"
  "ws_IdempotencyKey (stepAfter now st out err step) = ws_IdempotencyKey step"
  "ws_CreatedAt (stepAfter now st out err step) = ws_CreatedAt step"
  "ws_RetryCount (stepAfter now st out err step) =
     (if st = StepStatusFailed then ws_RetryCount step + 1 else ws_RetryCount step)"
  "ws_CompletedAt (stepAfter now st out err step) =
     (if st \<in> {StepStatusCompleted, StepStatusFailed, StepStatusSkipped} then Some now
      else ws_CompletedAt step)"
  "ws_StartedAt (stepAfter now st out err step) =
     (if ws_StartedAt step = None \<and> st = StepStatusRunning then Some now else ws_StartedAt step)"
  by (simp_all add: stepAfter_def Let_def)

definition stepIDsOf :: "MemoryStore \<Rightarrow> int \<Rightarrow> int list" where
  "stepIDsOf s instanceID =
     (case map_of (ms_stepsByInstance s) instanceID of None \<Rightarrow> [] | Some xs \<Rightarrow> xs)"

definition stepsOfInstance :: "MemoryStore \<Rightarrow> int \<Rightarrow> WorkflowStep list" where
  "stepsOfInstance s instanceID = List.map_filter (map_of (ms_steps s)) (stepIDsOf s instanceID)"

definition GetStepsByInstance :: "int \<Rightarrow> WorkflowStep list sgo" where
  "GetStepsByInstance instanceID s = (Ok (sort_key ws_CreatedAt (stepsOfInstance s instanceID)), s)"

definition GetActiveStepsForUpdate :: "int \<Rightarrow> WorkflowStep list sgo" where
  "GetActiveStepsForUpdate instanceID s =
     (Ok (sort_key (\<lambda>st. - ws_CreatedAt st)
            (filter (\<lambda>st. ws_Status st \<in>
                {StepStatusPending, StepStatusRunning, StepStatusWaitingDecision})
              (stepsOfInstance s instanceID))), s)"

definition UpdateStepCompensationRetry :: "int \<Rightarrow> int \<Rightarrow> StepStatus \<Rightarrow> unit sgo" where
  "UpdateStepCompensationRetry stepID retryCount status s =
     (case map_of (ms_steps s) stepID of
        None \<Rightarrow> (Fail EntityNotFound, s)
      | Some step \<Rightarrow>
          (Ok (), s\<lparr>ms_steps := AList.update stepID
             (step\<lparr>ws_CompensationRetryCount := retryCount, ws_Status := status\<rparr>) (ms_steps s)\<rparr>))"

definition UpdateStepStatus :: "int \<Rightarrow> StepStatus \<Rightarrow> unit sgo" where
  "UpdateStepStatus stepID status s =
     (case map_of (ms_steps s) stepID of
        None \<Rightarrow> (Fail EntityNotFound, s)
      | Some step \<Rightarrow>
          (Ok (), s\<lparr>ms_steps := AList.update stepID (step\<lparr>ws_Status := status\<rparr>) (ms_steps s)\<rparr>))"

definition GetStepByID :: "int \<Rightarrow> WorkflowStep sgo" where
  "GetStepByID stepID s =
     (case map_of (ms_steps s) stepID of
        None \<Rightarrow> (Fail EntityNotFound, s) | Some step \<Rightarrow> (Ok step, s))"

definition GetHumanDecisionStepByInstanceID :: "int \<Rightarrow> WorkflowStep sgo" where
  "GetHumanDecisionStepByInstanceID instanceID s =
     (case filter (\<lambda>st. ws_StepType st = StepTypeHuman) (rev (stepsOfInstance s instanceID)) of
        [] \<Rightarrow> (Fail EntityNotFound, s) | step # _ \<Rightarrow> (Ok step, s))"

section \<open>Queue\<close>

definition EnqueueStep :: "env \<Rightarrow> int \<Rightarrow> int option \<Rightarrow> int \<Rightarrow> int \<Rightarrow> unit sgo" where
  "EnqueueStep E instanceID stepID priority delay s =
     (let item = \<lparr>qi_ID = ms_nextQueueID s, qi_InstanceID = instanceID, qi_StepID = stepID,
            qi_ScheduledAt = clk E (ms_cursor s) + delay, qi_AttemptedAt = None,
            qi_AttemptedBy = None, qi_Priority = priority\<rparr>
      in (Ok (), s\<lparr>ms_queue := AList.update (qi_ID item) item (ms_queue s),
                   ms_nextQueueID := ms_nextQueueID s + 1, ms_cursor := Suc (ms_cursor s)\<rparr>))"

text \<open>
  Priority ageing: \<open>int (float64 (priority) + waitTime * agingRate)\<close>, capped at 100. The rational
  value is exact where Go rounds to \<open>float64\<close>; the conversion truncates towards zero.
\<close>

definition truncRat :: "rat \<Rightarrow> int" where
  "truncRat x = (if 0 \<le> x then \<lfloor>x\<rfloor> else \<lceil>x\<rceil>)"

definition effectivePriority :: "bool \<Rightarrow> rat \<Rightarrow> int \<Rightarrow> QueueItem \<Rightarrow> int" where
  "effectivePriority agingEnabled agingRate now item =
     (if agingEnabled \<and> agingRate > 0
      then min 100 (truncRat (of_int (qi_Priority item) +
                       of_int (now - qi_ScheduledAt item) / 1000000000 * agingRate))
      else qi_Priority item)"

definition eligible :: "int \<Rightarrow> QueueItem \<Rightarrow> bool" where
  "eligible now item \<longleftrightarrow> qi_AttemptedAt item = None \<and> \<not> qi_ScheduledAt item > now"

text \<open>One round of the selection loop; the accumulator is \<open>(maxPriority, selectedItem)\<close>.\<close>

definition dequeuePick ::
    "bool \<Rightarrow> rat \<Rightarrow> int \<Rightarrow> int \<times> QueueItem option \<Rightarrow> QueueItem \<Rightarrow> int \<times> QueueItem option" where
  "dequeuePick agingEnabled agingRate now acc item =
     (if \<not> eligible now item then acc
      else (let p = effectivePriority agingEnabled agingRate now item in
        if p > fst acc \<or>
           (p = fst acc \<and> (case snd acc of None \<Rightarrow> False
                            | Some sel \<Rightarrow> qi_ScheduledAt item < qi_ScheduledAt sel))
        then (p, Some item) else acc))"

definition dequeueSelect :: "MemoryStore \<Rightarrow> int \<Rightarrow> QueueItem option" where
  "dequeueSelect s now =
     snd (foldl (dequeuePick (ms_agingEnabled s) (ms_agingRate s) now) (-1, None)
            (map snd (ms_queue s)))"

definition DequeueStep :: "env \<Rightarrow> string \<Rightarrow> QueueItem option sgo" where
  "DequeueStep E workerID s =
     (let now = clk E (ms_cursor s); s1 = s\<lparr>ms_cursor := Suc (ms_cursor s)\<rparr> in
      case dequeueSelect s now of
        None \<Rightarrow> (Ok None, s1)
      | Some item \<Rightarrow>
          (let item' = item\<lparr>qi_AttemptedAt := Some now, qi_AttemptedBy := Some workerID\<rparr>
           in (Ok (Some item'), s1\<lparr>ms_queue := AList.update (qi_ID item) item' (ms_queue s1)\<rparr>)))"

definition RemoveFromQueue :: "int \<Rightarrow> unit sgo" where
  "RemoveFromQueue queueID = gmodify (\<lambda>s. s\<lparr>ms_queue := AList.delete queueID (ms_queue s)\<rparr>)"

definition ReleaseQueueItem :: "int \<Rightarrow> unit sgo" where
  "ReleaseQueueItem queueID s =
     (case map_of (ms_queue s) queueID of
        None \<Rightarrow> (Fail EntityNotFound, s)
      | Some item \<Rightarrow>
          (Ok (), s\<lparr>ms_queue := AList.update queueID
             (item\<lparr>qi_AttemptedAt := None, qi_AttemptedBy := None\<rparr>) (ms_queue s)\<rparr>))"

definition RescheduleAndReleaseQueueItem :: "env \<Rightarrow> int \<Rightarrow> int \<Rightarrow> unit sgo" where
  "RescheduleAndReleaseQueueItem E queueID delay s =
     (case map_of (ms_queue s) queueID of
        None \<Rightarrow> (Fail EntityNotFound, s)
      | Some item \<Rightarrow>
          (let t = clk E (ms_cursor s) + delay;
               t' = (if t < qi_ScheduledAt item then qi_ScheduledAt item else t)
           in (Ok (), s\<lparr>ms_queue := AList.update queueID
                 (item\<lparr>qi_ScheduledAt := t', qi_AttemptedAt := None, qi_AttemptedBy := None\<rparr>)
                 (ms_queue s), ms_cursor := Suc (ms_cursor s)\<rparr>)))"

section \<open>Events\<close>

text \<open>The payload is \<open>None\<close> when \<open>json.Marshal\<close> rejects it.\<close>

definition LogEvent :: "env \<Rightarrow> int \<Rightarrow> int option \<Rightarrow> string \<Rightarrow> jval option \<Rightarrow> unit sgo" where
  "LogEvent E instanceID stepID eventType payload s =
     (case payload of
        None \<Rightarrow> (Fail (Err ''json: error calling MarshalJSON''), s)
      | Some pv \<Rightarrow>
          (let event = \<lparr>ev_ID = ms_nextEventID s, ev_InstanceID = instanceID, ev_StepID = stepID,
                 ev_EventType = eventType, ev_Payload = pv, ev_CreatedAt = clk E (ms_cursor s)\<rparr>;
               ids = (case map_of (ms_eventsByInstance s) instanceID of
                        None \<Rightarrow> [] | Some xs \<Rightarrow> xs)
           in (Ok (), s\<lparr>ms_events := ms_events s @ [event],
                 ms_eventsByInstance := AList.update instanceID (ids @ [ev_ID event])
                   (ms_eventsByInstance s),
                 ms_nextEventID := ms_nextEventID s + 1, ms_cursor := Suc (ms_cursor s)\<rparr>)))"

definition GetWorkflowEvents :: "int \<Rightarrow> WorkflowEvent list sgo" where
  "GetWorkflowEvents instanceID s =
     (case map_of (ms_eventsByInstance s) instanceID of
        None \<Rightarrow> (Ok [], s)
      | Some ids \<Rightarrow>
          (Ok (sort_key ev_CreatedAt
                 (List.map_filter (\<lambda>i. find (\<lambda>e. ev_ID e = i) (ms_events s)) ids)), s))"

section \<open>Join states\<close>

definition joinStateKey :: "int \<Rightarrow> string \<Rightarrow> string" where
  "joinStateKey instanceID joinStepName = itoa instanceID @ CHR '':'' # joinStepName"

fun derefW :: "MemoryStore \<Rightarrow> wref \<Rightarrow> string list" where
  "derefW s (WOwn xs) = xs"
| "derefW s (WDef a n) =
     (case map_of (ms_defheap s) a of None \<Rightarrow> []
      | Some def \<Rightarrow> (case stepDefOf def n of None \<Rightarrow> [] | Some sd \<Rightarrow> sd_WaitFor sd))"
| "derefW s (WPar a n) =
     (case map_of (ms_defheap s) a of None \<Rightarrow> []
      | Some def \<Rightarrow> (case stepDefOf def n of None \<Rightarrow> [] | Some sd \<Rightarrow> sd_Parallel sd))"

definition mapStep ::
    "(StepDefinition \<Rightarrow> StepDefinition) \<Rightarrow> string \<Rightarrow> WorkflowDefinition \<Rightarrow> WorkflowDefinition" where
  "mapStep f n def =
     (case stepDefOf def n of None \<Rightarrow> def
      | Some sd \<Rightarrow> def\<lparr>wd_Definition := (wd_Definition def)
          \<lparr>gd_Steps := AList.update n (f sd) (stepsOf def)\<rparr>\<rparr>)"

text \<open>Writing the elements of a slice in place: the reference and the state afterwards.\<close>

fun writeW :: "MemoryStore \<Rightarrow> wref \<Rightarrow> string list \<Rightarrow> wref \<times> MemoryStore" where
  "writeW s (WOwn ys) xs = (WOwn xs, s)"
| "writeW s (WDef a n) xs =
     (WDef a n, case map_of (ms_defheap s) a of None \<Rightarrow> s
      | Some def \<Rightarrow> s\<lparr>ms_defheap :=
          AList.update a (mapStep (\<lambda>sd. sd\<lparr>sd_WaitFor := xs\<rparr>) n def) (ms_defheap s)\<rparr>)"
| "writeW s (WPar a n) xs =
     (WPar a n, case map_of (ms_defheap s) a of None \<Rightarrow> s
      | Some def \<Rightarrow> s\<lparr>ms_defheap :=
          AList.update a (mapStep (\<lambda>sd. sd\<lparr>sd_Parallel := xs\<rparr>) n def) (ms_defheap s)\<rparr>)"

definition checkJoinReady :: "string list \<Rightarrow> string list \<Rightarrow> string list \<Rightarrow> JoinStrategy \<Rightarrow> bool" where
  "checkJoinReady waitingFor completed failed strategy =
     (if strategy = JoinStrategyAny then length completed > 0 \<or> length failed > 0
      else length completed + length failed \<ge> length waitingFor)"

definition CreateJoinState ::
    "env \<Rightarrow> int \<Rightarrow> string \<Rightarrow> wref \<Rightarrow> JoinStrategy \<Rightarrow> unit sgo" where
  "CreateJoinState E instanceID joinStepName waitingFor strategy s =
     (let key = joinStateKey instanceID joinStepName in
      case map_of (ms_joinStates s) key of
        Some _ \<Rightarrow> (Ok (), s)
      | None \<Rightarrow>
          (let strategy' = (if strategy = JoinStrategyOther '''' then JoinStrategyAll else strategy);
               now = clk E (ms_cursor s);
               state = \<lparr>js_InstanceID = instanceID, js_JoinStepName = joinStepName,
                 js_WaitingFor = waitingFor, js_Completed = [], js_Failed = [],
                 js_JoinStrategy = strategy', js_IsReady = False, js_CreatedAt = now,
                 js_UpdatedAt = now\<rparr>
           in (Ok (), s\<lparr>ms_joinStates := AList.update key state (ms_joinStates s),
                        ms_cursor := Suc (ms_cursor s)\<rparr>)))"

text \<open>The bookkeeping of one result: append unless present, drop the first contrary entry.\<close>

definition addOnce :: "string \<Rightarrow> string list \<Rightarrow> string list" where
  "addOnce x xs = (if x \<in> set xs then xs else xs @ [x])"

definition recordResult :: "bool \<Rightarrow> string \<Rightarrow> JoinState \<Rightarrow> JoinState" where
  "recordResult success x state =
     (if success then state\<lparr>js_Completed := addOnce x (js_Completed state),
                            js_Failed := remove1 x (js_Failed state)\<rparr>
      else state\<lparr>js_Failed := addOnce x (js_Failed state),
                 js_Completed := remove1 x (js_Completed state)\<rparr>)"

definition UpdateJoinState :: "env \<Rightarrow> int \<Rightarrow> string \<Rightarrow> string \<Rightarrow> bool \<Rightarrow> bool sgo" where
  "UpdateJoinState E instanceID joinStepName completedStep success s =
     (let key = joinStateKey instanceID joinStepName in
      case map_of (ms_joinStates s) key of
        None \<Rightarrow> (Fail EntityNotFound, s)
      | Some state \<Rightarrow>
          (let st1 = recordResult success completedStep state;
               ready = checkJoinReady (derefW s (js_WaitingFor st1)) (js_Completed st1)
                         (js_Failed st1) (js_JoinStrategy st1);
               st2 = st1\<lparr>js_IsReady := ready, js_UpdatedAt := clk E (ms_cursor s)\<rparr>
           in (Ok ready, s\<lparr>ms_joinStates := AList.update key st2 (ms_joinStates s),
                           ms_cursor := Suc (ms_cursor s)\<rparr>)))"

definition GetJoinState :: "int \<Rightarrow> string \<Rightarrow> JoinState sgo" where
  "GetJoinState instanceID joinStepName s =
     (case map_of (ms_joinStates s) (joinStateKey instanceID joinStepName) of
        None \<Rightarrow> (Fail EntityNotFound, s) | Some state \<Rightarrow> (Ok state, s))"

text \<open>
  \<open>AddToJoinWaitFor\<close> and \<open>ReplaceInJoinWaitFor\<close> call \<open>CreateJoinState\<close> for a missing join state
  while they hold the write lock that \<open>CreateJoinState\<close> asks for; Go's mutex is not reentrant.
\<close>

definition AddToJoinWaitFor :: "env \<Rightarrow> int \<Rightarrow> string \<Rightarrow> string \<Rightarrow> unit sgo" where
  "AddToJoinWaitFor E instanceID joinStepName stepToAdd s =
     (let key = joinStateKey instanceID joinStepName in
      case map_of (ms_joinStates s) key of
        None \<Rightarrow> (Deadlock, s)
      | Some state \<Rightarrow>
          (let waiting = derefW s (js_WaitingFor state) in
           if stepToAdd \<in> set waiting then (Ok (), s)
           else (let waiting' = waiting @ [stepToAdd];
                     st2 = state\<lparr>js_WaitingFor := WOwn waiting',
                       js_IsReady := checkJoinReady waiting' (js_Completed state)
                         (js_Failed state) (js_JoinStrategy state),
                       js_UpdatedAt := clk E (ms_cursor s)\<rparr>
                 in (Ok (), s\<lparr>ms_joinStates := AList.update key st2 (ms_joinStates s),
                              ms_cursor := Suc (ms_cursor s)\<rparr>))))"

fun replaceFirst :: "'a \<Rightarrow> 'a \<Rightarrow> 'a list \<Rightarrow> 'a list" where
  "replaceFirst x y [] = []"
| "replaceFirst x y (z # zs) = (if z = x then y # zs else z # replaceFirst x y zs)"

text \<open>The catch-up with the first step of that name: its result is entered unless known.\<close>

definition syncResult :: "WorkflowStep list \<Rightarrow> string \<Rightarrow> JoinState \<Rightarrow> JoinState" where
  "syncResult steps realStep state =
     (case find (\<lambda>st. ws_StepName st = realStep) steps of
        None \<Rightarrow> state
      | Some step \<Rightarrow>
          if realStep \<notin> set (js_Completed state) \<and> realStep \<notin> set (js_Failed state) then
            (if ws_Status step = StepStatusCompleted
             then state\<lparr>js_Completed := js_Completed state @ [realStep]\<rparr>
             else if ws_Status step = StepStatusFailed \<or> ws_Status step = StepStatusRolledBack
             then state\<lparr>js_Failed := js_Failed state @ [realStep]\<rparr> else state)
          else state)"

definition ReplaceInJoinWaitFor :: "env \<Rightarrow> int \<Rightarrow> string \<Rightarrow> string \<Rightarrow> string \<Rightarrow> unit sgo" where
  "ReplaceInJoinWaitFor E instanceID joinStepName virtualStep realStep s =
     (let key = joinStateKey instanceID joinStepName in
      case map_of (ms_joinStates s) key of
        None \<Rightarrow> (Deadlock, s)
      | Some state \<Rightarrow>
          (let waiting = derefW s (js_WaitingFor state);
               (w', s1) = (if virtualStep \<in> set waiting
                           then writeW s (js_WaitingFor state) (replaceFirst virtualStep realStep waiting)
                           else (WOwn (waiting @ [realStep]), s));
               st1 = syncResult (stepsOfInstance s1 instanceID) realStep (state\<lparr>js_WaitingFor := w'\<rparr>);
               st2 = st1\<lparr>js_IsReady := checkJoinReady (derefW s1 w') (js_Completed st1)
                           (js_Failed st1) (js_JoinStrategy st1),
                         js_UpdatedAt := clk E (ms_cursor s1)\<rparr>
           in (Ok (), s1\<lparr>ms_joinStates := AList.update key st2 (ms_joinStates s1),
                         ms_cursor := Suc (ms_cursor s1)\<rparr>)))"

section \<open>Cancel requests, human decisions\<close>

definition CreateCancelRequest :: "env \<Rightarrow> WorkflowCancelRequest \<Rightarrow> unit sgo" where
  "CreateCancelRequest E req s =
     (case map_of (ms_cancelRequests s) (cr_InstanceID req) of
        Some _ \<Rightarrow> (Ok (), s)
      | None \<Rightarrow>
          (Ok (), s\<lparr>ms_cancelRequests := AList.update (cr_InstanceID req)
                      (req\<lparr>cr_ID := ms_nextCancelRequestID s, cr_CreatedAt := clk E (ms_cursor s)\<rparr>)
                      (ms_cancelRequests s),
                    ms_nextCancelRequestID := ms_nextCancelRequestID s + 1,
                    ms_cursor := Suc (ms_cursor s)\<rparr>))"

definition GetCancelRequest :: "int \<Rightarrow> WorkflowCancelRequest sgo" where
  "GetCancelRequest instanceID s =
     (case map_of (ms_cancelRequests s) instanceID of
        None \<Rightarrow> (Fail EntityNotFound, s) | Some req \<Rightarrow> (Ok req, s))"

definition DeleteCancelRequest :: "int \<Rightarrow> unit sgo" where
  "DeleteCancelRequest instanceID =
     gmodify (\<lambda>s. s\<lparr>ms_cancelRequests := AList.delete instanceID (ms_cancelRequests s)\<rparr>)"

definition CreateHumanDecision :: "env \<Rightarrow> HumanDecisionRecord \<Rightarrow> unit sgo" where
  "CreateHumanDecision E decision s =
     (Ok (), s\<lparr>ms_humanDecisions := AList.update (hd_StepID decision)
                 (decision\<lparr>hd_ID := ms_nextHumanDecisionID s, hd_CreatedAt := clk E (ms_cursor s)\<rparr>)
                 (ms_humanDecisions s),
               ms_nextHumanDecisionID := ms_nextHumanDecisionID s + 1,
               ms_cursor := Suc (ms_cursor s)\<rparr>)"

definition GetHumanDecision :: "int \<Rightarrow> HumanDecisionRecord sgo" where
  "GetHumanDecision stepID s =
     (case map_of (ms_humanDecisions s) stepID of
        None \<Rightarrow> (Fail EntityNotFound, s) | Some decision \<Rightarrow> (Ok decision, s))"

section \<open>Dead letters\<close>

definition CreateDeadLetterRecord :: "env \<Rightarrow> DeadLetterRecord \<Rightarrow> unit sgo" where
  "CreateDeadLetterRecord E rec s =
     (let rec' = rec\<lparr>dl_ID := ms_nextDeadLetterID s, dl_CreatedAt := clk E (ms_cursor s)\<rparr>
      in (Ok (), s\<lparr>ms_deadLetters := AList.update (dl_ID rec') rec' (ms_deadLetters s),
                   ms_nextDeadLetterID := ms_nextDeadLetterID s + 1,
                   ms_cursor := Suc (ms_cursor s)\<rparr>))"

text \<open>Applying a function to the steps with the given identifiers, in the order of the list.\<close>

definition mapSteps ::
    "(WorkflowStep \<Rightarrow> WorkflowStep) \<Rightarrow> int list \<Rightarrow> (int \<times> WorkflowStep) list \<Rightarrow> (int \<times> WorkflowStep) list" where
  "mapSteps f ids steps =
     foldl (\<lambda>tab i. case map_of tab i of None \<Rightarrow> tab | Some st \<Rightarrow> AList.update i (f st) tab) steps ids"

definition RequeueDeadLetter :: "int \<Rightarrow> raw option \<Rightarrow> unit sgo" where
  "RequeueDeadLetter dlqID newInput s =
     (case map_of (ms_deadLetters s) dlqID of
        None \<Rightarrow> (Fail EntityNotFound, s)
      | Some rec \<Rightarrow>
          (case map_of (ms_steps s) (dl_StepID rec) of
             None \<Rightarrow> (Fail EntityNotFound, s)
           | Some step \<Rightarrow>
               (let step' = step\<lparr>ws_Status := StepStatusPending,
                      ws_Input := (case newInput of None \<Rightarrow> ws_Input step | Some i \<Rightarrow> i),
                      ws_Error := None, ws_RetryCount := 0, ws_CompensationRetryCount := 0,
                      ws_StartedAt := None, ws_CompletedAt := None\<rparr>;
                    steps1 = AList.update (dl_StepID rec) step' (ms_steps s);
                    insts1 = (case map_of (ms_instances s) (dl_InstanceID rec) of
                        None \<Rightarrow> ms_instances s
                      | Some instance \<Rightarrow>
                          if wi_Status instance = StatusFailed \<or> wi_Status instance = StatusDLQ
                          then AList.update (dl_InstanceID rec)
                                 (instance\<lparr>wi_Status := StatusRunning, wi_Error := None\<rparr>)
                                 (ms_instances s)
                          else ms_instances s);
                    wake = (\<lambda>st. if ws_StepType st = StepTypeJoin \<and> ws_Status st = StepStatusPaused
                                 then st\<lparr>ws_Status := StepStatusPending\<rparr> else st);
                    steps2 = mapSteps wake (stepIDsOf s (dl_InstanceID rec)) steps1
                in (Ok (), s\<lparr>ms_steps := steps2, ms_instances := insts1,
                             ms_deadLetters := AList.delete dlqID (ms_deadLetters s)\<rparr>))))"

definition GetDeadLetterByID :: "int \<Rightarrow> DeadLetterRecord sgo" where
  "GetDeadLetterByID i s =
     (case map_of (ms_deadLetters s) i of
        None \<Rightarrow> (Fail EntityNotFound, s) | Some rec \<Rightarrow> (Ok rec, s))"

text \<open>\<open>xs[start:end]\<close> with Go's bounds check.\<close>

definition sliceOf :: "int \<Rightarrow> int \<Rightarrow> 'a list \<Rightarrow> 'a list option" where
  "sliceOf start end xs =
     (if 0 \<le> start \<and> start \<le> end \<and> end \<le> int (length xs)
      then Some (take (nat (end - start)) (drop (nat start) xs)) else None)"

definition ListDeadLetters :: "int \<Rightarrow> int \<Rightarrow> (DeadLetterRecord list \<times> int) sgo" where
  "ListDeadLetters offset limit s =
     (let records = sort_key (\<lambda>r. - dl_CreatedAt r) (map snd (ms_deadLetters s));
          total = int (length (ms_deadLetters s)); n = int (length records);
          start = (if offset > n then n else offset);
          end = (if offset + limit > n then n else offset + limit)
      in if start < end
         then (case sliceOf start end records of
                 None \<Rightarrow> (Panic ''slice bounds out of range'', s)
               | Some page \<Rightarrow> (Ok (page, total), s))
         else (Ok ([], total), s))"

definition PauseActiveStepsAndClearQueue :: "int \<Rightarrow> unit sgo" where
  "PauseActiveStepsAndClearQueue instanceID =
     gmodify (\<lambda>s. s\<lparr>
       ms_steps := mapSteps (\<lambda>st. if ws_Status st = StepStatusRunning
                                  then st\<lparr>ws_Status := StepStatusPaused\<rparr> else st)
                     (stepIDsOf s instanceID) (ms_steps s),
       ms_queue := filter (\<lambda>(i, item). qi_InstanceID item \<noteq> instanceID) (ms_queue s)\<rparr>)"

section \<open>Listing and statistics\<close>

definition instancesDesc :: "(WorkflowInstance \<Rightarrow> bool) \<Rightarrow> MemoryStore \<Rightarrow> WorkflowInstance list" where
  "instancesDesc p s =
     sort_key (\<lambda>i. - wi_CreatedAt i) (filter p (map snd (ms_instances s)))"

definition GetWorkflowInstances :: "string \<Rightarrow> WorkflowInstance list sgo" where
  "GetWorkflowInstances workflowID s = (Ok (instancesDesc (\<lambda>i. wi_WorkflowID i = workflowID) s), s)"

definition GetAllWorkflowInstances :: "WorkflowInstance list sgo" where
  "GetAllWorkflowInstances s = (Ok (instancesDesc (\<lambda>_. True) s), s)"

definition paginate :: "int \<Rightarrow> int \<Rightarrow> 'a list \<Rightarrow> ('a list \<times> int) res" where
  "paginate offset limit xs =
     (let total = int (length xs) in
      if offset \<ge> total then Ok ([], total)
      else (let end = (if offset + limit > total then total else offset + limit) in
        case sliceOf offset end xs of
          None \<Rightarrow> Panic ''slice bounds out of range'' | Some page \<Rightarrow> Ok (page, total)))"

definition GetWorkflowInstancesPaginated ::
    "string \<Rightarrow> int \<Rightarrow> int \<Rightarrow> (WorkflowInstance list \<times> int) sgo" where
  "GetWorkflowInstancesPaginated workflowID offset limit s =
     (paginate offset limit (instancesDesc (\<lambda>i. wi_WorkflowID i = workflowID) s), s)"

definition GetAllWorkflowInstancesPaginated ::
    "int \<Rightarrow> int \<Rightarrow> (WorkflowInstance list \<times> int) sgo" where
  "GetAllWorkflowInstancesPaginated offset limit s =
     (paginate offset limit (instancesDesc (\<lambda>_. True) s), s)"

definition countStatus :: "WorkflowStatus \<Rightarrow> MemoryStore \<Rightarrow> nat" where
  "countStatus st s = length (filter (\<lambda>i. wi_Status i = st) (map snd (ms_instances s)))"

definition summaryAdd :: "SummaryStats \<Rightarrow> WorkflowInstance \<Rightarrow> SummaryStats" where
  "summaryAdd st i =
     (let st = st\<lparr>ss_TotalWorkflows := Suc (ss_TotalWorkflows st)\<rparr>;
          st = (case wi_Status i of
                  StatusCompleted \<Rightarrow> st\<lparr>ss_CompletedWorkflows := Suc (ss_CompletedWorkflows st)\<rparr>
                | StatusFailed \<Rightarrow> st\<lparr>ss_FailedWorkflows := Suc (ss_FailedWorkflows st)\<rparr>
                | StatusRunning \<Rightarrow> st\<lparr>ss_RunningWorkflows := Suc (ss_RunningWorkflows st)\<rparr>
                | StatusPending \<Rightarrow> st\<lparr>ss_PendingWorkflows := Suc (ss_PendingWorkflows st)\<rparr>
                | _ \<Rightarrow> st)
      in if wi_Status i = StatusRunning \<or> wi_Status i = StatusPending
         then st\<lparr>ss_ActiveWorkflows := Suc (ss_ActiveWorkflows st)\<rparr> else st)"

definition GetSummaryStats :: "SummaryStats sgo" where
  "GetSummaryStats s =
     (Ok (foldl summaryAdd \<lparr>ss_TotalWorkflows = 0, ss_CompletedWorkflows = 0, ss_FailedWorkflows = 0,
            ss_RunningWorkflows = 0, ss_PendingWorkflows = 0, ss_ActiveWorkflows = 0\<rparr>
            (map snd (ms_instances s))), s)"

definition activeInstance :: "MemoryStore \<Rightarrow> WorkflowInstance \<Rightarrow> ActiveWorkflowInstance" where
  "activeInstance s instance =
     (let steps = stepsOfInstance s (wi_ID instance) in
      \<lparr>aw_ID = wi_ID instance, aw_WorkflowID = wi_WorkflowID instance,
       aw_WorkflowName = (case defAt s (wi_WorkflowID instance) of None \<Rightarrow> '''' | Some d \<Rightarrow> wd_Name d),
       aw_Status = workflowStatusStr (wi_Status instance),
       aw_StartedAt = wi_CreatedAt instance, aw_UpdatedAt = wi_UpdatedAt instance,
       aw_CurrentStep = foldl (\<lambda>cur st. if ws_Status st = StepStatusRunning then ws_StepName st else cur)
                          '''' steps,
       aw_TotalSteps = length (stepIDsOf s (wi_ID instance)),
       aw_CompletedSteps = length (filter (\<lambda>st. ws_Status st = StepStatusCompleted) steps),
       aw_RolledBackSteps = length (filter (\<lambda>st. ws_Status st = StepStatusRolledBack) steps)\<rparr>)"

definition GetActiveInstances :: "ActiveWorkflowInstance list sgo" where
  "GetActiveInstances s =
     (Ok (sort_key (\<lambda>a. - aw_StartedAt a)
            (map (activeInstance s)
              (filter (\<lambda>i. wi_Status i \<in> {StatusRunning, StatusPending, StatusDLQ})
                (map snd (ms_instances s))))), s)"

section \<open>Cleanup\<close>

definition cleanupInstance :: "MemoryStore \<Rightarrow> int \<Rightarrow> MemoryStore" where
  "cleanupInstance s i =
     s\<lparr>ms_instances := AList.delete i (ms_instances s),
       ms_stepsByInstance := AList.delete i (ms_stepsByInstance s),
       ms_steps := filter (\<lambda>(k, st). ws_InstanceID st \<noteq> i) (ms_steps s),
       ms_eventsByInstance := AList.delete i (ms_eventsByInstance s),
       ms_cancelRequests := AList.delete i (ms_cancelRequests s),
       ms_joinStates := filter (\<lambda>(k, j). js_InstanceID j \<noteq> i) (ms_joinStates s)\<rparr>"

text \<open>\<open>time.Now ().AddDate (0, 0, -1)\<close>: one day, in nanoseconds.\<close>

definition CleanupOldWorkflows :: "env \<Rightarrow> unit sgo" where
  "CleanupOldWorkflows E s =
     (let cutoff = clk E (ms_cursor s) - 86400 * 1000000000;
          old = map fst (filter (\<lambda>(i, instance).
                  case wi_CompletedAt instance of None \<Rightarrow> False | Some t \<Rightarrow> t < cutoff) (ms_instances s))
      in (Ok (), foldl cleanupInstance (s\<lparr>ms_cursor := Suc (ms_cursor s)\<rparr>) old))"

end
