(* ===== verification/Engine_State.thy ===== *)
theory Engine_State
  imports Validation Plugins Retry MemoryStore
begin

text \<open>
  The state of the \<open>Engine\<close> struct of \<open>engine.go\<close>, the calls into its store, handlers and plugins,
  and the small operations on the engine's own fields: registration, cool-down and log throttle for
  missing handlers, cancel contexts, shutdown, the cancel and abort requests and one round of the
  worker that delivers them.

  A running step has a cancellable context. \<open>en_cancelContexts\<close> holds the steps registered per
  instance, \<open>en_cancelled\<close> the contexts whose cancel function was called; a handler call is the
  handler's answer followed by the calls other goroutines make in the meantime (\<open>during\<close>).
\<close>

record Engine =
  en_store :: MemoryStore
  en_handlers :: "(string \<times> handler) list"
  en_cancelContexts :: "(int \<times> int list) list"
  en_cancelled :: "(int \<times> int) list"
  en_isShuttingDown :: bool
  en_activeSteps :: int
  en_pluginManager :: "PluginManager option"
  en_missingHandlerCooldown :: int
  en_missingHandlerLogThrottle :: int
  en_missingHandlerJitterPct :: rat
  en_skipLogNextAllowed :: "(string \<times> int) list"
  en_humanEvents :: "(int \<times> raw) list option"
  en_hcalls :: nat

type_synonym 'a ego = "(Engine, 'a) go"

definition NewEngine :: "MemoryStore \<Rightarrow> Engine" where
  "NewEngine store = \<lparr>en_store = store, en_handlers = [], en_cancelContexts = [], en_cancelled = [],
     en_isShuttingDown = False, en_activeSteps = 0, en_pluginManager = None,
     en_missingHandlerCooldown = 1000000000, en_missingHandlerLogThrottle = 5000000000,
     en_missingHandlerJitterPct = 1 / 5, en_skipLogNextAllowed = [], en_humanEvents = None,
     en_hcalls = 0\<rparr>"

section \<open>Calling the store\<close>

definition onStore :: "'a sgo \<Rightarrow> 'a ego" where
  "onStore m = gzoom en_store (\<lambda>s w. w\<lparr>en_store := s\<rparr>) m"

definition readClock :: "env \<Rightarrow> int ego" where
  "readClock E = onStore (\<lambda>s. (Ok (clk E (ms_cursor s)), s\<lparr>ms_cursor := Suc (ms_cursor s)\<rparr>))"

text \<open>A store call whose error is returned with a prefix, for its result or for its effect.\<close>

abbreviation ask :: "string \<Rightarrow> 'a sgo \<Rightarrow> ('a \<Rightarrow> 'b ego) \<Rightarrow> 'b ego" where
  "ask c m k \<equiv> gbind (gwrap c (onStore m)) k"

abbreviation cmd :: "string \<Rightarrow> 'a sgo \<Rightarrow> 'b ego \<Rightarrow> 'b ego" where
  "cmd c m k \<equiv> gseq (gwrap c (onStore m)) k"

text \<open>\<open>_ = engine.store.LogEvent (...)\<close> with a payload that can always be marshalled.\<close>

definition logEvent :: "env \<Rightarrow> int \<Rightarrow> int option \<Rightarrow> string \<Rightarrow> (string \<times> jval) list \<Rightarrow> unit ego" where
  "logEvent E instanceID stepID eventType kvs =
     gignore (onStore (LogEvent E instanceID stepID eventType (Some (JObj kvs))))"

abbreviation getDefinition :: "string \<Rightarrow> (WorkflowDefinition \<Rightarrow> 'a ego) \<Rightarrow> 'a ego" where
  "getDefinition i k \<equiv> ask ''get workflow definition: '' (GetWorkflowDefinition i) k"

text \<open>\<open>stepDef, ok := def.Definition.Steps[n]; if !ok { return fmt.Errorf (msg + n) }\<close>\<close>

definition needStep :: "string \<Rightarrow> WorkflowDefinition \<Rightarrow> string \<Rightarrow> (StepDefinition \<Rightarrow> 'a ego) \<Rightarrow> 'a ego" where
  "needStep msg def n k = (case stepDefOf def n of None \<Rightarrow> gfail (Err (msg @ n)) | Some sd \<Rightarrow> k sd)"

text \<open>The literals \<open>&WorkflowStep{InstanceID, StepName, StepType, Status, Input, MaxRetries}\<close>.\<close>

definition newStep ::
    "int \<Rightarrow> string \<Rightarrow> StepType \<Rightarrow> StepStatus \<Rightarrow> raw \<Rightarrow> int \<Rightarrow> WorkflowStep" where
  "newStep instanceID name type status input maxRetries =
     \<lparr>ws_ID = 0, ws_InstanceID = instanceID, ws_StepName = name, ws_StepType = type,
      ws_Status = status, ws_Input = input, ws_Output = RawNil, ws_Error = None, ws_RetryCount = 0,
      ws_MaxRetries = maxRetries, ws_CompensationRetryCount = 0, ws_IdempotencyKey = '''',
      ws_StartedAt = None, ws_CompletedAt = None, ws_CreatedAt = 0\<rparr>"

section \<open>Registration\<close>

definition RegisterHandler :: "handler \<Rightarrow> unit ego" where
  "RegisterHandler h = gmodify (\<lambda>w. w\<lparr>en_handlers := AList.update (hn_Name h) h (en_handlers w)\<rparr>)"

definition RegisterPlugin :: "plugin \<Rightarrow> unit ego" where
  "RegisterPlugin p = gmodify (\<lambda>w. w\<lparr>en_pluginManager := Some (RegisterInManager p
     (case en_pluginManager w of None \<Rightarrow> NewPluginManager | Some pm \<Rightarrow> pm))\<rparr>)"

datatype deferror = NameRequired | StartRequired | NoSteps | StartNotFound string | Invalid verror

definition validateDefinition :: "WorkflowDefinition \<Rightarrow> deferror option" where
  "validateDefinition def =
     (if wd_Name def = '''' then Some NameRequired
      else if gd_Start (wd_Definition def) = '''' then Some StartRequired
      else if length (stepsOf def) = 0 then Some NoSteps
      else if stepDefOf def (gd_Start (wd_Definition def)) = None
        then Some (StartNotFound (gd_Start (wd_Definition def)))
      else map_option Invalid (ValidateWorkflowDefinition def))"

text \<open>The messages of \<open>validateDefinition\<close>.\<close>

fun deferrorErr :: "WorkflowDefinition \<Rightarrow> deferror \<Rightarrow> error" where
  "deferrorErr def NameRequired = Err ''workflow name is required''"
| "deferrorErr def StartRequired = Err ''start step is required''"
| "deferrorErr def NoSteps = Err ''at least one step is required''"
| "deferrorErr def (StartNotFound n) = Err (''start step not found: '' @ n)"
| "deferrorErr def (Invalid e) = verrorErr def e"

definition checkDefinition :: "WorkflowDefinition \<Rightarrow> unit ego" where
  "checkDefinition def =
     (case validateDefinition def of
        None \<Rightarrow> gret ()
      | Some e \<Rightarrow> gfail (Wrap ''invalid workflow definition: '' (deferrorErr def e)))"

definition RegisterWorkflow :: "env \<Rightarrow> WorkflowDefinition \<Rightarrow> WorkflowDefinition ego" where
  "RegisterWorkflow E def = gseq (checkDefinition def) (onStore (SaveWorkflowDefinition E def))"

section \<open>Missing handlers: cool-down and log throttle\<close>

text \<open>Jitter in \<open>float64\<close>, here in rational arithmetic; at least one millisecond.\<close>

definition jitteredCooldown :: "env \<Rightarrow> int ego" where
  "jitteredCooldown E w =
     (let base = en_missingHandlerCooldown w; pct = en_missingHandlerJitterPct w in
      if base \<le> 0 then (Ok 0, w)
      else if pct \<le> 0 then (Ok base, w)
      else (let s = en_store w;
                delta = (rnd E (ms_cursor s) * 2 - 1) * pct;
                adj = of_int base * (1 + delta);
                adj' = (if adj < 1000000 then 1000000 else adj)
            in (Ok (truncRat adj'), w\<lparr>en_store := s\<lparr>ms_cursor := Suc (ms_cursor s)\<rparr>\<rparr>)))"

definition shouldLogSkip :: "env \<Rightarrow> string \<Rightarrow> bool ego" where
  "shouldLogSkip E key =
     gbind (gread en_missingHandlerLogThrottle) (\<lambda>throttle.
     if throttle \<le> 0 then gret True
     else gbind (readClock E) (\<lambda>now.
          gbind (gread en_skipLogNextAllowed) (\<lambda>allowed.
          case map_of allowed key of
            Some t \<Rightarrow> if now < t then gret False
                      else gseq (gmodify (\<lambda>w. w\<lparr>en_skipLogNextAllowed := AList.update key (now + throttle) allowed\<rparr>))
                             (gret True)
          | None \<Rightarrow> gseq (gmodify (\<lambda>w. w\<lparr>en_skipLogNextAllowed := AList.update key (now + throttle) allowed\<rparr>))
                      (gret True))))"

section \<open>Cancel contexts\<close>

definition registerInstanceContext :: "int \<Rightarrow> int \<Rightarrow> unit ego" where
  "registerInstanceContext instanceID stepID =
     gmodify (\<lambda>w.
       let ids = (case map_of (en_cancelContexts w) instanceID of None \<Rightarrow> [] | Some xs \<Rightarrow> xs)
       in w\<lparr>en_cancelContexts := AList.update instanceID (List.insert stepID ids) (en_cancelContexts w),
            en_cancelled := filter (\<lambda>c. c \<noteq> (instanceID, stepID)) (en_cancelled w)\<rparr>)"

definition unregisterInstanceContext :: "int \<Rightarrow> int \<Rightarrow> unit ego" where
  "unregisterInstanceContext instanceID stepID =
     gmodify (\<lambda>w. case map_of (en_cancelContexts w) instanceID of
         None \<Rightarrow> w
       | Some ids \<Rightarrow>
           (let ids' = removeAll stepID ids
            in w\<lparr>en_cancelContexts := (if ids' = [] then AList.delete instanceID (en_cancelContexts w)
                                       else AList.update instanceID ids' (en_cancelContexts w))\<rparr>))"

definition processCancelRequest :: "int \<Rightarrow> unit ego" where
  "processCancelRequest instanceID =
     gbind (gtry (onStore (GetCancelRequest instanceID))) (\<lambda>r.
     case r of
       Inl _ \<Rightarrow> gret ()
     | Inr _ \<Rightarrow> gmodify (\<lambda>w. case map_of (en_cancelContexts w) instanceID of
           None \<Rightarrow> w
         | Some ids \<Rightarrow> w\<lparr>en_cancelled := map (\<lambda>i. (instanceID, i)) ids @ en_cancelled w,
                          en_cancelContexts := AList.delete instanceID (en_cancelContexts w)\<rparr>))"

definition processCancelRequests :: "unit ego" where
  "processCancelRequests =
     gbind (gread (\<lambda>w. map fst (en_cancelContexts w))) (\<lambda>ids. gforeach processCancelRequest ids)"

definition terminalForCancel :: "WorkflowStatus \<Rightarrow> bool" where
  "terminalForCancel st \<longleftrightarrow> st \<in> {StatusCompleted, StatusFailed, StatusCancelled, StatusAborted}"

definition requestStop ::
    "env \<Rightarrow> CancelType \<Rightarrow> string \<Rightarrow> int \<Rightarrow> string \<Rightarrow> string \<Rightarrow> unit ego" where
  "requestStop E kind eventType instanceID requestedBy reason =
     gbind (gwrap ''get instance: '' (onStore (GetInstance instanceID))) (\<lambda>instance.
     if terminalForCancel (wi_Status instance)
     then gfail (Err (''workflow '' @ itoa instanceID @ '' is already in terminal state: '' @
            workflowStatusStr (wi_Status instance)))
     else gseq (gwrap ''create cancel request: '' (onStore (CreateCancelRequest E
                 \<lparr>cr_ID = 0, cr_InstanceID = instanceID, cr_RequestedBy = requestedBy,
                  cr_CancelType = kind, cr_Reason = Some reason, cr_CreatedAt = 0\<rparr>)))
          (logEvent E instanceID None eventType
             [(''requested_by'', JStr requestedBy), (''reason'', JStr reason),
              (''cancel_type'', JStr (cancelTypeStr kind))]))"

definition CancelWorkflow :: "env \<Rightarrow> int \<Rightarrow> string \<Rightarrow> string \<Rightarrow> unit ego" where
  "CancelWorkflow E = requestStop E CancelTypeCancel ''cancellation_started''"

definition AbortWorkflow :: "env \<Rightarrow> int \<Rightarrow> string \<Rightarrow> string \<Rightarrow> unit ego" where
  "AbortWorkflow E = requestStop E CancelTypeAbort ''abort_started''"

definition Shutdown :: "unit ego" where
  "Shutdown = gmodify (\<lambda>w. w\<lparr>en_isShuttingDown := True\<rparr>)"

definition isTerminalStatus :: "WorkflowStatus \<Rightarrow> bool" where
  "isTerminalStatus st \<longleftrightarrow>
     st \<in> {StatusCompleted, StatusFailed, StatusCancelled, StatusAborted, StatusDLQ}"

section \<open>Handlers and plugins\<close>

fun apiCall :: "env \<Rightarrow> apicall \<Rightarrow> unit ego" where
  "apiCall E (ApiCancel i by r) = gignore (CancelWorkflow E i by r)"
| "apiCall E (ApiAbort i by r) = gignore (AbortWorkflow E i by r)"
| "apiCall E ApiCancelTick = processCancelRequests"

definition callHandler :: "env \<Rightarrow> handler \<Rightarrow> executionContext \<Rightarrow> raw \<Rightarrow> (error + raw) ego" where
  "callHandler E h ctx input =
     gbind (gread en_hcalls) (\<lambda>n.
     gseq (gmodify (\<lambda>w. w\<lparr>en_hcalls := Suc n\<rparr>))
     (gseq (gforeach (apiCall E) (during E n))
     (gret (noPanicExecute h n ctx input))))"

text \<open>A hook whose error is returned to the caller; the other hooks cannot influence the engine.\<close>

definition pluginHook :: "(PluginManager \<Rightarrow> error option) \<Rightarrow> string \<Rightarrow> unit ego" where
  "pluginHook hook msg =
     gbind (gread en_pluginManager) (\<lambda>pm.
     case pm of None \<Rightarrow> gret ()
     | Some ps \<Rightarrow> (case hook ps of None \<Rightarrow> gret () | Some e \<Rightarrow> gfail (Wrap msg e)))"

section \<open>Step values and live steps\<close>

text \<open>
  The engine works on copies of steps (\<open>GetStepsByInstance\<close>) and, after \<open>createFirstStep\<close> and
  \<open>GetStepByID\<close>, on pointers to the stored object. Reading through a live reference sees later
  changes of the store; the value carried along is what is left if the step is deleted.
\<close>

datatype sref = SCopy WorkflowStep | SLive WorkflowStep

fun derefStep :: "MemoryStore \<Rightarrow> sref \<Rightarrow> WorkflowStep" where
  "derefStep s (SCopy st) = st"
| "derefStep s (SLive st) = (case map_of (ms_steps s) (ws_ID st) of None \<Rightarrow> st | Some st' \<Rightarrow> st')"

definition readStep :: "sref \<Rightarrow> WorkflowStep ego" where
  "readStep r = gread (\<lambda>w. derefStep (en_store w) r)"

text \<open>\<open>step.Status = v\<close>\<close>

definition writeStatus :: "sref \<Rightarrow> StepStatus \<Rightarrow> sref ego" where
  "writeStatus r v =
     (case r of
        SCopy st \<Rightarrow> gret (SCopy (st\<lparr>ws_Status := v\<rparr>))
      | SLive st \<Rightarrow> gseq (onStore (gmodify (\<lambda>s. case map_of (ms_steps s) (ws_ID st) of
            None \<Rightarrow> s
          | Some st' \<Rightarrow> s\<lparr>ms_steps := AList.update (ws_ID st) (st'\<lparr>ws_Status := v\<rparr>) (ms_steps s)\<rparr>)))
          (gret r))"

end
