(* ===== verification/Engine_Steps.thy ===== *)
theory Engine_Steps
  imports Engine_State
begin

text \<open>
  The parts of \<open>engine.go\<close> that create and finish work: questions about the steps of an instance,
  enqueueing the next steps, notifying joins of a result, completing a workflow. A store error of
  \<open>GetStepsByInstance\<close>, for which the questions answer \<open>false\<close>, does not occur with the in-memory
  store, so they are functions of the store.
\<close>

section \<open>Questions about an instance\<close>

definition stepsIn :: "MemoryStore \<Rightarrow> int \<Rightarrow> WorkflowStep list" where
  "stepsIn s instanceID = sort_key ws_CreatedAt (stepsOfInstance s instanceID)"

definition hasStatus :: "StepStatus set \<Rightarrow> MemoryStore \<Rightarrow> int \<Rightarrow> bool" where
  "hasStatus S s instanceID = list_ex (\<lambda>st. ws_Status st \<in> S) (stepsIn s instanceID)"

definition hasUnfinishedSteps :: "MemoryStore \<Rightarrow> int \<Rightarrow> bool" where
  "hasUnfinishedSteps = hasStatus {StepStatusPending, StepStatusRunning, StepStatusPaused}"

definition hasFailedOrRolledBackSteps :: "MemoryStore \<Rightarrow> int \<Rightarrow> bool" where
  "hasFailedOrRolledBackSteps = hasStatus {StepStatusFailed, StepStatusRolledBack}"

definition hasStepsInCompensation :: "MemoryStore \<Rightarrow> int \<Rightarrow> bool" where
  "hasStepsInCompensation = hasStatus {StepStatusCompensation}"

text \<open>The definition of an instance, if both are there.\<close>

definition instanceDef :: "MemoryStore \<Rightarrow> int \<Rightarrow> WorkflowDefinition option" where
  "instanceDef s instanceID =
     (case map_of (ms_instances s) instanceID of None \<Rightarrow> None | Some i \<Rightarrow> defAt s (wi_WorkflowID i))"

definition findForkStepForParallelStep :: "MemoryStore \<Rightarrow> int \<Rightarrow> string \<Rightarrow> string" where
  "findForkStepForParallelStep s instanceID parallelStepName =
     (case instanceDef s instanceID of None \<Rightarrow> '''' | Some def \<Rightarrow> findForkOf def parallelStepName)"

definition isStepInForkBranch :: "MemoryStore \<Rightarrow> int \<Rightarrow> string \<Rightarrow> bool" where
  "isStepInForkBranch s instanceID stepName \<longleftrightarrow>
     findForkStepForParallelStep s instanceID stepName \<noteq> ''''"

text \<open>
  \<open>hasPendingStepsInParallelBranches\<close>: the fork is that of the first awaited step that exists and
  has one.
\<close>

definition forkOfWaited :: "MemoryStore \<Rightarrow> int \<Rightarrow> StepDefinition \<Rightarrow> WorkflowStep list \<Rightarrow> string" where
  "forkOfWaited s instanceID joinStepDef allSteps =
     (case find (\<lambda>f. f \<noteq> '''') (map (\<lambda>w.
        if list_ex (\<lambda>st. ws_StepName st = w) allSteps
        then findForkStepForParallelStep s instanceID w else '''') (sd_WaitFor joinStepDef)) of
        None \<Rightarrow> '''' | Some f \<Rightarrow> f)"

definition hasPendingStepsInParallelBranches ::
    "MemoryStore \<Rightarrow> int \<Rightarrow> StepDefinition \<Rightarrow> WorkflowStep list \<Rightarrow> bool" where
  "hasPendingStepsInParallelBranches s instanceID joinStepDef allSteps =
     (let forkStepName = forkOfWaited s instanceID joinStepDef allSteps in
      if forkStepName = '''' then False
      else case instanceDef s instanceID of
        None \<Rightarrow> False
      | Some def \<Rightarrow>
          (case stepDefOf def forkStepName of
             None \<Rightarrow> False
           | Some forkStepDef \<Rightarrow>
               if sd_Type forkStepDef \<noteq> StepTypeFork then False
               else list_ex (\<lambda>step. ws_Status step \<in> {StepStatusPending, StepStatusRunning} \<and>
                      isStepInParallelBranch (ws_StepName step) forkStepDef def \<and>
                      ws_StepName step \<notin> set (sd_WaitFor joinStepDef)) allSteps))"

section \<open>Creating and stopping steps\<close>

definition enqueueNextSteps :: "env \<Rightarrow> int \<Rightarrow> string list \<Rightarrow> raw \<Rightarrow> unit ego" where
  "enqueueNextSteps E instanceID nextSteps input =
     ask ''get instance: '' (GetInstance instanceID) (\<lambda>instance.
     if wi_Status instance = StatusDLQ then gret ()
     else getDefinition (wi_WorkflowID instance) (\<lambda>def.
       gforeach (\<lambda>n. needStep ''step definition not found: '' def n (\<lambda>stepDef.
         ask ''create step: '' (CreateStep E (newStep instanceID n (sd_Type stepDef)
               StepStatusPending input (sd_MaxRetries stepDef))) (\<lambda>step.
         cmd ''enqueue step: '' (EnqueueStep E instanceID (Some (ws_ID step)) PriorityNormal
               (sd_Delay stepDef))
         (gret ())))) nextSteps))"

text \<open>The pointer created here is the one the store keeps.\<close>

definition createFirstStep :: "env \<Rightarrow> WorkflowInstance \<Rightarrow> sref ego" where
  "createFirstStep E instance =
     gbind (onStore (GetWorkflowDefinition (wi_WorkflowID instance))) (\<lambda>def.
     needStep ''start step definition not found: '' def (gd_Start (wd_Definition def)) (\<lambda>startStepDef.
     gbind (onStore (CreateStep E (newStep (wi_ID instance) (gd_Start (wd_Definition def))
             (sd_Type startStepDef) StepStatusPending (wi_Input instance) (sd_MaxRetries startStepDef))))
       (\<lambda>step. gret (SLive step))))"

definition stopActiveSteps :: "env \<Rightarrow> int \<Rightarrow> unit ego" where
  "stopActiveSteps E instanceID =
     ask ''get active steps: '' (GetActiveStepsForUpdate instanceID) (\<lambda>activeSteps.
     gforeach (\<lambda>step.
       cmd (''update step '' @ itoa (ws_ID step) @ '' status to skipped: '')
         (UpdateStep E (ws_ID step) StepStatusSkipped RawNil
            (Some ''Stopped due to workflow cancellation/abort''))
       (logEvent E instanceID (Some (ws_ID step)) ''step_failed''
          [(''step_name'', JStr (ws_StepName step)), (''reason'', JStr ''workflow_stopped'')]))
       activeSteps)"

section \<open>Joins\<close>

text \<open>
  The common part of \<open>notifyJoinStepsForStep\<close> and \<open>notifyJoinSteps\<close>, from \<open>UpdateJoinState\<close> on:
  enter the result, ask whether branches are still busy, and create and enqueue the join step the
  first time the join is ready (paused and not enqueued in the DLQ state).
\<close>

definition createJoinStep :: "env \<Rightarrow> WorkflowInstance \<Rightarrow> int \<Rightarrow> string \<Rightarrow> raw \<Rightarrow> unit ego" where
  "createJoinStep E instance instanceID joinStepName joinInput =
     (if wi_Status instance = StatusDLQ then
        ask ''create join step: '' (CreateStep E (newStep instanceID joinStepName StepTypeJoin
              StepStatusPaused joinInput 0)) (\<lambda>joinStep.
        logEvent E instanceID (Some (ws_ID joinStep)) ''join_ready'' [(''join_step'', JStr joinStepName)])
      else
        ask ''create join step: '' (CreateStep E (newStep instanceID joinStepName StepTypeJoin
              StepStatusPending joinInput 0)) (\<lambda>joinStep.
        cmd ''enqueue join step: '' (EnqueueStep E instanceID (Some (ws_ID joinStep)) PriorityNormal 0)
        (logEvent E instanceID (Some (ws_ID joinStep)) ''join_ready'' [(''join_step'', JStr joinStepName)])))"

definition notifyOneJoin ::
    "env \<Rightarrow> WorkflowInstance \<Rightarrow> int \<Rightarrow> string \<Rightarrow> StepDefinition \<Rightarrow> string \<Rightarrow> bool \<Rightarrow> unit ego" where
  "notifyOneJoin E instance instanceID joinStepName stepDef completedStepName success =
     ask (''update join state for '' @ joinStepName @ '': '')
       (UpdateJoinState E instanceID joinStepName completedStepName success) (\<lambda>ready.
     gbind (gread (\<lambda>w. if ready then stepsIn (en_store w) instanceID else [])) (\<lambda>readySteps.
     gbind (gread (\<lambda>w. ready \<and>
         hasPendingStepsInParallelBranches (en_store w) instanceID stepDef readySteps)) (\<lambda>pending.
     gseq (if pending
           then gignore (onStore (UpdateJoinState E instanceID joinStepName completedStepName success))
           else gret ())
     (gseq (logEvent E instanceID None ''join_updated''
              [(''join_step'', JStr joinStepName), (''completed_step'', JStr completedStepName),
               (''success'', JBool success), (''is_ready'', JBool (ready \<and> \<not> pending))])
     (if ready \<and> \<not> pending \<and> \<not> list_ex (\<lambda>st. ws_StepName st = joinStepName) readySteps
      then createJoinStep E instance instanceID joinStepName
             (case find (\<lambda>st. ws_StepName st = completedStepName) readySteps of
                None \<Rightarrow> RawNil | Some st \<Rightarrow> ws_Input st)
      else gret ())))))"

definition notifyJoinStepsForStep :: "env \<Rightarrow> int \<Rightarrow> string \<Rightarrow> string \<Rightarrow> bool \<Rightarrow> unit ego" where
  "notifyJoinStepsForStep E instanceID joinStepName completedStepName success =
     gbind (onStore (GetInstance instanceID)) (\<lambda>instance.
     gbind (onStore (GetWorkflowDefinition (wi_WorkflowID instance))) (\<lambda>def.
     case stepDefOf def joinStepName of
       None \<Rightarrow> gfail (Err (''join step '' @ joinStepName @ '' not found or not a join step''))
     | Some stepDef \<Rightarrow>
         if sd_Type stepDef \<noteq> StepTypeJoin
         then gfail (Err (''join step '' @ joinStepName @ '' not found or not a join step''))
         else notifyOneJoin E instance instanceID joinStepName stepDef completedStepName success))"

text \<open>The elements of a join state's \<open>WaitingFor\<close>, none if there is no join state.\<close>

definition joinWaiting :: "MemoryStore \<Rightarrow> int \<Rightarrow> string \<Rightarrow> string list" where
  "joinWaiting s instanceID joinStepName =
     (case map_of (ms_joinStates s) (joinStateKey instanceID joinStepName) of
        None \<Rightarrow> [] | Some state \<Rightarrow> derefW s (js_WaitingFor state))"

definition notifyJoinSteps :: "env \<Rightarrow> int \<Rightarrow> string \<Rightarrow> bool \<Rightarrow> unit ego" where
  "notifyJoinSteps E instanceID completedStepName success =
     gbind (onStore (GetInstance instanceID)) (\<lambda>instance.
     gbind (onStore (GetWorkflowDefinition (wi_WorkflowID instance))) (\<lambda>def.
     gforeach (\<lambda>(stepName, stepDef).
       if sd_Type stepDef \<noteq> StepTypeJoin then gret ()
       else gbind (gread (\<lambda>w. completedStepName \<in> set (joinWaiting (en_store w) instanceID stepName) \<or>
                              completedStepName \<in> set (sd_WaitFor stepDef))) (\<lambda>waitingForThis.
         if \<not> waitingForThis then gret ()
         else notifyOneJoin E instance instanceID stepName stepDef completedStepName success))
       (stepsOf def)))"

section \<open>Completing a workflow\<close>

definition lastSavePoint :: "WorkflowStep list \<Rightarrow> WorkflowStep option" where
  "lastSavePoint steps =
     foldl (\<lambda>acc st. if ws_StepType st = StepTypeSavePoint \<and>
                        (case acc of None \<Rightarrow> True | Some sp \<Rightarrow> ws_CreatedAt st > ws_CreatedAt sp)
                     then Some st else acc) None steps"

definition afterSavePoint :: "WorkflowStep option \<Rightarrow> WorkflowStep \<Rightarrow> bool" where
  "afterSavePoint sp step \<longleftrightarrow>
     (case sp of None \<Rightarrow> True | Some p \<Rightarrow> ws_CreatedAt step > ws_CreatedAt p)"

definition hasCompensation :: "WorkflowDefinition \<Rightarrow> WorkflowStep \<Rightarrow> bool" where
  "hasCompensation def step \<longleftrightarrow>
     (case stepDefOf def (ws_StepName step) of None \<Rightarrow> False | Some sd \<Rightarrow> sd_OnFailure sd \<noteq> '''')"

text \<open>
  \<open>enqueueCompletedStepsForRollback\<close>. The first loop marks the steps without compensation at once and
  collects the others, which are then compensated newest first, 10 ms apart. A step whose status
  cannot be updated is not enqueued (the source goes on with the next one).
\<close>

definition enqueueCompletedStepsForRollback :: "env \<Rightarrow> int \<Rightarrow> unit ego" where
  "enqueueCompletedStepsForRollback E instanceID =
     ask ''get steps by instance: '' (GetStepsByInstance instanceID) (\<lambda>steps.
     ask ''get instance: '' (GetInstance instanceID) (\<lambda>instance.
     getDefinition (wi_WorkflowID instance) (\<lambda>def.
     let affected = filter (\<lambda>st. ws_Status st = StepStatusCompleted \<and>
                                 afterSavePoint (lastSavePoint steps) st) steps;
         stepsToRollback = sort_key (\<lambda>st. - ws_CreatedAt st) (filter (hasCompensation def) affected)
     in gseq (gforeach (\<lambda>step.
           gseq (gignore (onStore (UpdateStep E (ws_ID step) StepStatusRolledBack (ws_Input step) None)))
                (logEvent E instanceID (Some (ws_ID step)) ''step_completed''
                   [(''step_name'', JStr (ws_StepName step)), (''reason'', JStr ''rolled_back_no_compensation'')]))
           (filter (\<lambda>st. \<not> hasCompensation def st) affected))
        (gforeach (\<lambda>(idx, step).
           gbind (gtry (onStore (UpdateStepCompensationRetry (ws_ID step) 0 StepStatusCompensation))) (\<lambda>r1.
           case r1 of Inl _ \<Rightarrow> gret ()
           | Inr _ \<Rightarrow>
               gbind (gtry (onStore (EnqueueStep E instanceID (Some (ws_ID step)) PriorityHigh
                       (1000000 * (int idx * 10))))) (\<lambda>r2.
               case r2 of Inl _ \<Rightarrow> gret ()
               | Inr _ \<Rightarrow> logEvent E instanceID (Some (ws_ID step)) ''step_started''
                   [(''step_name'', JStr (ws_StepName step)),
                    (''reason'', JStr ''enqueued_for_rollback_after_failure'')])))
           (enumerate 0 stepsToRollback)))))"

text \<open>The plugin hooks on the final instance cannot influence the engine and are left out.\<close>

definition markFailed :: "env \<Rightarrow> int \<Rightarrow> string \<Rightarrow> unit ego" where
  "markFailed E instanceID workflowID =
     (let errMsg = ''workflow has failed or rolled back steps'' in
      cmd ''update instance status to failed: ''
        (UpdateInstanceStatus E instanceID StatusFailed RawNil (Some errMsg))
      (logEvent E instanceID None ''workflow_failed''
         [(''workflow_id'', JStr workflowID), (''reason'', JStr errMsg)]))"

definition completeWorkflow :: "env \<Rightarrow> WorkflowInstance \<Rightarrow> raw \<Rightarrow> unit ego" where
  "completeWorkflow E instance output =
     gbind (gread (\<lambda>w. hasFailedOrRolledBackSteps (en_store w) (wi_ID instance))) (\<lambda>failed.
     if failed then
       gseq (gignore (enqueueCompletedStepsForRollback E (wi_ID instance)))
       (gbind (gread (\<lambda>w. hasStepsInCompensation (en_store w) (wi_ID instance))) (\<lambda>compensating.
        if compensating
        then logEvent E (wi_ID instance) None ''workflow_failed''
               [(''workflow_id'', JStr (wi_WorkflowID instance)),
                (''reason'', JStr ''compensation_in_progress'')]
        else markFailed E (wi_ID instance) (wi_WorkflowID instance)))
     else
       cmd ''update instance status: ''
         (UpdateInstanceStatus E (wi_ID instance) StatusCompleted output None)
       (logEvent E (wi_ID instance) None ''workflow_completed''
          [(''workflow_id'', JStr (wi_WorkflowID instance))]))"

end
