(* ===== verification/Engine_Rollback.thy ===== *)
theory Engine_Rollback
  imports Engine_Steps
begin

text \<open>
  Rollback, compensation and cancellation (\<open>engine.go\<close>). The recursion of
  \<open>rollbackStepChainWithVisited\<close> is bounded by fuel; every level that calls itself has entered one
  more step of the definition into \<open>visited\<close>, so \<open>Suc\<close> of the number of steps is enough
  (\<open>rollback_fuel_enough\<close>). The depth argument of the source only feeds a plugin hook whose result
  is dropped; hook and argument are left out.
\<close>

section \<open>One step\<close>

definition retryDelayOf :: "env \<Rightarrow> StepDefinition \<Rightarrow> int \<Rightarrow> int" where
  "retryDelayOf E onFailureStep attempt =
     (let d = CalculateRetryDelay (conv64 E) (sd_RetryStrategy onFailureStep)
                (sd_RetryDelay onFailureStep) attempt
      in if d = 0 then sd_Delay onFailureStep else d)"

definition rollbackStep :: "env \<Rightarrow> WorkflowStep \<Rightarrow> WorkflowDefinition \<Rightarrow> unit ego" where
  "rollbackStep E step def =
     needStep ''step definition not found: '' def (ws_StepName step) (\<lambda>stepDef.
     case stepDefOf def (sd_OnFailure stepDef) of
       None \<Rightarrow>
         cmd ''update step status: '' (UpdateStep E (ws_ID step) StepStatusRolledBack (ws_Input step) None)
         (gret ())
     | Some onFailureStep \<Rightarrow>
         if ws_CompensationRetryCount step \<ge> sd_MaxRetries onFailureStep then
           (let reason = ''compensation max retries exceeded'' in
            cmd ''update step status: '' (UpdateStep E (ws_ID step) StepStatusFailed (ws_Input step) None)
            (gseq (logEvent E (ws_InstanceID step) (Some (ws_ID step)) ''step_failed''
                     [(''step_name'', JStr (ws_StepName step)),
                      (''step_type'', JStr (stepTypeStr (ws_StepType step))), (''error'', JStr reason)])
            (cmd ''create dead letter record: '' (CreateDeadLetterRecord E
                \<lparr>dl_ID = 0, dl_InstanceID = ws_InstanceID step, dl_WorkflowID = wd_ID def,
                 dl_StepID = ws_ID step, dl_StepName = ws_StepName step,
                 dl_StepType = stepTypeStr (ws_StepType step), dl_Input = ws_Input step,
                 dl_Error = ws_Error step, dl_Reason = reason, dl_CreatedAt = 0\<rparr>)
             (gret ()))))
         else
           (let newRetryCount = ws_CompensationRetryCount step + 1 in
            cmd ''update step compensation retry: ''
              (UpdateStepCompensationRetry (ws_ID step) newRetryCount StepStatusCompensation)
            (cmd ''enqueue compensation step: '' (EnqueueStep E (ws_InstanceID step) (Some (ws_ID step))
                PriorityHigh (retryDelayOf E onFailureStep newRetryCount))
            (logEvent E (ws_InstanceID step) (Some (ws_ID step)) ''step_started''
               [(''step_name'', JStr (ws_StepName step)),
                (''step_type'', JStr (stepTypeStr (ws_StepType step))),
                (''retry_count'', jnum newRetryCount), (''reason'', JStr ''compensation'')]))))"

section \<open>The chain\<close>

text \<open>
  Result: the \<open>visited\<close> map, as a list. The first recursive calls go into parallel branches (\<open>par\<close>),
  the last one goes back along \<open>Prev\<close>.
\<close>

primrec rollbackStepChainWithVisited ::
    "nat \<Rightarrow> env \<Rightarrow> WorkflowDefinition \<Rightarrow> (string \<rightharpoonup> WorkflowStep) \<Rightarrow> string \<Rightarrow> bool \<Rightarrow>
     string \<Rightarrow> string list \<Rightarrow> string list ego" where
  "rollbackStepChainWithVisited 0 E def stepMap savePointName isParallel currentStep visited0 = gfuel"
| "rollbackStepChainWithVisited (Suc fuel) E def stepMap savePointName isParallel currentStep visited0 =
     (if currentStep \<in> set visited0 then gret visited0
      else if currentStep = savePointName then gret (currentStep # visited0)
      else needStep ''step definition not found: '' def currentStep (\<lambda>stepDef.
        let par = rollbackStepChainWithVisited fuel E def stepMap savePointName True in
        gbind (if isForkType (sd_Type stepDef) then gfold par (sd_Parallel stepDef) (currentStep # visited0)
               else gret (currentStep # visited0)) (\<lambda>visited1.
        gbind (if isParallel then
                 (if sd_Type stepDef = StepTypeCondition then
                    (case stepMap currentStep of
                       None \<Rightarrow> gret visited1
                     | Some step \<Rightarrow>
                         if ws_Status step = StepStatusCompleted then
                           (case determineExecutedBranch stepDef stepMap of
                              BranchNext \<Rightarrow> gfold par (sd_Next stepDef) visited1
                            | BranchElse \<Rightarrow> par (sd_Else stepDef) visited1
                            | BranchNone \<Rightarrow> gret visited1)
                         else gret visited1)
                  else gfold par (sd_Next stepDef) visited1)
               else gret visited1) (\<lambda>visited2.
        gseq (case stepMap currentStep of
                None \<Rightarrow> gret ()
              | Some step \<Rightarrow>
                  if ws_Status step \<in> {StepStatusCompleted, StepStatusFailed}
                  then gwrap (''rollback step '' @ currentStep @ '': '') (rollbackStep E step def)
                  else gret ())
        (if sd_Prev stepDef \<noteq> '''' \<and> sd_Prev stepDef \<noteq> rootStepName \<and> \<not> isParallel then
           gbind (case stepDefOf def (sd_Prev stepDef) of
                    None \<Rightarrow> gret visited2
                  | Some prevDef \<Rightarrow>
                      if isForkType (sd_Type prevDef) then gfold par (sd_Parallel prevDef) visited2
                      else gret visited2) (\<lambda>visited3.
           rollbackStepChainWithVisited fuel E def stepMap savePointName False (sd_Prev stepDef) visited3)
         else gret visited2)))))"

definition chainFuel :: "WorkflowDefinition \<Rightarrow> nat" where
  "chainFuel def = Suc (length (stepsOf def))"

definition rollbackStepChain ::
    "env \<Rightarrow> string \<Rightarrow> string \<Rightarrow> WorkflowDefinition \<Rightarrow> (string \<rightharpoonup> WorkflowStep) \<Rightarrow> bool \<Rightarrow> unit ego" where
  "rollbackStepChain E currentStep savePointName def stepMap isParallel =
     gbind (rollbackStepChainWithVisited (chainFuel def) E def stepMap savePointName isParallel
              currentStep []) (\<lambda>_. gret ())"

text \<open>Filling \<open>stepMap\<close> in the order of the steps: the last step of a name stays.\<close>

definition stepMapOf :: "WorkflowStep list \<Rightarrow> string \<rightharpoonup> WorkflowStep" where
  "stepMapOf steps = map_of (rev (map (\<lambda>st. (ws_StepName st, st)) steps))"

definition rollbackStepsToSavePoint ::
    "env \<Rightarrow> int \<Rightarrow> sref \<Rightarrow> string \<Rightarrow> WorkflowDefinition \<Rightarrow> unit ego" where
  "rollbackStepsToSavePoint E instanceID failedStep savePointName def =
     ask ''get steps by instance: '' (GetStepsByInstance instanceID) (\<lambda>steps.
     gbind (readStep failedStep) (\<lambda>failed.
     let stepMap = (case stepMapOf steps (ws_StepName failed) of
           Some _ \<Rightarrow> stepMapOf steps
         | None \<Rightarrow> (stepMapOf steps)(ws_StepName failed \<mapsto> failed))
     in rollbackStepChain E (ws_StepName failed) savePointName def stepMap False))"

definition rollbackToSavePointOrRoot ::
    "env \<Rightarrow> int \<Rightarrow> sref \<Rightarrow> WorkflowDefinition \<Rightarrow> unit ego" where
  "rollbackToSavePointOrRoot E instanceID failedStep def =
     gbind (readStep failedStep) (\<lambda>failed.
     rollbackStepsToSavePoint E instanceID failedStep
       (findNearestSavePoint (ws_StepName failed) def) def)"

definition stopParallelBranchesInFork :: "env \<Rightarrow> int \<Rightarrow> string \<Rightarrow> WorkflowDefinition \<Rightarrow> unit ego" where
  "stopParallelBranchesInFork E instanceID failedStepName def =
     gbind (gread (\<lambda>w. findForkStepForParallelStep (en_store w) instanceID failedStepName)) (\<lambda>forkStepName.
     if forkStepName = '''' then gret ()
     else case stepDefOf def forkStepName of
       None \<Rightarrow> gret ()
     | Some forkStepDef \<Rightarrow>
         if sd_Type forkStepDef \<noteq> StepTypeFork then gret ()
         else ask ''get steps: '' (GetStepsByInstance instanceID) (\<lambda>steps.
           gforeach (\<lambda>step.
             if ws_StepName step = failedStepName then gret ()
             else if \<not> isStepInParallelBranch (ws_StepName step) forkStepDef def then gret ()
             else if ws_Status step \<noteq> StepStatusPending \<and> ws_Status step \<noteq> StepStatusRunning then gret ()
             else (let skipMsg = ''Skipped due to parallel branch failure'' in
               gbind (gtry (onStore (UpdateStep E (ws_ID step) StepStatusSkipped RawNil (Some skipMsg)))) (\<lambda>r.
               case r of Inl _ \<Rightarrow> gret ()
               | Inr _ \<Rightarrow> logEvent E instanceID (Some (ws_ID step)) ''step_failed''
                   [(''step_name'', JStr (ws_StepName step)), (''reason'', JStr ''parallel_branch_failure''),
                    (''message'', JStr skipMsg)]))) steps))"

section \<open>Cancellation\<close>

definition handleCancellation ::
    "env \<Rightarrow> WorkflowInstance \<Rightarrow> WorkflowStep \<Rightarrow> WorkflowCancelRequest \<Rightarrow> unit ego" where
  "handleCancellation E instance step req =
     (let iid = wi_ID instance; reason = (case cr_Reason req of None \<Rightarrow> '''' | Some r \<Rightarrow> r);
          who = [(''requested_by'', JStr (cr_RequestedBy req)), (''reason'', JStr reason)] in
      gseq (gwrap ''stop active steps: '' (stopActiveSteps E iid))
      (gseq
        (if cr_CancelType req = CancelTypeCancel then
           cmd ''update instance status to cancelling: ''
             (UpdateInstanceStatus E iid StatusCancelling RawNil None)
           (getDefinition (wi_WorkflowID instance) (\<lambda>def.
            ask ''get steps: '' (GetStepsByInstance iid) (\<lambda>steps.
            gseq
              (case find (\<lambda>st. ws_Status st = StepStatusCompleted) (rev steps) of
                 None \<Rightarrow> gret ()
               | Some lastCompletedStep \<Rightarrow>
                   gbind (gtry (rollbackStepChain E (ws_StepName lastCompletedStep) rootStepName def
                            (stepMapOf steps) False)) (\<lambda>r.
                   case r of
                     Inr _ \<Rightarrow> gret ()
                   | Inl err \<Rightarrow>
                       gseq (logEvent E iid (Some (ws_ID step)) ''workflow_cancelled''
                               (who @ [(''error'', JStr (''rollback failed: '' @ errStr err))]))
                       (gseq (gignore (onStore (UpdateInstanceStatus E iid StatusFailed RawNil
                                (Some (''cancellation rollback failed: '' @ errStr err)))))
                       (gseq (gignore (onStore (DeleteCancelRequest iid)))
                       (gfail (Wrap ''rollback failed: '' err))))))
            (cmd ''update instance status to cancelled: ''
               (UpdateInstanceStatus E iid StatusCancelled RawNil
                  (Some (''Cancelled by '' @ cr_RequestedBy req @ '': '' @ reason)))
            (logEvent E iid (Some (ws_ID step)) ''workflow_cancelled'' who)))))
         else
           cmd ''update instance status to aborted: ''
             (UpdateInstanceStatus E iid StatusAborted RawNil
                (Some (''Aborted by '' @ cr_RequestedBy req @ '': '' @ reason)))
           (logEvent E iid (Some (ws_ID step)) ''workflow_aborted'' who))
      (gignore (onStore (DeleteCancelRequest iid)))))"

section \<open>Running a compensation\<close>

definition compensationContext :: "WorkflowStep \<Rightarrow> StepDefinition \<Rightarrow> executionContext" where
  "compensationContext step onFailureStep =
     \<lparr>ec_instanceID = ws_InstanceID step, ec_stepName = ws_StepName step,
      ec_idempotencyKey = ws_IdempotencyKey step, ec_retryCount = ws_CompensationRetryCount step,
      ec_variables = AList.update ''reason'' (JStr ''compensation'') (sd_Metadata onFailureStep)\<rparr>"

definition compensationFailed ::
    "env \<Rightarrow> WorkflowStep \<Rightarrow> StepDefinition \<Rightarrow> error \<Rightarrow> unit ego" where
  "compensationFailed E step onFailureStep compensationErr =
     (if ws_CompensationRetryCount step < sd_MaxRetries onFailureStep then
        (let newRetryCount = ws_CompensationRetryCount step + 1 in
         cmd ''update compensation retry: ''
           (UpdateStepCompensationRetry (ws_ID step) newRetryCount StepStatusCompensation)
         (cmd ''enqueue compensation retry: '' (EnqueueStep E (ws_InstanceID step) (Some (ws_ID step))
             PriorityHigh (retryDelayOf E onFailureStep newRetryCount))
         (logEvent E (ws_InstanceID step) (Some (ws_ID step)) ''step_failed''
            [(''step_name'', JStr (ws_StepName step)),
             (''step_type'', JStr (stepTypeStr (ws_StepType step))),
             (''error'', JStr (errStr compensationErr)), (''retry_count'', jnum newRetryCount),
             (''reason'', JStr ''compensation_retry'')])))
      else
        cmd ''update step status: ''
          (UpdateStep E (ws_ID step) StepStatusFailed (ws_Input step) (Some (errStr compensationErr)))
        (logEvent E (ws_InstanceID step) (Some (ws_ID step)) ''step_failed''
           [(''step_name'', JStr (ws_StepName step)),
            (''step_type'', JStr (stepTypeStr (ws_StepType step))),
            (''error'', JStr ''compensation max retries exceeded'')]))"

definition compensationDone :: "env \<Rightarrow> WorkflowInstance \<Rightarrow> WorkflowStep \<Rightarrow> unit ego" where
  "compensationDone E instance step =
     cmd ''update step status: '' (UpdateStep E (ws_ID step) StepStatusRolledBack (ws_Input step) None)
     (gseq (logEvent E (ws_InstanceID step) (Some (ws_ID step)) ''step_completed''
              [(''step_name'', JStr (ws_StepName step)),
               (''step_type'', JStr (stepTypeStr (ws_StepType step))),
               (''retry_count'', jnum (ws_CompensationRetryCount step)),
               (''reason'', JStr ''compensation_success'')])
     (gbind (gread en_store) (\<lambda>s.
      if \<not> hasUnfinishedSteps s (ws_InstanceID step) \<and> \<not> hasStepsInCompensation s (ws_InstanceID step) \<and>
         hasFailedOrRolledBackSteps s (ws_InstanceID step)
      then markFailed E (ws_InstanceID step) (wi_WorkflowID instance)
      else gret ())))"

text \<open>
  \<open>executeCompensationStep\<close>. The timeout only bounds the handler's context. \<open>step\<close> is the value
  \<open>ExecuteNext\<close> read before; a step whose item has no step identifier is never in compensation.
\<close>

definition executeCompensationStep :: "env \<Rightarrow> WorkflowInstance \<Rightarrow> WorkflowStep \<Rightarrow> unit ego" where
  "executeCompensationStep E instance step =
     getDefinition (wi_WorkflowID instance) (\<lambda>def.
     needStep ''step definition not found: '' def (ws_StepName step) (\<lambda>stepDef.
     let rolledBack = cmd ''update step status: ''
           (UpdateStep E (ws_ID step) StepStatusRolledBack (ws_Input step) None) (gret ())
     in case stepDefOf def (sd_OnFailure stepDef) of
       None \<Rightarrow> rolledBack
     | Some onFailureStep \<Rightarrow>
         gbind (gread (\<lambda>w. map_of (en_handlers w) (sd_Handler onFailureStep))) (\<lambda>h.
         case h of
           None \<Rightarrow> rolledBack
         | Some handler \<Rightarrow>
             gbind (callHandler E handler (compensationContext step onFailureStep) (ws_Input step)) (\<lambda>r.
             case r of
               Inl compensationErr \<Rightarrow> compensationFailed E step onFailureStep compensationErr
             | Inr _ \<Rightarrow> compensationDone E instance step))))"

end
