(* ===== verification/Engine.thy ===== *)
theory Engine
  imports Engine_Rollback
begin

text \<open>
  The operations of \<open>engine.go\<close> that run workflows: starting an instance, taking an item from the
  queue and executing its step by type, the consequences of success and failure, human decisions.

  \<open>MemoryTxManager\<close> runs its function without a transaction, so \<open>ReadCommitted\<close> is the function. The
  channel \<open>humanDecisionWaitingEvents\<close>, once asked for, is the list of the events received from it. A
  step timeout is visible to the handler's context only.
\<close>

section \<open>Executing a step by type\<close>

definition executeTask :: "env \<Rightarrow> WorkflowInstance \<Rightarrow> WorkflowStep \<Rightarrow> StepDefinition \<Rightarrow> raw ego" where
  "executeTask E instance step stepDef =
     gbind (gread (\<lambda>w. map_of (en_handlers w) (sd_Handler stepDef))) (\<lambda>h.
     case h of
       None \<Rightarrow> gfail (Err (''handler not found: '' @ sd_Handler stepDef))
     | Some handler \<Rightarrow>
         gbind (callHandler E handler
           \<lparr>ec_instanceID = wi_ID instance, ec_stepName = ws_StepName step,
            ec_idempotencyKey = ws_IdempotencyKey step, ec_retryCount = ws_RetryCount step,
            ec_variables = sd_Metadata stepDef\<rparr> (ws_Input step)) (\<lambda>r.
         case r of Inl err \<Rightarrow> gfail err | Inr out \<Rightarrow> gret out))"

text \<open>
  \<open>executeFork\<close> hands the slice \<open>WaitFor\<close> of the join's definition, or \<open>Parallel\<close> of its own, to the
  join state without copying it.
\<close>

definition forkBranch :: "env \<Rightarrow> WorkflowInstance \<Rightarrow> WorkflowStep \<Rightarrow> WorkflowDefinition \<Rightarrow> string \<Rightarrow> unit ego" where
  "forkBranch E instance step def n =
     needStep ''parallel step definition not found: '' def n (\<lambda>parallelStepDef.
     ask (''create fork step '' @ n @ '': '') (CreateStep E (newStep (wi_ID instance) n
           (sd_Type parallelStepDef) StepStatusPending (ws_Input step) (sd_MaxRetries parallelStepDef)))
       (\<lambda>parallelStep.
     cmd (''enqueue fork step '' @ n @ '': '') (EnqueueStep E (wi_ID instance) (Some (ws_ID parallelStep))
           PriorityNormal (sd_Delay parallelStepDef)) (gret ())))"

definition forkJoinState ::
    "env \<Rightarrow> WorkflowInstance \<Rightarrow> WorkflowStep \<Rightarrow> StepDefinition \<Rightarrow> nat \<Rightarrow> WorkflowDefinition \<Rightarrow> string \<Rightarrow> unit ego" where
  "forkJoinState E instance step stepDef addr def n =
     (case stepDefOf def n of
        None \<Rightarrow> gret ()
      | Some nextStepDef \<Rightarrow>
          if sd_Type nextStepDef \<noteq> StepTypeJoin then gret ()
          else (let strategy = (if sd_JoinStrategy nextStepDef = JoinStrategyOther ''''
                                then JoinStrategyAll else sd_JoinStrategy nextStepDef);
                    waitFor = (if length (sd_WaitFor nextStepDef) = 0 then sd_Parallel stepDef
                               else sd_WaitFor nextStepDef);
                    ref = (if length (sd_WaitFor nextStepDef) = 0 then WPar addr (ws_StepName step)
                           else WDef addr n)
                in cmd ''create join state: '' (CreateJoinState E (wi_ID instance) n ref strategy)
                   (logEvent E (wi_ID instance) (Some (ws_ID step)) ''join_state_created''
                      [(''join_step'', JStr n), (''waiting_for'', jstrs waitFor),
                       (''strategy'', JStr (joinStrategyStr strategy))])))"

definition executeFork :: "env \<Rightarrow> WorkflowInstance \<Rightarrow> WorkflowStep \<Rightarrow> StepDefinition \<Rightarrow> raw ego" where
  "executeFork E instance step stepDef =
     gseq (logEvent E (wi_ID instance) (Some (ws_ID step)) ''fork_started''
             [(''parallel_steps'', jstrs (sd_Parallel stepDef))])
     (getDefinition (wi_WorkflowID instance) (\<lambda>def.
      gbind (gread (\<lambda>w. case map_of (ms_definitions (en_store w)) (wi_WorkflowID instance) of
          None \<Rightarrow> 0 | Some a \<Rightarrow> a)) (\<lambda>addr.
      gseq (gforeach (forkBranch E instance step def) (sd_Parallel stepDef))
      (gseq (gforeach (forkJoinState E instance step stepDef addr def) (sd_Next stepDef))
      (gret (RawJson (JObj [(''status'', JStr ''forked''),
                            (''parallel_steps'', jstrs (sd_Parallel stepDef))])))))))"

text \<open>A slice of strings printed with \<open>%v\<close>.\<close>

fun fmtStrs :: "string list \<Rightarrow> string" where
  "fmtStrs [] = ''''"
| "fmtStrs [x] = x"
| "fmtStrs (x # y # ys) = x @ '' '' @ fmtStrs (y # ys)"

text \<open>The outputs of the completed steps the join waits for; a later step of the same name wins.\<close>

definition joinOutputs :: "string list \<Rightarrow> WorkflowStep list \<Rightarrow> (string \<times> raw) list" where
  "joinOutputs waitingFor steps =
     foldl (\<lambda>m st. AList.update (ws_StepName st) (ws_Output st) m) []
       (filter (\<lambda>st. ws_StepName st \<in> set waitingFor \<and> ws_Status st = StepStatusCompleted) steps)"

fun marshalOutputs :: "(string \<times> raw) list \<Rightarrow> (string \<times> jval) list option" where
  "marshalOutputs [] = Some []"
| "marshalOutputs ((n, r) # kvs) =
     (case marshalRaw r of None \<Rightarrow> None
      | Some v \<Rightarrow> map_option (\<lambda>vs. (n, v) # vs) (marshalOutputs kvs))"

definition executeJoin :: "env \<Rightarrow> WorkflowInstance \<Rightarrow> WorkflowStep \<Rightarrow> raw ego" where
  "executeJoin E instance step =
     ask ''get join state: '' (GetJoinState (wi_ID instance) (ws_StepName step)) (\<lambda>joinState.
     gbind (gread (\<lambda>w. derefW (en_store w) (js_WaitingFor joinState))) (\<lambda>waitingFor.
     gseq (logEvent E (wi_ID instance) (Some (ws_ID step)) ''join_check''
             [(''waiting_for'', jstrs waitingFor), (''completed'', jstrs (js_Completed joinState)),
              (''failed'', jstrs (js_Failed joinState)), (''is_ready'', JBool (js_IsReady joinState))])
     (if \<not> js_IsReady joinState
      then gfail (Err (''join not ready: waiting for ['' @ fmtStrs waitingFor @ '']''))
      else ask ''get steps: '' (GetStepsByInstance (wi_ID instance)) (\<lambda>steps.
        if length (js_Failed joinState) > 0 \<and> js_JoinStrategy joinState = JoinStrategyAll
        then gfail (Err (''join failed: '' @ itoa (int (length (js_Failed joinState))) @ '' steps failed''))
        else (let results = map_option (\<lambda>outs.
                    JObj [(''completed'', jstrs (js_Completed joinState)),
                          (''failed'', jstrs (js_Failed joinState)),
                          (''strategy'', JStr (joinStrategyStr (js_JoinStrategy joinState))),
                          (''outputs'', JObj outs), (''status'', JStr ''success'')])
                    (marshalOutputs (joinOutputs waitingFor steps))
              in gseq (gignore (onStore (LogEvent E (wi_ID instance) (Some (ws_ID step))
                         ''join_completed'' results)))
                 (case results of
                    None \<Rightarrow> gfail (Err ''json: error calling MarshalJSON for type json.RawMessage'')
                  | Some v \<Rightarrow> gret (RawJson v)))))))"

definition executeCondition ::
    "env \<Rightarrow> WorkflowInstance \<Rightarrow> WorkflowStep \<Rightarrow> StepDefinition \<Rightarrow> (raw \<times> bool) ego" where
  "executeCondition E instance step stepDef =
     (let inputData = (case unmarshalMap (ws_Input step) of Some (Some kvs) \<Rightarrow> kvs | _ \<Rightarrow> []);
          stepCtx = \<lparr>ec_instanceID = ws_InstanceID step, ec_stepName = ws_StepName step,
            ec_idempotencyKey = ws_IdempotencyKey step, ec_retryCount = 0, ec_variables = inputData\<rparr>
      in case evaluateCondition E (sd_Condition stepDef) stepCtx of
           Inl err \<Rightarrow>
             gseq (logEvent E (wi_ID instance) (Some (ws_ID step)) ''condition_check''
                     [(''step_name'', JStr (ws_StepName step)), (''error'', JStr (errStr err))])
             (gfail (Wrap ''evaluate condition: '' err))
         | Inr result \<Rightarrow>
             gseq (logEvent E (wi_ID instance) (Some (ws_ID step)) ''condition_check''
                     [(''step_name'', JStr (ws_StepName step)), (''result'', JBool result)])
             (gret (ws_Input step, result)))"

section \<open>Human steps\<close>

text \<open>
  The input as a Go map to which entries are added: what cannot be unmarshalled counts as an empty
  map, but a JSON \<open>null\<close> leaves the map nil, and assigning to a nil map panics.
\<close>

definition extendInput :: "raw \<Rightarrow> (string \<times> jval) list \<Rightarrow> raw ego" where
  "extendInput input kvs =
     (case unmarshalMap input of
        Some None \<Rightarrow> gpanic ''assignment to entry in nil map''
      | Some (Some m) \<Rightarrow> gret (RawJson (JObj (foldl (\<lambda>m (k, v). AList.update k v m) m kvs)))
      | None \<Rightarrow> gret (RawJson (JObj (foldl (\<lambda>m (k, v). AList.update k v m) [] kvs))))"

definition processHumanDecision ::
    "env \<Rightarrow> WorkflowInstance \<Rightarrow> WorkflowStep \<Rightarrow> HumanDecisionRecord \<Rightarrow> (raw \<times> bool) ego" where
  "processHumanDecision E instance step decision =
     (let info = [(''step_name'', JStr (ws_StepName step)),
                  (''decision'', JStr (humanDecisionStr (hd_Decision decision))),
                  (''decided_by'', JStr (hd_DecidedBy decision))];
          newStatus = (case hd_Decision decision of
              HumanDecisionConfirmed \<Rightarrow> StepStatusConfirmed
            | HumanDecisionRejected \<Rightarrow> StepStatusRejected
            | HumanDecisionOther _ \<Rightarrow> StepStatusEmpty)
      in gseq (case hd_Decision decision of
             HumanDecisionConfirmed \<Rightarrow>
               logEvent E (wi_ID instance) (Some (ws_ID step)) ''step_completed'' info
           | HumanDecisionRejected \<Rightarrow>
               cmd ''update instance status: '' (UpdateInstanceStatus E (wi_ID instance) StatusAborted
                     RawNil (Some ''Step was rejected by human''))
               (logEvent E (wi_ID instance) (Some (ws_ID step)) ''step_failed'' info)
           | HumanDecisionOther _ \<Rightarrow> gret ())
         (cmd ''update step status: '' (UpdateStepStatus (ws_ID step) newStatus)
         (gbind (extendInput (ws_Input step)
             ([(''status'', JStr (humanDecisionStr (hd_Decision decision))),
               (''decided_by'', JStr (hd_DecidedBy decision))] @
              (case hd_Comment decision of None \<Rightarrow> [] | Some c \<Rightarrow> [(''comment'', JStr c)]) @
              [(''decided_at'', JTime (hd_DecidedAt decision))])) (\<lambda>output.
          gret (output, newStatus = StepStatusRejected)))))"

definition HumanDecisionWaitingEvents :: "unit ego" where
  "HumanDecisionWaitingEvents = gmodify (\<lambda>w. case en_humanEvents w of
     None \<Rightarrow> w\<lparr>en_humanEvents := Some []\<rparr> | Some _ \<Rightarrow> w)"

definition sendHumanEvent :: "int \<Rightarrow> raw \<Rightarrow> unit ego" where
  "sendHumanEvent instanceID output = gmodify (\<lambda>w. case en_humanEvents w of
     None \<Rightarrow> w | Some evs \<Rightarrow> w\<lparr>en_humanEvents := Some (evs @ [(instanceID, output)])\<rparr>)"

text \<open>Result: output, whether the instance was aborted, and the step, whose status may have been set.\<close>

definition executeHuman ::
    "env \<Rightarrow> WorkflowInstance \<Rightarrow> sref \<Rightarrow> StepDefinition \<Rightarrow> (raw \<times> bool \<times> sref) ego" where
  "executeHuman E instance ref stepDef =
     gbind (readStep ref) (\<lambda>step.
     gbind (gtry (onStore (GetHumanDecision (ws_ID step)))) (\<lambda>d.
     case d of
       Inr decision \<Rightarrow>
         gbind (processHumanDecision E instance step decision) (\<lambda>(output, aborted).
         gret (output, aborted, ref))
     | Inl err \<Rightarrow>
         if \<not> errIsNotFound err then gfail (Wrap ''get human decision: '' err)
         else gbind (writeStatus ref StepStatusWaitingDecision) (\<lambda>ref'.
           cmd ''update step status to waiting_decision: ''
             (UpdateStepStatus (ws_ID step) StepStatusWaitingDecision)
           (cmd ''enqueue step: '' (EnqueueStep E (wi_ID instance) (Some (ws_ID step)) PriorityHigher
                 (sd_Delay stepDef))
           (gseq (logEvent E (wi_ID instance) (Some (ws_ID step)) ''step_started''
                    [(''step_name'', JStr (ws_StepName step)),
                     (''step_type'', JStr (stepTypeStr (sd_Type stepDef))),
                     (''reason'', JStr ''waiting_for_human_decision'')])
           (gbind (extendInput (ws_Input step)
               [(''status'', JStr ''waiting_decision''),
                (''message'', JStr ''Step is waiting for human decision'')]) (\<lambda>output.
            gseq (sendHumanEvent (wi_ID instance) output)
            (gret (output, False, ref')))))))))"

section \<open>Consequences of a result\<close>

text \<open>
  In a branch of a condition the placeholder \<open>cond#<name>\<close> of the join is replaced by the step that
  ran, and the join is told its result. The same code with other messages serves both outcomes.
\<close>

definition replaceVirtualStep ::
    "env \<Rightarrow> int \<Rightarrow> WorkflowStep \<Rightarrow> string \<Rightarrow> string \<Rightarrow> bool \<Rightarrow> unit ego" where
  "replaceVirtualStep E instanceID step joinStepName conditionStepName success =
     (let virtualStep = ''cond#'' @ conditionStepName; name = ws_StepName step;
          ty = (if success then ''step_completed'' else ''step_failed'');
          note = (\<lambda>k v. logEvent E instanceID (Some (ws_ID step)) ty
                   [(''step_name'', JStr name), (k, JStr v)])
      in gbind (gtry (onStore (ReplaceInJoinWaitFor E instanceID joinStepName virtualStep name))) (\<lambda>r.
         case r of
           Inl err \<Rightarrow> note ''error'' (''Failed to replace virtual step in join waitFor: '' @ errStr err)
         | Inr _ \<Rightarrow>
             gseq (note ''message'' (''Replaced virtual step '' @ virtualStep @ '' with '' @ name @
                     '' in join '' @ joinStepName @ (if success then '''' else '' (failed)'')))
             (gbind (gtry (notifyJoinStepsForStep E instanceID joinStepName name success)) (\<lambda>r2.
              case r2 of
                Inr _ \<Rightarrow> gret ()
              | Inl err \<Rightarrow> note ''error''
                  (''Failed to notify join after virtual step replacement: '' @ errStr err)))))"

definition joinOfBranch :: "int \<Rightarrow> string \<Rightarrow> WorkflowDefinition \<Rightarrow> string ego" where
  "joinOfBranch instanceID stepName def = gread (\<lambda>w.
     findJoinStepForForkBranch (findForkStepForParallelStep (en_store w) instanceID) stepName def)"

text \<open>Outside conditions, a terminal step of a branch is added to the join that follows the fork.\<close>

definition addTerminalStep ::
    "env \<Rightarrow> int \<Rightarrow> WorkflowStep \<Rightarrow> WorkflowDefinition \<Rightarrow> string \<Rightarrow> unit ego" where
  "addTerminalStep E instanceID step def joinStepName =
     (let name = ws_StepName step;
          note = (\<lambda>k v. logEvent E instanceID (Some (ws_ID step)) ''step_completed''
                   [(''step_name'', JStr name), (k, JStr v)])
      in gbind (gtry (onStore (GetJoinState instanceID joinStepName))) (\<lambda>r.
         case r of
           Inr joinState \<Rightarrow>
             gbind (gread (\<lambda>w. derefW (en_store w) (js_WaitingFor joinState))) (\<lambda>waiting.
             if name \<notin> set waiting \<and> \<not> list_ex isVirtualStep waiting then
               gbind (gtry (onStore (AddToJoinWaitFor E instanceID joinStepName name))) (\<lambda>a.
               case a of
                 Inl err \<Rightarrow> note ''error'' (''Failed to add step to join waitFor: '' @ errStr err)
               | Inr _ \<Rightarrow> note ''message'' (''Added terminal step to join '' @ joinStepName @ '' waitFor''))
             else gret ())
         | Inl _ \<Rightarrow>
             (case stepDefOf def joinStepName of
                None \<Rightarrow> gret ()
              | Some joinStepDef \<Rightarrow>
                  (let strategy = (if sd_JoinStrategy joinStepDef = JoinStrategyOther ''''
                                   then JoinStrategyAll else sd_JoinStrategy joinStepDef)
                   in gbind (gtry (onStore (CreateJoinState E instanceID joinStepName (WOwn [name]) strategy)))
                      (\<lambda>c. case c of
                        Inl err \<Rightarrow> note ''error'' (''Failed to create join state: '' @ errStr err)
                      | Inr _ \<Rightarrow> gret ())))))"

definition updateBranchJoin ::
    "env \<Rightarrow> int \<Rightarrow> WorkflowStep \<Rightarrow> StepDefinition \<Rightarrow> WorkflowDefinition \<Rightarrow> unit ego" where
  "updateBranchJoin E instanceID step stepDef def =
     (let conditionStepName = findConditionStepInBranch stepDef def in
      if conditionStepName \<noteq> '''' then
        gbind (joinOfBranch instanceID (ws_StepName step) def) (\<lambda>joinStepName.
        if joinStepName \<noteq> '''' then replaceVirtualStep E instanceID step joinStepName conditionStepName True
        else gret ())
      else
        gbind (gread (\<lambda>w. isTerminalStepInForkBranch
            (findForkStepForParallelStep (en_store w) instanceID) (ws_StepName step) def)) (\<lambda>terminal.
        if terminal then
          gbind (joinOfBranch instanceID (ws_StepName step) def) (\<lambda>joinStepName.
          if joinStepName \<noteq> '''' then addTerminalStep E instanceID step def joinStepName else gret ())
        else gret ()))"

definition handleStepSuccess ::
    "env \<Rightarrow> WorkflowInstance \<Rightarrow> sref \<Rightarrow> StepDefinition \<Rightarrow> raw \<Rightarrow> bool \<Rightarrow> unit ego" where
  "handleStepSuccess E instance ref stepDef output nxt =
     gbind (readStep ref) (\<lambda>step.
     if sd_Type stepDef = StepTypeHuman \<and> ws_Status step = StepStatusWaitingDecision then gret ()
     else
       cmd ''update step: '' (UpdateStep E (ws_ID step) StepStatusCompleted output None)
       (gseq (logEvent E (wi_ID instance) (Some (ws_ID step)) ''step_completed''
                [(''step_name'', JStr (ws_StepName step))])
       (gbind (gtry (onStore (GetWorkflowDefinition (wi_WorkflowID instance)))) (\<lambda>d.
        gseq (case d of Inl _ \<Rightarrow> gret ()
              | Inr def \<Rightarrow> updateBranchJoin E (wi_ID instance) step stepDef def)
        (gseq (gwrap ''notify join steps: ''
                 (notifyJoinSteps E (wi_ID instance) (ws_StepName step) True))
        (if (nxt \<and> length (sd_Next stepDef) = 0) \<or> (\<not> nxt \<and> sd_Else stepDef = '''') then
           gbind (gread (\<lambda>w. hasUnfinishedSteps (en_store w) (wi_ID instance))) (\<lambda>unfinished.
           if unfinished then gret () else completeWorkflow E instance output)
         else
           gbind (case d of
                    Inr def \<Rightarrow> gret def
                  | Inl _ \<Rightarrow> gwrap ''get workflow definition: ''
                              (onStore (GetWorkflowDefinition (wi_WorkflowID instance)))) (\<lambda>def.
           if nxt then
             gforeach (\<lambda>n. needStep ''next step definition not found: '' def n (\<lambda>nextStepDef.
               if sd_Type nextStepDef = StepTypeJoin then gret ()
               else enqueueNextSteps E (wi_ID instance) [n] output)) (sd_Next stepDef)
           else enqueueNextSteps E (wi_ID instance) [sd_Else stepDef] output)))))))"

text \<open>The condition under which a failed step is tried again.\<close>

definition mayRetry :: "StepDefinition \<Rightarrow> WorkflowStep \<Rightarrow> bool" where
  "mayRetry stepDef step \<longleftrightarrow>
     (ws_RetryCount step = 0 \<and> sd_MaxRetries stepDef > 0) \<or>
     (ws_RetryCount step > 0 \<and> ws_RetryCount step < ws_MaxRetries step \<and> \<not> sd_NoIdempotent stepDef)"

definition retryStep ::
    "env \<Rightarrow> WorkflowInstance \<Rightarrow> sref \<Rightarrow> StepDefinition \<Rightarrow> string \<Rightarrow> unit ego" where
  "retryStep E instance ref stepDef errMsg =
     gbind (readStep ref) (\<lambda>step.
     cmd ''update step: '' (UpdateStep E (ws_ID step) StepStatusFailed RawNil (Some errMsg))
     (gbind (readStep ref) (\<lambda>step1.
      gseq (logEvent E (wi_ID instance) (Some (ws_ID step)) ''step_retry''
              [(''step_name'', JStr (ws_StepName step)), (''retry_count'', jnum (ws_RetryCount step1 + 1)),
               (''error'', JStr errMsg)])
      (onStore (EnqueueStep E (wi_ID instance) (Some (ws_ID step)) PriorityHigh (sd_Delay stepDef))))))"

definition sendToDLQ ::
    "env \<Rightarrow> WorkflowInstance \<Rightarrow> WorkflowStep \<Rightarrow> WorkflowDefinition \<Rightarrow> string \<Rightarrow> unit ego" where
  "sendToDLQ E instance step def errMsg =
     cmd ''update step (paused): '' (UpdateStep E (ws_ID step) StepStatusPaused RawNil (Some errMsg))
     (gseq (logEvent E (wi_ID instance) (Some (ws_ID step)) ''step_failed''
              [(''step_name'', JStr (ws_StepName step)), (''error'', JStr errMsg), (''reason'', JStr ''dlq'')])
     (gseq (gwrap ''notify join steps: '' (notifyJoinSteps E (wi_ID instance) (ws_StepName step) False))
     (cmd ''create dead letter record: '' (CreateDeadLetterRecord E
         \<lparr>dl_ID = 0, dl_InstanceID = ws_InstanceID step, dl_WorkflowID = wd_ID def,
          dl_StepID = ws_ID step, dl_StepName = ws_StepName step,
          dl_StepType = stepTypeStr (ws_StepType step), dl_Input = ws_Input step,
          dl_Error = Some errMsg, dl_Reason = ''dlq enabled: rollback/compensation skipped'',
          dl_CreatedAt = 0\<rparr>)
     (cmd ''freeze instance for dlq: '' (PauseActiveStepsAndClearQueue (wi_ID instance))
     (cmd ''update instance status to dlq: ''
        (UpdateInstanceStatus E (wi_ID instance) StatusDLQ RawNil (Some errMsg)) (gret ()))))))"

text \<open>
  The last branch: the definition, held by pointer, is read again after the placeholder was replaced,
  because the replacement may write into its slices.
\<close>

definition failAndRollback ::
    "env \<Rightarrow> WorkflowInstance \<Rightarrow> sref \<Rightarrow> StepDefinition \<Rightarrow> string \<Rightarrow> unit ego" where
  "failAndRollback E instance ref stepDef errMsg =
     (let iid = wi_ID instance; readDef = gread (\<lambda>w. defAt (en_store w) (wi_WorkflowID instance)) in
      gbind (readStep ref) (\<lambda>step.
      cmd ''update step: '' (UpdateStep E (ws_ID step) StepStatusFailed RawNil (Some errMsg))
      (gseq (logEvent E iid (Some (ws_ID step)) ''step_failed''
               [(''step_name'', JStr (ws_StepName step)), (''error'', JStr errMsg)])
      (gbind readDef (\<lambda>d1.
       gseq (case d1 of
               None \<Rightarrow> gret ()
             | Some def \<Rightarrow>
                 (let conditionStepName = findConditionStepInBranch stepDef def in
                  if conditionStepName = '''' then gret ()
                  else gbind (joinOfBranch iid (ws_StepName step) def) (\<lambda>joinStepName.
                    if joinStepName = '''' then gret ()
                    else replaceVirtualStep E iid step joinStepName conditionStepName False)))
       (gseq (gwrap ''notify join steps: '' (notifyJoinSteps E iid (ws_StepName step) False))
       (gbind readDef (\<lambda>d2.
        gseq (case d2 of
                None \<Rightarrow> gret ()
              | Some def \<Rightarrow>
                  gseq (gbind (gread (\<lambda>w. isStepInForkBranch (en_store w) iid (ws_StepName step))) (\<lambda>inFork.
                          if inFork then gignore (stopParallelBranchesInFork E iid (ws_StepName step) def)
                          else gret ()))
                  (gbind (gtry (rollbackToSavePointOrRoot E iid ref def)) (\<lambda>r.
                   case r of
                     Inr _ \<Rightarrow> gret ()
                   | Inl rollbackErr \<Rightarrow> logEvent E iid (Some (ws_ID step)) ''step_failed''
                       [(''step_name'', JStr (ws_StepName step)),
                        (''error'', JStr (''rollback failed: '' @ errStr rollbackErr))])))
        (cmd ''update instance status: ''
           (UpdateInstanceStatus E iid StatusFailed RawNil (Some errMsg)) (gret ()))))))))))"

definition handleStepFailure ::
    "env \<Rightarrow> WorkflowInstance \<Rightarrow> sref \<Rightarrow> StepDefinition \<Rightarrow> error \<Rightarrow> unit ego" where
  "handleStepFailure E instance ref stepDef stepErr =
     gbind (readStep ref) (\<lambda>step.
     if mayRetry stepDef step then retryStep E instance ref stepDef (errStr stepErr)
     else gbind (gread (\<lambda>w. defAt (en_store w) (wi_WorkflowID instance))) (\<lambda>d.
       case d of
         Some def \<Rightarrow>
           if gd_DLQEnabled (wd_Definition def) then sendToDLQ E instance step def (errStr stepErr)
           else failAndRollback E instance ref stepDef (errStr stepErr)
       | None \<Rightarrow> failAndRollback E instance ref stepDef (errStr stepErr)))"

section \<open>Executing a step\<close>

text \<open>The switch over the step's type: output, branch taken, whether the instance was aborted, the step.\<close>

definition runStep ::
    "env \<Rightarrow> WorkflowInstance \<Rightarrow> sref \<Rightarrow> StepDefinition \<Rightarrow> (raw \<times> bool \<times> bool \<times> sref) ego" where
  "runStep E instance ref stepDef =
     gbind (readStep ref) (\<lambda>step.
     case sd_Type stepDef of
       StepTypeTask \<Rightarrow> gbind (executeTask E instance step stepDef) (\<lambda>out. gret (out, True, False, ref))
     | StepTypeFork \<Rightarrow> gbind (executeFork E instance step stepDef) (\<lambda>out. gret (out, True, False, ref))
     | StepTypeJoin \<Rightarrow> gbind (executeJoin E instance step) (\<lambda>out. gret (out, True, False, ref))
     | StepTypeParallel \<Rightarrow> gbind (executeFork E instance step stepDef) (\<lambda>out. gret (out, True, False, ref))
     | StepTypeSavePoint \<Rightarrow> gret (ws_Input step, True, False, ref)
     | StepTypeCondition \<Rightarrow>
         gbind (executeCondition E instance step stepDef) (\<lambda>(out, nxt). gret (out, nxt, False, ref))
     | StepTypeHuman \<Rightarrow>
         gbind (executeHuman E instance ref stepDef) (\<lambda>(out, aborted, ref'). gret (out, True, aborted, ref'))
     | StepTypeOther t \<Rightarrow> gfail (Err (''unsupported step type: '' @ t)))"

definition executeStep :: "env \<Rightarrow> WorkflowInstance \<Rightarrow> sref \<Rightarrow> unit ego" where
  "executeStep E instance ref =
     (if wi_Status instance = StatusDLQ then gret ()
      else
        getDefinition (wi_WorkflowID instance) (\<lambda>def.
        gbind (readStep ref) (\<lambda>step.
        needStep ''step definition not found: '' def (ws_StepName step) (\<lambda>stepDef.
        gseq (pluginHook (\<lambda>pm. ExecuteStepStart pm instance step) ''plugin hook OnStepStart failed: '')
        (gseq (registerInstanceContext (wi_ID instance) (ws_ID step))
        (gfinally
          (gbind (gtry (onStore (GetCancelRequest (wi_ID instance)))) (\<lambda>c.
           case c of
             Inr cancelReq \<Rightarrow> handleCancellation E instance step cancelReq
           | Inl _ \<Rightarrow>
               cmd ''update step status: '' (UpdateStep E (ws_ID step) StepStatusRunning RawNil None)
               (gseq (logEvent E (wi_ID instance) (Some (ws_ID step)) ''step_started''
                        [(''step_name'', JStr (ws_StepName step)),
                         (''step_type'', JStr (stepTypeStr (sd_Type stepDef)))])
               (gbind (gtry (runStep E instance ref stepDef)) (\<lambda>res.
                case res of
                  Inr (out, nxt, True, ref') \<Rightarrow> gret ()
                | _ \<Rightarrow>
                    gbind (gread (\<lambda>w. (wi_ID instance, ws_ID step) \<in> set (en_cancelled w))) (\<lambda>cancelled.
                    gbind (if cancelled then gtry (onStore (GetCancelRequest (wi_ID instance)))
                           else gret (Inl EntityNotFound)) (\<lambda>c2.
                    case c2 of
                      Inr cancelReq \<Rightarrow> handleCancellation E instance step cancelReq
                    | Inl _ \<Rightarrow>
                        (case res of
                           Inl stepErr \<Rightarrow> handleStepFailure E instance ref stepDef stepErr
                         | Inr (out, nxt, _, ref') \<Rightarrow>
                             handleStepSuccess E instance ref' stepDef out nxt))))))))
          (unregisterInstanceContext (wi_ID instance) (ws_ID step))))))))"

section \<open>The queue worker's entry point\<close>

text \<open>Giving the item back because no local handler is registered.\<close>

definition releaseMissing ::
    "env \<Rightarrow> QueueItem \<Rightarrow> WorkflowInstance \<Rightarrow> WorkflowStep \<Rightarrow> string \<Rightarrow> string \<Rightarrow> bool ego" where
  "releaseMissing E item instance step keyPrefix message =
     gbind (jitteredCooldown E) (\<lambda>delay.
     gseq (if delay > 0
           then gwrap ''reschedule queue item: '' (onStore (RescheduleAndReleaseQueueItem E (qi_ID item) delay))
           else gwrap ''release queue item: '' (onStore (ReleaseQueueItem (qi_ID item))))
     (gbind (shouldLogSkip E (keyPrefix @ itoa (wi_ID instance) @ '':'' @ ws_StepName step)) (\<lambda>yes.
      gseq (if yes then logEvent E (wi_ID instance) None ''step_skipped_missing_handler''
                          [(''step_name'', JStr (ws_StepName step)), (''message'', JStr message)]
            else gret ())
      (gret True))))"

definition findStep :: "env \<Rightarrow> QueueItem \<Rightarrow> WorkflowInstance \<Rightarrow> sref ego" where
  "findStep E item instance =
     (case qi_StepID item of
        None \<Rightarrow> gwrap ''create first step: '' (createFirstStep E instance)
      | Some stepID \<Rightarrow>
          ask ''get steps: '' (GetStepsByInstance (wi_ID instance)) (\<lambda>steps.
          case find (\<lambda>st. ws_ID st = stepID) steps of
            None \<Rightarrow> gfail (Err (''step not found: '' @ itoa stepID))
          | Some st \<Rightarrow> gret (SCopy st)))"

text \<open>
  The work on a dequeued item; \<open>True\<close> means that the item was released and stays in the queue. Steps
  that are not executed any more are taken off the queue by step identifier, as the source does.
\<close>

definition processItem :: "env \<Rightarrow> QueueItem \<Rightarrow> bool ego" where
  "processItem E item =
     ask ''get instance: '' (GetInstance (qi_InstanceID item)) (\<lambda>instance.
     if wi_Status instance = StatusDLQ then
       gseq (logEvent E (wi_ID instance) None ''step_failed''
               [(''message'', JStr ''instance in DLQ state, skipping queued item'')]) (gret False)
     else
       gbind (findStep E item instance) (\<lambda>ref.
       gbind (readStep ref) (\<lambda>step.
       if ws_Status step \<in> {StepStatusSkipped, StepStatusPaused, StepStatusRolledBack} then
         cmd ''remove step from queue: '' (RemoveFromQueue (ws_ID step)) (gret False)
       else
         getDefinition (wi_WorkflowID instance) (\<lambda>def.
         needStep ''step definition not found: '' def (ws_StepName step) (\<lambda>stepDef.
         gbind (gread en_handlers) (\<lambda>handlers.
         if ws_Status step = StepStatusCompensation then
           (case (if sd_OnFailure stepDef = '''' then None else stepDefOf def (sd_OnFailure stepDef)) of
              Some onFailDef \<Rightarrow>
                if map_of handlers (sd_Handler onFailDef) = None
                then releaseMissing E item instance step ''comp-skip:''
                       ''no local compensation handler registered; rescheduled''
                else gseq (executeCompensationStep E instance step) (gret False)
            | None \<Rightarrow> gseq (executeCompensationStep E instance step) (gret False))
         else if ws_StepType step = StepTypeTask \<and> map_of handlers (sd_Handler stepDef) = None
         then releaseMissing E item instance step ''task-skip:''
                ''no local handler registered; rescheduled''
         else gseq (executeStep E instance ref) (gret False)))))))"

definition countActive :: "int \<Rightarrow> unit ego" where
  "countActive d = gmodify (\<lambda>w. w\<lparr>en_activeSteps := en_activeSteps w + d\<rparr>)"

text \<open>Result: whether the queue was empty.\<close>

definition ExecuteNext :: "env \<Rightarrow> string \<Rightarrow> bool ego" where
  "ExecuteNext E workerID =
     gbind (gread en_isShuttingDown) (\<lambda>down.
     if down then gret True
     else ask ''dequeue step: '' (DequeueStep E workerID) (\<lambda>it.
       case it of
         None \<Rightarrow> gret True
       | Some item \<Rightarrow>
           gbind (gread en_isShuttingDown) (\<lambda>down'.
           if down' then gseq (gignore (onStore (ReleaseQueueItem (qi_ID item)))) (gret True)
           else gseq (countActive 1)
             (gseq (gfinally (gunless (processItem E item) (gignore (onStore (RemoveFromQueue (qi_ID item)))))
                      (countActive (-1)))
             (gret False)))))"

section \<open>Requests\<close>

definition continueWorkflowAfterHumanDecision :: "env \<Rightarrow> WorkflowInstance \<Rightarrow> sref \<Rightarrow> unit ego" where
  "continueWorkflowAfterHumanDecision E instance ref =
     getDefinition (wi_WorkflowID instance) (\<lambda>def.
     gbind (readStep ref) (\<lambda>step.
     needStep ''step definition not found: '' def (ws_StepName step) (\<lambda>stepDef.
     handleStepSuccess E instance ref stepDef (RawJson (JObj [(''status'', JStr ''confirmed'')])) True)))"

definition MakeHumanDecision ::
    "env \<Rightarrow> int \<Rightarrow> string \<Rightarrow> HumanDecision \<Rightarrow> string option \<Rightarrow> unit ego" where
  "MakeHumanDecision E stepID decidedBy decision comment =
     ask ''get step: '' (GetStepByID stepID) (\<lambda>step.
     if ws_StepType step \<noteq> StepTypeHuman
     then gfail (Err (''step '' @ itoa stepID @ '' is not a human step''))
     else if ws_Status step \<noteq> StepStatusWaitingDecision
     then gfail (Err (''step '' @ itoa stepID @ '' is not waiting for decision (current status: '' @
            stepStatusStr (ws_Status step) @ '')''))
     else
       gbind (readClock E) (\<lambda>now.
       cmd ''create human decision: '' (CreateHumanDecision E
         \<lparr>hd_ID = 0, hd_InstanceID = ws_InstanceID step, hd_StepID = stepID, hd_DecidedBy = decidedBy,
          hd_Decision = decision, hd_Comment = comment, hd_DecidedAt = now, hd_CreatedAt = 0\<rparr>)
       (cmd ''update step status: '' (UpdateStepStatus stepID (case decision of
            HumanDecisionConfirmed \<Rightarrow> StepStatusConfirmed | HumanDecisionRejected \<Rightarrow> StepStatusRejected
          | HumanDecisionOther _ \<Rightarrow> StepStatusEmpty))
       (gseq (logEvent E (ws_InstanceID step) (Some stepID) ''step_completed''
                [(''step_name'', JStr (ws_StepName step)), (''decision'', JStr (humanDecisionStr decision)),
                 (''decided_by'', JStr decidedBy)])
       (if decision = HumanDecisionConfirmed then
          ask ''get instance: '' (GetInstance (ws_InstanceID step)) (\<lambda>instance.
          gseq (if wi_Status instance = StatusPending
                then gwrap ''update instance status: '' (onStore (UpdateInstanceStatus E
                       (ws_InstanceID step) StatusRunning RawNil None))
                else gret ())
          (continueWorkflowAfterHumanDecision E instance (SLive step)))
        else onStore (UpdateInstanceStatus E (ws_InstanceID step) StatusAborted RawNil None))))))"

definition Start :: "env \<Rightarrow> string \<Rightarrow> raw \<Rightarrow> int ego" where
  "Start E workflowID input =
     getDefinition workflowID (\<lambda>def.
     gseq (checkDefinition def)
     (ask ''create instance: '' (CreateInstance E workflowID input) (\<lambda>instance.
      gseq (pluginHook (\<lambda>pm. ExecuteWorkflowStart pm instance) ''plugin hook failed: '')
      (gseq (logEvent E (wi_ID instance) None ''workflow_started'' [(''workflow_id'', JStr workflowID)])
      (cmd ''update status: '' (UpdateInstanceStatus E (wi_ID instance) StatusRunning RawNil None)
      (if gd_Start (wd_Definition def) = '''' then gfail (Err ''no start step defined'')
       else gseq (gwrap ''enqueue start step: ''
                    (enqueueNextSteps E (wi_ID instance) [gd_Start (wd_Definition def)] input))
            (gret (wi_ID instance))))))))"

definition RequeueFromDLQ :: "int \<Rightarrow> raw option \<Rightarrow> unit ego" where
  "RequeueFromDLQ dlqID newInput =
     cmd ''requeue dead letter: '' (RequeueDeadLetter dlqID newInput) (gret ())"

definition GetStatus :: "int \<Rightarrow> WorkflowStatus ego" where
  "GetStatus instanceID = ask ''get instance: '' (GetInstance instanceID) (\<lambda>i. gret (wi_Status i))"

definition GetSteps :: "int \<Rightarrow> WorkflowStep list ego" where
  "GetSteps instanceID = onStore (GetStepsByInstance instanceID)"

record StartAwaitResult =
  sa_InstanceID :: int
  sa_Status :: WorkflowStatus
  sa_Output :: raw
  sa_Error :: "string option"

text \<open>One tick of \<open>awaitCompletion\<close>: \<open>None\<close> means that the loop goes on.\<close>

definition awaitTick :: "int \<Rightarrow> StartAwaitResult option ego" where
  "awaitTick instanceID =
     ask ''get instance: '' (GetInstance instanceID) (\<lambda>i.
     gret (if isTerminalStatus (wi_Status i)
           then Some \<lparr>sa_InstanceID = wi_ID i, sa_Status = wi_Status i, sa_Output = wi_Output i,
                      sa_Error = wi_Error i\<rparr> else None))"

end
