(* ===== verification/Store_Interface.thy ===== *)
theory Store_Interface
  imports Floxy_Prelude
begin

text \<open>
  Contracts of a store's tables, independent of the implementation. A table of entities with an
  identifier counter (\<open>entity_table\<close>) promises where a created entity is found and which
  identifier it gets; clients rely on created entities not disturbing older ones and on
  identifiers never being reused.
\<close>

section \<open>Well-formed tables\<close>

definition tableOK :: "('e \<Rightarrow> int) \<Rightarrow> int \<Rightarrow> (int \<times> 'e) list \<Rightarrow> bool" where
  "tableOK idOf n t \<longleftrightarrow> distinct (map fst t) \<and> (\<forall>k e. map_of t k = Some e \<longrightarrow> idOf e = k \<and> k < n)"

named_theorems table_intros \<open>what keeps a table well-formed\<close>

lemma tableOKI:
  "distinct (map fst t) \<Longrightarrow> (\<And>k e. map_of t k = Some e \<Longrightarrow> idOf e = k \<and> k < n) \<Longrightarrow> tableOK idOf n t"
  unfolding tableOK_def by blast

lemma tableOK_distinct: "tableOK idOf n t \<Longrightarrow> distinct (map fst t)"
  by (simp only: tableOK_def)

lemma tableOK_id: "tableOK idOf n t \<Longrightarrow> map_of t k = Some e \<Longrightarrow> idOf e = k"
  by (simp only: tableOK_def)

lemma tableOK_bound: "tableOK idOf n t \<Longrightarrow> map_of t k = Some e \<Longrightarrow> k < n"
  unfolding tableOK_def by blast

lemma tableOK_Nil [table_intros]: "tableOK idOf n []"
  by (rule tableOKI) auto

lemma tableOK_insert [table_intros]:
  assumes t: "tableOK idOf n t" and "idOf e = n" "m = n + 1"
  shows "tableOK idOf m (AList.update n e t)"
proof (rule tableOKI)
  show "distinct (map fst (AList.update n e t))"
    by (rule distinct_keys_update [OF tableOK_distinct [OF t]])
next
  fix k x assume "map_of (AList.update n e t) k = Some x"
  then show "idOf x = k \<and> k < m"
    using tableOK_id [OF t, of k x] tableOK_bound [OF t, of k x] assms(2,3)
    by (cases "k = n") auto
qed

lemma tableOK_update [table_intros]:
  assumes t: "tableOK idOf n t" and k: "map_of t k = Some e" and "idOf e' = k"
  shows "tableOK idOf n (AList.update k e' t)"
proof (rule tableOKI)
  show "distinct (map fst (AList.update k e' t))"
    by (rule distinct_keys_update [OF tableOK_distinct [OF t]])
next
  fix l x assume "map_of (AList.update k e' t) l = Some x"
  then show "idOf x = l \<and> l < n"
    using tableOK_id [OF t, of l x] tableOK_bound [OF t, of l x] tableOK_bound [OF t k] assms(3)
    by (cases "l = k") auto
qed

lemma tableOK_delete [table_intros]:
  assumes t: "tableOK idOf n t"
  shows "tableOK idOf n (AList.delete k t)"
proof (rule tableOKI)
  show "distinct (map fst (AList.delete k t))"
    by (rule distinct_keys_delete [OF tableOK_distinct [OF t]])
next
  fix l x assume "map_of (AList.delete k t) l = Some x"
  then show "idOf x = l \<and> l < n"
    using tableOK_id [OF t, of l x] tableOK_bound [OF t, of l x] by (cases "l = k") auto
qed

lemma map_of_filter_Some:
  assumes "distinct (map fst t)"
  shows "map_of (filter P t) k = Some e \<longleftrightarrow> map_of t k = Some e \<and> P (k, e)"
  unfolding map_of_eq_Some_iff [OF assms] map_of_eq_Some_iff [OF distinct_keys_filter [OF assms]]
  by auto

lemma tableOK_filter [table_intros]:
  assumes t: "tableOK idOf n t"
  shows "tableOK idOf n (filter P t)"
proof (rule tableOKI)
  show "distinct (map fst (filter P t))"
    by (rule distinct_keys_filter [OF tableOK_distinct [OF t]])
next
  fix l x assume "map_of (filter P t) l = Some x"
  then have "map_of t l = Some x" unfolding map_of_filter_Some [OF tableOK_distinct [OF t]] ..
  then show "idOf x = l \<and> l < n"
    using tableOK_id [OF t, of l x] tableOK_bound [OF t, of l x] by simp
qed

lemma tableOK_fresh: "tableOK idOf n t \<Longrightarrow> map_of t n = None"
  by (cases "map_of t n") (auto dest: tableOK_bound)

section \<open>Entities with allocated identifiers\<close>

locale entity_table =
  fixes tab :: "'s \<Rightarrow> (int \<times> 'e) list"
    and nxt :: "'s \<Rightarrow> int"
    and idOf :: "'e \<Rightarrow> int"
    and made :: "'a \<Rightarrow> 's \<Rightarrow> 'e"
    and create :: "'a \<Rightarrow> 's \<Rightarrow> 's"
  assumes tab_create: "tab (create a s) = AList.update (nxt s) (made a s) (tab s)"
    and nxt_create: "nxt (create a s) = nxt s + 1"
    and id_made: "idOf (made a s) = nxt s"
begin

lemma create_ok: "tableOK idOf (nxt s) (tab s) \<Longrightarrow> tableOK idOf (nxt (create a s)) (tab (create a s))"
  by (auto intro: tableOK_insert simp: tab_create nxt_create id_made)

lemma create_lookup: "map_of (tab (create a s)) (idOf (made a s)) = Some (made a s)"
  by (simp add: tab_create id_made)

lemma create_frame:
  assumes "tableOK idOf (nxt s) (tab s)" "map_of (tab s) k = Some e"
  shows "map_of (tab (create a s)) k = Some e"
  using assms tableOK_fresh [OF assms(1)] by (auto simp: tab_create)

lemma create_new_id:
  assumes "tableOK idOf (nxt s) (tab s)" "map_of (tab s) k = Some e"
  shows "k < idOf (made a s)"
  using tableOK_bound [OF assms] by (simp add: id_made)

text \<open>Creations in sequence give strictly increasing identifiers, whatever happens in between.\<close>

lemma later_id_greater:
  assumes "nxt (create a s) \<le> nxt t"
  shows "idOf (made a s) < idOf (made b t)"
  using assms by (simp add: id_made nxt_create)

end

end
