(* ===== verification/Store_Laws.thy ===== *)
theory Store_Laws
  imports Store_Interface MemoryStore
begin

text \<open>
  What the in-memory store promises. The tables are interpreted as instances of the table
  contract; \<open>store_wf\<close> is the store's invariant and \<open>store_evolves\<close> the relation every operation
  keeps between the store before and after (invariant, append-only event log, growing counters,
  identity of instances and steps). \<open>store_rel\<close> is the interface to the engine: a preorder kept by
  each store operation is kept by the engine operations composed of them.
\<close>

section \<open>The tables of the store\<close>

definition madeInstance :: "env \<times> string \<times> raw \<Rightarrow> MemoryStore \<Rightarrow> WorkflowInstance" where
  "madeInstance a s = (case a of (E, w, i) \<Rightarrow> (case fst (CreateInstance E w i s) of Ok x \<Rightarrow> x))"

definition madeStep :: "env \<times> WorkflowStep \<Rightarrow> MemoryStore \<Rightarrow> WorkflowStep" where
  "madeStep a s = (case a of (E, st) \<Rightarrow> (case fst (CreateStep E st s) of Ok x \<Rightarrow> x))"

lemma CreateInstance_made:
  "CreateInstance E w i s = (Ok (madeInstance (E, w, i) s), snd (CreateInstance E w i s))"
  by (simp add: CreateInstance_def madeInstance_def Let_def)

lemma CreateStep_made: "CreateStep E st s = (Ok (madeStep (E, st) s), snd (CreateStep E st s))"
  by (simp add: CreateStep_def madeStep_def Let_def)

interpretation itab: entity_table ms_instances ms_nextInstanceID wi_ID madeInstance
    "\<lambda>(E, w, i) s. snd (CreateInstance E w i s)"
  by unfold_locales (auto simp: CreateInstance_def madeInstance_def Let_def)

interpretation stab: entity_table ms_steps ms_nextStepID ws_ID madeStep
    "\<lambda>(E, st) s. snd (CreateStep E st s)"
  by unfold_locales (auto simp: CreateStep_def madeStep_def Let_def)

definition queuedItem :: "env \<times> int \<times> int option \<times> int \<times> int \<Rightarrow> MemoryStore \<Rightarrow> QueueItem" where
  "queuedItem a s = (case a of (E, i, st, p, d) \<Rightarrow>
     \<lparr>qi_ID = ms_nextQueueID s, qi_InstanceID = i, qi_StepID = st,
      qi_ScheduledAt = clk E (ms_cursor s) + d, qi_AttemptedAt = None, qi_AttemptedBy = None,
      qi_Priority = p\<rparr>)"

interpretation qtab: entity_table ms_queue ms_nextQueueID qi_ID queuedItem
    "\<lambda>(E, i, st, p, d) s. snd (EnqueueStep E i st p d s)"
  by unfold_locales (auto simp: EnqueueStep_def queuedItem_def Let_def)

interpretation dtab: entity_table ms_deadLetters ms_nextDeadLetterID dl_ID
    "\<lambda>(E, r) s. r\<lparr>dl_ID := ms_nextDeadLetterID s, dl_CreatedAt := clk E (ms_cursor s)\<rparr>"
    "\<lambda>(E, r) s. snd (CreateDeadLetterRecord E r s)"
  by unfold_locales (auto simp: CreateDeadLetterRecord_def Let_def)

section \<open>The invariant\<close>

definition stepIndexOK :: "(int \<times> WorkflowStep) list \<Rightarrow> (int \<times> int list) list \<Rightarrow> bool" where
  "stepIndexOK steps index \<longleftrightarrow>
     (\<forall>i ids. map_of index i = Some ids \<longrightarrow> distinct ids \<and>
        (\<forall>k \<in> set ids. \<exists>st. map_of steps k = Some st \<and> ws_InstanceID st = i)) \<and>
     (\<forall>k st. map_of steps k = Some st \<longrightarrow>
        (\<exists>ids. map_of index (ws_InstanceID st) = Some ids \<and> k \<in> set ids))"

definition joinOK :: "JoinState \<Rightarrow> bool" where
  "joinOK j \<longleftrightarrow> distinct (js_Completed j) \<and> distinct (js_Failed j) \<and>
     set (js_Completed j) \<inter> set (js_Failed j) = {}"

definition joinsOK :: "(string \<times> JoinState) list \<Rightarrow> bool" where
  "joinsOK js \<longleftrightarrow> distinct (map fst js) \<and> (\<forall>(key, j) \<in> set js.
     key = joinStateKey (js_InstanceID j) (js_JoinStepName j) \<and> joinOK j)"

definition store_wf :: "MemoryStore \<Rightarrow> bool" where
  "store_wf s \<longleftrightarrow>
     tableOK wi_ID (ms_nextInstanceID s) (ms_instances s) \<and>
     tableOK ws_ID (ms_nextStepID s) (ms_steps s) \<and>
     tableOK qi_ID (ms_nextQueueID s) (ms_queue s) \<and>
     tableOK dl_ID (ms_nextDeadLetterID s) (ms_deadLetters s) \<and>
     stepIndexOK (ms_steps s) (ms_stepsByInstance s) \<and> joinsOK (ms_joinStates s)"

lemma store_wfD:
  assumes "store_wf s"
  shows "tableOK wi_ID (ms_nextInstanceID s) (ms_instances s)"
    "tableOK ws_ID (ms_nextStepID s) (ms_steps s)"
    "tableOK qi_ID (ms_nextQueueID s) (ms_queue s)"
    "tableOK dl_ID (ms_nextDeadLetterID s) (ms_deadLetters s)"
    "stepIndexOK (ms_steps s) (ms_stepsByInstance s)" "joinsOK (ms_joinStates s)"
  using assms unfolding store_wf_def by blast+

section \<open>How the store evolves\<close>

definition sameInstance :: "WorkflowInstance \<Rightarrow> WorkflowInstance \<Rightarrow> bool" where
  "sameInstance i j \<longleftrightarrow> wi_ID j = wi_ID i \<and> wi_WorkflowID j = wi_WorkflowID i \<and>
     wi_Input j = wi_Input i \<and> wi_CreatedAt j = wi_CreatedAt i"

definition sameStep :: "WorkflowStep \<Rightarrow> WorkflowStep \<Rightarrow> bool" where
  "sameStep a b \<longleftrightarrow> ws_ID b = ws_ID a \<and> ws_InstanceID b = ws_InstanceID a \<and>
     ws_StepName b = ws_StepName a \<and> ws_StepType b = ws_StepType a \<and>
     ws_MaxRetries b = ws_MaxRetries a \<and> ws_IdempotencyKey b = ws_IdempotencyKey a \<and>
     ws_CreatedAt b = ws_CreatedAt a"

definition keeps :: "('e \<Rightarrow> 'e \<Rightarrow> bool) \<Rightarrow> ('k \<rightharpoonup> 'e) \<Rightarrow> ('k \<rightharpoonup> 'e) \<Rightarrow> bool" where
  "keeps same m m' \<longleftrightarrow> (\<forall>k e. m k = Some e \<longrightarrow> (\<exists>e'. m' k = Some e' \<and> same e e'))"

definition advances :: "MemoryStore \<Rightarrow> MemoryStore \<Rightarrow> bool" where
  "advances s t \<longleftrightarrow> prefix (ms_events s) (ms_events t) \<and> ms_cursor s \<le> ms_cursor t \<and>
     ms_nextInstanceID s \<le> ms_nextInstanceID t \<and> ms_nextStepID s \<le> ms_nextStepID t \<and>
     ms_nextQueueID s \<le> ms_nextQueueID t \<and> ms_nextDeadLetterID s \<le> ms_nextDeadLetterID t"

definition store_evolves :: "MemoryStore \<Rightarrow> MemoryStore \<Rightarrow> bool" where
  "store_evolves s t \<longleftrightarrow> (store_wf s \<longrightarrow> store_wf t \<and> advances s t \<and>
     keeps sameInstance (map_of (ms_instances s)) (map_of (ms_instances t)) \<and>
     keeps sameStep (map_of (ms_steps s)) (map_of (ms_steps t)))"

lemma sameInstance_refl [simp]: "sameInstance i i"
  by (simp add: sameInstance_def)

lemma sameStep_refl [simp]: "sameStep a a"
  by (simp add: sameStep_def)

lemma sameInstance_trans: "sameInstance i j \<Longrightarrow> sameInstance j k \<Longrightarrow> sameInstance i k"
  by (simp add: sameInstance_def)

lemma sameStep_trans: "sameStep a b \<Longrightarrow> sameStep b c \<Longrightarrow> sameStep a c"
  by (simp add: sameStep_def)

lemma keeps_refl [simp]: "(\<And>e. same e e) \<Longrightarrow> keeps same m m"
  by (auto simp: keeps_def)

lemma keeps_trans:
  assumes "keeps same m m'" "keeps same m' m''" "\<And>a b c. same a b \<Longrightarrow> same b c \<Longrightarrow> same a c"
  shows "keeps same m m''"
  using assms unfolding keeps_def by metis

lemma keeps_insert: "(\<And>e. same e e) \<Longrightarrow> m k = None \<Longrightarrow> keeps same m (m(k \<mapsto> v))"
  by (auto simp: keeps_def)

lemma keeps_update: "(\<And>e. same e e) \<Longrightarrow> m k = Some e \<Longrightarrow> same e v \<Longrightarrow> keeps same m (m(k \<mapsto> v))"
  by (auto simp: keeps_def)

lemma advances_refl [simp]: "advances s s"
  by (simp add: advances_def)

lemma advances_trans: "advances s t \<Longrightarrow> advances t u \<Longrightarrow> advances s u"
  by (auto simp: advances_def intro: prefix_order.trans)

interpretation evolves: go_preorder store_evolves
proof unfold_locales
  fix s show "store_evolves s s" by (simp add: store_evolves_def)
next
  fix s t u assume "store_evolves s t" "store_evolves t u"
  then show "store_evolves s u"
    unfolding store_evolves_def
    by (auto elim: keeps_trans advances_trans intro: sameInstance_trans sameStep_trans)
qed

text \<open>The four ways an operation changes the store.\<close>

lemma evolves_I:
  assumes "store_wf s \<Longrightarrow> store_wf t" "advances s t"
    and "store_wf s \<Longrightarrow> keeps sameInstance (map_of (ms_instances s)) (map_of (ms_instances t))"
    and "store_wf s \<Longrightarrow> keeps sameStep (map_of (ms_steps s)) (map_of (ms_steps t))"
  shows "store_evolves s t"
  using assms by (simp add: store_evolves_def)

lemma stepIndexOK_keep:
  assumes ok: "stepIndexOK steps index" and dom: "\<And>k. (map_of steps' k = None) = (map_of steps k = None)"
    and inst: "\<And>k a b. map_of steps k = Some a \<Longrightarrow> map_of steps' k = Some b \<Longrightarrow> ws_InstanceID b = ws_InstanceID a"
  shows "stepIndexOK steps' index"
  unfolding stepIndexOK_def
proof (intro conjI allI impI)
  fix i ids assume "map_of index i = Some ids"
  with ok have "distinct ids" and ex: "\<forall>k \<in> set ids. \<exists>st. map_of steps k = Some st \<and> ws_InstanceID st = i"
    unfolding stepIndexOK_def by blast+
  then show "distinct ids" by simp
  show "\<forall>k \<in> set ids. \<exists>st. map_of steps' k = Some st \<and> ws_InstanceID st = i"
  proof
    fix k assume "k \<in> set ids"
    with ex obtain st where st: "map_of steps k = Some st" "ws_InstanceID st = i" by blast
    with dom [of k] obtain st' where "map_of steps' k = Some st'" by fastforce
    with st inst show "\<exists>st. map_of steps' k = Some st \<and> ws_InstanceID st = i" by blast
  qed
next
  fix k st assume k: "map_of steps' k = Some st"
  with dom [of k] obtain st0 where st0: "map_of steps k = Some st0" by fastforce
  with k inst have "ws_InstanceID st = ws_InstanceID st0" by blast
  with st0 ok show "\<exists>ids. map_of index (ws_InstanceID st) = Some ids \<and> k \<in> set ids"
    unfolding stepIndexOK_def by metis
qed

lemma evolves_step:
  assumes k: "map_of (ms_steps s) k = Some st" and same: "sameStep st st'" and "ms_cursor s \<le> c"
  shows "store_evolves s (s\<lparr>ms_steps := AList.update k st' (ms_steps s), ms_cursor := c\<rparr>)"
proof (rule evolves_I)
  assume wf: "store_wf s"
  have "ws_ID st = k" by (rule tableOK_id [OF store_wfD(2) [OF wf] k])
  then have "tableOK ws_ID (ms_nextStepID s) (AList.update k st' (ms_steps s))"
    using same by (intro tableOK_update [OF store_wfD(2) [OF wf] k]) (simp add: sameStep_def)
  moreover have "stepIndexOK (AList.update k st' (ms_steps s)) (ms_stepsByInstance s)"
    using same k by (intro stepIndexOK_keep [OF store_wfD(5) [OF wf]]) (auto simp: sameStep_def split: if_splits)
  ultimately show "store_wf (s\<lparr>ms_steps := AList.update k st' (ms_steps s), ms_cursor := c\<rparr>)"
    using wf by (simp add: store_wf_def)
qed (use assms in \<open>auto simp: advances_def intro!: keeps_update\<close>)

lemma evolves_instance:
  assumes k: "map_of (ms_instances s) k = Some i" and same: "sameInstance i i'" and "ms_cursor s \<le> c"
  shows "store_evolves s (s\<lparr>ms_instances := AList.update k i' (ms_instances s), ms_cursor := c\<rparr>)"
proof (rule evolves_I)
  assume wf: "store_wf s"
  have "wi_ID i = k" by (rule tableOK_id [OF store_wfD(1) [OF wf] k])
  then have "tableOK wi_ID (ms_nextInstanceID s) (AList.update k i' (ms_instances s))"
    using same by (intro tableOK_update [OF store_wfD(1) [OF wf] k]) (simp add: sameInstance_def)
  then show "store_wf (s\<lparr>ms_instances := AList.update k i' (ms_instances s), ms_cursor := c\<rparr>)"
    using wf by (simp add: store_wf_def)
qed (use assms in \<open>auto simp: advances_def intro!: keeps_update\<close>)

lemma evolves_queue:
  assumes "tableOK qi_ID (ms_nextQueueID s) (ms_queue s) \<Longrightarrow> tableOK qi_ID n q"
    and "ms_nextQueueID s \<le> n" "ms_cursor s \<le> c"
  shows "store_evolves s (s\<lparr>ms_queue := q, ms_nextQueueID := n, ms_cursor := c\<rparr>)"
  using assms by (intro evolves_I) (simp_all add: store_wf_def advances_def)

lemma evolves_joins:
  assumes "joinsOK (ms_joinStates s) \<Longrightarrow> joinsOK js" "ms_cursor s \<le> c"
  shows "store_evolves s (s\<lparr>ms_defheap := h, ms_joinStates := js, ms_cursor := c\<rparr>)"
  using assms by (intro evolves_I) (simp_all add: store_wf_def advances_def)

section \<open>The interface to the engine\<close>

text \<open>
  A preorder on stores that every operation the engine calls respects. What is proved in this
  locale about engine code holds for every such preorder.
\<close>

locale store_rel = go_preorder R for R :: "MemoryStore \<Rightarrow> MemoryStore \<Rightarrow> bool" +
  assumes cursor: "R s (s\<lparr>ms_cursor := Suc (ms_cursor s)\<rparr>)"
    and stepWrite: "map_of (ms_steps s) k = Some st \<Longrightarrow>
      R s (s\<lparr>ms_steps := AList.update k (st\<lparr>ws_Status := v\<rparr>) (ms_steps s)\<rparr>)"
    and SaveWorkflowDefinition: "go_rel R (SaveWorkflowDefinition E def)"
    and CreateInstance: "go_rel R (CreateInstance E w i)"
    and UpdateInstanceStatus: "go_rel R (UpdateInstanceStatus E k ist out err)"
    and CreateStep: "go_rel R (CreateStep E step)"
    and UpdateStep: "go_rel R (UpdateStep E k sst out err)"
    and UpdateStepCompensationRetry: "go_rel R (UpdateStepCompensationRetry k n sst)"
    and UpdateStepStatus: "go_rel R (UpdateStepStatus k sst)"
    and EnqueueStep: "go_rel R (EnqueueStep E k ok p d)"
    and DequeueStep: "go_rel R (DequeueStep E worker)"
    and RemoveFromQueue: "go_rel R (RemoveFromQueue k)"
    and ReleaseQueueItem: "go_rel R (ReleaseQueueItem k)"
    and RescheduleAndReleaseQueueItem: "go_rel R (RescheduleAndReleaseQueueItem E k d)"
    and LogEvent: "go_rel R (LogEvent E k ok ty pl)"
    and CreateJoinState: "go_rel R (CreateJoinState E k jn wr js)"
    and UpdateJoinState: "go_rel R (UpdateJoinState E k jn cs b)"
    and AddToJoinWaitFor: "go_rel R (AddToJoinWaitFor E k jn cs)"
    and ReplaceInJoinWaitFor: "go_rel R (ReplaceInJoinWaitFor E k jn vs cs)"
    and CreateCancelRequest: "go_rel R (CreateCancelRequest E req)"
    and DeleteCancelRequest: "go_rel R (DeleteCancelRequest k)"
    and CreateHumanDecision: "go_rel R (CreateHumanDecision E hdr)"
    and CreateDeadLetterRecord: "go_rel R (CreateDeadLetterRecord E dl)"
    and RequeueDeadLetter: "go_rel R (RequeueDeadLetter k ni)"
    and PauseActiveStepsAndClearQueue: "go_rel R (PauseActiveStepsAndClearQueue k)"
begin

lemma readers:
  "go_rel R (GetWorkflowDefinition w)" "go_rel R (GetInstance k)" "go_rel R (GetStepsByInstance k)"
  "go_rel R (GetActiveStepsForUpdate k)" "go_rel R (GetStepByID k)" "go_rel R (GetJoinState k jn)"
  "go_rel R (GetCancelRequest k)" "go_rel R (GetHumanDecision k)" "go_rel R (GetDeadLetterByID k)"
  by (auto simp: go_rel_def R_refl GetWorkflowDefinition_def GetInstance_def GetStepsByInstance_def
      GetActiveStepsForUpdate_def GetStepByID_def GetJoinState_def GetCancelRequest_def
      GetHumanDecision_def GetDeadLetterByID_def split: option.split)

lemmas rel_ops = readers SaveWorkflowDefinition CreateInstance UpdateInstanceStatus CreateStep
  UpdateStep UpdateStepCompensationRetry UpdateStepStatus EnqueueStep DequeueStep RemoveFromQueue
  ReleaseQueueItem RescheduleAndReleaseQueueItem LogEvent CreateJoinState UpdateJoinState
  AddToJoinWaitFor ReplaceInJoinWaitFor CreateCancelRequest DeleteCancelRequest CreateHumanDecision
  CreateDeadLetterRecord RequeueDeadLetter PauseActiveStepsAndClearQueue

end

section \<open>Every operation keeps the invariant\<close>

lemma evolves_other:
  assumes "store_wf t = store_wf s" "advances s t" "ms_instances t = ms_instances s" "ms_steps t = ms_steps s"
  shows "store_evolves s t"
  using assms by (intro evolves_I) simp_all

lemma evolves_CreateInstance: "go_rel store_evolves (CreateInstance E w i)"
  unfolding go_rel_def
proof (intro allI evolves_I)
  fix s assume wf: "store_wf s"
  from itab.create_ok [OF store_wfD(1) [OF wf], of "(E, w, i)"]
  show "store_wf (snd (CreateInstance E w i s))"
    using wf by (simp add: store_wf_def CreateInstance_def Let_def)
  show "keeps sameInstance (map_of (ms_instances s)) (map_of (ms_instances (snd (CreateInstance E w i s))))"
    using itab.create_frame [OF store_wfD(1) [OF wf], of _ _ "(E, w, i)"] by (fastforce simp: keeps_def)
qed (simp_all add: CreateInstance_def Let_def advances_def)

lemma stepIndexOK_create:
  assumes ok: "stepIndexOK steps index" and new: "map_of steps n = None"
    and ids: "ids = (case map_of index (ws_InstanceID st) of None \<Rightarrow> [] | Some xs \<Rightarrow> xs)"
  shows "stepIndexOK (AList.update n st steps) (AList.update (ws_InstanceID st) (ids @ [n]) index)"
proof -
  have fwd: "distinct xs \<and> (\<forall>k \<in> set xs. k \<noteq> n \<and> (\<exists>s. map_of steps k = Some s \<and> ws_InstanceID s = i))"
    if i: "map_of index i = Some xs" for i xs
  proof -
    from ok i have "distinct xs" and ex: "\<forall>k \<in> set xs. \<exists>s. map_of steps k = Some s \<and> ws_InstanceID s = i"
      unfolding stepIndexOK_def by blast+
    moreover have "\<forall>k \<in> set xs. k \<noteq> n" using ex new by (metis option.distinct(1))
    ultimately show ?thesis by blast
  qed
  have bwd: "\<exists>xs. map_of index (ws_InstanceID s) = Some xs \<and> k \<in> set xs" if "map_of steps k = Some s" for k s
    using ok that unfolding stepIndexOK_def by blast
  have own: "distinct ids \<and> (\<forall>k \<in> set ids. k \<noteq> n \<and>
      (\<exists>s. map_of steps k = Some s \<and> ws_InstanceID s = ws_InstanceID st))"
  proof (cases "map_of index (ws_InstanceID st)")
    case None
    then show ?thesis by (simp add: ids)
  next
    case (Some xs)
    from fwd [OF Some] Some show ?thesis by (simp add: ids)
  qed
  show ?thesis
    unfolding stepIndexOK_def map_of_update
  proof (intro conjI allI impI)
    fix i xs assume *: "((map_of index)(ws_InstanceID st \<mapsto> ids @ [n])) i = Some xs"
    show "distinct xs" using * own fwd [of i xs] by (cases "i = ws_InstanceID st") auto
    show "\<forall>k \<in> set xs. \<exists>s. ((map_of steps)(n \<mapsto> st)) k = Some s \<and> ws_InstanceID s = i"
      using * own fwd [of i xs] by (cases "i = ws_InstanceID st") auto
  next
    fix k s assume *: "((map_of steps)(n \<mapsto> st)) k = Some s"
    show "\<exists>xs. ((map_of index)(ws_InstanceID st \<mapsto> ids @ [n])) (ws_InstanceID s) = Some xs \<and> k \<in> set xs"
    proof (cases "k = n")
      case True
      with * show ?thesis by auto
    next
      case False
      with * bwd obtain xs where "map_of index (ws_InstanceID s) = Some xs" "k \<in> set xs" by fastforce
      then show ?thesis by (cases "ws_InstanceID s = ws_InstanceID st") (auto simp: ids)
    qed
  qed
qed

lemma evolves_CreateStep: "go_rel store_evolves (CreateStep E st)"
  unfolding go_rel_def
proof (intro allI evolves_I)
  fix s assume wf: "store_wf s"
  have "stepIndexOK (ms_steps (snd (CreateStep E st s))) (ms_stepsByInstance (snd (CreateStep E st s)))"
    using stepIndexOK_create [OF store_wfD(5) [OF wf] tableOK_fresh [OF store_wfD(2) [OF wf]], OF refl,
        of "madeStep (E, st) s"]
    by (simp add: CreateStep_def madeStep_def Let_def)
  then show "store_wf (snd (CreateStep E st s))"
    using wf stab.create_ok [OF store_wfD(2) [OF wf], of "(E, st)"]
    by (simp add: store_wf_def CreateStep_def Let_def)
  show "keeps sameStep (map_of (ms_steps s)) (map_of (ms_steps (snd (CreateStep E st s))))"
    using stab.create_frame [OF store_wfD(2) [OF wf], of _ _ "(E, st)"] by (fastforce simp: keeps_def)
qed (simp_all add: CreateStep_def Let_def advances_def)

lemma evolves_UpdateInstanceStatus: "go_rel store_evolves (UpdateInstanceStatus E k ist out err)"
  unfolding go_rel_def UpdateInstanceStatus_def
  by (auto simp: Let_def evolves.R_refl sameInstance_def split: option.split intro!: evolves_instance)

lemma evolves_UpdateStep: "go_rel store_evolves (UpdateStep E k st out err)"
  unfolding go_rel_def UpdateStep_def
  by (auto simp: Let_def evolves.R_refl sameStep_def split: option.split intro!: evolves_step)

lemma evolves_stepWrite:
  "map_of (ms_steps s) k = Some st \<Longrightarrow> sameStep st st' \<Longrightarrow>
   store_evolves s (s\<lparr>ms_steps := AList.update k st' (ms_steps s)\<rparr>)"
  using evolves_step [of s k st st' "ms_cursor s"] by simp

lemma evolves_stepStatus:
  "go_rel store_evolves (UpdateStepCompensationRetry k n st)" "go_rel store_evolves (UpdateStepStatus k st)"
  unfolding go_rel_def UpdateStepCompensationRetry_def UpdateStepStatus_def
  by (auto simp: evolves.R_refl sameStep_def split: option.split intro!: evolves_stepWrite)

lemma evolves_queueWrite:
  assumes "tableOK qi_ID (ms_nextQueueID s) (ms_queue s) \<Longrightarrow> tableOK qi_ID (ms_nextQueueID s) q"
    and "ms_cursor s \<le> c"
  shows "store_evolves s (s\<lparr>ms_queue := q, ms_cursor := c\<rparr>)"
  using evolves_queue [OF assms(1) order_refl assms(2)] by simp

lemma evolves_EnqueueStep: "go_rel store_evolves (EnqueueStep E k ok p d)"
  unfolding go_rel_def EnqueueStep_def
  by (auto simp: Let_def intro!: evolves_queue tableOK_insert)

text \<open>The selection loop returns an item of the queue.\<close>

lemma dequeuePick_cases:
  "dequeuePick ae ar now acc item = acc \<or>
   (eligible now item \<and> dequeuePick ae ar now acc item = (effectivePriority ae ar now item, Some item))"
  by (simp add: dequeuePick_def Let_def)

lemma foldl_dequeuePick_mem:
  "snd (foldl (dequeuePick ae ar now) acc items) = Some x \<Longrightarrow>
   snd acc = Some x \<or> (x \<in> set items \<and> eligible now x)"
proof (induction items arbitrary: acc)
  case Nil
  then show ?case by simp
next
  case (Cons item items)
  from Cons.IH [of "dequeuePick ae ar now acc item"] Cons.prems
  show ?case using dequeuePick_cases [of ae ar now acc item] by auto
qed

lemma dequeueSelect_mem:
  "dequeueSelect s now = Some item \<Longrightarrow> item \<in> snd ` set (ms_queue s) \<and> eligible now item"
  using foldl_dequeuePick_mem unfolding dequeueSelect_def by fastforce

lemma dequeueSelect_lookup:
  assumes ok: "tableOK qi_ID n (ms_queue s)" and "dequeueSelect s now = Some item"
  shows "map_of (ms_queue s) (qi_ID item) = Some item"
proof -
  from dequeueSelect_mem [OF assms(2)] obtain k where "(k, item) \<in> set (ms_queue s)" by auto
  then have k: "map_of (ms_queue s) k = Some item"
    using in_set_map_of [OF tableOK_distinct [OF ok]] by blast
  with tableOK_id [OF ok k] show ?thesis by simp
qed

lemma evolves_DequeueStep: "go_rel store_evolves (DequeueStep E worker)"
  unfolding go_rel_def
proof
  fix s
  show "store_evolves s (snd (DequeueStep E worker s))"
  proof (cases "dequeueSelect s (clk E (ms_cursor s))")
    case None
    then show ?thesis by (simp add: DequeueStep_def Let_def evolves_other store_wf_def advances_def)
  next
    case (Some item)
    let ?item' = "item\<lparr>qi_AttemptedAt := Some (clk E (ms_cursor s)), qi_AttemptedBy := Some worker\<rparr>"
    have "snd (DequeueStep E worker s) =
        s\<lparr>ms_queue := AList.update (qi_ID item) ?item' (ms_queue s), ms_cursor := Suc (ms_cursor s)\<rparr>"
      using Some by (cases s) (simp add: DequeueStep_def Let_def)
    moreover have "tableOK qi_ID (ms_nextQueueID s) (AList.update (qi_ID item) ?item' (ms_queue s))"
      if "tableOK qi_ID (ms_nextQueueID s) (ms_queue s)"
      using dequeueSelect_lookup [OF that Some] by (intro tableOK_update [OF that]) simp_all
    ultimately show ?thesis by (simp add: evolves_queueWrite)
  qed
qed

lemma evolves_queueOnly:
  assumes "tableOK qi_ID (ms_nextQueueID s) (ms_queue s) \<Longrightarrow> tableOK qi_ID (ms_nextQueueID s) q"
  shows "store_evolves s (s\<lparr>ms_queue := q\<rparr>)"
  using evolves_queueWrite [OF assms order_refl] by simp

lemma tableOK_queueUpdate:
  assumes ok: "tableOK qi_ID n t" and k: "map_of t k = Some item" and "qi_ID item' = qi_ID item"
  shows "tableOK qi_ID n (AList.update k item' t)"
  using tableOK_id [OF ok k] assms(3) by (intro tableOK_update [OF ok k]) simp

lemma evolves_queueOps:
  "go_rel store_evolves (RemoveFromQueue k)" "go_rel store_evolves (ReleaseQueueItem k)"
  "go_rel store_evolves (RescheduleAndReleaseQueueItem E k d)"
  unfolding go_rel_def RemoveFromQueue_def ReleaseQueueItem_def RescheduleAndReleaseQueueItem_def
  by (auto simp: evolves.R_refl Let_def split: option.split
      intro!: evolves_queueOnly evolves_queueWrite tableOK_delete elim: tableOK_queueUpdate)

lemma evolves_logs:
  "go_rel store_evolves (LogEvent E k ok ty pl)" "go_rel store_evolves (CreateCancelRequest E req)"
  "go_rel store_evolves (DeleteCancelRequest k)" "go_rel store_evolves (CreateHumanDecision E hdr)"
  "go_rel store_evolves (SaveWorkflowDefinition E def)"
  by (auto simp: go_rel_def LogEvent_def CreateCancelRequest_def DeleteCancelRequest_def
      CreateHumanDecision_def SaveWorkflowDefinition_def Let_def evolves.R_refl split: option.split
      intro!: evolves_other simp: store_wf_def advances_def)

lemma evolves_CreateDeadLetterRecord: "go_rel store_evolves (CreateDeadLetterRecord E dl)"
  unfolding go_rel_def
proof (intro allI evolves_I)
  fix s assume wf: "store_wf s"
  from dtab.create_ok [OF store_wfD(4) [OF wf], of "(E, dl)"]
  show "store_wf (snd (CreateDeadLetterRecord E dl s))"
    using wf by (simp add: store_wf_def CreateDeadLetterRecord_def Let_def)
qed (simp_all add: CreateDeadLetterRecord_def Let_def advances_def)

text \<open>Join states.\<close>

lemma joinOK_record: "joinOK j \<Longrightarrow> joinOK (recordResult b x j)"
  by (auto simp: joinOK_def recordResult_def addOnce_def)

lemma joinOK_sync: "joinOK j \<Longrightarrow> joinOK (syncResult steps x j)"
  by (auto simp: joinOK_def syncResult_def split: option.split)

lemma joinOK_fields [simp]:
  "joinOK (j\<lparr>js_WaitingFor := w\<rparr>) = joinOK j" "joinOK (j\<lparr>js_IsReady := b\<rparr>) = joinOK j"
  "joinOK (j\<lparr>js_UpdatedAt := t\<rparr>) = joinOK j"
  by (simp_all add: joinOK_def)

lemma js_key_record [simp]:
  "js_InstanceID (recordResult b x j) = js_InstanceID j" "js_JoinStepName (recordResult b x j) = js_JoinStepName j"
  "js_InstanceID (syncResult st x j) = js_InstanceID j" "js_JoinStepName (syncResult st x j) = js_JoinStepName j"
  by (auto simp: recordResult_def syncResult_def split: option.split)

lemma joinsOK_D: "joinsOK js \<Longrightarrow> map_of js key = Some j \<Longrightarrow>
    key = joinStateKey (js_InstanceID j) (js_JoinStepName j) \<and> joinOK j"
  unfolding joinsOK_def by (blast dest: map_of_SomeD)

lemma joinsOK_update:
  "joinsOK js \<Longrightarrow> key = joinStateKey (js_InstanceID j) (js_JoinStepName j) \<Longrightarrow> joinOK j \<Longrightarrow>
   joinsOK (AList.update key j js)"
  unfolding joinsOK_def using set_update_subset [of key j js] by (auto dest!: subsetD)

lemma defheap_same: "\<exists>h. s = s\<lparr>ms_defheap := h\<rparr>"
  by (rule exI [of _ "ms_defheap s"]) simp

lemma writeW_frame: "writeW s w xs = (w', s') \<Longrightarrow> \<exists>h. s' = s\<lparr>ms_defheap := h\<rparr>"
  using defheap_same by (cases w) (force split: option.splits)+

lemma evolves_joinWrite:
  assumes "joinsOK (ms_joinStates s) \<Longrightarrow> joinsOK js"
  shows "store_evolves s (s\<lparr>ms_joinStates := js, ms_cursor := Suc (ms_cursor s)\<rparr>)"
  using assms by (intro evolves_I) (simp_all add: store_wf_def advances_def)

lemma evolves_joinOps:
  "go_rel store_evolves (CreateJoinState E k jn wr js)" "go_rel store_evolves (UpdateJoinState E k jn cs b)"
  "go_rel store_evolves (AddToJoinWaitFor E k jn cs)"
  unfolding go_rel_def CreateJoinState_def UpdateJoinState_def AddToJoinWaitFor_def
  by (auto simp: Let_def evolves.R_refl split: option.split
      intro!: evolves_joinWrite joinsOK_update joinOK_record dest: joinsOK_D)
    (auto simp: joinOK_def)

lemma evolves_ReplaceInJoinWaitFor: "go_rel store_evolves (ReplaceInJoinWaitFor E k jn vs cs)"
  unfolding go_rel_def
proof
  fix s
  show "store_evolves s (snd (ReplaceInJoinWaitFor E k jn vs cs s))"
  proof (cases "map_of (ms_joinStates s) (joinStateKey k jn)")
    case None
    then show ?thesis by (simp add: ReplaceInJoinWaitFor_def Let_def evolves.R_refl)
  next
    case (Some j)
    obtain w' s1 where w: "(if vs \<in> set (derefW s (js_WaitingFor j))
        then writeW s (js_WaitingFor j) (replaceFirst vs cs (derefW s (js_WaitingFor j)))
        else (WOwn (derefW s (js_WaitingFor j) @ [cs]), s)) = (w', s1)" (is "?e = _") by (cases ?e)
    then have "\<exists>h. s1 = s\<lparr>ms_defheap := h\<rparr>"
      using defheap_same writeW_frame by (cases "vs \<in> set (derefW s (js_WaitingFor j))") auto
    then obtain h where h: "s1 = s\<lparr>ms_defheap := h\<rparr>" ..
    have "joinsOK (ms_joinStates s) \<Longrightarrow> joinOK j \<and> joinStateKey k jn = joinStateKey (js_InstanceID j) (js_JoinStepName j)"
      using joinsOK_D [OF _ Some] by blast
    then show ?thesis
      by (simp add: ReplaceInJoinWaitFor_def Some Let_def w h)
        (intro evolves_joins joinsOK_update; simp add: joinOK_sync)
  qed
qed

text \<open>Changing the steps of one instance.\<close>

lemma mapSteps_Cons:
  "mapSteps f (i # ids) tab =
   mapSteps f ids (case map_of tab i of None \<Rightarrow> tab | Some st \<Rightarrow> AList.update i (f st) tab)"
  by (simp add: mapSteps_def)

lemma map_of_mapSteps:
  "distinct ids \<Longrightarrow> map_of (mapSteps f ids tab) k =
     (if k \<in> set ids then map_option f (map_of tab k) else map_of tab k)"
proof (induction ids arbitrary: tab)
  case Nil
  then show ?case by (simp add: mapSteps_def)
next
  case (Cons i ids)
  then show ?case by (cases "map_of tab i") (auto simp: mapSteps_Cons)
qed

lemma mapSteps_distinct: "distinct (map fst tab) \<Longrightarrow> distinct (map fst (mapSteps f ids tab))"
proof (induction ids arbitrary: tab)
  case Nil
  then show ?case by (simp add: mapSteps_def)
next
  case (Cons i ids)
  show ?case
  proof (cases "map_of tab i")
    case None
    with Cons.IH [OF Cons.prems] show ?thesis by (simp only: mapSteps_Cons option.case)
  next
    case (Some st)
    with Cons.IH [OF distinct_keys_update [OF Cons.prems]] show ?thesis
      by (simp only: mapSteps_Cons option.case)
  qed
qed

lemma stepIDsOf_distinct: "store_wf s \<Longrightarrow> distinct (stepIDsOf s i)"
proof (cases "map_of (ms_stepsByInstance s) i")
  case None
  then show ?thesis by (simp add: stepIDsOf_def)
next
  case (Some ids)
  moreover assume "store_wf s"
  then have "distinct ids" using Some store_wfD(5) [of s] unfolding stepIndexOK_def by blast
  ultimately show ?thesis by (simp add: stepIDsOf_def)
qed

lemma mapSteps_wf:
  assumes wf: "store_wf s" and same: "\<And>st. sameStep st (f st)"
  shows "tableOK ws_ID (ms_nextStepID s) (mapSteps f (stepIDsOf s i) (ms_steps s))"
    and "stepIndexOK (mapSteps f (stepIDsOf s i) (ms_steps s)) (ms_stepsByInstance s)"
    and "keeps sameStep (map_of (ms_steps s)) (map_of (mapSteps f (stepIDsOf s i) (ms_steps s)))"
proof -
  note look = map_of_mapSteps [OF stepIDsOf_distinct [OF wf], of f i "ms_steps s"]
  show "tableOK ws_ID (ms_nextStepID s) (mapSteps f (stepIDsOf s i) (ms_steps s))"
  proof (rule tableOKI)
    show "distinct (map fst (mapSteps f (stepIDsOf s i) (ms_steps s)))"
      by (rule mapSteps_distinct [OF tableOK_distinct [OF store_wfD(2) [OF wf]]])
  next
    fix k st assume "map_of (mapSteps f (stepIDsOf s i) (ms_steps s)) k = Some st"
    then obtain st0 where st0: "map_of (ms_steps s) k = Some st0" and "st = st0 \<or> st = f st0"
      by (auto simp: look split: if_splits)
    then have "ws_ID st = ws_ID st0" using same [of st0] by (auto simp: sameStep_def)
    then show "ws_ID st = k \<and> k < ms_nextStepID s"
      using tableOK_id [OF store_wfD(2) [OF wf] st0] tableOK_bound [OF store_wfD(2) [OF wf] st0] by simp
  qed
  show "stepIndexOK (mapSteps f (stepIDsOf s i) (ms_steps s)) (ms_stepsByInstance s)"
    using same by (intro stepIndexOK_keep [OF store_wfD(5) [OF wf]]) (auto simp: look sameStep_def split: if_splits)
  show "keeps sameStep (map_of (ms_steps s)) (map_of (mapSteps f (stepIDsOf s i) (ms_steps s)))"
    using same by (auto simp: keeps_def look)
qed

lemma evolves_mapSteps:
  assumes "\<And>st. sameStep st (f st)"
  shows "store_evolves s (s\<lparr>ms_steps := mapSteps f (stepIDsOf s i) (ms_steps s)\<rparr>)"
  using mapSteps_wf [of s f i] assms by (intro evolves_I) (auto simp: store_wf_def advances_def)

lemma evolves_Pause: "go_rel store_evolves (PauseActiveStepsAndClearQueue k)"
  unfolding go_rel_def
proof
  fix s :: MemoryStore
  let ?f = "\<lambda>st. if ws_Status st = StepStatusRunning then st\<lparr>ws_Status := StepStatusPaused\<rparr> else st"
  let ?q = "filter (\<lambda>(i, item). qi_InstanceID item \<noteq> k) (ms_queue s)"
  let ?t = "s\<lparr>ms_steps := mapSteps ?f (stepIDsOf s k) (ms_steps s)\<rparr>"
  have "store_evolves s ?t" by (rule evolves_mapSteps) (simp add: sameStep_def)
  moreover have "store_evolves ?t (?t\<lparr>ms_queue := ?q\<rparr>)"
    by (rule evolves_queueOnly) (auto intro: tableOK_filter)
  ultimately show "store_evolves s (snd (PauseActiveStepsAndClearQueue k s))"
    unfolding PauseActiveStepsAndClearQueue_def by (auto intro: evolves.R_trans)
qed

text \<open>\<open>RequeueDeadLetter\<close> as a sequence of single changes.\<close>

definition resetStep :: "raw option \<Rightarrow> WorkflowStep \<Rightarrow> WorkflowStep" where
  "resetStep newInput step = step\<lparr>ws_Status := StepStatusPending,
     ws_Input := (case newInput of None \<Rightarrow> ws_Input step | Some i \<Rightarrow> i),
     ws_Error := None, ws_RetryCount := 0, ws_CompensationRetryCount := 0,
     ws_StartedAt := None, ws_CompletedAt := None\<rparr>"

definition wakeJoin :: "WorkflowStep \<Rightarrow> WorkflowStep" where
  "wakeJoin st = (if ws_StepType st = StepTypeJoin \<and> ws_Status st = StepStatusPaused
                  then st\<lparr>ws_Status := StepStatusPending\<rparr> else st)"

definition resumeInstance :: "int \<Rightarrow> (int \<times> WorkflowInstance) list \<Rightarrow> (int \<times> WorkflowInstance) list" where
  "resumeInstance k t = (case map_of t k of None \<Rightarrow> t
     | Some i \<Rightarrow> if wi_Status i = StatusFailed \<or> wi_Status i = StatusDLQ
                then AList.update k (i\<lparr>wi_Status := StatusRunning, wi_Error := None\<rparr>) t else t)"

lemma RequeueDeadLetter_Some:
  assumes "map_of (ms_deadLetters s) d = Some r" "map_of (ms_steps s) (dl_StepID r) = Some step"
  shows "RequeueDeadLetter d ni s = (Ok (), s\<lparr>
      ms_steps := mapSteps wakeJoin (stepIDsOf s (dl_InstanceID r))
        (AList.update (dl_StepID r) (resetStep ni step) (ms_steps s)),
      ms_instances := resumeInstance (dl_InstanceID r) (ms_instances s),
      ms_deadLetters := AList.delete d (ms_deadLetters s)\<rparr>)"
  unfolding RequeueDeadLetter_def wakeJoin_def resumeInstance_def
  using assms by (simp add: Let_def resetStep_def)

lemma evolves_resume: "store_evolves s (s\<lparr>ms_instances := resumeInstance k (ms_instances s)\<rparr>)"
proof (cases "map_of (ms_instances s) k")
  case None
  then show ?thesis by (simp add: resumeInstance_def evolves.R_refl)
next
  case (Some i)
  then show ?thesis
    using evolves_instance [OF Some, of "i\<lparr>wi_Status := StatusRunning, wi_Error := None\<rparr>" "ms_cursor s"]
    by (simp add: resumeInstance_def evolves.R_refl sameInstance_def)
qed

lemma evolves_RequeueDeadLetter: "go_rel store_evolves (RequeueDeadLetter d ni)"
  unfolding go_rel_def
proof
  fix s :: MemoryStore
  consider (no) "map_of (ms_deadLetters s) d = None"
    | (gone) r where "map_of (ms_deadLetters s) d = Some r" "map_of (ms_steps s) (dl_StepID r) = None"
    | (yes) r step where "map_of (ms_deadLetters s) d = Some r" "map_of (ms_steps s) (dl_StepID r) = Some step"
    by (cases "map_of (ms_deadLetters s) d"; fastforce)
  then show "store_evolves s (snd (RequeueDeadLetter d ni s))"
  proof cases
    case yes
    let ?s1 = "s\<lparr>ms_steps := AList.update (dl_StepID r) (resetStep ni step) (ms_steps s)\<rparr>"
    let ?s2 = "?s1\<lparr>ms_steps := mapSteps wakeJoin (stepIDsOf ?s1 (dl_InstanceID r)) (ms_steps ?s1)\<rparr>"
    let ?s3 = "?s2\<lparr>ms_instances := resumeInstance (dl_InstanceID r) (ms_instances ?s2)\<rparr>"
    have "store_evolves s ?s1"
      using yes(2) by (rule evolves_stepWrite) (simp add: sameStep_def resetStep_def)
    moreover have "store_evolves ?s1 ?s2"
      by (rule evolves_mapSteps) (simp add: sameStep_def wakeJoin_def)
    moreover have "store_evolves ?s2 ?s3" by (rule evolves_resume)
    moreover have "store_evolves ?s3 (?s3\<lparr>ms_deadLetters := AList.delete d (ms_deadLetters s)\<rparr>)"
      by (intro evolves_I) (auto simp: store_wf_def advances_def intro: tableOK_delete)
    ultimately show ?thesis
      by (simp add: RequeueDeadLetter_Some [OF yes] stepIDsOf_def) (meson evolves.R_trans)
  qed (simp_all add: RequeueDeadLetter_def evolves.R_refl)
qed

interpretation wf: store_rel store_evolves
proof unfold_locales
  fix s :: MemoryStore
  show "store_evolves s (s\<lparr>ms_cursor := Suc (ms_cursor s)\<rparr>)"
    by (rule evolves_other) (simp_all add: store_wf_def advances_def)
next
  fix s :: MemoryStore and k st v assume "map_of (ms_steps s) k = Some st"
  then show "store_evolves s (s\<lparr>ms_steps := AList.update k (st\<lparr>ws_Status := v\<rparr>) (ms_steps s)\<rparr>)"
    by (rule evolves_stepWrite) (simp add: sameStep_def)
qed (rule evolves_CreateInstance evolves_CreateStep evolves_UpdateInstanceStatus evolves_UpdateStep
  evolves_stepStatus evolves_EnqueueStep evolves_DequeueStep evolves_queueOps evolves_logs
  evolves_CreateDeadLetterRecord evolves_joinOps evolves_ReplaceInJoinWaitFor evolves_Pause
  evolves_RequeueDeadLetter)+

lemma NewMemoryStore_wf: "store_wf NewMemoryStore"
  by (simp add: store_wf_def NewMemoryStore_def tableOK_Nil stepIndexOK_def joinsOK_def)

section \<open>The index of steps\<close>

lemma stepIDsOf_stored:
  assumes wf: "store_wf s" and k: "k \<in> set (stepIDsOf s i)"
  shows "\<exists>st. map_of (ms_steps s) k = Some st \<and> ws_InstanceID st = i"
proof (cases "map_of (ms_stepsByInstance s) i")
  case None
  with k show ?thesis by (simp add: stepIDsOf_def)
next
  case (Some ids)
  with k have "k \<in> set ids" by (simp add: stepIDsOf_def)
  with Some store_wfD(5) [OF wf] show ?thesis unfolding stepIndexOK_def by blast
qed

lemma step_in_index:
  assumes wf: "store_wf s" and k: "map_of (ms_steps s) k = Some st"
  shows "k \<in> set (stepIDsOf s (ws_InstanceID st))"
  using store_wfD(5) [OF wf] k unfolding stepIndexOK_def stepIDsOf_def by (metis option.simps(5))

lemma set_stepsOfInstance:
  assumes wf: "store_wf s"
  shows "st \<in> set (stepsOfInstance s i) \<longleftrightarrow> map_of (ms_steps s) (ws_ID st) = Some st \<and> ws_InstanceID st = i"
proof
  assume "st \<in> set (stepsOfInstance s i)"
  then obtain k where k: "k \<in> set (stepIDsOf s i)" "map_of (ms_steps s) k = Some st"
    by (auto simp: stepsOfInstance_def map_filter_def)
  with stepIDsOf_stored [OF wf k(1)] tableOK_id [OF store_wfD(2) [OF wf] k(2)]
  show "map_of (ms_steps s) (ws_ID st) = Some st \<and> ws_InstanceID st = i" by auto
next
  assume st: "map_of (ms_steps s) (ws_ID st) = Some st \<and> ws_InstanceID st = i"
  then have "ws_ID st \<in> set (stepIDsOf s i)" using step_in_index [OF wf] by blast
  with st show "st \<in> set (stepsOfInstance s i)"
    unfolding stepsOfInstance_def map_filter_def by (force intro: rev_image_eqI)
qed

end
