(* ===== verification/Engine_Laws.thy ===== *)
theory Engine_Laws
  imports Engine Store_Laws
begin

text \<open>
  Every engine operation keeps every preorder its store calls keep. The engine is a client of the
  interface \<open>store_rel\<close>: its operations are proved once inside that locale, for an arbitrary
  preorder on stores, and the interpretations give the theorems about the model.
\<close>

text \<open>The store operations end.\<close>

lemma store_settles [settling]:
  "settles (SaveWorkflowDefinition E def)" "settles (CreateInstance E w i)"
  "settles (UpdateInstanceStatus E k ist out err)" "settles (CreateStep E step)"
  "settles (UpdateStep E k sst out err)" "settles (UpdateStepCompensationRetry k n sst)"
  "settles (UpdateStepStatus k sst)" "settles (EnqueueStep E k ok p d)" "settles (DequeueStep E worker)"
  "settles (RemoveFromQueue k)" "settles (ReleaseQueueItem k)" "settles (RescheduleAndReleaseQueueItem E k d)"
  "settles (LogEvent E k ok ty pl)" "settles (CreateCancelRequest E req)" "settles (DeleteCancelRequest k)"
  "settles (CreateHumanDecision E hdr)" "settles (CreateDeadLetterRecord E dl)"
  "settles (PauseActiveStepsAndClearQueue k)"
  by (auto simp: settles_def SaveWorkflowDefinition_def CreateInstance_def UpdateInstanceStatus_def
      CreateStep_def UpdateStep_def UpdateStepCompensationRetry_def UpdateStepStatus_def EnqueueStep_def
      DequeueStep_def RemoveFromQueue_def ReleaseQueueItem_def RescheduleAndReleaseQueueItem_def
      LogEvent_def CreateCancelRequest_def DeleteCancelRequest_def CreateHumanDecision_def
      CreateDeadLetterRecord_def PauseActiveStepsAndClearQueue_def Let_def split: option.split)

lemma join_settles [settling]:
  "settles (CreateJoinState E k jn wr js)" "settles (UpdateJoinState E k jn cs b)"
  "settles (AddToJoinWaitFor E k jn cs)" "settles (ReplaceInJoinWaitFor E k jn vs cs)"
  "settles (RequeueDeadLetter k ni)"
  by (auto simp: settles_def CreateJoinState_def UpdateJoinState_def AddToJoinWaitFor_def
      ReplaceInJoinWaitFor_def RequeueDeadLetter_def Let_def split: option.split prod.split)

lemma reader_settles [settling]:
  "settles (GetWorkflowDefinition w)" "settles (GetInstance k)" "settles (GetStepsByInstance k)"
  "settles (GetActiveStepsForUpdate k)" "settles (GetStepByID k)" "settles (GetJoinState k jn)"
  "settles (GetCancelRequest k)" "settles (GetHumanDecision k)" "settles (GetDeadLetterByID k)"
  by (auto simp: settles_def GetWorkflowDefinition_def GetInstance_def GetStepsByInstance_def
      GetActiveStepsForUpdate_def GetStepByID_def GetJoinState_def GetCancelRequest_def
      GetHumanDecision_def GetDeadLetterByID_def split: option.split)

section \<open>Fuel of the rollback\<close>

text \<open>Code that ends and, if it returns, returns an extension of the visited steps.\<close>

definition keepsVisited :: "string list \<Rightarrow> string list ego \<Rightarrow> bool" where
  "keepsVisited v m \<longleftrightarrow> (\<forall>w. fst (m w) \<noteq> OutOfFuel \<and> (\<forall>v'. fst (m w) = Ok v' \<longrightarrow> set v \<subseteq> set v'))"

lemma kv_ret: "set v \<subseteq> set v' \<Longrightarrow> keepsVisited v (gret v')"
  by (simp add: keepsVisited_def gret_def)

lemma kv_fail: "keepsVisited v (gfail e)"
  by (simp add: keepsVisited_def gfail_def)

lemma kv_mono: "keepsVisited v' m \<Longrightarrow> set v \<subseteq> set v' \<Longrightarrow> keepsVisited v m"
  unfolding keepsVisited_def by (meson subset_trans)

lemma kv_bind:
  assumes "keepsVisited v m" "\<And>v'. set v \<subseteq> set v' \<Longrightarrow> keepsVisited v (k v')"
  shows "keepsVisited v (gbind m k)"
  unfolding keepsVisited_def
proof
  fix w
  obtain r w' where m: "m w = (r, w')" by (cases "m w")
  with assms(1) have "r \<noteq> OutOfFuel" and grow: "\<And>v'. r = Ok v' \<Longrightarrow> set v \<subseteq> set v'"
    unfolding keepsVisited_def by (metis fst_conv)+
  then show "fst (gbind m k w) \<noteq> OutOfFuel \<and> (\<forall>v'. fst (gbind m k w) = Ok v' \<longrightarrow> set v \<subseteq> set v')"
    using assms(2) [unfolded keepsVisited_def] by (cases r) (simp_all add: gbind_def m)
qed

lemma kv_seq:
  assumes "settles m" "keepsVisited v k"
  shows "keepsVisited v (gseq m k)"
  unfolding keepsVisited_def
proof
  fix w
  obtain r w' where m: "m w = (r, w')" by (cases "m w")
  with assms(1) have "r \<noteq> OutOfFuel" unfolding settles_def by (metis fst_conv)
  then show "fst (gseq m k w) \<noteq> OutOfFuel \<and> (\<forall>v'. fst (gseq m k w) = Ok v' \<longrightarrow> set v \<subseteq> set v')"
    using assms(2) [unfolded keepsVisited_def] by (cases r) (simp_all add: gseq_def gbind_def m)
qed

lemma kv_fold:
  assumes "\<And>x v'. set v \<subseteq> set v' \<Longrightarrow> keepsVisited v' (f x v')" "set v \<subseteq> set v'"
  shows "keepsVisited v (gfold f xs v')"
  using assms(2)
proof (induction xs arbitrary: v')
  case Nil
  then show ?case unfolding gfold.simps by (rule kv_ret)
next
  case (Cons x xs)
  have "keepsVisited v (f x v')" using assms(1) [OF Cons.prems] Cons.prems by (rule kv_mono)
  then show ?case using Cons.IH by (simp add: kv_bind)
qed

lemma kv_if: "keepsVisited v a \<Longrightarrow> keepsVisited v b \<Longrightarrow> keepsVisited v (if c then a else b)"
  by simp

lemma kv_option: "keepsVisited v a \<Longrightarrow> (\<And>x. keepsVisited v (f x)) \<Longrightarrow> keepsVisited v (case_option a f x)"
  by (cases x) auto

lemma kv_branch:
  "keepsVisited v a \<Longrightarrow> keepsVisited v b \<Longrightarrow> keepsVisited v c \<Longrightarrow> keepsVisited v (case_branch a b c x)"
  by (cases x) auto

lemmas kv_rules = kv_bind kv_seq kv_ret kv_if kv_option kv_branch

lemma rollbackStep_settles [settling]: "settles (rollbackStep E step def)"
  unfolding rollbackStep_def needStep_def logEvent_def onStore_def
  by (auto split: option.split simp: Let_def intro!: settling)

lemma rollback_keeps:
  "card (set (map fst (stepsOf def)) - set visited) < fuel \<Longrightarrow>
   keepsVisited visited (rollbackStepChainWithVisited fuel E def stepMap sp isPar cur visited)"
proof (induction fuel arbitrary: isPar cur visited)
  case 0
  then show ?case by simp
next
  case (Suc fuel)
  let ?K = "set (map fst (stepsOf def))"
  let ?go = "rollbackStepChainWithVisited fuel E def stepMap sp"
  show ?case
  proof (cases "cur \<in> set visited \<or> cur = sp \<or> stepDefOf def cur = None")
    case True
    then show ?thesis by (auto simp: needStep_def intro!: kv_ret kv_fail)
  next
    case False
    then obtain sd where sd: "stepDefOf def cur = Some sd" by auto
    then have "cur \<in> ?K - set visited"
      using False by (auto simp: stepDefOf_def dest!: map_of_SomeD intro: rev_image_eqI)
    have new: "(cur \<in> set visited) = False" "(cur = sp) = False" using False by auto
    have less: "card (?K - set v) < fuel" if v: "set (cur # visited) \<subseteq> set v" for v
    proof -
      have "?K - set v \<subset> ?K - set visited" using v \<open>cur \<in> ?K - set visited\<close> by auto
      then have "card (?K - set v) < card (?K - set visited)" by (intro psubset_card_mono) auto
      with Suc.prems show ?thesis by linarith
    qed
    have par: "keepsVisited v (?go isP x v)" if "set (cur # visited) \<subseteq> set v" for isP x v
      using less [OF that] by (rule Suc.IH)
    have fold: "keepsVisited (cur # visited) (gfold (?go True) xs v)" if "set (cur # visited) \<subseteq> set v" for xs v
      using par that by (rule kv_fold)
    have one: "keepsVisited (cur # visited) (?go isP x v)" if "set (cur # visited) \<subseteq> set v" for isP x v
      using par [OF that] that by (rule kv_mono)
    have "keepsVisited (cur # visited) (rollbackStepChainWithVisited (Suc fuel) E def stepMap sp isPar cur visited)"
      unfolding rollbackStepChainWithVisited.simps needStep_def sd option.case Let_def new if_False
      by (intro kv_rules fold one settling) auto
    then show ?thesis by (rule kv_mono) auto
  qed
qed

lemma rollbackStepChain_settles [settling]: "settles (rollbackStepChain E cur sp def stepMap isPar)"
proof -
  have "card (set (map fst (stepsOf def)) - set []) < chainFuel def"
    using card_length [of "map fst (stepsOf def)"] by (simp add: chainFuel_def)
  then have "settles (rollbackStepChainWithVisited (chainFuel def) E def stepMap sp isPar cur [])"
    using rollback_keeps [of def "[]" "chainFuel def"] unfolding keepsVisited_def settles_def by blast
  then show ?thesis unfolding rollbackStepChain_def by (intro settling)
qed

section \<open>The engine's interface\<close>

text \<open>
  A preorder on stores together with a view \<open>F\<close> of the engine that does not depend on the fields
  running steps change: stores are related, the view is unchanged.
\<close>

definition liftR :: "(MemoryStore \<Rightarrow> MemoryStore \<Rightarrow> bool) \<Rightarrow> (Engine \<Rightarrow> 'v) \<Rightarrow> Engine \<Rightarrow> Engine \<Rightarrow> bool" where
  "liftR R F w w' \<longleftrightarrow> R (en_store w) (en_store w') \<and> F w' = F w"

locale engine_rel = store_rel R for R :: "MemoryStore \<Rightarrow> MemoryStore \<Rightarrow> bool" +
  fixes F :: "Engine \<Rightarrow> 'v"
  assumes F_store: "F (w\<lparr>en_store := s\<rparr>) = F w"
    and F_contexts: "F (w\<lparr>en_cancelContexts := cc\<rparr>) = F w"
    and F_cancelled: "F (w\<lparr>en_cancelled := ca\<rparr>) = F w"
    and F_skipLog: "F (w\<lparr>en_skipLogNextAllowed := sl\<rparr>) = F w"
    and F_events: "F (w\<lparr>en_humanEvents := he\<rparr>) = F w"
    and F_calls: "F (w\<lparr>en_hcalls := n\<rparr>) = F w"

sublocale engine_rel \<subseteq> eng: go_preorder "liftR R F"
proof unfold_locales
  show "liftR R F w w" for w by (simp add: liftR_def R_refl)
  show "liftR R F u w" if "liftR R F u v" "liftR R F v w" for u v w
    using that R_trans unfolding liftR_def by metis
qed

context engine_rel
begin

abbreviation eok :: "'a ego \<Rightarrow> bool" where
  "eok m \<equiv> go_ok (liftR R F) m"

lemmas engine_control [ok_rules] = eng.ok_control

lemma onStore: "go_rel R m \<Longrightarrow> settles m \<Longrightarrow> eok (onStore m)"
  by (auto simp: go_ok_def settles_def go_rel_def liftR_def onStore_def gzoom_def F_store split: prod.split)
    (metis snd_conv, metis fst_conv)

lemma store_ops [ok_rules]:
  "eok (onStore (SaveWorkflowDefinition E def))" "eok (onStore (CreateInstance E wn i))"
  "eok (onStore (UpdateInstanceStatus E k ist out err))" "eok (onStore (CreateStep E step))"
  "eok (onStore (UpdateStep E k sst out err))" "eok (onStore (UpdateStepCompensationRetry k n sst))"
  "eok (onStore (UpdateStepStatus k sst))" "eok (onStore (EnqueueStep E k ok p d))"
  "eok (onStore (DequeueStep E worker))" "eok (onStore (RemoveFromQueue k))"
  "eok (onStore (ReleaseQueueItem k))" "eok (onStore (RescheduleAndReleaseQueueItem E k d))"
  "eok (onStore (LogEvent E k ok ty pl))" "eok (onStore (CreateJoinState E k jn wr js))"
  "eok (onStore (UpdateJoinState E k jn cs b))" "eok (onStore (AddToJoinWaitFor E k jn cs))"
  "eok (onStore (ReplaceInJoinWaitFor E k jn vs cs))" "eok (onStore (CreateCancelRequest E req))"
  "eok (onStore (DeleteCancelRequest k))" "eok (onStore (CreateHumanDecision E hdr))"
  "eok (onStore (CreateDeadLetterRecord E dl))" "eok (onStore (RequeueDeadLetter k ni))"
  "eok (onStore (PauseActiveStepsAndClearQueue k))"
  "eok (onStore (GetWorkflowDefinition wn))" "eok (onStore (GetInstance k))"
  "eok (onStore (GetStepsByInstance k))" "eok (onStore (GetActiveStepsForUpdate k))"
  "eok (onStore (GetStepByID k))" "eok (onStore (GetJoinState k jn))" "eok (onStore (GetCancelRequest k))"
  "eok (onStore (GetHumanDecision k))" "eok (onStore (GetDeadLetterByID k))"
  by (intro onStore rel_ops settling)+

lemma ownState: "(\<And>w. en_store (f w) = en_store w \<and> F (f w) = F w) \<Longrightarrow> eok (gmodify f)"
  by (simp add: go_ok_def go_rel_def liftR_def gmodify_def R_refl settles_def)

lemmas F_own = F_contexts F_cancelled F_skipLog F_events F_calls

lemma needStep [ok_rules]: "(\<And>sd. eok (k sd)) \<Longrightarrow> eok (needStep msg def n k)"
  unfolding needStep_def by (intro ok_rules)

lemma logEvent [ok_rules]: "eok (logEvent E i st ty kvs)"
  unfolding logEvent_def by (intro ok_rules)

lemma readClock [ok_rules]: "eok (readClock E)"
  unfolding readClock_def by (intro onStore) (simp_all add: go_rel_def cursor settles_def)

lemma readStep [ok_rules]: "eok (readStep r)"
  unfolding readStep_def by (intro ok_rules)

lemma writeStatus [ok_rules]: "eok (writeStatus r v)"
proof (cases r)
  case (SCopy st)
  then show ?thesis by (simp add: writeStatus_def eng.ok_pure)
next
  case (SLive st)
  have "go_rel R (gmodify (\<lambda>s. case map_of (ms_steps s) (ws_ID st) of None \<Rightarrow> s
      | Some st' \<Rightarrow> s\<lparr>ms_steps := AList.update (ws_ID st) (st'\<lparr>ws_Status := v\<rparr>) (ms_steps s)\<rparr>))"
    by (auto simp: go_rel_def gmodify_def R_refl split: option.split intro: stepWrite)
  then show ?thesis by (simp only: SLive writeStatus_def sref.case) (intro ok_rules onStore settling)
qed

lemma checkDefinition [ok_rules]: "eok (checkDefinition def)"
  unfolding checkDefinition_def by (intro ok_rules)

lemma RegisterWorkflow [ok_rules]: "eok (RegisterWorkflow E def)"
  unfolding RegisterWorkflow_def by (intro ok_rules)

lemma jitteredCooldown [ok_rules]: "eok (jitteredCooldown E)"
  by (simp add: go_ok_def go_rel_def settles_def jitteredCooldown_def liftR_def Let_def R_refl cursor F_store)

lemma shouldLogSkip [ok_rules]: "eok (shouldLogSkip E key)"
  unfolding shouldLogSkip_def by (intro ok_rules ownState) (simp_all add: F_own)

lemma contexts [ok_rules]:
  "eok (registerInstanceContext i st)" "eok (unregisterInstanceContext i st)"
  "eok HumanDecisionWaitingEvents" "eok (sendHumanEvent i out)"
  unfolding registerInstanceContext_def unregisterInstanceContext_def HumanDecisionWaitingEvents_def
    sendHumanEvent_def
  by (rule ownState; simp add: F_own Let_def split: option.split)+

lemma processCancelRequests [ok_rules]: "eok processCancelRequests"
  unfolding processCancelRequests_def processCancelRequest_def
  by (intro ok_rules ownState) (simp add: F_own split: option.split)

lemma requestStop [ok_rules]: "eok (requestStop E kind ty i who why)"
  unfolding requestStop_def by (intro ok_rules)

lemma requests [ok_rules]:
  "eok (CancelWorkflow E i who why)" "eok (AbortWorkflow E i who why)"
  unfolding CancelWorkflow_def AbortWorkflow_def by (rule requestStop)+

lemma apiCall [ok_rules]: "eok (apiCall E c)"
  by (cases c) (auto intro: ok_rules requests processCancelRequests)

lemma callHandler [ok_rules]: "eok (callHandler E h ctx input)"
  unfolding callHandler_def by (intro ok_rules ownState) (simp add: F_own)

lemma pluginHook [ok_rules]: "eok (pluginHook hook msg)"
  unfolding pluginHook_def by (intro ok_rules)

lemma enqueueNextSteps [ok_rules]: "eok (enqueueNextSteps E i ns input)"
  unfolding enqueueNextSteps_def by (intro ok_rules)

lemma createFirstStep [ok_rules]: "eok (createFirstStep E i)"
  unfolding createFirstStep_def by (intro ok_rules)

lemma stopActiveSteps [ok_rules]: "eok (stopActiveSteps E i)"
  unfolding stopActiveSteps_def by (intro ok_rules)

lemma notifyOneJoin [ok_rules]: "eok (notifyOneJoin E inst i jn sd cs ok)"
  unfolding notifyOneJoin_def createJoinStep_def by (intro ok_rules)

lemma notifyJoins [ok_rules]:
  "eok (notifyJoinStepsForStep E i jn cs ok)" "eok (notifyJoinSteps E i cs ok)"
  unfolding notifyJoinStepsForStep_def notifyJoinSteps_def
  by (intro ok_rules)+

lemma enqueueCompletedStepsForRollback [ok_rules]: "eok (enqueueCompletedStepsForRollback E i)"
  unfolding enqueueCompletedStepsForRollback_def by (intro ok_rules)

lemma markFailed [ok_rules]: "eok (markFailed E i w)"
  unfolding markFailed_def by (intro ok_rules)

lemma completeWorkflow [ok_rules]: "eok (completeWorkflow E i out)"
  unfolding completeWorkflow_def
  by (intro ok_rules)

lemma rollbackStep [ok_rules]: "eok (rollbackStep E step def)"
  unfolding rollbackStep_def by (intro ok_rules)

lemma rel_branch:
  "go_rel Q a \<Longrightarrow> go_rel Q b \<Longrightarrow> go_rel Q c \<Longrightarrow> go_rel Q (case_branch a b c x)"
  by (cases x) auto

lemma rollbackChain:
  "go_rel (liftR R F) (rollbackStepChainWithVisited fuel E def stepMap sp isPar cur visited)"
proof (induction fuel arbitrary: isPar cur visited)
  case 0
  then show ?case by (simp add: eng.rel_pure)
next
  case (Suc fuel)
  have "go_rel (liftR R F) (rollbackStep E step def)" for step
    using rollbackStep unfolding go_ok_def by blast
  then show ?case
    unfolding rollbackStepChainWithVisited.simps needStep_def by (intro eng.rel_control rel_branch Suc)
qed

lemma rollbackStepChain [ok_rules]: "eok (rollbackStepChain E cur sp def stepMap isPar)"
  using rollbackStepChain_settles rollbackChain unfolding go_ok_def rollbackStepChain_def
  by (blast intro: eng.rel_control)

lemma rollbackToSavePointOrRoot [ok_rules]: "eok (rollbackToSavePointOrRoot E i ref def)"
  unfolding rollbackToSavePointOrRoot_def rollbackStepsToSavePoint_def
  by (intro ok_rules)

lemma stopParallelBranchesInFork [ok_rules]: "eok (stopParallelBranchesInFork E i n def)"
  unfolding stopParallelBranchesInFork_def by (intro ok_rules)

lemma handleCancellation [ok_rules]: "eok (handleCancellation E inst step req)"
  unfolding handleCancellation_def
  by (intro ok_rules)

lemma executeCompensationStep [ok_rules]: "eok (executeCompensationStep E inst step)"
  unfolding executeCompensationStep_def compensationFailed_def compensationDone_def
  by (intro ok_rules)

lemma executeTask [ok_rules]: "eok (executeTask E inst step sd)"
  unfolding executeTask_def by (intro ok_rules)

lemma executeFork [ok_rules]: "eok (executeFork E inst step sd)"
  unfolding executeFork_def forkBranch_def forkJoinState_def by (intro ok_rules)

lemma executeJoin [ok_rules]: "eok (executeJoin E inst step)"
  unfolding executeJoin_def by (intro ok_rules)

lemma executeCondition [ok_rules]: "eok (executeCondition E inst step sd)"
  unfolding executeCondition_def by (intro ok_rules)

lemma rel_decision [ok_rules]:
  "go_ok Q a \<Longrightarrow> go_ok Q b \<Longrightarrow> (\<And>s. go_ok Q (c s)) \<Longrightarrow> go_ok Q (case_HumanDecision a b c x)"
  by (cases x) auto

lemma executeHuman [ok_rules]: "eok (executeHuman E inst ref sd)"
  unfolding executeHuman_def processHumanDecision_def extendInput_def
  by (intro ok_rules)

lemma replaceVirtualStep [ok_rules]: "eok (replaceVirtualStep E i step jn cn ok)"
  unfolding replaceVirtualStep_def by (intro ok_rules)

lemma updateBranchJoin [ok_rules]: "eok (updateBranchJoin E i step sd def)"
  unfolding updateBranchJoin_def addTerminalStep_def joinOfBranch_def
  by (intro ok_rules)

lemma handleStepSuccess [ok_rules]: "eok (handleStepSuccess E inst ref sd out nxt)"
  unfolding handleStepSuccess_def
  by (intro ok_rules)

lemma failAndRollback [ok_rules]: "eok (failAndRollback E inst ref sd msg)"
  unfolding failAndRollback_def joinOfBranch_def
  by (intro ok_rules)

lemma handleStepFailure [ok_rules]: "eok (handleStepFailure E inst ref sd err)"
  unfolding handleStepFailure_def retryStep_def sendToDLQ_def
  by (intro ok_rules)

lemma runStep [ok_rules]: "eok (runStep E inst ref sd)"
  unfolding runStep_def
  by (cases "sd_Type sd") (simp_all only: StepType.case, (intro ok_rules)+)

lemma ok_bool: "go_ok Q a \<Longrightarrow> go_ok Q b \<Longrightarrow> go_ok Q (case_bool a b x)"
  by (cases x) auto

lemma executeStep [ok_rules]: "eok (executeStep E inst ref)"
  unfolding executeStep_def by (intro ok_rules ok_bool)

lemma processItem [ok_rules]: "eok (processItem E item)"
  unfolding processItem_def releaseMissing_def findStep_def
  by (intro ok_rules)

lemma MakeHumanDecision [ok_rules]: "eok (MakeHumanDecision E st who d comment)"
  unfolding MakeHumanDecision_def continueWorkflowAfterHumanDecision_def
  by (intro ok_rules)

lemma Start [ok_rules]: "eok (Start E w input)"
  unfolding Start_def by (intro ok_rules)

lemma RequeueFromDLQ [ok_rules]: "eok (RequeueFromDLQ d ni)"
  unfolding RequeueFromDLQ_def by (intro ok_rules)

lemma queries [ok_rules]: "eok (GetStatus i)" "eok (GetSteps i)" "eok (awaitTick i)"
  unfolding GetStatus_def GetSteps_def awaitTick_def by (intro ok_rules)+

end

text \<open>The operations that also change the engine's settings and its count of running steps.\<close>

locale engine_ops = engine_rel +
  assumes F_all: "F w = F w'"
begin

lemma settings:
  "eok (RegisterHandler h)" "eok (RegisterPlugin p)" "eok Shutdown" "eok (countActive d)"
  unfolding RegisterHandler_def RegisterPlugin_def Shutdown_def countActive_def
  using F_all by (intro ownState; simp)+

lemma ExecuteNext: "eok (ExecuteNext E worker)"
  unfolding ExecuteNext_def by (intro ok_rules settings)

end

end
