(* ===== verification/System.thy ===== *)
theory System
  imports Engine_Laws
begin

text \<open>
  The engine as a transition system. Each public operation of \<open>engine.go\<close>, a round of the cancel
  worker and the store's clean-up are one transition; states are reached from an engine with an
  empty in-memory store. Rule induction over the transitions gives the invariant of every
  reachable state and the history guarantees of the transitions.
\<close>

section \<open>The interfaces, interpreted\<close>

interpretation anything: store_rel "\<lambda>_ _. True"
  by unfold_locales (simp_all add: go_rel_def)

interpretation sys: engine_ops store_evolves "\<lambda>_. ()"
  by unfold_locales simp_all

text \<open>What a running step never changes.\<close>

definition settingsOf :: "Engine \<Rightarrow> (string \<times> handler) list \<times> PluginManager option \<times> bool \<times> int" where
  "settingsOf w = (en_handlers w, en_pluginManager w, en_isShuttingDown w, en_activeSteps w)"

interpretation cfg: engine_rel "\<lambda>_ _. True" settingsOf
  by unfold_locales (simp_all add: settingsOf_def)

section \<open>Clean-up\<close>

lemma stepIndexOK_cleanup:
  assumes ok: "stepIndexOK steps index" and d: "distinct (map fst steps)"
  shows "stepIndexOK (filter (\<lambda>(k, st). ws_InstanceID st \<noteq> i) steps) (AList.delete i index)"
  unfolding stepIndexOK_def
proof (intro conjI allI impI)
  fix j ids assume "map_of (AList.delete i index) j = Some ids"
  then have j: "j \<noteq> i" "map_of index j = Some ids" by (auto split: if_splits)
  with ok have ex: "distinct ids" "\<forall>k \<in> set ids. \<exists>st. map_of steps k = Some st \<and> ws_InstanceID st = j"
    unfolding stepIndexOK_def by blast+
  then show "distinct ids" by simp
  show "\<forall>k \<in> set ids. \<exists>st. map_of (filter (\<lambda>(k, st). ws_InstanceID st \<noteq> i) steps) k = Some st \<and>
      ws_InstanceID st = j"
    using ex(2) j(1) unfolding map_of_filter_Some [OF d] by blast
next
  fix k st assume "map_of (filter (\<lambda>(k, st). ws_InstanceID st \<noteq> i) steps) k = Some st"
  then have "map_of steps k = Some st" "ws_InstanceID st \<noteq> i"
    unfolding map_of_filter_Some [OF d] by simp_all
  with ok show "\<exists>ids. map_of (AList.delete i index) (ws_InstanceID st) = Some ids \<and> k \<in> set ids"
    unfolding stepIndexOK_def by (metis fun_upd_other map_of_delete)
qed

lemma joinsOK_filter: "joinsOK js \<Longrightarrow> joinsOK (filter P js)"
  unfolding joinsOK_def by (auto intro: distinct_keys_filter)

lemma cleanupInstance_wf:
  assumes wf: "store_wf s"
  shows "store_wf (cleanupInstance s i)"
proof -
  have "stepIndexOK (filter (\<lambda>(k, st). ws_InstanceID st \<noteq> i) (ms_steps s)) (AList.delete i (ms_stepsByInstance s))"
    using store_wfD(5) [OF wf] tableOK_distinct [OF store_wfD(2) [OF wf]] by (rule stepIndexOK_cleanup)
  with store_wfD [OF wf] show ?thesis
    unfolding store_wf_def cleanupInstance_def
    by (simp add: tableOK_delete tableOK_filter joinsOK_filter)
qed

lemma CleanupOldWorkflows_wf:
  assumes "store_wf s"
  shows "store_wf (snd (CleanupOldWorkflows E s))"
proof -
  have "store_wf (foldl cleanupInstance t ids)" if "store_wf t" for t ids
    using that by (induction ids arbitrary: t) (auto intro: cleanupInstance_wf)
  then show ?thesis using assms by (simp add: CleanupOldWorkflows_def Let_def store_wf_def)
qed

section \<open>Transitions\<close>

inductive estep :: "env \<Rightarrow> Engine \<Rightarrow> Engine \<Rightarrow> bool" for E where
  handler: "estep E w (snd (RegisterHandler h w))"
| plugin: "estep E w (snd (RegisterPlugin p w))"
| workflow: "estep E w (snd (RegisterWorkflow E def w))"
| start: "estep E w (snd (Start E wid input w))"
| work: "estep E w (snd (ExecuteNext E worker w))"
| decide: "estep E w (snd (MakeHumanDecision E st who dec comment w))"
| cancel: "estep E w (snd (CancelWorkflow E i who why w))"
| abort: "estep E w (snd (AbortWorkflow E i who why w))"
| requeue: "estep E w (snd (RequeueFromDLQ d ni w))"
| tick: "estep E w (snd (processCancelRequests w))"
| events: "estep E w (snd (HumanDecisionWaitingEvents w))"
| shutdown: "estep E w (snd (Shutdown w))"

inductive reachable :: "env \<Rightarrow> Engine \<Rightarrow> bool" for E where
  init: "reachable E (NewEngine NewMemoryStore)"
| step: "reachable E w \<Longrightarrow> estep E w w' \<Longrightarrow> reachable E w'"
| cleanup: "reachable E w \<Longrightarrow> reachable E (snd (onStore (CleanupOldWorkflows E) w))"

inductive_cases estepE: "estep E w w'"

lemma estep_evolves: "estep E w w' \<Longrightarrow> store_evolves (en_store w) (en_store w')"
proof -
  have ok: "store_evolves (en_store w) (en_store (snd (m w)))" if "sys.eok m" for m :: "'a ego" and w
    using that unfolding go_ok_def go_rel_def liftR_def by blast
  assume "estep E w w'"
  then show ?thesis
    by cases (auto intro!: ok sys.settings sys.RegisterWorkflow sys.Start sys.ExecuteNext
        sys.MakeHumanDecision sys.requests sys.RequeueFromDLQ sys.processCancelRequests sys.contexts)
qed

lemma reachable_wf: "reachable E w \<Longrightarrow> store_wf (en_store w)"
proof (induction rule: reachable.induct)
  case init
  then show ?case by (simp add: NewEngine_def NewMemoryStore_wf)
next
  case (step w w')
  then show ?case using estep_evolves unfolding store_evolves_def by blast
next
  case (cleanup w)
  then show ?case using CleanupOldWorkflows_wf by (simp add: onStore_def gzoom_def split: prod.split) (metis snd_conv)
qed

section \<open>Properties of all runs\<close>

text \<open>
  C1. The store's invariant holds in every state the engine can reach, through any interleaving of
  registrations, starts, worker rounds with arbitrary handlers, plugins and concurrent requests, human
  decisions, cancellations, requeues and clean-ups, and also after operations that failed half-way:
  identifiers are unique, below their counters and equal to the keys of their tables; the index of steps
  lists each step once, under its own instance; and no join counts a step both as completed and as failed.
\<close>

theorem reachable_invariant: "reachable E w \<Longrightarrow> store_wf (en_store w)"
  by (rule reachable_wf)

text \<open>A small workflow for examples: one task.\<close>

definition taskDef :: WorkflowDefinition where
  "taskDef = \<lparr>wd_ID = ''t-v1'', wd_Name = ''t'', wd_Version = 1,
     wd_Definition = \<lparr>gd_Steps = [(''a'', emptyStepDefinition\<lparr>sd_Name := ''a'', sd_Type := StepTypeTask,
         sd_Handler := ''h'', sd_MaxRetries := 2\<rparr>)], gd_Start = ''a'', gd_DLQEnabled = False\<rparr>,
     wd_CreatedAt = 0\<rparr>"

definition started0 :: Engine where
  "started0 = snd (Start env0 ''t-v1'' RawNil (snd (RegisterWorkflow env0 taskDef (NewEngine NewMemoryStore))))"

lemma started0_reachable: "reachable env0 started0"
  unfolding started0_def
  by (rule reachable.step [OF reachable.step [OF reachable.init estep.workflow] estep.start])

theorem reachable_invariant_witness:
  "reachable env0 started0 \<and> store_wf (en_store started0)"
  using reachable_invariant [OF started0_reachable] started0_reachable by simp




lemma settings_kept: "cfg.eok m \<Longrightarrow> m w = (r, w') \<Longrightarrow> settingsOf w' = settingsOf w \<and> r \<noteq> OutOfFuel"
  by (drule (1) go_okD) (simp add: liftR_def)

lemma onStore_settings: "settingsOf (snd (onStore m w)) = settingsOf w"
  by (simp add: onStore_def gzoom_def settingsOf_def split: prod.split)

lemma ExecuteNext_cases:
  assumes "ExecuteNext E worker w = (r, w')" "r \<noteq> Deadlock"
  shows "settingsOf w' = settingsOf w"
proof (cases "en_isShuttingDown w")
  case True
  with assms show ?thesis by (auto simp: ExecuteNext_def)
next
  case up: False
  obtain q w1 where d: "onStore (DequeueStep E worker) w = (q, w1)" by fastforce
  then have w1: "settingsOf w1 = settingsOf w" using onStore_settings by (metis snd_conv)
  show ?thesis
  proof (cases q)
    case (Ok it)
    show ?thesis
    proof (cases it)
      case None
      with assms up d Ok w1 show ?thesis by (auto simp: ExecuteNext_def)
    next
      case (Some item)
      let ?w2 = "snd (countActive 1 w1)"
      let ?rm = "gignore (onStore (RemoveFromQueue (qi_ID item))) :: unit ego"
      have "\<not> en_isShuttingDown w1" using up w1 by (simp add: settingsOf_def)
      obtain r2 w3 where body: "gunless (processItem E item) ?rm ?w2 = (r2, w3)" by fastforce
      have "cfg.eok (gunless (processItem E item) ?rm)"
        by (intro cfg.engine_control cfg.processItem cfg.store_ops)
      from settings_kept [OF this, of ?w2 r2 w3] body
      have w3: "settingsOf w3 = settingsOf ?w2" and "r2 \<noteq> OutOfFuel" by simp_all
      have run: "ExecuteNext E worker w = gseq (gfinally (gunless (processItem E item) ?rm) (countActive (-1))) (gret False) ?w2"
        using up d Ok Some \<open>\<not> en_isShuttingDown w1\<close>
        by (simp add: ExecuteNext_def countActive_def)
      have "r2 \<noteq> Deadlock"
        using assms run body by (auto simp: gseq_def gbind_def gfinally_def)
      then have "w' = snd (countActive (-1) w3)"
        using assms(1) run body \<open>r2 \<noteq> OutOfFuel\<close> by (cases r2) (auto simp: gseq_def gbind_def gfinally_def gret_def)
      with w3 w1 show ?thesis by (simp add: settingsOf_def countActive_def)
    qed
  qed (use assms up d w1 in \<open>auto simp: ExecuteNext_def gbind_def gwrap_def\<close>)
qed

text \<open>
  Running work leaves the engine's settings alone and balances the count of active steps, on which
  a graceful shutdown waits: unless the goroutine blocks for ever, after \<open>ExecuteNext\<close>, also after an
  error or a panic, the count, the handlers, the plugins and the shutdown flag are what they were.
\<close>

theorem ExecuteNext_settings:
  assumes "fst (ExecuteNext E worker w) \<noteq> Deadlock"
  shows "en_activeSteps (snd (ExecuteNext E worker w)) = en_activeSteps w \<and>
    en_handlers (snd (ExecuteNext E worker w)) = en_handlers w \<and>
    en_pluginManager (snd (ExecuteNext E worker w)) = en_pluginManager w \<and>
    en_isShuttingDown (snd (ExecuteNext E worker w)) = en_isShuttingDown w"
  using ExecuteNext_cases [of E worker w] assms
  by (cases "ExecuteNext E worker w") (simp add: settingsOf_def)

theorem ExecuteNext_settings_witness:
  "en_activeSteps (snd (ExecuteNext env0 ''w'' (NewEngine NewMemoryStore))) = 0"
proof -
  have "ExecuteNext env0 ''w'' (NewEngine NewMemoryStore) =
      (Ok True, snd (ExecuteNext env0 ''w'' (NewEngine NewMemoryStore)))"
    by (simp add: ExecuteNext_def NewEngine_def NewMemoryStore_def onStore_def gzoom_def DequeueStep_def
        dequeueSelect_def gbind_def gwrap_def gread_def gret_def Let_def)
  then have "fst (ExecuteNext env0 ''w'' (NewEngine NewMemoryStore)) \<noteq> Deadlock" by (metis fst_conv res.distinct(5))
  from ExecuteNext_settings [OF this] show ?thesis by (simp add: NewEngine_def)
qed

end
