(* ===== verification/Engine_Props.thy ===== *)
theory Engine_Props
  imports System
begin

text \<open>
  What single engine operations do: starting an instance, the queue worker's decisions, retries and
  the dead letter queue, human decisions, cancellation.
\<close>

section \<open>Running straight-line code\<close>

definition logged :: "env \<Rightarrow> int \<Rightarrow> int option \<Rightarrow> string \<Rightarrow> (string \<times> jval) list \<Rightarrow> MemoryStore \<Rightarrow> MemoryStore" where
  "logged E i st ty kvs s = snd (LogEvent E i st ty (Some (JObj kvs)) s)"

lemma logged_fields [simp]:
  "ms_definitions (logged E i st ty kvs s) = ms_definitions s" "ms_defheap (logged E i st ty kvs s) = ms_defheap s"
  "ms_instances (logged E i st ty kvs s) = ms_instances s" "ms_steps (logged E i st ty kvs s) = ms_steps s"
  "ms_stepsByInstance (logged E i st ty kvs s) = ms_stepsByInstance s" "ms_queue (logged E i st ty kvs s) = ms_queue s"
  "ms_joinStates (logged E i st ty kvs s) = ms_joinStates s"
  "ms_cancelRequests (logged E i st ty kvs s) = ms_cancelRequests s"
  "ms_humanDecisions (logged E i st ty kvs s) = ms_humanDecisions s"
  "ms_deadLetters (logged E i st ty kvs s) = ms_deadLetters s"
  "ms_nextDeadLetterID (logged E i st ty kvs s) = ms_nextDeadLetterID s"
  "ms_nextHumanDecisionID (logged E i st ty kvs s) = ms_nextHumanDecisionID s"
  "ms_nextInstanceID (logged E i st ty kvs s) = ms_nextInstanceID s"
  "ms_nextStepID (logged E i st ty kvs s) = ms_nextStepID s" "ms_nextQueueID (logged E i st ty kvs s) = ms_nextQueueID s"
  "ms_agingEnabled (logged E i st ty kvs s) = ms_agingEnabled s" "ms_agingRate (logged E i st ty kvs s) = ms_agingRate s"
  "map ev_EventType (ms_events (logged E i st ty kvs s)) = map ev_EventType (ms_events s) @ [ty]"
  by (simp_all add: logged_def LogEvent_def Let_def)

lemma logged_cursor: "ms_cursor (logged E i st ty kvs s) = Suc (ms_cursor s)"
  by (simp add: logged_def LogEvent_def Let_def)

lemma onStore_run: "m (en_store w) = (r, s') \<Longrightarrow> onStore m w = (r, w\<lparr>en_store := s'\<rparr>)"
  by (simp add: onStore_def gzoom_def)

lemma logEvent_run [simp]: "logEvent E i st ty kvs w = (Ok (), w\<lparr>en_store := logged E i st ty kvs (en_store w)\<rparr>)"
proof -
  have "LogEvent E i st ty (Some (JObj kvs)) (en_store w) = (Ok (), logged E i st ty kvs (en_store w))"
    by (simp add: logged_def LogEvent_def Let_def)
  then show ?thesis unfolding logEvent_def by (simp add: onStore_run)
qed

lemma defAt_logged [simp]: "defAt (logged E i st ty kvs s) wid = defAt s wid"
  by (rule defAt_cong) simp_all

lemma GetInstance_run: "map_of (ms_instances (en_store w)) i = Some inst \<Longrightarrow> onStore (GetInstance i) w = (Ok inst, w)"
  by (simp add: onStore_def gzoom_def GetInstance_def)

lemma GetInstance_missing: "map_of (ms_instances (en_store w)) i = None \<Longrightarrow> onStore (GetInstance i) w = (Fail EntityNotFound, w)"
  by (simp add: onStore_def gzoom_def GetInstance_def)

lemma GetDefinition_run: "defAt (en_store w) wid = Some def \<Longrightarrow> onStore (GetWorkflowDefinition wid) w = (Ok def, w)"
  by (simp add: onStore_def gzoom_def GetWorkflowDefinition_def)

lemma GetDefinition_missing: "defAt (en_store w) wid = None \<Longrightarrow> onStore (GetWorkflowDefinition wid) w = (Fail EntityNotFound, w)"
  by (simp add: onStore_def gzoom_def GetWorkflowDefinition_def)

lemma needStep_run: "stepDefOf def n = Some sd \<Longrightarrow> needStep msg def n k w = k sd w"
  by (simp add: needStep_def)

lemma readStep_copy [simp]: "readStep (SCopy st) w = (Ok st, w)"
  by (simp add: readStep_def)

lemmas runs = onStore_run GetInstance_run GetDefinition_run needStep_run

section \<open>Starting an instance\<close>

definition pluginsAllowStart :: "Engine \<Rightarrow> bool" where
  "pluginsAllowStart w \<longleftrightarrow> (case en_pluginManager w of None \<Rightarrow> True
     | Some pm \<Rightarrow> \<forall>p \<in> set pm. \<forall>i. pl_OnWorkflowStart p i = None)"

lemma pluginHook_start:
  assumes "pluginsAllowStart w" "en_pluginManager w' = en_pluginManager w"
  shows "pluginHook (\<lambda>pm. ExecuteWorkflowStart pm i) msg w' = (Ok (), w')"
  using assms by (auto simp: pluginHook_def pluginsAllowStart_def ExecuteWorkflowStart_def
      firstHookError_None [THEN iffD2] split: option.splits)

text \<open>The steps and queue entries that \<open>enqueueNextSteps\<close> creates for one name.\<close>

lemma enqueueNextSteps_one:
  assumes i: "map_of (ms_instances (en_store w)) iid = Some inst" "wi_Status inst \<noteq> StatusDLQ"
    and d: "defAt (en_store w) (wi_WorkflowID inst) = Some def" "stepDefOf def n = Some sd"
  shows "\<exists>step. enqueueNextSteps E iid [n] input w = (Ok (), w\<lparr>en_store :=
      snd (EnqueueStep E iid (Some (ws_ID step)) PriorityNormal (sd_Delay sd)
        (snd (CreateStep E (newStep iid n (sd_Type sd) StepStatusPending input (sd_MaxRetries sd)) (en_store w))))\<rparr>) \<and>
      step = madeStep (E, newStep iid n (sd_Type sd) StepStatusPending input (sd_MaxRetries sd)) (en_store w)"
proof -
  let ?new = "newStep iid n (sd_Type sd) StepStatusPending input (sd_MaxRetries sd)"
  have c: "onStore (CreateStep E ?new) w = (Ok (madeStep (E, ?new) (en_store w)),
      w\<lparr>en_store := snd (CreateStep E ?new (en_store w))\<rparr>)"
    by (intro onStore_run CreateStep_made)
  have q: "onStore (EnqueueStep E iid (Some k) PriorityNormal (sd_Delay sd)) w' = (Ok (),
      w'\<lparr>en_store := snd (EnqueueStep E iid (Some k) PriorityNormal (sd_Delay sd) (en_store w'))\<rparr>)" for k w'
    by (intro onStore_run) (simp add: EnqueueStep_def Let_def)
  show ?thesis
    using i d by (simp add: enqueueNextSteps_def GetInstance_run GetDefinition_run needStep_run c q)
qed

lemma validateDefinition_start:
  "validateDefinition def = None \<Longrightarrow> gd_Start (wd_Definition def) \<noteq> '''' \<and>
     (\<exists>sd. stepDefOf def (gd_Start (wd_Definition def)) = Some sd)"
  by (auto simp: validateDefinition_def split: if_splits)

lemma validateDefinition_identity [simp]:
  "validateDefinition (def\<lparr>wd_ID := a, wd_CreatedAt := t\<rparr>) = validateDefinition def"
proof -
  have "knownStep (def\<lparr>wd_ID := a, wd_CreatedAt := t\<rparr>) = knownStep def"
    by (intro ext) (simp add: knownStep_def stepDefOf_def)
  then have "validateStep (def\<lparr>wd_ID := a, wd_CreatedAt := t\<rparr>) = validateStep def"
    by (intro ext) (simp only: validateStep_def)
  then show ?thesis by (simp add: validateDefinition_def ValidateWorkflowDefinition_def stepDefOf_def)
qed

lemma RegisterWorkflow_run:
  assumes "validateDefinition def = None"
  obtains def' s where "RegisterWorkflow E def w = (Ok def', w\<lparr>en_store := s\<rparr>)" "defAt s (wd_ID def') = Some def'"
    "validateDefinition def' = None" "wd_Definition def' = wd_Definition def"
    "ms_queue s = ms_queue (en_store w)" "ms_stepsByInstance s = ms_stepsByInstance (en_store w)"
    "ms_nextInstanceID s = ms_nextInstanceID (en_store w)" "ms_cancelRequests s = ms_cancelRequests (en_store w)"
proof -
  obtain def' s where save: "SaveWorkflowDefinition E def (en_store w) = (Ok def', s)" and
    at: "defAt s (wd_ID def') = Some def'" and def': "\<exists>a t. def' = def\<lparr>wd_ID := a, wd_CreatedAt := t\<rparr>"
    and frame: "ms_queue s = ms_queue (en_store w)" "ms_stepsByInstance s = ms_stepsByInstance (en_store w)"
      "ms_nextInstanceID s = ms_nextInstanceID (en_store w)" "ms_cancelRequests s = ms_cancelRequests (en_store w)"
    by (cases "defAt (en_store w) (wd_ID def)") (auto simp: SaveWorkflowDefinition_def Let_def defAt_def)
  from save have "RegisterWorkflow E def w = (Ok def', w\<lparr>en_store := s\<rparr>)"
    by (simp add: RegisterWorkflow_def checkDefinition_def assms onStore_run)
  with at def' frame assms that show ?thesis by auto
qed

text \<open>The store after each part of a start: the running instance, and its first step in the queue.\<close>

definition startInstance :: "env \<Rightarrow> string \<Rightarrow> raw \<Rightarrow> MemoryStore \<Rightarrow> MemoryStore" where
  "startInstance E wid input s =
     (let iid = ms_nextInstanceID s in
      snd (UpdateInstanceStatus E iid StatusRunning RawNil None
        (logged E iid None ''workflow_started'' [(''workflow_id'', JStr wid)] (snd (CreateInstance E wid input s)))))"

definition firstStep :: "int \<Rightarrow> WorkflowDefinition \<Rightarrow> StepDefinition \<Rightarrow> raw \<Rightarrow> WorkflowStep" where
  "firstStep iid def sd input =
     newStep iid (gd_Start (wd_Definition def)) (sd_Type sd) StepStatusPending input (sd_MaxRetries sd)"

definition startStep :: "env \<Rightarrow> int \<Rightarrow> WorkflowDefinition \<Rightarrow> StepDefinition \<Rightarrow> raw \<Rightarrow> MemoryStore \<Rightarrow> MemoryStore" where
  "startStep E iid def sd input s =
     snd (EnqueueStep E iid (Some (ms_nextStepID s)) PriorityNormal (sd_Delay sd)
       (snd (CreateStep E (firstStep iid def sd input) s)))"

lemma startInstance_instance:
  "\<exists>inst. map_of (ms_instances (startInstance E wid input s)) (ms_nextInstanceID s) = Some inst \<and>
     wi_Status inst = StatusRunning \<and> wi_WorkflowID inst = wid \<and> wi_Input inst = input"
  by (simp add: startInstance_def Let_def UpdateInstanceStatus_def CreateInstance_def)

lemma startInstance_frame [simp]:
  "ms_steps (startInstance E wid input s) = ms_steps s"
  "ms_stepsByInstance (startInstance E wid input s) = ms_stepsByInstance s"
  "ms_queue (startInstance E wid input s) = ms_queue s"
  "ms_nextStepID (startInstance E wid input s) = ms_nextStepID s"
  "ms_nextQueueID (startInstance E wid input s) = ms_nextQueueID s"
  "ms_definitions (startInstance E wid input s) = ms_definitions s"
  "ms_defheap (startInstance E wid input s) = ms_defheap s"
  by (simp_all add: startInstance_def Let_def UpdateInstanceStatus_def CreateInstance_def)

lemma startStep_tables:
  fixes iid def sd input s E
  defines "step \<equiv> madeStep (E, firstStep iid def sd input) s"
    and "item \<equiv> queuedItem (E, iid, Some (ms_nextStepID s), PriorityNormal, sd_Delay sd) (snd (CreateStep E (firstStep iid def sd input) s))"
  shows "ms_instances (startStep E iid def sd input s) = ms_instances s"
    and "map_of (ms_steps (startStep E iid def sd input s)) = (map_of (ms_steps s))(ws_ID step \<mapsto> step)"
    and "stepIDsOf (startStep E iid def sd input s) iid = stepIDsOf s iid @ [ws_ID step]"
    and "map_of (ms_queue (startStep E iid def sd input s)) = (map_of (ms_queue s))(qi_ID item \<mapsto> item)"
    and "ws_ID step = ms_nextStepID s" "ws_StepName step = gd_Start (wd_Definition def)" "ws_InstanceID step = iid"
      "ws_Status step = StepStatusPending" "ws_StepType step = sd_Type sd" "ws_MaxRetries step = sd_MaxRetries sd"
      "ws_Input step = input"
    and "qi_ID item = ms_nextQueueID s" "qi_InstanceID item = iid" "qi_StepID item = Some (ws_ID step)"
      "qi_Priority item = PriorityNormal" "qi_AttemptedAt item = None"
      "\<exists>t. qi_ScheduledAt item = clk E t + sd_Delay sd"
  by (auto simp: startStep_def step_def item_def EnqueueStep_def CreateStep_def madeStep_def queuedItem_def
      stepIDsOf_def firstStep_def newStep_def Let_def)

lemma Start_run:
  assumes d: "defAt (en_store w) wid = Some def" and ok: "validateDefinition def = None" and pl: "pluginsAllowStart w"
    and sd: "stepDefOf def (gd_Start (wd_Definition def)) = Some sd"
  shows "Start E wid input w = (Ok (ms_nextInstanceID (en_store w)),
    w\<lparr>en_store := startStep E (ms_nextInstanceID (en_store w)) def sd input (startInstance E wid input (en_store w))\<rparr>)"
proof -
  let ?s = "en_store w" and ?start = "gd_Start (wd_Definition def)"
  let ?inst = "madeInstance (E, wid, input) ?s" and ?iid = "ms_nextInstanceID (en_store w)"
  let ?log = "logged E ?iid None ''workflow_started'' [(''workflow_id'', JStr wid)] (snd (CreateInstance E wid input ?s))"
  let ?s3 = "startInstance E wid input ?s"
  have iid: "wi_ID ?inst = ?iid" by (simp add: madeInstance_def CreateInstance_def Let_def)
  have e1: "onStore (CreateInstance E wid input) w = (Ok ?inst, w\<lparr>en_store := snd (CreateInstance E wid input ?s)\<rparr>)"
    by (intro onStore_run CreateInstance_made)
  have e3: "onStore (UpdateInstanceStatus E ?iid StatusRunning RawNil None) (w\<lparr>en_store := ?log\<rparr>) = (Ok (), w\<lparr>en_store := ?s3\<rparr>)"
    by (subst onStore_run) (simp_all add: UpdateInstanceStatus_def startInstance_def CreateInstance_def Let_def)
  obtain inst where i3: "map_of (ms_instances ?s3) ?iid = Some inst" "wi_Status inst = StatusRunning" "wi_WorkflowID inst = wid"
    using startInstance_instance by blast
  have "defAt ?s3 wid = Some def" using d defAt_cong [of ?s3 ?s] by simp
  then have e4: "enqueueNextSteps E ?iid [?start] input (w\<lparr>en_store := ?s3\<rparr>) =
      (Ok (), w\<lparr>en_store := startStep E ?iid def sd input ?s3\<rparr>)"
    using enqueueNextSteps_one [of "w\<lparr>en_store := ?s3\<rparr>" ?iid inst def ?start sd E input] i3 sd
    by (simp add: startStep_def firstStep_def madeStep_def CreateStep_def newStep_def Let_def)
  show ?thesis
    using validateDefinition_start [OF ok] e3 e4
    by (simp add: Start_def GetDefinition_run [OF d] checkDefinition_def ok e1 pluginHook_start [OF pl] iid)
qed

text \<open>
  C19. Starting a workflow. For a registered, valid definition and plugins that do not refuse, \<open>Start\<close>
  returns a fresh instance identifier; the instance is running with the given input; one new pending step,
  the start step with its definition's type and retry limit and the same input, is appended to the
  instance's steps; and one unclaimed queue entry of normal priority, due after the step's delay, refers to it.
\<close>

theorem Start_spec:
  assumes wf: "store_wf (en_store w)" and d: "defAt (en_store w) wid = Some def"
    and ok: "validateDefinition def = None" and pl: "pluginsAllowStart w"
    and sd: "stepDefOf def (gd_Start (wd_Definition def)) = Some sd"
  shows "\<exists>iid w' inst step item t. Start E wid input w = (Ok iid, w') \<and>
    map_of (ms_instances (en_store w)) iid = None \<and>
    map_of (ms_instances (en_store w')) iid = Some inst \<and> wi_Status inst = StatusRunning \<and>
    wi_WorkflowID inst = wid \<and> wi_Input inst = input \<and>
    stepIDsOf (en_store w') iid = stepIDsOf (en_store w) iid @ [ws_ID step] \<and>
    map_of (ms_steps (en_store w')) = (map_of (ms_steps (en_store w)))(ws_ID step \<mapsto> step) \<and>
    map_of (ms_steps (en_store w)) (ws_ID step) = None \<and>
    ws_StepName step = gd_Start (wd_Definition def) \<and> ws_InstanceID step = iid \<and>
    ws_Status step = StepStatusPending \<and> ws_StepType step = sd_Type sd \<and>
    ws_MaxRetries step = sd_MaxRetries sd \<and> ws_Input step = input \<and>
    map_of (ms_queue (en_store w')) = (map_of (ms_queue (en_store w)))(qi_ID item \<mapsto> item) \<and>
    map_of (ms_queue (en_store w)) (qi_ID item) = None \<and>
    qi_InstanceID item = iid \<and> qi_StepID item = Some (ws_ID step) \<and> qi_Priority item = PriorityNormal \<and>
    qi_AttemptedAt item = None \<and> qi_ScheduledAt item = clk E t + sd_Delay sd"
proof -
  let ?s = "en_store w"
  let ?iid = "ms_nextInstanceID ?s" and ?s3 = "startInstance E wid input ?s"
  let ?step = "madeStep (E, firstStep ?iid def sd input) ?s3"
  let ?item = "queuedItem (E, ?iid, Some (ms_nextStepID ?s3), PriorityNormal, sd_Delay sd)
      (snd (CreateStep E (firstStep ?iid def sd input) ?s3))"
  obtain inst where inst: "map_of (ms_instances ?s3) ?iid = Some inst" "wi_Status inst = StatusRunning"
    "wi_WorkflowID inst = wid" "wi_Input inst = input" using startInstance_instance by blast
  note t = startStep_tables [where iid = ?iid and def = def and sd = sd and input = input and s = ?s3 and E = E]
  have fresh: "map_of (ms_instances ?s) ?iid = None" "map_of (ms_steps ?s) (ms_nextStepID ?s) = None"
    "map_of (ms_queue ?s) (ms_nextQueueID ?s) = None" using store_wfD [OF wf] tableOK_fresh by blast+
  obtain t0 where "qi_ScheduledAt ?item = clk E t0 + sd_Delay sd" using t by blast
  moreover have "stepIDsOf ?s3 ?iid = stepIDsOf ?s ?iid" by (simp add: stepIDsOf_def)
  ultimately show ?thesis
    unfolding Start_run [OF d ok pl sd] using inst fresh t
    by (intro exI [of _ ?iid] exI [of _ "w\<lparr>en_store := startStep E ?iid def sd input ?s3\<rparr>"] exI [of _ inst]
        exI [of _ ?step] exI [of _ ?item] exI [of _ t0]) simp
qed

definition registered0 :: Engine where
  "registered0 = snd (RegisterWorkflow env0 taskDef (NewEngine NewMemoryStore))"

lemma taskDef_valid: "validateDefinition taskDef = None"
  by code_simp

lemma registered0_lookup: "defAt (en_store registered0) ''t-v1'' = Some (taskDef\<lparr>wd_CreatedAt := 1000000000\<rparr>)"
  by (simp add: registered0_def RegisterWorkflow_def checkDefinition_def taskDef_valid onStore_def gzoom_def NewEngine_def
      SaveWorkflowDefinition_def Let_def defAt_def NewMemoryStore_def) (simp add: taskDef_def freshAddr_def env0_def)

lemma registered0_reachable: "reachable env0 registered0"
  unfolding registered0_def by (rule reachable.step [OF reachable.init estep.workflow])

theorem Start_spec_witness:
  "\<exists>iid w' inst. Start env0 ''t-v1'' (RawJson JNull) registered0 = (Ok iid, w') \<and>
     map_of (ms_instances (en_store w')) iid = Some inst \<and> wi_Status inst = StatusRunning"
proof -
  let ?def = "taskDef\<lparr>wd_CreatedAt := 1000000000\<rparr>"
  have "validateDefinition ?def = None" by code_simp
  moreover have "\<exists>sd. stepDefOf ?def (gd_Start (wd_Definition ?def)) = Some sd"
    by (simp add: stepDefOf_def taskDef_def)
  moreover have "pluginsAllowStart registered0"
    by (simp add: pluginsAllowStart_def registered0_def RegisterWorkflow_def checkDefinition_def taskDef_valid
        onStore_def gzoom_def NewEngine_def split: prod.split)
  ultimately show ?thesis
    using Start_spec [OF reachable_wf [OF registered0_reachable] registered0_lookup, of _ env0 "RawJson JNull"] by blast
qed

text \<open>
  Only valid, registered workflows start. \<open>RegisterWorkflow\<close> refuses an invalid definition and
  leaves the engine unchanged; \<open>Start\<close> refuses an unknown or invalid workflow and leaves the engine
  unchanged: no instance, step or queue entry comes into being.
\<close>

theorem invalid_refused:
  "(validateDefinition def \<noteq> None \<longrightarrow> (\<exists>e. RegisterWorkflow E def w = (Fail e, w))) \<and>
   (defAt (en_store w) wid = None \<longrightarrow>
      Start E wid input w = (Fail (Wrap ''get workflow definition: '' EntityNotFound), w)) \<and>
   (\<forall>d. defAt (en_store w) wid = Some d \<longrightarrow> validateDefinition d \<noteq> None \<longrightarrow>
      (\<exists>e. Start E wid input w = (Fail e, w)))"
  by (auto simp: RegisterWorkflow_def Start_def checkDefinition_def GetDefinition_run GetDefinition_missing)

theorem invalid_refused_witness:
  "\<exists>e. RegisterWorkflow env0 (taskDef\<lparr>wd_Name := ''''\<rparr>) started0 = (Fail e, started0)"
  using invalid_refused [of "taskDef\<lparr>wd_Name := ''''\<rparr>" env0 started0]
  by (simp add: validateDefinition_def)

end
