(* ===== verification/Worker_Props.thy ===== *)
theory Worker_Props
  imports Engine_Props
begin

text \<open>
  The decisions of the queue worker (\<open>ExecuteNext\<close>): when it does nothing, what happens to items of
  frozen instances, of steps that are not to run any more, and of steps without a local handler.
\<close>

section \<open>From the item to the result\<close>

text \<open>The engine when an item has been claimed and counted.\<close>

definition claimed :: "MemoryStore \<Rightarrow> Engine \<Rightarrow> Engine" where
  "claimed s w = w\<lparr>en_store := s, en_activeSteps := en_activeSteps w + 1\<rparr>"

definition uncounted :: "Engine \<Rightarrow> Engine" where
  "uncounted w = w\<lparr>en_activeSteps := en_activeSteps w - 1\<rparr>"

definition dropItem :: "int \<Rightarrow> Engine \<Rightarrow> Engine" where
  "dropItem k w = w\<lparr>en_store := (en_store w)\<lparr>ms_queue := AList.delete k (ms_queue (en_store w))\<rparr>\<rparr>"

lemma claimed_simps [simp]:
  "en_store (claimed s w) = s" "en_isShuttingDown (claimed s w) = en_isShuttingDown w"
  "en_handlers (claimed s w) = en_handlers w" "en_hcalls (claimed s w) = en_hcalls w"
  "en_store (uncounted w) = en_store w" "en_hcalls (uncounted w) = en_hcalls w"
  "en_store (dropItem k w) = (en_store w)\<lparr>ms_queue := AList.delete k (ms_queue (en_store w))\<rparr>"
  "en_hcalls (dropItem k w) = en_hcalls w"
  by (simp_all add: claimed_def uncounted_def dropItem_def)

lemma RemoveFromQueue_run: "onStore (RemoveFromQueue k) w = (Ok (), dropItem k w)"
  unfolding dropItem_def by (intro onStore_run) (simp add: RemoveFromQueue_def)

lemma ExecuteNext_processed:
  assumes "\<not> en_isShuttingDown w" "DequeueStep E worker (en_store w) = (Ok (Some item), s1)"
    and p: "processItem E item (claimed s1 w) = (Ok released, w2)"
  shows "ExecuteNext E worker w =
    (Ok False, uncounted (if released then w2 else dropItem (qi_ID item) w2))"
proof -
  have "onStore (DequeueStep E worker) w = (Ok (Some item), w\<lparr>en_store := s1\<rparr>)"
    using assms(2) by (rule onStore_run)
  moreover have "countActive 1 (w\<lparr>en_store := s1\<rparr>) = (Ok (), claimed s1 w)"
    by (simp add: countActive_def claimed_def)
  moreover have "gunless (processItem E item) (gignore (onStore (RemoveFromQueue (qi_ID item)))) (claimed s1 w) =
      (Ok (), if released then w2 else dropItem (qi_ID item) w2)"
    using p by (simp add: gunless_def RemoveFromQueue_run)
  ultimately show ?thesis
    using assms(1) by (simp add: ExecuteNext_def gfinally_def countActive_def uncounted_def)
qed

text \<open>
  When the worker does nothing. During shutdown \<open>ExecuteNext\<close> reports an empty queue without
  touching anything; with nothing due it reports an empty queue and only the clock was read.
\<close>

theorem ExecuteNext_idle:
  "(en_isShuttingDown w \<longrightarrow> ExecuteNext E worker w = (Ok True, w)) \<and>
   (\<not> en_isShuttingDown w \<longrightarrow>
    (\<forall>item. item \<in> set (map snd (ms_queue (en_store w))) \<longrightarrow> \<not> eligible (clk E (ms_cursor (en_store w))) item) \<longrightarrow>
    ExecuteNext E worker w =
      (Ok True, w\<lparr>en_store := (en_store w)\<lparr>ms_cursor := Suc (ms_cursor (en_store w))\<rparr>\<rparr>))"
proof (intro conjI impI)
  assume "en_isShuttingDown w"
  then show "ExecuteNext E worker w = (Ok True, w)" by (simp add: ExecuteNext_def)
next
  let ?s = "en_store w"
  assume up: "\<not> en_isShuttingDown w"
    and none: "\<forall>item. item \<in> set (map snd (ms_queue ?s)) \<longrightarrow> \<not> eligible (clk E (ms_cursor ?s)) item"
  have "dequeueSelect ?s (clk E (ms_cursor ?s)) = None"
  proof (rule ccontr)
    assume "dequeueSelect ?s (clk E (ms_cursor ?s)) \<noteq> None"
    then obtain i where "dequeueSelect ?s (clk E (ms_cursor ?s)) = Some i" by blast
    from dequeueSelect_mem [OF this] none show False by auto
  qed
  then have "DequeueStep E worker ?s = (Ok None, ?s\<lparr>ms_cursor := Suc (ms_cursor ?s)\<rparr>)"
    by (simp add: DequeueStep_def Let_def)
  then have "onStore (DequeueStep E worker) w = (Ok None, w\<lparr>en_store := ?s\<lparr>ms_cursor := Suc (ms_cursor ?s)\<rparr>\<rparr>)"
    by (rule onStore_run)
  with up show "ExecuteNext E worker w = (Ok True, w\<lparr>en_store := ?s\<lparr>ms_cursor := Suc (ms_cursor ?s)\<rparr>\<rparr>)"
    by (simp add: ExecuteNext_def)
qed

theorem ExecuteNext_idle_witness:
  "fst (ExecuteNext env0 ''w'' (NewEngine NewMemoryStore)) = Ok True"
  using ExecuteNext_idle [of "NewEngine NewMemoryStore" env0 "''w''"]
  by (simp add: NewEngine_def NewMemoryStore_def)

text \<open>
  The situation of the next theorems: the worker is up and has claimed \<open>item\<close>, whose instance is known.
\<close>

definition worksOn :: "env \<Rightarrow> string \<Rightarrow> Engine \<Rightarrow> QueueItem \<Rightarrow> MemoryStore \<Rightarrow> WorkflowInstance \<Rightarrow> bool" where
  "worksOn E worker w item s1 inst \<longleftrightarrow> \<not> en_isShuttingDown w \<and>
     DequeueStep E worker (en_store w) = (Ok (Some item), s1) \<and>
     map_of (ms_instances (en_store w)) (qi_InstanceID item) = Some inst \<and> store_wf (en_store w)"

lemma Dequeue_frame:
  assumes "DequeueStep E worker s = (Ok (Some item), s1)"
  shows "ms_instances s1 = ms_instances s" "ms_steps s1 = ms_steps s" "ms_stepsByInstance s1 = ms_stepsByInstance s"
    "ms_definitions s1 = ms_definitions s" "ms_defheap s1 = ms_defheap s"
    "map_of (ms_queue s1) (qi_ID item) = Some item" "\<And>k. k \<noteq> qi_ID item \<Longrightarrow> map_of (ms_queue s1) k = map_of (ms_queue s) k"
  using assms by (auto simp: DequeueStep_def Let_def split: option.splits)

lemma worksOn_claimed:
  assumes "worksOn E worker w item s1 inst"
  shows "onStore (GetInstance (qi_InstanceID item)) (claimed s1 w) = (Ok inst, claimed s1 w)"
    "wi_ID inst = qi_InstanceID item"
proof -
  have "map_of (ms_instances (en_store (claimed s1 w))) (qi_InstanceID item) = Some inst"
    using assms Dequeue_frame(1) unfolding worksOn_def claimed_def by fastforce
  then show "onStore (GetInstance (qi_InstanceID item)) (claimed s1 w) = (Ok inst, claimed s1 w)"
    by (rule GetInstance_run)
  show "wi_ID inst = qi_InstanceID item"
    using tableOK_id [OF store_wfD(1), of "en_store w" "qi_InstanceID item" inst] assms
    unfolding worksOn_def by simp
qed

text \<open>
  C23. A frozen instance makes no progress. For an item of an instance in the DLQ state the worker runs no
  handler and changes no step and no instance; the item is taken off the queue, and all other items stay.
\<close>

theorem ExecuteNext_frozen:
  assumes on: "worksOn E worker w item s1 inst" and dlq: "wi_Status inst = StatusDLQ"
  shows "\<exists>w'. ExecuteNext E worker w = (Ok False, w') \<and> en_hcalls w' = en_hcalls w \<and>
    ms_steps (en_store w') = ms_steps (en_store w) \<and> ms_instances (en_store w') = ms_instances (en_store w) \<and>
    map_of (ms_queue (en_store w')) = (map_of (ms_queue (en_store w)))(qi_ID item := None)"
proof -
  let ?s2 = "logged E (wi_ID inst) None ''step_failed''
      [(''message'', JStr ''instance in DLQ state, skipping queued item'')] s1"
  have d: "DequeueStep E worker (en_store w) = (Ok (Some item), s1)" and up: "\<not> en_isShuttingDown w"
    using on by (simp_all add: worksOn_def)
  have "processItem E item (claimed s1 w) = (Ok False, (claimed s1 w)\<lparr>en_store := ?s2\<rparr>)"
    using dlq by (simp add: processItem_def worksOn_claimed [OF on])
  from ExecuteNext_processed [OF up d this]
  have "ExecuteNext E worker w = (Ok False, uncounted (dropItem (qi_ID item) ((claimed s1 w)\<lparr>en_store := ?s2\<rparr>)))"
    by simp
  moreover have "map_of (AList.delete (qi_ID item) (ms_queue s1)) = (map_of (ms_queue (en_store w)))(qi_ID item := None)"
    using Dequeue_frame(7) [OF d] by auto
  ultimately show ?thesis
    using Dequeue_frame(1,2) [OF d] by simp
qed

text \<open>An engine whose only instance is frozen.\<close>

definition frozen0 :: Engine where
  "frozen0 = snd (onStore (UpdateInstanceStatus env0 1 StatusDLQ RawNil None) started0)"

lemma started0_wf: "store_wf (en_store started0)"
  using started0_reachable by (rule reachable_wf)

lemma worksOn_concrete:
  assumes "store_wf (en_store w)" "\<not> en_isShuttingDown w"
    "fst (DequeueStep E worker (en_store w)) = Ok (Some item)"
    "map_of (ms_instances (en_store w)) (qi_InstanceID item) = Some inst"
  shows "worksOn E worker w item (snd (DequeueStep E worker (en_store w))) inst"
  using assms unfolding worksOn_def by (metis prod.collapse)

lemma eok_wf: "sys.eok m \<Longrightarrow> store_wf (en_store w) \<Longrightarrow> store_wf (en_store (snd (m w)))"
  unfolding go_ok_def go_rel_def liftR_def store_evolves_def by blast

lemma frozen0_wf: "store_wf (en_store frozen0)"
  unfolding frozen0_def by (intro eok_wf sys.store_ops started0_wf)

theorem ExecuteNext_frozen_witness:
  "\<exists>w'. ExecuteNext env0 ''w'' frozen0 = (Ok False, w') \<and> ms_steps (en_store w') = ms_steps (en_store frozen0)"
proof -
  have up: "\<not> en_isShuttingDown frozen0" by code_simp
  have "(case fst (DequeueStep env0 ''w'' (en_store frozen0)) of Ok (Some item) \<Rightarrow>
      (case map_of (ms_instances (en_store frozen0)) (qi_InstanceID item) of
         Some inst \<Rightarrow> wi_Status inst = StatusDLQ | None \<Rightarrow> False) | _ \<Rightarrow> False)" by code_simp
  then obtain item inst where "fst (DequeueStep env0 ''w'' (en_store frozen0)) = Ok (Some item)"
    "map_of (ms_instances (en_store frozen0)) (qi_InstanceID item) = Some inst" "wi_Status inst = StatusDLQ"
    by (auto split: res.splits option.splits)
  from ExecuteNext_frozen [OF worksOn_concrete [OF frozen0_wf up this(1,2)] this(3)] show ?thesis by blast
qed

section \<open>Items whose step is found\<close>

lemma findStep_run:
  assumes "store_wf s" "qi_StepID item = Some k" "map_of (ms_steps s) k = Some st" "ws_InstanceID st = wi_ID inst"
    "en_store w = s"
  shows "findStep E item inst w = (Ok (SCopy st), w)"
proof -
  have "k \<in> set (stepIDsOf s (wi_ID inst))"
    using store_wfD(5) [OF assms(1)] assms(3,4) unfolding stepIndexOK_def stepIDsOf_def
    by (metis option.simps(5))
  then have st: "st \<in> set (stepsOfInstance s (wi_ID inst))"
    using assms(3) by (auto simp: stepsOfInstance_def map_filter_def image_iff intro!: bexI [of _ k])
  have uniq: "x = st" if "x \<in> set (stepsOfInstance s (wi_ID inst))" "ws_ID x = k" for x
  proof -
    from that obtain j where "map_of (ms_steps s) j = Some x"
      by (auto simp: stepsOfInstance_def map_filter_def)
    with tableOK_id [OF store_wfD(2) [OF assms(1)] this] that(2) assms(3) show ?thesis by simp
  qed
  have "ws_ID st = k" by (rule tableOK_id [OF store_wfD(2) [OF assms(1)] assms(3)])
  have "find (\<lambda>x. ws_ID x = k) (sort_key ws_CreatedAt (stepsOfInstance s (wi_ID inst))) = Some st"
    by (rule find_unique) (use st \<open>ws_ID st = k\<close> in simp_all, use uniq in blast)
  moreover have "onStore (GetStepsByInstance (wi_ID inst)) w =
      (Ok (sort_key ws_CreatedAt (stepsOfInstance s (wi_ID inst))), w)"
    using assms(5) by (simp add: onStore_def gzoom_def GetStepsByInstance_def)
  ultimately show ?thesis by (simp add: findStep_def assms(2))
qed

text \<open>The item's step, found in its instance.\<close>

definition itemStep :: "Engine \<Rightarrow> QueueItem \<Rightarrow> WorkflowStep \<Rightarrow> bool" where
  "itemStep w item st \<longleftrightarrow> (case qi_StepID item of None \<Rightarrow> False
     | Some k \<Rightarrow> map_of (ms_steps (en_store w)) k = Some st \<and> ws_InstanceID st = qi_InstanceID item)"

lemma itemStep_found:
  assumes on: "worksOn E worker w item s1 inst" and st: "itemStep w item st"
  shows "findStep E' item inst (claimed s1 w) = (Ok (SCopy st), claimed s1 w)" "qi_StepID item = Some (ws_ID st)"
proof -
  have d: "DequeueStep E worker (en_store w) = (Ok (Some item), s1)" and wf: "store_wf (en_store w)"
    using on by (simp_all add: worksOn_def)
  have wf1: "store_wf s1"
    using go_relD [OF evolves_DequeueStep d] wf unfolding store_evolves_def by blast
  obtain k where k: "qi_StepID item = Some k" "map_of (ms_steps s1) k = Some st" "ws_InstanceID st = wi_ID inst"
    using st worksOn_claimed(2) [OF on] Dequeue_frame(2) [OF d] by (auto simp: itemStep_def split: option.splits)
  show "findStep E' item inst (claimed s1 w) = (Ok (SCopy st), claimed s1 w)"
    by (rule findStep_run [OF wf1 k]) simp
  show "qi_StepID item = Some (ws_ID st)" using k(1) tableOK_id [OF store_wfD(2) [OF wf1] k(2)] by simp
qed

text \<open>
  Steps that were skipped, paused or rolled back are not executed: no handler runs and no step or
  instance changes. The item is removed, and so is the item whose queue number happens to be the step's
  identifier: the code passes the step's identifier to \<open>RemoveFromQueue\<close>, which expects a queue number.
\<close>

theorem ExecuteNext_dead_step:
  assumes on: "worksOn E worker w item s1 inst" and "wi_Status inst \<noteq> StatusDLQ"
    and st: "itemStep w item st" "ws_Status st \<in> {StepStatusSkipped, StepStatusPaused, StepStatusRolledBack}"
  shows "\<exists>w'. ExecuteNext E worker w = (Ok False, w') \<and> en_hcalls w' = en_hcalls w \<and>
    ms_steps (en_store w') = ms_steps (en_store w) \<and> ms_instances (en_store w') = ms_instances (en_store w) \<and>
    map_of (ms_queue (en_store w')) = (map_of (ms_queue (en_store w)))(qi_ID item := None, ws_ID st := None)"
proof -
  have d: "DequeueStep E worker (en_store w) = (Ok (Some item), s1)" and up: "\<not> en_isShuttingDown w"
    using on by (simp_all add: worksOn_def)
  have "processItem E item (claimed s1 w) = (Ok False, dropItem (ws_ID st) (claimed s1 w))"
    using assms(2) st(2)
    by (simp add: processItem_def worksOn_claimed [OF on] itemStep_found(1) [OF on st(1)] RemoveFromQueue_run)
  from ExecuteNext_processed [OF up d this]
  have "ExecuteNext E worker w = (Ok False, uncounted (dropItem (qi_ID item) (dropItem (ws_ID st) (claimed s1 w))))"
    by simp
  moreover have "map_of (AList.delete (qi_ID item) (AList.delete (ws_ID st) (ms_queue s1))) =
      (map_of (ms_queue (en_store w)))(qi_ID item := None, ws_ID st := None)"
    using Dequeue_frame(7) [OF d] by auto
  ultimately show ?thesis using Dequeue_frame(1,2) [OF d] by simp
qed

text \<open>
  Two instances: step 1 of the first waits in the queue for a later retry as item 2; step 2 of the second
  was skipped, and its item 3 is due.
\<close>

definition collide0 :: Engine where
  "collide0 = snd (onStore (UpdateStep env0 2 StepStatusSkipped RawNil None)
     (snd (Start env0 ''t-v1'' RawNil
       (snd (onStore (EnqueueStep env0 1 (Some 1) PriorityHigh 1000000000000)
         (snd (onStore (RemoveFromQueue 1) started0)))))))"

lemma collide0_wf: "store_wf (en_store collide0)"
  unfolding collide0_def by (intro eok_wf sys.store_ops sys.Start started0_wf)

theorem ExecuteNext_dead_step_witness:
  "map_option qi_StepID (map_of (ms_queue (en_store collide0)) 2) = Some (Some 1) \<and>
   map_of (ms_queue (en_store (snd (ExecuteNext env0 ''w'' collide0)))) 2 = None"
proof -
  have up: "\<not> en_isShuttingDown collide0" by code_simp
  have "(case fst (DequeueStep env0 ''w'' (en_store collide0)) of Ok (Some item) \<Rightarrow>
      (case map_of (ms_instances (en_store collide0)) (qi_InstanceID item) of
         Some inst \<Rightarrow> wi_Status inst \<noteq> StatusDLQ \<and>
           (case map_of (ms_steps (en_store collide0)) 2 of None \<Rightarrow> False
            | Some st \<Rightarrow> qi_StepID item = Some 2 \<and> ws_ID st = 2 \<and> ws_InstanceID st = qi_InstanceID item \<and>
                ws_Status st = StepStatusSkipped)
       | None \<Rightarrow> False) | _ \<Rightarrow> False)" by code_simp
  then obtain item inst st where "fst (DequeueStep env0 ''w'' (en_store collide0)) = Ok (Some item)"
    "map_of (ms_instances (en_store collide0)) (qi_InstanceID item) = Some inst" "wi_Status inst \<noteq> StatusDLQ"
    "itemStep collide0 item st" "ws_Status st = StepStatusSkipped" "ws_ID st = 2"
    by (auto simp: itemStep_def split: res.splits option.splits)
  then have "\<exists>w'. ExecuteNext env0 ''w'' collide0 = (Ok False, w') \<and> map_of (ms_queue (en_store w')) 2 = None"
    using ExecuteNext_dead_step [OF worksOn_concrete [OF collide0_wf up], of env0 "''w''" item inst st] by auto
  moreover have "map_option qi_StepID (map_of (ms_queue (en_store collide0)) 2) = Some (Some 1)" by code_simp
  ultimately show ?thesis by auto
qed

section \<open>Steps without a local handler\<close>

text \<open>What the worker's bookkeeping leaves alone.\<close>

definition workView :: "Engine \<Rightarrow> (int \<times> QueueItem) list \<times> (int \<times> WorkflowStep) list \<times> (int \<times> WorkflowInstance) list \<times> nat" where
  "workView w = (ms_queue (en_store w), ms_steps (en_store w), ms_instances (en_store w), en_hcalls w)"

lemma jitteredCooldown_run: "\<exists>d w'. jitteredCooldown E w = (Ok d, w') \<and> workView w' = workView w"
  by (simp add: jitteredCooldown_def workView_def Let_def)

lemma shouldLogSkip_run: "\<exists>b w'. shouldLogSkip E key w = (Ok b, w') \<and> workView w' = workView w"
proof -
  have clock: "readClock E w = (Ok (clk E (ms_cursor (en_store w))),
      w\<lparr>en_store := (en_store w)\<lparr>ms_cursor := Suc (ms_cursor (en_store w))\<rparr>\<rparr>)"
    by (simp add: readClock_def onStore_def gzoom_def)
  show ?thesis
    by (cases "map_of (en_skipLogNextAllowed w) key") (auto simp: shouldLogSkip_def clock workView_def)
qed

lemma releaseMissing_run:
  assumes k: "map_of (ms_queue (en_store w)) (qi_ID item) = Some item0"
  shows "\<exists>w' item'. releaseMissing E item inst step pre msg w = (Ok True, w') \<and>
    map_of (ms_queue (en_store w')) = (map_of (ms_queue (en_store w)))(qi_ID item \<mapsto> item') \<and>
    qi_AttemptedAt item' = None \<and> qi_ScheduledAt item0 \<le> qi_ScheduledAt item' \<and>
    qi_StepID item' = qi_StepID item0 \<and> qi_InstanceID item' = qi_InstanceID item0 \<and>
    ms_steps (en_store w') = ms_steps (en_store w) \<and> ms_instances (en_store w') = ms_instances (en_store w) \<and>
    en_hcalls w' = en_hcalls w"
proof -
  obtain d w1 where j: "jitteredCooldown E w = (Ok d, w1)" "workView w1 = workView w"
    using jitteredCooldown_run by blast
  let ?rel = "if d > 0
      then gwrap ''reschedule queue item: '' (onStore (RescheduleAndReleaseQueueItem E (qi_ID item) d))
      else gwrap ''release queue item: '' (onStore (ReleaseQueueItem (qi_ID item)))"
  have k1: "map_of (ms_queue (en_store w1)) (qi_ID item) = Some item0" using k j(2) by (simp add: workView_def)
  obtain w2 item' where rel: "?rel w1 = (Ok (), w2)"
    "map_of (ms_queue (en_store w2)) = (map_of (ms_queue (en_store w)))(qi_ID item \<mapsto> item')"
    "qi_AttemptedAt item' = None" "qi_ScheduledAt item0 \<le> qi_ScheduledAt item'"
    "qi_StepID item' = qi_StepID item0" "qi_InstanceID item' = qi_InstanceID item0"
    "ms_steps (en_store w2) = ms_steps (en_store w)" "ms_instances (en_store w2) = ms_instances (en_store w)"
    "en_hcalls w2 = en_hcalls w"
  proof (cases "d > 0")
    case True
    let ?t = "clk E (ms_cursor (en_store w1)) + d"
    let ?item = "item0\<lparr>qi_ScheduledAt := (if ?t < qi_ScheduledAt item0 then qi_ScheduledAt item0 else ?t),
        qi_AttemptedAt := None, qi_AttemptedBy := None\<rparr>"
    show thesis
      by (rule that [of "w1\<lparr>en_store := (en_store w1)\<lparr>ms_queue := AList.update (qi_ID item) ?item (ms_queue (en_store w1)),
            ms_cursor := Suc (ms_cursor (en_store w1))\<rparr>\<rparr>" ?item])
        (use True k1 j(2) in \<open>simp_all add: onStore_def gzoom_def RescheduleAndReleaseQueueItem_def Let_def gwrap_def workView_def\<close>)
  next
    case False
    let ?item = "item0\<lparr>qi_AttemptedAt := None, qi_AttemptedBy := None\<rparr>"
    show thesis
      by (rule that [of "w1\<lparr>en_store := (en_store w1)\<lparr>ms_queue := AList.update (qi_ID item) ?item (ms_queue (en_store w1))\<rparr>\<rparr>" ?item])
        (use False k1 j(2) in \<open>simp_all add: onStore_def gzoom_def ReleaseQueueItem_def gwrap_def workView_def\<close>)
  qed
  obtain b w3 where l: "shouldLogSkip E (pre @ itoa (wi_ID inst) @ '':'' @ ws_StepName step) w2 = (Ok b, w3)"
    "workView w3 = workView w2" using shouldLogSkip_run by blast
  have "\<exists>w4. (if b then logEvent E (wi_ID inst) None ''step_skipped_missing_handler''
        [(''step_name'', JStr (ws_StepName step)), (''message'', JStr msg)] else gret ()) w3 = (Ok (), w4) \<and>
      workView w4 = workView w3"
    by (cases b) (simp_all add: workView_def)
  then obtain w4 where w4: "releaseMissing E item inst step pre msg w = (Ok True, w4)" "workView w4 = workView w2"
    unfolding releaseMissing_def using j(1) rel(1) l by force
  with rel(2-9) show ?thesis by (intro exI [of _ w4] exI [of _ item']) (simp add: workView_def)
qed

text \<open>
  Work for other services is handed back. A task whose handler is not registered here is not failed: no
  handler runs, no step and no instance changes, the item stays in the queue, unclaimed, due no earlier than
  before, and the other items are untouched.
\<close>

theorem ExecuteNext_missing_handler:
  assumes on: "worksOn E worker w item s1 inst" and live: "wi_Status inst \<noteq> StatusDLQ"
    and st: "itemStep w item st" "ws_StepType st = StepTypeTask"
      "ws_Status st \<notin> {StepStatusSkipped, StepStatusPaused, StepStatusRolledBack, StepStatusCompensation}"
    and def: "defAt (en_store w) (wi_WorkflowID inst) = Some def" "stepDefOf def (ws_StepName st) = Some sd"
    and no: "map_of (en_handlers w) (sd_Handler sd) = None"
  shows "\<exists>w' item'. ExecuteNext E worker w = (Ok False, w') \<and> en_hcalls w' = en_hcalls w \<and>
    ms_steps (en_store w') = ms_steps (en_store w) \<and> ms_instances (en_store w') = ms_instances (en_store w) \<and>
    map_of (ms_queue (en_store w')) = (map_of (ms_queue (en_store w)))(qi_ID item \<mapsto> item') \<and>
    qi_AttemptedAt item' = None \<and> qi_ScheduledAt item \<le> qi_ScheduledAt item' \<and> qi_StepID item' = qi_StepID item"
proof -
  have d: "DequeueStep E worker (en_store w) = (Ok (Some item), s1)" and up: "\<not> en_isShuttingDown w"
    using on by (simp_all add: worksOn_def)
  have "defAt s1 (wi_WorkflowID inst) = Some def"
    using def(1) defAt_cong [OF Dequeue_frame(4,5) [OF d]] by simp
  then have g: "onStore (GetWorkflowDefinition (wi_WorkflowID inst)) (claimed s1 w) = (Ok def, claimed s1 w)"
    by (simp add: GetDefinition_run)
  have "map_of (ms_queue (en_store (claimed s1 w))) (qi_ID item) = Some item" using Dequeue_frame(6) [OF d] by simp
  from releaseMissing_run [OF this, of E inst st "''task-skip:''" "''no local handler registered; rescheduled''"]
  obtain w2 item' where r: "releaseMissing E item inst st ''task-skip:'' ''no local handler registered; rescheduled''
      (claimed s1 w) = (Ok True, w2)"
    "map_of (ms_queue (en_store w2)) = (map_of (ms_queue s1))(qi_ID item \<mapsto> item')" "qi_AttemptedAt item' = None"
    "qi_ScheduledAt item \<le> qi_ScheduledAt item'" "qi_StepID item' = qi_StepID item"
    "ms_steps (en_store w2) = ms_steps s1" "ms_instances (en_store w2) = ms_instances s1" "en_hcalls w2 = en_hcalls w"
    by auto
  have "processItem E item (claimed s1 w) = (Ok True, w2)"
    using live st(2,3) no def(2)
    by (simp add: processItem_def worksOn_claimed [OF on] itemStep_found(1) [OF on st(1)] g needStep_def r(1))
  from ExecuteNext_processed [OF up d this] have "ExecuteNext E worker w = (Ok False, uncounted w2)" by simp
  moreover have "(map_of (ms_queue s1))(qi_ID item \<mapsto> item') = (map_of (ms_queue (en_store w)))(qi_ID item \<mapsto> item')"
    using Dequeue_frame(7) [OF d] by auto
  ultimately show ?thesis using r Dequeue_frame(1,2) [OF d] by auto
qed

theorem ExecuteNext_missing_handler_witness:
  "\<exists>w'. ExecuteNext env0 ''w'' started0 = (Ok False, w') \<and> ms_steps (en_store w') = ms_steps (en_store started0)"
proof -
  have up: "\<not> en_isShuttingDown started0" and none: "en_handlers started0 = []" by code_simp+
  have "(case fst (DequeueStep env0 ''w'' (en_store started0)) of Ok (Some item) \<Rightarrow>
      (case map_of (ms_instances (en_store started0)) (qi_InstanceID item) of
         Some inst \<Rightarrow> wi_Status inst = StatusRunning \<and> wi_WorkflowID inst = ''t-v1'' \<and>
           (case map_of (ms_steps (en_store started0)) 1 of None \<Rightarrow> False
            | Some st \<Rightarrow> qi_StepID item = Some 1 \<and> ws_StepType st = StepTypeTask \<and> ws_StepName st = ''a'' \<and>
                ws_InstanceID st = qi_InstanceID item \<and> ws_Status st = StepStatusPending)
       | None \<Rightarrow> False) | _ \<Rightarrow> False)" by code_simp
  then obtain item inst st where s: "fst (DequeueStep env0 ''w'' (en_store started0)) = Ok (Some item)"
    "map_of (ms_instances (en_store started0)) (qi_InstanceID item) = Some inst" "wi_Status inst \<noteq> StatusDLQ"
    "itemStep started0 item st" "ws_Status st = StepStatusPending" "ws_StepType st = StepTypeTask"
    "ws_StepName st = ''a''" "wi_WorkflowID inst = ''t-v1''"
    by (auto simp: itemStep_def split: res.splits option.splits)
  have "(case defAt (en_store started0) ''t-v1'' of None \<Rightarrow> False | Some def \<Rightarrow>
      (case stepDefOf def ''a'' of None \<Rightarrow> False | Some sd \<Rightarrow> True))" by code_simp
  then obtain def sd where d: "defAt (en_store started0) ''t-v1'' = Some def" "stepDefOf def ''a'' = Some sd"
    by (auto split: option.splits)
  show ?thesis
    using ExecuteNext_missing_handler [OF worksOn_concrete [OF started0_wf up s(1,2)] s(3,4,6) _ _ _ , of def sd]
      s(5,7,8) d none by auto
qed

end
