(* ===== verification/Outcome_Props.thy ===== *)
theory Outcome_Props
  imports Worker_Props
begin

text \<open>
  What follows the execution of a step: retries and their number, the dead letter queue, the completion of a
  workflow, compensation.
\<close>

section \<open>Retries\<close>



lemma UpdateStep_run:
  "map_of (ms_steps (en_store w)) k = Some st \<Longrightarrow>
   onStore (UpdateStep E k status out err) w = (Ok (), w\<lparr>en_store := (en_store w)\<lparr>
      ms_steps := AList.update k (stepAfter (clk E (ms_cursor (en_store w))) status out err st) (ms_steps (en_store w)),
      ms_cursor := Suc (ms_cursor (en_store w))\<rparr>\<rparr>)"
  by (simp add: onStore_def gzoom_def UpdateStep_def)

lemma EnqueueStep_run:
  "onStore (EnqueueStep E i st p d) w = (Ok (), w\<lparr>en_store := (en_store w)\<lparr>
      ms_queue := AList.update (ms_nextQueueID (en_store w)) (queuedItem (E, i, st, p, d) (en_store w)) (ms_queue (en_store w)),
      ms_nextQueueID := ms_nextQueueID (en_store w) + 1, ms_cursor := Suc (ms_cursor (en_store w))\<rparr>\<rparr>)"
  by (simp add: onStore_def gzoom_def EnqueueStep_def queuedItem_def Let_def)

text \<open>The store after a failure that is tried again; \<open>st0\<close> is the stored step, \<open>st\<close> the worker's copy of it.\<close>

definition retryStore ::
    "env \<Rightarrow> WorkflowInstance \<Rightarrow> StepDefinition \<Rightarrow> string \<Rightarrow> WorkflowStep \<Rightarrow> WorkflowStep \<Rightarrow> MemoryStore \<Rightarrow> MemoryStore" where
  "retryStore E inst sd errMsg st st0 s =
     (let s2 = logged E (wi_ID inst) (Some (ws_ID st)) ''step_retry''
            [(''step_name'', JStr (ws_StepName st)), (''retry_count'', jnum (ws_RetryCount st + 1)), (''error'', JStr errMsg)]
            (s\<lparr>ms_steps := AList.update (ws_ID st) (stepAfter (clk E (ms_cursor s)) StepStatusFailed RawNil (Some errMsg) st0) (ms_steps s),
               ms_cursor := Suc (ms_cursor s)\<rparr>)
      in s2\<lparr>ms_queue := AList.update (ms_nextQueueID s2)
                (queuedItem (E, wi_ID inst, Some (ws_ID st), PriorityHigh, sd_Delay sd) s2) (ms_queue s2),
             ms_nextQueueID := ms_nextQueueID s2 + 1, ms_cursor := Suc (ms_cursor s2)\<rparr>)"

lemma retry_run:
  assumes st: "map_of (ms_steps (en_store w)) (ws_ID st) = Some st0" and may: "mayRetry sd st"
  shows "handleStepFailure E inst (SCopy st) sd err w = (Ok (), w\<lparr>en_store := retryStore E inst sd (errStr err) st st0 (en_store w)\<rparr>)"
  using may by (simp add: handleStepFailure_def retryStep_def UpdateStep_run [OF st] EnqueueStep_run retryStore_def Let_def)

lemma retryStore_fields:
  "ms_definitions (retryStore E inst sd errMsg st st0 s) = ms_definitions s"
  "ms_defheap (retryStore E inst sd errMsg st st0 s) = ms_defheap s"
  "ms_instances (retryStore E inst sd errMsg st st0 s) = ms_instances s"
  "ms_joinStates (retryStore E inst sd errMsg st st0 s) = ms_joinStates s"
  "ms_cancelRequests (retryStore E inst sd errMsg st st0 s) = ms_cancelRequests s"
  "ms_stepsByInstance (retryStore E inst sd errMsg st st0 s) = ms_stepsByInstance s"
  "ms_steps (retryStore E inst sd errMsg st st0 s) =
     AList.update (ws_ID st) (stepAfter (clk E (ms_cursor s)) StepStatusFailed RawNil (Some errMsg) st0) (ms_steps s)"
  "\<exists>item. ms_queue (retryStore E inst sd errMsg st st0 s) = AList.update (ms_nextQueueID s) item (ms_queue s) \<and>
     qi_ID item = ms_nextQueueID s \<and> qi_InstanceID item = wi_ID inst \<and> qi_StepID item = Some (ws_ID st) \<and>
     qi_Priority item = PriorityHigh \<and> qi_AttemptedAt item = None \<and>
     qi_ScheduledAt item = clk E (Suc (Suc (ms_cursor s))) + sd_Delay sd"
  "ms_cursor (retryStore E inst sd errMsg st st0 s) = Suc (Suc (Suc (ms_cursor s)))"
  by (auto simp: retryStore_def Let_def queuedItem_def logged_cursor
      intro: exI [of _ "queuedItem (E, wi_ID inst, Some (ws_ID st), PriorityHigh, sd_Delay sd) (s\<lparr>ms_cursor := Suc (Suc (ms_cursor s))\<rparr>)"])



section \<open>The dead letter queue\<close>

lemma onStore_OkD: "onStore m w = (r, w') \<Longrightarrow> m (en_store w) = (r, en_store w') \<and> w' = w\<lparr>en_store := en_store w'\<rparr>"
  by (auto simp: onStore_def gzoom_def split: prod.splits)

lemma UpdateInstanceStatus_OkD:
  assumes "UpdateInstanceStatus E k st out err s = (Ok x, s')"
  shows "ms_queue s' = ms_queue s \<and> ms_steps s' = ms_steps s \<and> ms_stepsByInstance s' = ms_stepsByInstance s \<and>
    ms_deadLetters s' = ms_deadLetters s \<and> ms_cancelRequests s' = ms_cancelRequests s \<and>
    (\<exists>i. map_of (ms_instances s') k = Some i \<and> wi_Status i = st \<and> wi_Error i = err \<and> wi_Output i = out)"
  using assms by (auto simp: UpdateInstanceStatus_def split: option.splits)

lemma CreateDeadLetterRecord_OkD:
  "CreateDeadLetterRecord E r s = (Ok x, s') \<Longrightarrow>
   map_of (ms_deadLetters s') (ms_nextDeadLetterID s) =
     Some (r\<lparr>dl_ID := ms_nextDeadLetterID s, dl_CreatedAt := clk E (ms_cursor s)\<rparr>)"
  by (auto simp: CreateDeadLetterRecord_def Let_def)

lemma Pause_steps:
  assumes wf: "store_wf s" and k: "map_of (ms_steps (snd (PauseActiveStepsAndClearQueue i s))) k = Some st"
    and i: "ws_InstanceID st = i"
  shows "ws_Status st \<noteq> StepStatusRunning"
proof -
  let ?f = "\<lambda>st. if ws_Status st = StepStatusRunning then st\<lparr>ws_Status := StepStatusPaused\<rparr> else st"
  have look: "map_of (mapSteps ?f (stepIDsOf s i) (ms_steps s)) k =
      (if k \<in> set (stepIDsOf s i) then map_option ?f (map_of (ms_steps s) k) else map_of (ms_steps s) k)"
    by (rule map_of_mapSteps [OF stepIDsOf_distinct [OF wf]])
  have k': "map_of (mapSteps ?f (stepIDsOf s i) (ms_steps s)) k = Some st"
    using k by (simp add: PauseActiveStepsAndClearQueue_def)
  then obtain st0 where st0: "map_of (ms_steps s) k = Some st0" "ws_InstanceID st0 = i"
    using look i by (auto split: if_splits)
  from step_in_index [OF wf st0(1)] st0 k' look show ?thesis by (auto split: if_splits)
qed

lemma Pause_queue:
  assumes "map_of (ms_queue (snd (PauseActiveStepsAndClearQueue i s))) k = Some item"
  shows "qi_InstanceID item \<noteq> i"
proof -
  have "(k, item) \<in> set (filter (\<lambda>(j, item). qi_InstanceID item \<noteq> i) (ms_queue s))"
    using assms by (auto simp: PauseActiveStepsAndClearQueue_def dest: map_of_SomeD)
  then show ?thesis by simp
qed

lemma sendToDLQ_frozen:
  assumes wf: "store_wf (en_store w)" and run: "sendToDLQ E inst st def errMsg w = (Ok (), w')"
  shows "(\<exists>i. map_of (ms_instances (en_store w')) (wi_ID inst) = Some i \<and> wi_Status i = StatusDLQ \<and>
            wi_Error i = Some errMsg) \<and>
    (\<forall>k item. map_of (ms_queue (en_store w')) k = Some item \<longrightarrow> qi_InstanceID item \<noteq> wi_ID inst) \<and>
    (\<forall>k x. map_of (ms_steps (en_store w')) k = Some x \<longrightarrow> ws_InstanceID x = wi_ID inst \<longrightarrow>
       ws_Status x \<noteq> StepStatusRunning) \<and>
    (\<exists>d r. map_of (ms_deadLetters (en_store w')) d = Some r \<and> dl_StepID r = ws_ID st \<and>
       dl_InstanceID r = ws_InstanceID st \<and> dl_Input r = ws_Input st \<and> dl_Error r = Some errMsg)"
proof -
  let ?dl = "\<lparr>dl_ID = 0, dl_InstanceID = ws_InstanceID st, dl_WorkflowID = wd_ID def, dl_StepID = ws_ID st,
      dl_StepName = ws_StepName st, dl_StepType = stepTypeStr (ws_StepType st), dl_Input = ws_Input st,
      dl_Error = Some errMsg, dl_Reason = ''dlq enabled: rollback/compensation skipped'', dl_CreatedAt = 0\<rparr>"
  let ?A = "gwrap ''update step (paused): '' (onStore (UpdateStep E (ws_ID st) StepStatusPaused RawNil (Some errMsg)))"
  let ?B = "logEvent E (wi_ID inst) (Some (ws_ID st)) ''step_failed''
      [(''step_name'', JStr (ws_StepName st)), (''error'', JStr errMsg), (''reason'', JStr ''dlq'')]"
  let ?C = "gwrap ''notify join steps: '' (notifyJoinSteps E (wi_ID inst) (ws_StepName st) False)"
  let ?D = "gwrap ''create dead letter record: '' (onStore (CreateDeadLetterRecord E ?dl))"
  let ?P = "gwrap ''freeze instance for dlq: '' (onStore (PauseActiveStepsAndClearQueue (wi_ID inst)))"
  let ?U = "gwrap ''update instance status to dlq: ''
      (onStore (UpdateInstanceStatus E (wi_ID inst) StatusDLQ RawNil (Some errMsg)))"
  obtain x1 w1 x2 w2 x3 w3 x4 w4 x5 w5 x6 w6 where
    1: "?A w = (Ok x1, w1)" and 2: "?B w1 = (Ok x2, w2)" and 3: "?C w2 = (Ok x3, w3)" and
    4: "?D w3 = (Ok x4, w4)" and 5: "?P w4 = (Ok x5, w5)" and 6: "?U w5 = (Ok x6, w6)" and 7: "gret () w6 = (Ok (), w')"
    using run unfolding sendToDLQ_def by (elim gseq_OkE) (rule that; assumption)
  have wf4: "store_wf (en_store w4)"
  proof -
    have "sys.eok ?A" "sys.eok ?B" "sys.eok ?C" "sys.eok ?D"
      by (intro sys.engine_control sys.store_ops sys.logEvent sys.notifyJoins)+
    with 1 2 3 4 show ?thesis using eok_wf wf by (metis snd_conv)
  qed
  note s4 = onStore_OkD [OF gwrap_OkD [OF 4], THEN conjunct1]
  note s5 = onStore_OkD [OF gwrap_OkD [OF 5], THEN conjunct1]
  note s6 = onStore_OkD [OF gwrap_OkD [OF 6], THEN conjunct1]
  have w': "en_store w' = en_store w6" using 7 by simp
  have fields: "ms_queue (en_store w') = ms_queue (en_store w5)" "ms_steps (en_store w') = ms_steps (en_store w5)"
    "ms_deadLetters (en_store w') = ms_deadLetters (en_store w5)"
    "\<exists>i. map_of (ms_instances (en_store w')) (wi_ID inst) = Some i \<and> wi_Status i = StatusDLQ \<and> wi_Error i = Some errMsg"
    using UpdateInstanceStatus_OkD [OF s6] unfolding w' by auto
  have snd5: "en_store w5 = snd (PauseActiveStepsAndClearQueue (wi_ID inst) (en_store w4))" using s5 by simp
  have queue: "qi_InstanceID item \<noteq> wi_ID inst" if "map_of (ms_queue (en_store w')) k = Some item" for k item
    using that unfolding fields(1) snd5 by (rule Pause_queue)
  have steps: "ws_Status x \<noteq> StepStatusRunning"
    if "map_of (ms_steps (en_store w')) k = Some x" "ws_InstanceID x = wi_ID inst" for k x
    using Pause_steps [OF wf4 _ that(2), of k] that(1) unfolding fields(2) snd5 by simp
  have "\<exists>d r. map_of (ms_deadLetters (en_store w')) d = Some r \<and> dl_StepID r = ws_ID st \<and>
       dl_InstanceID r = ws_InstanceID st \<and> dl_Input r = ws_Input st \<and> dl_Error r = Some errMsg"
    unfolding fields(3) snd5 using CreateDeadLetterRecord_OkD [OF s4]
    by (intro exI [of _ "ms_nextDeadLetterID (en_store w3)"]) (auto simp: PauseActiveStepsAndClearQueue_def)
  with fields(4) queue steps show ?thesis by blast
qed

text \<open>
  C14. Freezing a workflow for the dead letter queue. When a step of a DLQ-enabled workflow has no retries left
  and the handling of its failure succeeds, the instance is in the DLQ state with the error, no queue item
  of the instance is left, none of its steps is running, and a dead letter with the step, its input and the error
  is on record; no rollback takes place.
\<close>

theorem handleStepFailure_dlq:
  assumes wf: "store_wf (en_store w)" and no: "\<not> mayRetry sd st"
    and def: "defAt (en_store w) (wi_WorkflowID inst) = Some def" "gd_DLQEnabled (wd_Definition def)"
    and run: "handleStepFailure E inst (SCopy st) sd err w = (Ok (), w')"
  shows "(\<exists>i. map_of (ms_instances (en_store w')) (wi_ID inst) = Some i \<and> wi_Status i = StatusDLQ \<and>
            wi_Error i = Some (errStr err)) \<and>
    (\<forall>k item. map_of (ms_queue (en_store w')) k = Some item \<longrightarrow> qi_InstanceID item \<noteq> wi_ID inst) \<and>
    (\<forall>k x. map_of (ms_steps (en_store w')) k = Some x \<longrightarrow> ws_InstanceID x = wi_ID inst \<longrightarrow>
       ws_Status x \<noteq> StepStatusRunning) \<and>
    (\<exists>d r. map_of (ms_deadLetters (en_store w')) d = Some r \<and> dl_StepID r = ws_ID st \<and>
       dl_InstanceID r = ws_InstanceID st \<and> dl_Input r = ws_Input st \<and> dl_Error r = Some (errStr err))"
proof (rule sendToDLQ_frozen [OF wf])
  show "sendToDLQ E inst st def (errStr err) w = (Ok (), w')"
    using run no def by (simp add: handleStepFailure_def)
qed

text \<open>A workflow with the dead letter queue enabled and a step without retries.\<close>

definition dlqDef :: WorkflowDefinition where
  "dlqDef = \<lparr>wd_ID = ''d-v1'', wd_Name = ''d'', wd_Version = 1,
     wd_Definition = \<lparr>gd_Steps = [(''a'', emptyStepDefinition\<lparr>sd_Name := ''a'', sd_Type := StepTypeTask,
         sd_Handler := ''h''\<rparr>)], gd_Start = ''a'', gd_DLQEnabled = True\<rparr>, wd_CreatedAt = 0\<rparr>"

definition dlq0 :: Engine where
  "dlq0 = snd (Start env0 ''d-v1'' RawNil (snd (RegisterWorkflow env0 dlqDef (NewEngine NewMemoryStore))))"

lemma dlq0_wf: "store_wf (en_store dlq0)"
  unfolding dlq0_def
  by (rule reachable_wf [OF reachable.step [OF reachable.step [OF reachable.init estep.workflow] estep.start]])

theorem handleStepFailure_dlq_witness:
  "\<exists>w' i. handleStepFailure env0 (snd (hd (ms_instances (en_store dlq0)))) (SCopy (snd (hd (ms_steps (en_store dlq0)))))
       (snd (hd (stepsOf dlqDef))) (Err ''boom'') dlq0 = (Ok (), w') \<and>
     map_of (ms_instances (en_store w')) 1 = Some i \<and> wi_Status i = StatusDLQ"
proof -
  let ?inst = "snd (hd (ms_instances (en_store dlq0)))" and ?st = "snd (hd (ms_steps (en_store dlq0)))"
    and ?sd = "snd (hd (stepsOf dlqDef))"
  have f: "\<not> mayRetry ?sd ?st" "wi_ID ?inst = 1"
    "(case defAt (en_store dlq0) (wi_WorkflowID ?inst) of None \<Rightarrow> False | Some d \<Rightarrow> gd_DLQEnabled (wd_Definition d))"
    "(case fst (handleStepFailure env0 ?inst (SCopy ?st) ?sd (Err ''boom'') dlq0) of Ok _ \<Rightarrow> True | _ \<Rightarrow> False)"
    by code_simp+
  obtain def where def: "defAt (en_store dlq0) (wi_WorkflowID ?inst) = Some def" "gd_DLQEnabled (wd_Definition def)"
    using f(3) by (auto split: option.splits)
  obtain w' where run: "handleStepFailure env0 ?inst (SCopy ?st) ?sd (Err ''boom'') dlq0 = (Ok (), w')"
    using f(4) by (cases "handleStepFailure env0 ?inst (SCopy ?st) ?sd (Err ''boom'') dlq0") (auto split: res.splits)
  from handleStepFailure_dlq [OF dlq0_wf f(1) def run] run f(2) show ?thesis by auto
qed

section \<open>Completing a workflow\<close>

definition sameInstances :: "Engine \<Rightarrow> Engine \<Rightarrow> bool" where
  "sameInstances w w' \<longleftrightarrow> ms_instances (en_store w') = ms_instances (en_store w)"

interpretation inst: go_preorder sameInstances
  by unfold_locales (simp_all add: sameInstances_def)

lemma sameInstances_ops:
  "go_rel sameInstances (onStore (UpdateStep E k sst out err))"
  "go_rel sameInstances (onStore (UpdateStepCompensationRetry k n sst))"
  "go_rel sameInstances (onStore (EnqueueStep E i st p d))" "go_rel sameInstances (logEvent E i st ty kvs)"
  "go_rel sameInstances (onStore (GetStepsByInstance i))" "go_rel sameInstances (onStore (GetInstance i))"
  "go_rel sameInstances (onStore (GetWorkflowDefinition wid))"
  by (auto simp: go_rel_def sameInstances_def onStore_def gzoom_def UpdateStep_def UpdateStepCompensationRetry_def
      EnqueueStep_def GetStepsByInstance_def GetInstance_def GetWorkflowDefinition_def Let_def split: option.split)

lemma enqueueCompleted_instances: "go_rel sameInstances (enqueueCompletedStepsForRollback E i)"
  unfolding enqueueCompletedStepsForRollback_def by (intro inst.rel_control sameInstances_ops)

lemma enqueueCompleted_returns: "returns (enqueueCompletedStepsForRollback E i)"
proof -
  have "returns (onStore (UpdateStep E k sst out err))" "returns (onStore (UpdateStepCompensationRetry k n sst))"
    "returns (onStore (EnqueueStep E k st p d))" "returns (logEvent E k st ty kvs)"
    "returns (onStore (GetStepsByInstance k))" "returns (onStore (GetInstance k))"
    "returns (onStore (GetWorkflowDefinition wid))" for k sst out err n st p d ty kvs wid
    by (auto simp: returns_def onStore_def gzoom_def UpdateStep_def UpdateStepCompensationRetry_def EnqueueStep_def
        GetStepsByInstance_def GetInstance_def GetWorkflowDefinition_def Let_def split: option.split)
  then show ?thesis unfolding enqueueCompletedStepsForRollback_def by (intro returning)
qed

lemma hasStatus_frame:
  "ms_steps t = ms_steps s \<Longrightarrow> ms_stepsByInstance t = ms_stepsByInstance s \<Longrightarrow> hasStatus S t i = hasStatus S s i"
  by (simp add: hasStatus_def stepsIn_def stepsOfInstance_def stepIDsOf_def)

lemma hasStatus_logged [simp]: "hasStepsInCompensation (logged E i st ty kvs s) j = hasStepsInCompensation s j"
  unfolding hasStepsInCompensation_def by (rule hasStatus_frame) simp_all

lemma UpdateInstanceStatus_run:
  assumes "map_of (ms_instances (en_store w)) k = Some i"
  shows "\<exists>s' i'. onStore (UpdateInstanceStatus E k st out err) w = (Ok (), w\<lparr>en_store := s'\<rparr>) \<and>
    map_of (ms_instances s') = (map_of (ms_instances (en_store w)))(k \<mapsto> i') \<and>
    wi_Status i' = st \<and> wi_Output i' = out \<and> wi_Error i' = err \<and> ms_steps s' = ms_steps (en_store w) \<and>
    ms_queue s' = ms_queue (en_store w) \<and> ms_cancelRequests s' = ms_cancelRequests (en_store w) \<and>
    ms_humanDecisions s' = ms_humanDecisions (en_store w) \<and> ms_stepsByInstance s' = ms_stepsByInstance (en_store w)"
proof -
  let ?s = "en_store w"
  let ?i = "instanceAfter (clk E (ms_cursor ?s)) (clk E (Suc (ms_cursor ?s))) st out err i"
  show ?thesis
    by (rule exI [of _ "?s\<lparr>ms_instances := AList.update k ?i (ms_instances ?s),
          ms_cursor := (if stampsCompletion st \<or> stampsStart st i then Suc (Suc (ms_cursor ?s)) else Suc (ms_cursor ?s))\<rparr>"],
        rule exI [of _ ?i]) (use assms in \<open>simp add: onStore_def gzoom_def UpdateInstanceStatus_def\<close>)
qed

text \<open>
  C13. A workflow is reported completed only if nothing failed. If no step of the instance is failed or rolled
  back, \<open>completeWorkflow\<close> sets it to \<open>completed\<close> with the last output; otherwise the instance keeps
  its status while compensations are pending and is set to \<open>failed\<close> if none are.
\<close>

theorem completeWorkflow_spec:
  assumes i: "map_of (ms_instances (en_store w)) (wi_ID inst) = Some i"
  shows "(\<not> hasFailedOrRolledBackSteps (en_store w) (wi_ID inst) \<longrightarrow>
      (\<exists>w' i'. completeWorkflow E inst out w = (Ok (), w') \<and>
         map_of (ms_instances (en_store w')) (wi_ID inst) = Some i' \<and> wi_Status i' = StatusCompleted \<and> wi_Output i' = out)) \<and>
    (hasFailedOrRolledBackSteps (en_store w) (wi_ID inst) \<longrightarrow>
      (\<exists>w' i'. completeWorkflow E inst out w = (Ok (), w') \<and>
         map_of (ms_instances (en_store w')) (wi_ID inst) = Some i' \<and>
         (if hasStepsInCompensation (en_store w') (wi_ID inst) then i' = i else wi_Status i' = StatusFailed)))"
proof (intro conjI impI)
  assume ok: "\<not> hasFailedOrRolledBackSteps (en_store w) (wi_ID inst)"
  obtain s' i' where u: "onStore (UpdateInstanceStatus E (wi_ID inst) StatusCompleted out None) w = (Ok (), w\<lparr>en_store := s'\<rparr>)"
    "map_of (ms_instances s') (wi_ID inst) = Some i'" "wi_Status i' = StatusCompleted" "wi_Output i' = out"
    using UpdateInstanceStatus_run [OF i, of E StatusCompleted out None] by auto
  show "\<exists>w' i'. completeWorkflow E inst out w = (Ok (), w') \<and>
      map_of (ms_instances (en_store w')) (wi_ID inst) = Some i' \<and> wi_Status i' = StatusCompleted \<and> wi_Output i' = out"
    using ok u by (simp add: completeWorkflow_def)
next
  assume bad: "hasFailedOrRolledBackSteps (en_store w) (wi_ID inst)"
  obtain w1 where e: "gignore (enqueueCompletedStepsForRollback E (wi_ID inst)) w = (Ok (), w1)"
    "ms_instances (en_store w1) = ms_instances (en_store w)"
  proof (rule returnsE [OF enqueueCompleted_returns, of E "wi_ID inst" w])
    fix x w1 assume r: "enqueueCompletedStepsForRollback E (wi_ID inst) w = (Ok x, w1)"
    with that go_relD [OF enqueueCompleted_instances r] show thesis by (simp add: sameInstances_def)
  next
    fix err w1 assume r: "enqueueCompletedStepsForRollback E (wi_ID inst) w = (Fail err, w1)"
    with that go_relD [OF enqueueCompleted_instances r] show thesis by (simp add: sameInstances_def)
  qed
  show "\<exists>w' i'. completeWorkflow E inst out w = (Ok (), w') \<and>
      map_of (ms_instances (en_store w')) (wi_ID inst) = Some i' \<and>
      (if hasStepsInCompensation (en_store w') (wi_ID inst) then i' = i else wi_Status i' = StatusFailed)"
  proof (cases "hasStepsInCompensation (en_store w1) (wi_ID inst)")
    case True
    with bad e i show ?thesis by (simp add: completeWorkflow_def)
  next
    case False
    have i1: "map_of (ms_instances (en_store w1)) (wi_ID inst) = Some i" using e(2) i by simp
    obtain s' i' where u: "onStore (UpdateInstanceStatus E (wi_ID inst) StatusFailed RawNil
        (Some ''workflow has failed or rolled back steps'')) w1 = (Ok (), w1\<lparr>en_store := s'\<rparr>)"
      "map_of (ms_instances s') (wi_ID inst) = Some i'" "wi_Status i' = StatusFailed"
      "ms_steps s' = ms_steps (en_store w1)" "ms_stepsByInstance s' = ms_stepsByInstance (en_store w1)"
      using UpdateInstanceStatus_run [OF i1, of E StatusFailed RawNil "Some ''workflow has failed or rolled back steps''"] by auto
    have "\<not> hasStepsInCompensation s' (wi_ID inst)"
      using False hasStatus_frame [OF u(4,5)] by (simp add: hasStepsInCompensation_def)
    with bad e False u show ?thesis by (simp add: completeWorkflow_def markFailed_def Let_def)
  qed
qed

theorem completeWorkflow_spec_witness:
  "\<exists>w' i'. completeWorkflow env0 (snd (hd (ms_instances (en_store started0)))) (RawJson JNull) started0 = (Ok (), w') \<and>
     map_of (ms_instances (en_store w')) 1 = Some i' \<and> wi_Status i' = StatusCompleted"
proof -
  let ?inst = "snd (hd (ms_instances (en_store started0)))"
  have "wi_ID ?inst = 1" "\<not> hasFailedOrRolledBackSteps (en_store started0) 1"
    "(case map_of (ms_instances (en_store started0)) 1 of None \<Rightarrow> False | Some _ \<Rightarrow> True)" by code_simp+
  then show ?thesis
    using completeWorkflow_spec [of started0 ?inst _ env0 "RawJson JNull"] by (auto split: option.splits)
qed

end
