(* ===== verification/Builder.thy ===== *)
theory Builder
  imports Validation
begin

text \<open>
  The fluent builder (\<open>builder.go\<close>, \<open>builder_opts.go\<close>). A builder maps step names to pointers, and a
  fork or condition hands the steps of its sub-builder on by pointer, so step definitions live in a heap:
  a list, an address being a position. An operation is a state passing function on the heap and the
  builder; the error a builder remembers is data, so operations do not fail, but a nil pointer would make
  them panic.

  Branch functions are operations on a sub-builder. \<open>bcall\<close> is the language of client programs that use
  the exported methods only; \<open>runCall\<close> gives its meaning.
\<close>

section \<open>Options\<close>

datatype StepOption =
    WithStepMaxRetries int | WithStepMetadata "(string \<times> jval) list" | WithStepNoIdempotent
  | WithStepDelay int | WithStepRetryDelay int | WithStepTimeout int | WithStepRetryStrategy RetryStrategy

fun applyStepOption :: "StepOption \<Rightarrow> StepDefinition \<Rightarrow> StepDefinition" where
  "applyStepOption (WithStepMaxRetries n) step = (if sd_NoIdempotent step then step else step\<lparr>sd_MaxRetries := n\<rparr>)"
| "applyStepOption (WithStepMetadata m) step = step\<lparr>sd_Metadata := m\<rparr>"
| "applyStepOption WithStepNoIdempotent step = step\<lparr>sd_NoIdempotent := True, sd_MaxRetries := 1\<rparr>"
| "applyStepOption (WithStepDelay d) step = step\<lparr>sd_Delay := d\<rparr>"
| "applyStepOption (WithStepRetryDelay d) step = step\<lparr>sd_RetryDelay := d\<rparr>"
| "applyStepOption (WithStepTimeout t) step = step\<lparr>sd_Timeout := t\<rparr>"
| "applyStepOption (WithStepRetryStrategy r) step = step\<lparr>sd_RetryStrategy := r\<rparr>"

definition applyStepOptions :: "StepOption list \<Rightarrow> StepDefinition \<Rightarrow> StepDefinition" where
  "applyStepOptions opts step = foldl (\<lambda>st opt. applyStepOption opt st) step opts"

datatype BuilderOption = WithBuilderMaxRetries int | WithDLQEnabled bool

section \<open>The builder\<close>

definition defaultMaxRetries :: int where
  "defaultMaxRetries = 3"

datatype Builder = Builder (bd_name: string) (bd_version: int) (bd_steps: "(string \<times> nat) list")
  (bd_startStep: string) (bd_currentStep: string) (bd_nestingLevel: int) (bd_subBuilders: "Builder list")
  (bd_defaultMaxRetries: int) (bd_dlqEnabled: bool) (bd_err: "error option")

primrec setSteps :: "((string \<times> nat) list \<Rightarrow> (string \<times> nat) list) \<Rightarrow> Builder \<Rightarrow> Builder" where
  "setSteps f (Builder n v st s c l sb m d e) = Builder n v (f st) s c l sb m d e"

primrec setStart :: "string \<Rightarrow> Builder \<Rightarrow> Builder" where
  "setStart x (Builder n v st s c l sb m d e) = Builder n v st x c l sb m d e"

primrec setCurrent :: "string \<Rightarrow> Builder \<Rightarrow> Builder" where
  "setCurrent x (Builder n v st s c l sb m d e) = Builder n v st s x l sb m d e"

primrec addSub :: "Builder \<Rightarrow> Builder \<Rightarrow> Builder" where
  "addSub x (Builder n v st s c l sb m d e) = Builder n v st s c l (sb @ [x]) m d e"

primrec setErr :: "error \<Rightarrow> Builder \<Rightarrow> Builder" where
  "setErr x (Builder n v st s c l sb m d e) = Builder n v st s c l sb m d (Some x)"

primrec applyBuilderOption :: "BuilderOption \<Rightarrow> Builder \<Rightarrow> Builder" where
  "applyBuilderOption (WithBuilderMaxRetries x) b = (case b of Builder n v st s c l sb m d e \<Rightarrow> Builder n v st s c l sb x d e)"
| "applyBuilderOption (WithDLQEnabled x) b = (case b of Builder n v st s c l sb m d e \<Rightarrow> Builder n v st s c l sb m x e)"

definition NewBuilder :: "string \<Rightarrow> int \<Rightarrow> BuilderOption list \<Rightarrow> Builder" where
  "NewBuilder name version opts =
     foldl (\<lambda>b opt. applyBuilderOption opt b)
       (Builder name version [] '''' '''' 1 [] defaultMaxRetries False None) opts"

text \<open>The literal \<open>&Builder{...}\<close> of a branch.\<close>

definition subBuilder :: "Builder \<Rightarrow> string \<Rightarrow> int \<Rightarrow> Builder" where
  "subBuilder b name nestingLevel =
     Builder name (bd_version b) [] '''' '''' nestingLevel [] (bd_defaultMaxRetries b) False None"

type_synonym bstate = "StepDefinition list \<times> Builder"
type_synonym 'a bgo = "(bstate, 'a) go"

section \<open>Building\<close>

definition snapshot :: "StepDefinition list \<Rightarrow> (string \<times> nat) list \<Rightarrow> (string \<times> StepDefinition) list" where
  "snapshot H steps = map (\<lambda>(n, a). (n, H ! a)) steps"

fun Build :: "StepDefinition list \<Rightarrow> Builder \<Rightarrow> error + WorkflowDefinition"
and buildSubs :: "StepDefinition list \<Rightarrow> Builder list \<Rightarrow> error option" where
  "Build H (Builder name version steps startStep currentStep nestingLevel subs retries dlqEnabled err) =
     (case err of Some e \<Rightarrow> Inl e
      | None \<Rightarrow>
          if name = '''' then Inl (Err ''workflow name is required'')
          else if startStep = '''' then Inl (Err (''builder '' @ goQuote name @ '': at least one step is required''))
          else (let def = \<lparr>wd_ID = name @ ''-v'' @ itoa version, wd_Name = name, wd_Version = version,
                      wd_Definition = \<lparr>gd_Steps = snapshot H steps, gd_Start = startStep, gd_DLQEnabled = dlqEnabled\<rparr>,
                      wd_CreatedAt = 0\<rparr>
                in case ValidateWorkflowDefinition def of
                     Some e \<Rightarrow> Inl (verrorErr def e)
                   | None \<Rightarrow> (case buildSubs H subs of Some e \<Rightarrow> Inl e | None \<Rightarrow> Inr def)))"
| "buildSubs H [] = None"
| "buildSubs H (sub # subs) = (case Build H sub of Inl e \<Rightarrow> Some e | Inr _ \<Rightarrow> buildSubs H subs)"

section \<open>Primitives\<close>

definition bself :: "(Builder \<Rightarrow> 'a) \<Rightarrow> 'a bgo" where
  "bself f = gread (\<lambda>(H, b). f b)"

definition bmod :: "(Builder \<Rightarrow> Builder) \<Rightarrow> unit bgo" where
  "bmod f = gmodify (\<lambda>(H, b). (H, f b))"

text \<open>\<open>&StepDefinition{...}\<close>\<close>

definition alloc :: "StepDefinition \<Rightarrow> nat bgo" where
  "alloc sd = (\<lambda>(H, b). (Ok (length H), (H @ [sd], b)))"

text \<open>Writing through a pointer, and through \<open>builder.steps[name]\<close>, which may be nil.\<close>

definition writeAt :: "nat \<Rightarrow> (StepDefinition \<Rightarrow> StepDefinition) \<Rightarrow> unit bgo" where
  "writeAt a f = gmodify (\<lambda>(H, b). (H[a := f (H ! a)], b))"

definition updateStep :: "string \<Rightarrow> (StepDefinition \<Rightarrow> StepDefinition) \<Rightarrow> unit bgo" where
  "updateStep name f = gbind (bself (\<lambda>b. map_of (bd_steps b) name)) (\<lambda>p.
     case p of None \<Rightarrow> gpanic ''nil pointer dereference'' | Some a \<Rightarrow> writeAt a f)"

definition putStep :: "string \<Rightarrow> nat \<Rightarrow> unit bgo" where
  "putStep name a = bmod (setSteps (AList.update name a))"

text \<open>\<open>if builder.err != nil { return builder }\<close>\<close>

definition unlessErr :: "unit bgo \<Rightarrow> unit bgo" where
  "unlessErr m = gbind (bself bd_err) (\<lambda>e. case e of Some _ \<Rightarrow> gret () | None \<Rightarrow> m)"

text \<open>\<open>if c { builder.err = e; return builder }\<close>\<close>

definition refuse :: "bool \<Rightarrow> error \<Rightarrow> unit bgo \<Rightarrow> unit bgo" where
  "refuse c e m = (if c then bmod (setErr e) else m)"

text \<open>A loop whose body may return from the method: \<open>False\<close>.\<close>

primrec gevery :: "('a \<Rightarrow> ('s, bool) go) \<Rightarrow> 'a list \<Rightarrow> ('s, bool) go" where
  "gevery f [] = gret True"
| "gevery f (x # xs) = gbind (f x) (\<lambda>go_on. if go_on then gevery f xs else gret False)"

text \<open>The block every method ends with: the current step points to the new one.\<close>

definition linkCurrent :: "string \<Rightarrow> unit bgo" where
  "linkCurrent name = gbind (bself bd_currentStep) (\<lambda>cur.
     if cur \<noteq> '''' \<and> cur \<noteq> name then updateStep cur (\<lambda>sd. sd\<lparr>sd_Next := sd_Next sd @ [name]\<rparr>) else gret ())"

text \<open>Running a branch function on a new builder.\<close>

definition inSub :: "Builder \<Rightarrow> unit bgo \<Rightarrow> Builder bgo" where
  "inSub sub m = (\<lambda>(H, b). case m (H, sub) of (r, (H', sub')) \<Rightarrow> (map_res (\<lambda>_. sub') r, (H', b)))"

section \<open>Tasks\<close>

definition NewTask :: "string \<Rightarrow> string \<Rightarrow> StepOption list \<Rightarrow> nat bgo" where
  "NewTask name handler opts = alloc (applyStepOptions opts (emptyStepDefinition\<lparr>sd_Name := name, sd_Handler := handler,
     sd_Type := StepTypeTask, sd_MaxRetries := defaultMaxRetries\<rparr>))"

definition Step :: "string \<Rightarrow> string \<Rightarrow> StepOption list \<Rightarrow> unit bgo" where
  "Step name handler opts = unlessErr (
     gbind (bself id) (\<lambda>b.
     refuse (map_of (bd_steps b) name \<noteq> None) (Err (''step '' @ goQuote name @ '' already exists'')) (
     gbind (alloc (applyStepOptions opts (emptyStepDefinition\<lparr>sd_Name := name, sd_Type := StepTypeTask,
        sd_Handler := handler, sd_MaxRetries := bd_defaultMaxRetries b, sd_Prev := bd_currentStep b\<rparr>))) (\<lambda>step.
     gseq (putStep name step)
     (gseq (if bd_startStep b = ''''
            then gseq (bmod (setStart name)) (writeAt step (\<lambda>sd. sd\<lparr>sd_Prev := rootStepName\<rparr>)) else gret ())
     (gseq (linkCurrent name) (bmod (setCurrent name))))))))"

definition Then :: "string \<Rightarrow> string \<Rightarrow> StepOption list \<Rightarrow> unit bgo" where
  "Then = Step"

definition OnFailure :: "string \<Rightarrow> string \<Rightarrow> StepOption list \<Rightarrow> unit bgo" where
  "OnFailure name handler opts = unlessErr (
     gbind (bself id) (\<lambda>b.
     refuse (bd_currentStep b = '''') (Err (''OnFailure '' @ goQuote name @ '' called with no step'')) (
     gbind (alloc (applyStepOptions opts (emptyStepDefinition\<lparr>sd_Name := name, sd_Type := StepTypeTask,
        sd_Handler := handler, sd_MaxRetries := bd_defaultMaxRetries b\<rparr>))) (\<lambda>compensation.
     gseq (putStep name compensation)
     (updateStep (bd_currentStep b) (\<lambda>sd. sd\<lparr>sd_OnFailure := name\<rparr>))))))"

text \<open>Methods that only add a step behind the current one.\<close>

definition appendStep :: "string \<Rightarrow> StepDefinition \<Rightarrow> unit bgo" where
  "appendStep name sd =
     gbind (alloc sd) (\<lambda>step. gseq (putStep name step) (gseq (linkCurrent name) (bmod (setCurrent name))))"

definition SavePoint :: "string \<Rightarrow> unit bgo" where
  "SavePoint name = unlessErr (
     gbind (bself id) (\<lambda>b.
     refuse (name = '''') (Err ''SavePoint called with no name'') (
     refuse (bd_nestingLevel b > 1) (Err (''SavePoint '' @ goQuote name @ '' called from within a subflow'')) (
     appendStep name (emptyStepDefinition\<lparr>sd_Name := name, sd_Type := StepTypeSavePoint, sd_Prev := bd_currentStep b\<rparr>)))))"

text \<open>\<open>Delay\<close> is one minute.\<close>

definition WaitHumanConfirm :: "string \<Rightarrow> StepOption list \<Rightarrow> unit bgo" where
  "WaitHumanConfirm name opts = unlessErr (
     gbind (bself id) (\<lambda>b.
     refuse (name = '''') (Err ''WaitHumanConfirm called with no name'') (
     appendStep name (applyStepOptions opts (emptyStepDefinition\<lparr>sd_Name := name, sd_Type := StepTypeHuman,
       sd_MaxRetries := bd_defaultMaxRetries b, sd_Prev := bd_currentStep b, sd_Delay := 60 * 1000000000\<rparr>)))))"

section \<open>Joins\<close>

definition orAll :: "JoinStrategy \<Rightarrow> JoinStrategy" where
  "orAll strategy = (if strategy = JoinStrategyOther '''' then JoinStrategyAll else strategy)"

definition JoinStep :: "string \<Rightarrow> string list \<Rightarrow> JoinStrategy \<Rightarrow> unit bgo" where
  "JoinStep name waitFor strategy = unlessErr (
     gbind (bself id) (\<lambda>b.
     refuse (bd_currentStep b = '''') (Err (''JoinStep '' @ goQuote name @ '' called with no step'')) (
     refuse (name = '''') (Err ''JoinStep called with no name'') (
     appendStep name (emptyStepDefinition\<lparr>sd_Name := name, sd_Type := StepTypeJoin, sd_WaitFor := waitFor,
       sd_JoinStrategy := orAll strategy, sd_Prev := bd_currentStep b\<rparr>)))))"

text \<open>
  The recursive searches of a branch share a \<open>visited\<close> map and enter the successors of a step before the
  remaining steps of their caller: with the successors put in front of the steps still to do, the
  recursion is a loop. \<open>branchOrder\<close> is the order in which existing steps are entered.
\<close>

function branchOrder ::
    "(string \<times> StepDefinition) list \<Rightarrow> (StepDefinition \<Rightarrow> string list) \<Rightarrow> string list \<Rightarrow> string list \<Rightarrow>
     (string \<times> StepDefinition) list" where
  "branchOrder steps succs [] visited = []"
| "branchOrder steps succs (n # todo) visited =
     (if n = '''' \<or> n \<in> set visited then branchOrder steps succs todo visited
      else case map_of steps n of
        None \<Rightarrow> branchOrder steps succs todo (n # visited)
      | Some sd \<Rightarrow> (n, sd) # branchOrder steps succs (succs sd @ todo) (n # visited))"
  by pat_completeness auto
termination
proof (relation "inv_image (finite_psubset <*lex*> less_than)
    (\<lambda>(steps, succs, todo, visited). (set (map fst steps) - set visited, length todo))", goal_cases)
  case 1
  then show ?case by (auto intro: wf_lex_prod)
next
  case (2 steps succs n todo visited)
  then show ?case by simp
next
  case (3 steps succs n todo visited)
  have "n \<notin> set (map fst steps)" using 3(2) by (auto simp: map_of_eq_None_iff)
  then have "set (map fst steps) - set (n # visited) = set (map fst steps) - set visited" by auto
  then show ?case by simp
next
  case (4 steps succs n todo visited sd)
  have "n \<in> set (map fst steps)" using 4(2) by (auto dest!: map_of_SomeD intro: rev_image_eqI)
  then have "set (map fst steps) - set (n # visited) \<subset> set (map fst steps) - set visited" using 4(1) by auto
  then show ?case by (simp add: finite_psubset_def)
qed

definition elseOf :: "StepDefinition \<Rightarrow> string list" where
  "elseOf sd = (if sd_Else sd \<noteq> '''' then [sd_Else sd] else [])"

text \<open>\<open>traverseBranchForCondition\<close>: the first condition entered.\<close>

definition findFirstConditionInBranch :: "(string \<times> StepDefinition) list \<Rightarrow> string \<Rightarrow> string" where
  "findFirstConditionInBranch steps startStepName =
     (case find (\<lambda>(n, sd). sd_Type sd = StepTypeCondition)
             (branchOrder steps (\<lambda>sd. sd_Next sd @ elseOf sd) [startStepName] []) of
        None \<Rightarrow> '''' | Some (n, sd) \<Rightarrow> n)"

text \<open>\<open>traverseBranchForTerminal\<close>: the steps entered that have no \<open>Next\<close>; such a step is left at once.\<close>

definition traverseBranchForTerminal :: "(string \<times> StepDefinition) list \<Rightarrow> string \<Rightarrow> string list" where
  "traverseBranchForTerminal steps startStepName =
     map fst (filter (\<lambda>(n, sd). sd_Next sd = [])
       (branchOrder steps (\<lambda>sd. if sd_Next sd = [] then [] else sd_Next sd @ elseOf sd) [startStepName] []))"

definition findTerminalStepInBranch :: "(string \<times> StepDefinition) list \<Rightarrow> string \<Rightarrow> string" where
  "findTerminalStepInBranch steps startStepName =
     (case traverseBranchForTerminal steps startStepName of [] \<Rightarrow> startStepName | t # _ \<Rightarrow> t)"

definition waitForBranch :: "(string \<times> StepDefinition) list \<Rightarrow> string \<Rightarrow> string" where
  "waitForBranch steps branchStartStep =
     (let conditionStepName = findFirstConditionInBranch steps branchStartStep;
          terminalStep = findTerminalStepInBranch steps branchStartStep
      in if conditionStepName \<noteq> '''' then ''cond#'' @ conditionStepName
         else if terminalStep \<noteq> '''' then terminalStep else branchStartStep)"

definition Join :: "string \<Rightarrow> JoinStrategy \<Rightarrow> unit bgo" where
  "Join name strategy = unlessErr (
     gbind (gread id) (\<lambda>(H, b).
     refuse (bd_currentStep b = '''') (Err (''Join '' @ goQuote name @ '' called with no step'')) (
     refuse (name = '''') (Err ''Join called with no name'') (
     case map_of (snapshot H (bd_steps b)) (bd_currentStep b) of
       None \<Rightarrow> bmod (setErr (Err (''previous step '' @ goQuote (bd_currentStep b) @ '' not found'')))
     | Some prevStep \<Rightarrow>
         appendStep name (emptyStepDefinition\<lparr>sd_Name := name, sd_Type := StepTypeJoin,
           sd_WaitFor := (if isForkType (sd_Type prevStep)
              then map (waitForBranch (snapshot H (bd_steps b))) (sd_Parallel prevStep)
              else [bd_currentStep b]),
           sd_JoinStrategy := orAll strategy, sd_Prev := bd_currentStep b\<rparr>)))))"

section \<open>Parallel tasks, forks, conditions\<close>

text \<open>\<open>builder.err = e; return builder\<close> inside a loop.\<close>

definition bstop :: "error \<Rightarrow> bool bgo" where
  "bstop e = gseq (bmod (setErr e)) (gret False)"

definition parallelTask :: "string \<Rightarrow> nat \<Rightarrow> nat \<times> nat \<Rightarrow> bool bgo" where
  "parallelTask name parallelStep = (\<lambda>(i, task).
     gbind (gread id) (\<lambda>(H, b).
     let taskName = sd_Name (H ! task); place = ''tasks['' @ itoa (int i) @ ''] in parallel '' @ goQuote name in
     if taskName = '''' then bstop (Err (place @ '' missing step name''))
     else if sd_Handler (H ! task) = '''' then bstop (Err (place @ '' missing step handler''))
     else if map_of (bd_steps b) taskName \<noteq> None
     then bstop (Err (''duplicate step '' @ goQuote taskName @ '' in parallel '' @ goQuote name))
     else gseq (writeAt task (\<lambda>sd. sd\<lparr>sd_Prev := name\<rparr>))
       (gseq (putStep taskName task)
       (gseq (writeAt parallelStep (\<lambda>sd. sd\<lparr>sd_Parallel := sd_Parallel sd @ [taskName]\<rparr>)) (gret True)))))"

text \<open>\<open>Parallel\<close> neither sets the start step nor becomes the current step.\<close>

definition Parallel :: "string \<Rightarrow> nat list \<Rightarrow> unit bgo" where
  "Parallel name tasks = unlessErr (
     gbind (bself id) (\<lambda>b.
     gbind (alloc (emptyStepDefinition\<lparr>sd_Name := name, sd_Type := StepTypeParallel, sd_Prev := bd_currentStep b\<rparr>))
       (\<lambda>parallelStep.
     refuse (map_of (bd_steps b) name \<noteq> None) (Err (''duplicate parallel step '' @ goQuote name)) (
     gseq (putStep name parallelStep)
     (gseq (linkCurrent name)
     (gbind (gevery (parallelTask name parallelStep) (enumerate 0 tasks)) (\<lambda>ok.
      if \<not> ok then gret ()
      else gseq (writeAt parallelStep (\<lambda>sd. sd\<lparr>sd_Next := sd_Next sd @ [name @ ''_join'']\<rparr>))
        (gbind (gread (\<lambda>(H, b'). sd_Parallel (H ! parallelStep))) (\<lambda>waitFor.
         JoinStep (name @ ''_join'') waitFor JoinStrategyAll)))))))))"

definition mergeStep :: "string \<Rightarrow> string \<Rightarrow> string \<times> nat \<Rightarrow> bool bgo" where
  "mergeStep name subStart = (\<lambda>(stepName, stepDef).
     gbind (bself (\<lambda>b. map_of (bd_steps b) stepName)) (\<lambda>old.
     if old \<noteq> None then bstop (Err (''duplicate step '' @ goQuote stepName @ '' in fork flow '' @ goQuote name))
     else gseq (if stepName = subStart then writeAt stepDef (\<lambda>sd. sd\<lparr>sd_Prev := name\<rparr>) else gret ())
       (gseq (putStep stepName stepDef) (gret True))))"

definition buildForkBranch :: "string \<Rightarrow> nat \<Rightarrow> nat \<times> unit bgo \<Rightarrow> bool bgo" where
  "buildForkBranch name forkStep = (\<lambda>(i, branchFn).
     gbind (bself (\<lambda>b. subBuilder b (bd_name b @ ''_branch_'' @ itoa (int i + 1)) (bd_nestingLevel b + 1))) (\<lambda>sub0.
     gbind (inSub sub0 branchFn) (\<lambda>sub.
     if bd_startStep sub = ''''
     then bstop (Err (''Fork '' @ goQuote name @ '': branch '' @ itoa (int i + 1) @ '' has no steps''))
     else gbind (gread (\<lambda>(H, b). Build H sub)) (\<lambda>r.
       case r of
         Inl err \<Rightarrow> bstop (Err (''invalid branch '' @ itoa (int i + 1) @ '' for Fork '' @ goQuote name @ '': '' @ errStr err))
       | Inr _ \<Rightarrow>
           gseq (bmod (addSub sub))
           (gbind (gevery (mergeStep name (bd_startStep sub)) (bd_steps sub)) (\<lambda>ok.
            if \<not> ok then gret False
            else gseq (writeAt forkStep (\<lambda>sd. sd\<lparr>sd_Parallel := sd_Parallel sd @ [bd_startStep sub]\<rparr>)) (gret True)))))))"

definition Fork :: "string \<Rightarrow> unit bgo list \<Rightarrow> unit bgo" where
  "Fork name branches = unlessErr (
     gbind (bself id) (\<lambda>b.
     refuse (length branches < 2) (Err (''ForkFlow '' @ goQuote name @ '' called with count of branches < 2'')) (
     gbind (alloc (emptyStepDefinition\<lparr>sd_Name := name, sd_Type := StepTypeFork, sd_Prev := bd_currentStep b\<rparr>)) (\<lambda>forkStep.
     gseq (putStep name forkStep)
     (gseq (if bd_startStep b = ''''
            then gseq (bmod (setStart name)) (writeAt forkStep (\<lambda>sd. sd\<lparr>sd_Prev := rootStepName\<rparr>)) else gret ())
     (gseq (linkCurrent name)
     (gbind (gevery (buildForkBranch name forkStep) (enumerate 0 branches)) (\<lambda>ok.
      if ok then bmod (setCurrent name) else gret ()))))))))"

definition ForkJoin :: "string \<Rightarrow> unit bgo list \<Rightarrow> string \<Rightarrow> JoinStrategy \<Rightarrow> unit bgo" where
  "ForkJoin forkName branches joinName joinStrategy =
     unlessErr (gseq (Fork forkName branches) (Join joinName joinStrategy))"

text \<open>The else branch of a condition: its steps replace steps of the same name.\<close>

definition adoptStep :: "string \<times> nat \<Rightarrow> unit bgo" where
  "adoptStep = (\<lambda>(_, subStep). gbind (gread (\<lambda>(H, b). sd_Name (H ! subStep))) (\<lambda>n. putStep n subStep))"

definition elseBranch :: "string \<Rightarrow> nat \<Rightarrow> unit bgo \<Rightarrow> bool bgo" where
  "elseBranch name step branchFn =
     gbind (bself (\<lambda>b. subBuilder b (bd_name b @ ''_branch_else'') (bd_nestingLevel b))) (\<lambda>sub0.
     gbind (inSub sub0 branchFn) (\<lambda>sub.
     if bd_startStep sub = '''' then bstop (Err (''Condition '' @ goQuote name @ '': else branch has no steps''))
     else gbind (gread (\<lambda>(H, b). Build H sub)) (\<lambda>r.
       case r of
         Inl err \<Rightarrow> bstop (Wrap (''invalid else branch for Condition '' @ goQuote name @ '': '') err)
       | Inr _ \<Rightarrow>
           gseq (writeAt step (\<lambda>sd. sd\<lparr>sd_Else := bd_startStep sub\<rparr>))
           (case map_of (bd_steps sub) (bd_startStep sub) of
              None \<Rightarrow> gpanic ''nil pointer dereference''
            | Some a \<Rightarrow>
                gseq (putStep (bd_startStep sub) a)
                (gseq (writeAt a (\<lambda>sd. sd\<lparr>sd_Prev := name\<rparr>))
                (gseq (gforeach adoptStep (bd_steps sub))
                (gseq (bmod (addSub sub)) (gret True))))))))"

definition Condition :: "string \<Rightarrow> string \<Rightarrow> unit bgo option \<Rightarrow> unit bgo" where
  "Condition name expr elseFn = unlessErr (
     gbind (bself id) (\<lambda>b.
     refuse (name = '''') (Err ''Condition called with no name'') (
     refuse (expr = '''') (Err ''Condition called with no expression'') (
     refuse (bd_currentStep b = '''') (Err (''Condition '' @ goQuote name @ '' called with no step'')) (
     gbind (alloc (emptyStepDefinition\<lparr>sd_Name := name, sd_Condition := expr, sd_Type := StepTypeCondition,
        sd_Prev := bd_currentStep b\<rparr>)) (\<lambda>step.
     gseq (putStep name step)
     (gbind (case elseFn of None \<Rightarrow> gret True | Some branchFn \<Rightarrow> elseBranch name step branchFn) (\<lambda>ok.
      if \<not> ok then gret () else gseq (linkCurrent name) (bmod (setCurrent name))))))))))"

section \<open>Client programs\<close>

datatype bcall =
    CStep string string "StepOption list" | COnFailure string string "StepOption list"
  | CParallel string "(string \<times> string \<times> StepOption list) list" | CFork string "bcall list list"
  | CJoinStep string "string list" JoinStrategy | CJoin string JoinStrategy
  | CForkJoin string "bcall list list" string JoinStrategy
  | CSavePoint string | CCondition string string "bcall list option"
  | CWaitHumanConfirm string "StepOption list"

definition gseqs :: "('s, unit) go list \<Rightarrow> ('s, unit) go" where
  "gseqs ms = foldr gseq ms (gret ())"

text \<open>The tasks of \<open>Parallel\<close> are made with \<open>NewTask\<close>.\<close>

definition newTasks :: "(string \<times> string \<times> StepOption list) list \<Rightarrow> nat list bgo" where
  "newTasks ts = gfold (\<lambda>(n, h, opts) as. gbind (NewTask n h opts) (\<lambda>a. gret (as @ [a]))) ts []"

primrec runCall :: "bcall \<Rightarrow> unit bgo" where
  "runCall (CStep n h opts) = Step n h opts"
| "runCall (COnFailure n h opts) = OnFailure n h opts"
| "runCall (CParallel n ts) = gbind (newTasks ts) (Parallel n)"
| "runCall (CFork n bs) = Fork n (map gseqs (map (map runCall) bs))"
| "runCall (CJoinStep n ws st) = JoinStep n ws st"
| "runCall (CJoin n st) = Join n st"
| "runCall (CForkJoin n bs j st) = ForkJoin n (map gseqs (map (map runCall) bs)) j st"
| "runCall (CSavePoint n) = SavePoint n"
| "runCall (CCondition n expr e) = Condition n expr (map_option gseqs (map_option (map runCall) e))"
| "runCall (CWaitHumanConfirm n opts) = WaitHumanConfirm n opts"

definition runCalls :: "bcall list \<Rightarrow> unit bgo" where
  "runCalls cs = gseqs (map runCall cs)"

text \<open>\<open>NewBuilder (...)....Build ()\<close>\<close>

definition buildProgram :: "string \<Rightarrow> int \<Rightarrow> BuilderOption list \<Rightarrow> bcall list \<Rightarrow> (error + WorkflowDefinition) res" where
  "buildProgram name version opts cs =
     (case runCalls cs ([], NewBuilder name version opts) of
        (Ok _, (H, b)) \<Rightarrow> Ok (Build H b) | (Fail e, _) \<Rightarrow> Fail e | (Panic p, _) \<Rightarrow> Panic p
      | (Deadlock, _) \<Rightarrow> Deadlock | (OutOfFuel, _) \<Rightarrow> OutOfFuel)"

end
