(* ===== verification/Builder_Laws.thy ===== *)
theory Builder_Laws
  imports Builder
begin

text \<open>
  The invariant of a builder and its preservation by every client program: the map of steps is keyed by
  the steps' names, every pointer in it is valid, and the start and the current step are steps. It makes
  the pointer dereferences safe: no client program panics. The statements are Hoare triples \<open>bspec\<close>
  over states that satisfy the invariant; every operation extends the state (\<open>grows\<close>), which keeps
  what is known of pointers and steps.
\<close>

section \<open>Invariant\<close>

lemma builder_sel [simp]:
  "bd_name (setSteps f b) = bd_name b" "bd_name (setStart x b) = bd_name b" "bd_name (setCurrent x b) = bd_name b"
  "bd_name (addSub s b) = bd_name b" "bd_name (setErr e b) = bd_name b"
  "bd_version (setSteps f b) = bd_version b" "bd_version (setStart x b) = bd_version b"
  "bd_version (setCurrent x b) = bd_version b" "bd_version (addSub s b) = bd_version b" "bd_version (setErr e b) = bd_version b"
  "bd_steps (setSteps f b) = f (bd_steps b)" "bd_steps (setStart x b) = bd_steps b" "bd_steps (setCurrent x b) = bd_steps b"
  "bd_steps (addSub s b) = bd_steps b" "bd_steps (setErr e b) = bd_steps b"
  "bd_startStep (setSteps f b) = bd_startStep b" "bd_startStep (setStart x b) = x"
  "bd_startStep (setCurrent x b) = bd_startStep b" "bd_startStep (addSub s b) = bd_startStep b"
  "bd_startStep (setErr e b) = bd_startStep b"
  "bd_currentStep (setSteps f b) = bd_currentStep b" "bd_currentStep (setStart x b) = bd_currentStep b"
  "bd_currentStep (setCurrent x b) = x" "bd_currentStep (addSub s b) = bd_currentStep b"
  "bd_currentStep (setErr e b) = bd_currentStep b"
  "bd_err (setSteps f b) = bd_err b" "bd_err (setStart x b) = bd_err b" "bd_err (setCurrent x b) = bd_err b"
  "bd_err (addSub s b) = bd_err b" "bd_err (setErr e b) = Some e"
  "bd_subBuilders (setSteps f b) = bd_subBuilders b" "bd_subBuilders (setStart x b) = bd_subBuilders b"
  "bd_subBuilders (setCurrent x b) = bd_subBuilders b" "bd_subBuilders (setErr e b) = bd_subBuilders b"
  "bd_defaultMaxRetries (setSteps f b) = bd_defaultMaxRetries b" "bd_defaultMaxRetries (setStart x b) = bd_defaultMaxRetries b"
  "bd_defaultMaxRetries (setCurrent x b) = bd_defaultMaxRetries b"
  "bd_dlqEnabled (setSteps f b) = bd_dlqEnabled b" "bd_dlqEnabled (setStart x b) = bd_dlqEnabled b"
  "bd_dlqEnabled (setCurrent x b) = bd_dlqEnabled b"
  by (cases b; simp)+

definition isPtr :: "nat \<Rightarrow> string \<Rightarrow> bstate \<Rightarrow> bool" where
  "isPtr a n st \<longleftrightarrow> a < length (fst st) \<and> sd_Name (fst st ! a) = n"

definition isStep :: "string \<Rightarrow> bstate \<Rightarrow> bool" where
  "isStep n st \<longleftrightarrow> map_of (bd_steps (snd st)) n \<noteq> None"

definition builderOK :: "bstate \<Rightarrow> bool" where
  "builderOK st \<longleftrightarrow> distinct (map fst (bd_steps (snd st))) \<and>
     (\<forall>n a. map_of (bd_steps (snd st)) n = Some a \<longrightarrow> isPtr a n st) \<and>
     (bd_startStep (snd st) \<noteq> '''' \<longrightarrow> isStep (bd_startStep (snd st)) st) \<and>
     (bd_currentStep (snd st) \<noteq> '''' \<longrightarrow> isStep (bd_currentStep (snd st)) st)"

text \<open>What an operation may do to the state.\<close>

definition grows :: "bstate \<Rightarrow> bstate \<Rightarrow> bool" where
  "grows st st' \<longleftrightarrow> (\<forall>a n. isPtr a n st \<longrightarrow> isPtr a n st') \<and> (\<forall>n. isStep n st \<longrightarrow> isStep n st') \<and>
     bd_name (snd st') = bd_name (snd st) \<and> bd_version (snd st') = bd_version (snd st)"

definition stable :: "(bstate \<Rightarrow> bool) \<Rightarrow> bool" where
  "stable P \<longleftrightarrow> (\<forall>st st'. grows st st' \<longrightarrow> P st \<longrightarrow> P st')"

lemma grows_refl: "grows st st"
  by (simp add: grows_def)

lemma grows_trans: "grows a b \<Longrightarrow> grows b c \<Longrightarrow> grows a c"
  by (auto simp: grows_def)

lemma stable_facts [simp]:
  "stable (\<lambda>_. c)" "stable (isPtr a n)" "stable (isStep n)"
  by (auto simp: stable_def grows_def)

lemma stable_logic [simp, intro]:
  "stable P \<Longrightarrow> stable Q \<Longrightarrow> stable (\<lambda>st. P st \<and> Q st)" "stable Q \<Longrightarrow> stable (\<lambda>st. c \<longrightarrow> Q st)"
  "(\<And>x. stable (R x)) \<Longrightarrow> stable (\<lambda>st. \<forall>x \<in> S. R x st)"
  by (auto simp: stable_def)

section \<open>Triples\<close>

definition bspec :: "(bstate \<Rightarrow> bool) \<Rightarrow> 'a bgo \<Rightarrow> ('a \<Rightarrow> bstate \<Rightarrow> bool) \<Rightarrow> bool" where
  "bspec P m Q \<longleftrightarrow> (\<forall>st. builderOK st \<longrightarrow> P st \<longrightarrow>
     (\<exists>x st'. m st = (Ok x, st') \<and> builderOK st' \<and> grows st st' \<and> Q x st'))"

abbreviation bsafe :: "(bstate \<Rightarrow> bool) \<Rightarrow> 'a bgo \<Rightarrow> bool" where
  "bsafe P m \<equiv> bspec P m (\<lambda>_ _. True)"

lemma bspecI:
  "(\<And>st. builderOK st \<Longrightarrow> P st \<Longrightarrow> \<exists>x st'. m st = (Ok x, st') \<and> builderOK st' \<and> grows st st' \<and> Q x st') \<Longrightarrow> bspec P m Q"
  by (simp add: bspec_def)

lemma bspecE:
  assumes "bspec P m Q" "builderOK st" "P st"
  obtains x st' where "m st = (Ok x, st')" "builderOK st'" "grows st st'" "Q x st'"
  using assms unfolding bspec_def by blast

lemma bspecD: "bspec P m Q \<Longrightarrow> builderOK st \<Longrightarrow> P st \<Longrightarrow> \<exists>x st'. m st = (Ok x, st') \<and> builderOK st' \<and> grows st st' \<and> Q x st'"
  unfolding bspec_def by blast

lemma bspec_conseq:
  "bspec P m Q \<Longrightarrow> (\<And>st. builderOK st \<Longrightarrow> P' st \<Longrightarrow> P st) \<Longrightarrow> (\<And>x st. Q x st \<Longrightarrow> Q' x st) \<Longrightarrow> bspec P' m Q'"
  unfolding bspec_def by meson

lemma bspec_bind:
  assumes m: "bspec P m Q" and s: "stable P" and k: "\<And>x. bspec (\<lambda>st. P st \<and> Q x st) (k x) R"
  shows "bspec P (gbind m k) R"
proof (rule bspecI)
  fix st assume ok: "builderOK st" "P st"
  obtain x st1 where 1: "m st = (Ok x, st1)" "builderOK st1" "grows st st1" "Q x st1" by (rule bspecE [OF m ok])
  have "P st1" using s 1(3) ok(2) unfolding stable_def by blast
  with 1 obtain y st2 where 2: "k x st1 = (Ok y, st2)" "builderOK st2" "grows st1 st2" "R y st2"
    using bspecE [OF k [of x] 1(2)] by blast
  with 1 show "\<exists>y st2. gbind m k st = (Ok y, st2) \<and> builderOK st2 \<and> grows st st2 \<and> R y st2"
    by (auto intro: grows_trans)
qed

lemma bspec_seq: "bspec P m (\<lambda>_. Q) \<Longrightarrow> stable P \<Longrightarrow> bspec (\<lambda>st. P st \<and> Q st) k R \<Longrightarrow> bspec P (gseq m k) R"
  unfolding gseq_def by (rule bspec_bind)

lemma bspec_ret: "(\<And>st. P st \<Longrightarrow> Q x st) \<Longrightarrow> bspec P (gret x) Q"
  by (auto simp: bspec_def gret_def grows_refl)

lemma bspec_if: "(c \<Longrightarrow> bspec P m Q) \<Longrightarrow> (\<not> c \<Longrightarrow> bspec P k Q) \<Longrightarrow> bspec P (if c then m else k) Q"
  by simp

text \<open>Reading the state: what is read is stable knowledge only as far as the continuation needs it.\<close>

lemma bspec_read:
  assumes "\<And>st. builderOK st \<Longrightarrow> P st \<Longrightarrow> Q (f st) st"
  shows "bspec P (gread f) Q"
  using assms by (auto simp: bspec_def gread_def grows_refl)

lemma bspec_every:
  assumes "stable P" "\<And>x. x \<in> set xs \<Longrightarrow> bsafe P (f x)"
  shows "bsafe P (gevery f xs)"
  using assms(2)
proof (induction xs)
  case Nil
  show ?case by (simp only: gevery.simps) (rule bspec_ret, rule TrueI)
next
  case (Cons x xs)
  then show ?case
    by (auto intro!: bspec_bind [OF _ assms(1)] bspec_if bspec_ret intro: bspec_conseq)
qed

lemma bspec_foreach:
  assumes "stable P" "\<And>x. x \<in> set xs \<Longrightarrow> bsafe P (f x)"
  shows "bsafe P (gforeach f xs)"
  using assms(2)
proof (induction xs)
  case Nil
  show ?case by (simp only: gforeach.simps) (rule bspec_ret, rule TrueI)
next
  case (Cons x xs)
  then show ?case by (auto intro!: bspec_seq [OF _ assms(1)] intro: bspec_conseq)
qed

section \<open>Primitives\<close>

lemma grows_heap:
  assumes "length H \<le> length H'" "\<And>a. a < length H \<Longrightarrow> sd_Name (H' ! a) = sd_Name (H ! a)"
  shows "grows (H, b) (H', b)"
  using assms by (auto simp: grows_def isPtr_def isStep_def)

lemma builderOK_heap: "builderOK (H, b) \<Longrightarrow> grows (H, b) (H', b) \<Longrightarrow> builderOK (H', b)"
  by (auto simp: builderOK_def grows_def isStep_def)

lemma bspec_alloc: "bspec P (alloc sd) (\<lambda>a. isPtr a (sd_Name sd))"
proof (rule bspecI)
  fix st assume ok: "builderOK st"
  obtain H b where st: "st = (H, b)" by (cases st)
  have "grows (H, b) (H @ [sd], b)" by (rule grows_heap) (simp_all add: nth_append)
  with builderOK_heap ok st show "\<exists>x st'. alloc sd st = (Ok x, st') \<and> builderOK st' \<and> grows st st' \<and> isPtr x (sd_Name sd) st'"
    by (simp add: alloc_def isPtr_def)
qed

lemma bspec_writeAt: "(\<And>sd. sd_Name (f sd) = sd_Name sd) \<Longrightarrow> bsafe P (writeAt a f)"
proof (rule bspecI)
  fix st assume f: "\<And>sd. sd_Name (f sd) = sd_Name sd" and ok: "builderOK st"
  obtain H b where st: "st = (H, b)" by (cases st)
  have "grows (H, b) (H[a := f (H ! a)], b)" 
    by (rule grows_heap) (simp, metis f nth_list_update_eq nth_list_update_neq)
  with builderOK_heap ok st show "\<exists>x st'. writeAt a f st = (Ok x, st') \<and> builderOK st' \<and> grows st st' \<and> True"
    by (simp add: writeAt_def)
qed

lemma bspec_putStep: "bspec (isPtr a n) (putStep n a) (\<lambda>_. isStep n)"
proof (rule bspecI)
  fix st assume ok: "builderOK st" and p: "isPtr a n st"
  obtain H b where st: "st = (H, b)" by (cases st)
  show "\<exists>x st'. putStep n a st = (Ok x, st') \<and> builderOK st' \<and> grows st st' \<and> isStep n st'"
    using ok p unfolding st by (auto simp: putStep_def bmod_def builderOK_def grows_def isStep_def isPtr_def split: if_splits)
qed

lemma bspec_field:
  assumes "\<And>b. bd_steps (f b) = bd_steps b" "\<And>b. bd_name (f b) = bd_name b" "\<And>b. bd_version (f b) = bd_version b"
    and "\<And>H b. P (H, b) \<Longrightarrow> bd_startStep (f b) = bd_startStep b \<or> isStep (bd_startStep (f b)) (H, b)"
    and "\<And>H b. P (H, b) \<Longrightarrow> bd_currentStep (f b) = bd_currentStep b \<or> isStep (bd_currentStep (f b)) (H, b)"
  shows "bsafe P (bmod f)"
proof (rule bspecI)
  fix st assume ok: "builderOK st" "P st"
  obtain H b where st: "st = (H, b)" by (cases st)
  have s: "isStep n (H, f b) = isStep n (H, b)" "isPtr a n (H, f b) = isPtr a n (H, b)" for n a
    by (simp_all add: isStep_def isPtr_def assms)
  have "builderOK (H, f b)"
    using ok assms(4,5) [of H b] unfolding st builderOK_def s by (simp only: snd_conv assms(1)) metis
  moreover have "grows (H, b) (H, f b)" by (simp add: grows_def s assms)
  ultimately show "\<exists>x st'. bmod f st = (Ok x, st') \<and> builderOK st' \<and> grows st st' \<and> True"
    by (simp add: st bmod_def)
qed

lemma bspec_bmod:
  "bsafe P (bmod (setErr e))" "bsafe P (bmod (addSub sub))"
  "bsafe (isStep n) (bmod (setStart n))" "bsafe (isStep n) (bmod (setCurrent n))"
  by (rule bspec_field; simp)+

lemma bspec_updateStep: "(\<And>sd. sd_Name (f sd) = sd_Name sd) \<Longrightarrow> bsafe (isStep n) (updateStep n f)"
proof (rule bspecI)
  fix st assume f: "\<And>sd. sd_Name (f sd) = sd_Name sd" and ok: "builderOK st" "isStep n st"
  obtain a where "map_of (bd_steps (snd st)) n = Some a" using ok(2) by (auto simp: isStep_def)
  then have "updateStep n f st = writeAt a f st" by (cases st) (simp add: updateStep_def bself_def)
  then show "\<exists>x st'. updateStep n f st = (Ok x, st') \<and> builderOK st' \<and> grows st st' \<and> True"
    using bspecD [OF bspec_writeAt [OF f] ok(1), of "\<lambda>_. True" a] by simp
qed

text \<open>What a method knows of the builder it has read.\<close>

definition known :: "Builder \<Rightarrow> bstate \<Rightarrow> bool" where
  "known b st \<longleftrightarrow> (bd_currentStep b \<noteq> '''' \<longrightarrow> isStep (bd_currentStep b) st)"

lemma stable_known [simp]: "stable (known b)"
  by (auto simp: known_def stable_def grows_def)

lemma bspec_self: "bspec P (bself id) known"
  by (auto intro!: bspecI simp: bself_def known_def builderOK_def grows_refl)

lemma bspec_linkCurrent: "bsafe P (linkCurrent n)"
proof -
  have "bspec P (bself bd_currentStep) (\<lambda>c st. c \<noteq> '''' \<longrightarrow> isStep c st)"
    by (auto intro!: bspecI simp: bself_def builderOK_def grows_refl)
  then have "bsafe (\<lambda>_. True) (linkCurrent n)"
    unfolding linkCurrent_def
    by (auto intro!: bspec_bind [where Q = "\<lambda>c st. c \<noteq> '''' \<longrightarrow> isStep c st"] bspec_if bspec_ret
        bspec_conseq [OF bspec_updateStep] intro: bspecI simp: bself_def builderOK_def grows_refl)
  then show ?thesis by (rule bspec_conseq) simp_all
qed

lemma bspec_unlessErr: "bsafe P m \<Longrightarrow> bsafe P (unlessErr m)"
proof (rule bspecI)
  fix st assume m: "bsafe P m" and ok: "builderOK st" "P st"
  show "\<exists>x st'. unlessErr m st = (Ok x, st') \<and> builderOK st' \<and> grows st st' \<and> True"
  proof (cases "bd_err (snd st)")
    case None
    then show ?thesis using bspecD [OF m ok] by (cases st) (simp add: unlessErr_def bself_def)
  next
    case (Some e)
    then show ?thesis using ok grows_refl by (cases st) (simp add: unlessErr_def bself_def)
  qed
qed

lemma bspec_refuse: "(\<not> c \<Longrightarrow> bsafe P m) \<Longrightarrow> bsafe P (refuse c e m)"
  by (simp add: refuse_def bspec_bmod)

lemma bspec_bstop: "bsafe P (bstop e)"
  unfolding bstop_def
  by (rule bspec_conseq [where P = "\<lambda>_. True"], rule bspec_seq [OF bspec_bmod(1)]) (auto intro: bspec_ret)

section \<open>Rules for the methods\<close>

named_theorems bsteps

lemma seq_safe [bsteps]: "bsafe P m \<Longrightarrow> stable P \<Longrightarrow> bspec P k R \<Longrightarrow> bspec P (gseq m k) R"
  by (rule bspec_seq) (auto intro: bspec_conseq)

lemma seq_put [bsteps]:
  "(\<And>st. P st \<Longrightarrow> isPtr a n st) \<Longrightarrow> stable P \<Longrightarrow> bspec (\<lambda>st. P st \<and> isStep n st) k R \<Longrightarrow> bspec P (gseq (putStep n a) k) R"
  by (rule bspec_seq [OF bspec_conseq [OF bspec_putStep]]) auto

lemma put_safe [bsteps]: "(\<And>st. P st \<Longrightarrow> isPtr a n st) \<Longrightarrow> bsafe P (putStep n a)"
  by (rule bspec_conseq [OF bspec_putStep]) auto

lemma bind_alloc [bsteps]:
  "stable P \<Longrightarrow> (\<And>a. bspec (\<lambda>st. P st \<and> isPtr a (sd_Name sd) st) (k a) R) \<Longrightarrow> bspec P (gbind (alloc sd) k) R"
  by (rule bspec_bind [OF bspec_alloc])

lemma bind_self [bsteps]:
  "stable P \<Longrightarrow> (\<And>b. bspec (\<lambda>st. P st \<and> known b st) (k b) R) \<Longrightarrow> bspec P (gbind (bself id) k) R"
  by (rule bspec_bind [OF bspec_self])

text \<open>Values that are only compared need no knowledge.\<close>

lemma bind_read [bsteps]: "stable P \<Longrightarrow> (\<And>x. bspec P (k x) R) \<Longrightarrow> bspec P (gbind (gread f) k) R"
  by (rule bspec_bind [OF bspec_read [where Q = "\<lambda>_ _. True"]]) (auto intro: bspec_conseq)

lemma bind_bself [bsteps]: "stable P \<Longrightarrow> (\<And>x. bspec P (k x) R) \<Longrightarrow> bspec P (gbind (bself f) k) R"
  unfolding bself_def by (rule bind_read)

lemma bind_safe: "bsafe P m \<Longrightarrow> stable P \<Longrightarrow> (\<And>x. bspec P (k x) R) \<Longrightarrow> bspec P (gbind m k) R"
  by (rule bspec_bind) (auto intro: bspec_conseq)

lemma mod_safe [bsteps]:
  "bsafe P (bmod (setErr e))" "bsafe P (bmod (addSub sub))"
  "(\<And>st. P st \<Longrightarrow> isStep n st) \<Longrightarrow> bsafe P (bmod (setStart n))"
  "(\<And>st. P st \<Longrightarrow> isStep n st) \<Longrightarrow> bsafe P (bmod (setCurrent n))"
  by (rule bspec_bmod bspec_conseq [OF bspec_bmod(3)] bspec_conseq [OF bspec_bmod(4)]; simp)+

lemma update_safe [bsteps]:
  "(\<And>sd. sd_Name (f sd) = sd_Name sd) \<Longrightarrow> (\<And>st. P st \<Longrightarrow> isStep n st) \<Longrightarrow> bsafe P (updateStep n f)"
  by (rule bspec_conseq [OF bspec_updateStep]) auto

lemma every_bind [bsteps]:
  "stable P \<Longrightarrow> (\<And>x. x \<in> set xs \<Longrightarrow> bsafe P (f x)) \<Longrightarrow> (\<And>ok. bspec P (k ok) R) \<Longrightarrow> bspec P (gbind (gevery f xs) k) R"
  by (rule bind_safe [OF bspec_every])

lemma ret_safe [bsteps]: "bsafe P (gret x)"
  by (rule bspec_ret) simp

lemma let_safe [bsteps]: "bsafe P (f x) \<Longrightarrow> bsafe P (Let x f)"
  by simp

lemmas [bsteps] = bspec_unlessErr bspec_refuse bspec_if bspec_writeAt bspec_linkCurrent bspec_bstop bspec_foreach

lemma applyStepOptions_keeps [simp]:
  "sd_Name (applyStepOptions opts sd) = sd_Name sd" "sd_Type (applyStepOptions opts sd) = sd_Type sd"
  "sd_Handler (applyStepOptions opts sd) = sd_Handler sd" "sd_Next (applyStepOptions opts sd) = sd_Next sd"
  "sd_Prev (applyStepOptions opts sd) = sd_Prev sd" "sd_OnFailure (applyStepOptions opts sd) = sd_OnFailure sd"
  "sd_Else (applyStepOptions opts sd) = sd_Else sd" "sd_Parallel (applyStepOptions opts sd) = sd_Parallel sd"
  "sd_WaitFor (applyStepOptions opts sd) = sd_WaitFor sd"
proof -
  have k: "sd_Name (applyStepOption opt sd) = sd_Name sd" "sd_Type (applyStepOption opt sd) = sd_Type sd"
    "sd_Handler (applyStepOption opt sd) = sd_Handler sd" "sd_Next (applyStepOption opt sd) = sd_Next sd"
    "sd_Prev (applyStepOption opt sd) = sd_Prev sd" "sd_OnFailure (applyStepOption opt sd) = sd_OnFailure sd"
    "sd_Else (applyStepOption opt sd) = sd_Else sd" "sd_Parallel (applyStepOption opt sd) = sd_Parallel sd"
    "sd_WaitFor (applyStepOption opt sd) = sd_WaitFor sd" for opt sd by (cases opt; simp)+
  have c: "applyStepOptions (opt # os) sd = applyStepOptions os (applyStepOption opt sd)" "applyStepOptions [] sd = sd"
    for opt os sd by (simp_all add: applyStepOptions_def)
  show "sd_Name (applyStepOptions opts sd) = sd_Name sd" "sd_Type (applyStepOptions opts sd) = sd_Type sd"
    "sd_Handler (applyStepOptions opts sd) = sd_Handler sd" "sd_Next (applyStepOptions opts sd) = sd_Next sd"
    "sd_Prev (applyStepOptions opts sd) = sd_Prev sd" "sd_OnFailure (applyStepOptions opts sd) = sd_OnFailure sd"
    "sd_Else (applyStepOptions opts sd) = sd_Else sd" "sd_Parallel (applyStepOptions opts sd) = sd_Parallel sd"
    "sd_WaitFor (applyStepOptions opts sd) = sd_WaitFor sd"
    by (induction opts arbitrary: sd; simp add: c k)+
qed

lemma appendStep_safe [bsteps]: "stable P \<Longrightarrow> sd_Name sd = n \<Longrightarrow> bsafe P (appendStep n sd)"
  unfolding appendStep_def by (intro bsteps) simp_all

lemma Step_safe: "bsafe (\<lambda>_. True) (Step n h opts)"
  unfolding Step_def by (intro bsteps) simp_all

lemma OnFailure_safe: "bsafe (\<lambda>_. True) (OnFailure n h opts)"
  unfolding OnFailure_def by (intro bsteps) (simp_all add: known_def)

lemma simple_safe: "bsafe (\<lambda>_. True) (SavePoint n)" "bsafe (\<lambda>_. True) (WaitHumanConfirm n opts)"
  unfolding SavePoint_def WaitHumanConfirm_def by (intro bsteps; simp)+

lemma JoinStep_safe [bsteps]: "stable P \<Longrightarrow> bsafe P (JoinStep n ws s)"
  unfolding JoinStep_def by (intro bsteps) simp_all

lemma prod_safe [bsteps]: "(\<And>x y. bspec P (f x y) R) \<Longrightarrow> bspec P (case_prod f p) R"
  by (cases p) simp

lemma option_safe [bsteps]:
  "(v = None \<Longrightarrow> bspec P m R) \<Longrightarrow> (\<And>x. v = Some x \<Longrightarrow> bspec P (k x) R) \<Longrightarrow> bspec P (case v of None \<Rightarrow> m | Some x \<Rightarrow> k x) R"
  by (cases v) simp_all

lemma sum_safe [bsteps]:
  "(\<And>x. bspec P (f x) R) \<Longrightarrow> (\<And>x. bspec P (g x) R) \<Longrightarrow> bspec P (case v of Inl x \<Rightarrow> f x | Inr x \<Rightarrow> g x) R"
  by (cases v) simp_all

lemma Join_safe [bsteps]: "stable P \<Longrightarrow> bsafe P (Join n s)"
  unfolding Join_def by (intro bsteps) simp_all

section \<open>Parallel tasks\<close>

definition isAddr :: "nat \<Rightarrow> bstate \<Rightarrow> bool" where
  "isAddr a st \<longleftrightarrow> a < length (fst st)"

lemma stable_isAddr [simp]: "stable (isAddr a)"
  by (auto simp: stable_def grows_def isAddr_def isPtr_def)

text \<open>Reading the name through a valid pointer.\<close>

lemma bind_name:
  assumes "stable P" "\<And>st. P st \<Longrightarrow> isAddr a st"
    and "\<And>H b. bspec (\<lambda>st. P st \<and> isPtr a (sd_Name (H ! a)) st) (k (H, b)) R"
  shows "bspec P (gbind (gread id) k) R"
proof (rule bspec_bind [OF bspec_read [where Q = "\<lambda>x st. isPtr a (sd_Name (fst x ! a)) st"] assms(1)])
  show "bspec (\<lambda>st. P st \<and> isPtr a (sd_Name (fst x ! a)) st) (k x) R" for x
    using assms(3) [of "fst x" "snd x"] by simp
qed (use assms(2) in \<open>simp add: isPtr_def isAddr_def\<close>)

lemma parallelTask_safe:
  "stable P \<Longrightarrow> (\<And>st. P st \<Longrightarrow> isAddr task st) \<Longrightarrow> bsafe P (parallelTask n ps (i, task))"
  unfolding parallelTask_def prod.case 
  by (rule bind_name [where a = task], assumption, blast, simp only: prod.case) (intro bsteps; simp)

lemma Parallel_safe: "bsafe (\<lambda>st. \<forall>a \<in> set tasks. isAddr a st) (Parallel n tasks)"
  unfolding Parallel_def
  by (intro bsteps) (auto intro!: parallelTask_safe simp: in_set_enumerate_eq)

lemma newTasks_spec: "bspec (\<lambda>_. True) (newTasks ts) (\<lambda>as st. \<forall>a \<in> set as. isAddr a st)"
proof -
  have "bspec (\<lambda>st. \<forall>a \<in> set as. isAddr a st)
      (gfold (\<lambda>(n, h, opts) as. gbind (NewTask n h opts) (\<lambda>a. gret (as @ [a]))) ts as)
      (\<lambda>as st. \<forall>a \<in> set as. isAddr a st)" for as
  proof (induction ts arbitrary: as)
    case Nil
    show ?case by (simp only: gfold.simps) (rule bspec_ret)
  next
    case (Cons t ts)
    obtain n h opts where t: "t = (n, h, opts)" by (cases t)
    show ?case unfolding gfold.simps t prod.case NewTask_def
    proof (rule bspec_bind [where Q = "\<lambda>as st. \<forall>a \<in> set as. isAddr a st"])
      show "bspec (\<lambda>st. \<forall>a \<in> set as. isAddr a st)
          (gbind (alloc (applyStepOptions opts (emptyStepDefinition\<lparr>sd_Name := n, sd_Handler := h,
             sd_Type := StepTypeTask, sd_MaxRetries := defaultMaxRetries\<rparr>))) (\<lambda>a. gret (as @ [a])))
          (\<lambda>as st. \<forall>a \<in> set as. isAddr a st)"
        by (rule bind_alloc, blast intro: stable_logic(3) stable_isAddr) (auto intro!: bspec_ret simp: isPtr_def isAddr_def)
    qed (blast intro: bspec_conseq [OF Cons.IH [unfolded NewTask_def]] stable_logic(3) stable_isAddr)+
  qed
  from this [of "[]"] show ?thesis by (simp add: newTasks_def)
qed

section \<open>Branches\<close>

definition subKnown :: "Builder \<Rightarrow> bstate \<Rightarrow> bool" where
  "subKnown sub st \<longleftrightarrow> (\<forall>(n, a) \<in> set (bd_steps sub). isPtr a n st)"

definition subOK :: "Builder \<Rightarrow> bool" where
  "subOK sub \<longleftrightarrow> (bd_startStep sub \<noteq> '''' \<longrightarrow> map_of (bd_steps sub) (bd_startStep sub) \<noteq> None)"

lemma stable_subKnown [simp]: "stable (subKnown sub)"
  by (auto simp: subKnown_def stable_def grows_def)

lemma subKnownD: "subKnown sub st \<Longrightarrow> (n, a) \<in> set (bd_steps sub) \<Longrightarrow> isPtr a n st"
  by (auto simp: subKnown_def)

lemma inSub_spec:
  assumes m: "bsafe (\<lambda>_. True) m" and sub: "bd_steps sub = []" "bd_startStep sub = ''''" "bd_currentStep sub = ''''"
  shows "bspec P (inSub sub m) (\<lambda>sub' st. subOK sub' \<and> subKnown sub' st)"
proof (rule bspecI)
  fix st assume ok: "builderOK st"
  obtain H b where st: "st = (H, b)" by (cases st)
  have "builderOK (H, sub)" by (simp add: builderOK_def sub)
  then obtain x H' sub' where r: "m (H, sub) = (Ok x, (H', sub'))" "builderOK (H', sub')" "grows (H, sub) (H', sub')"
    using bspecD [OF m] by fastforce
  have g: "grows (H, b) (H', b)" using r(3) by (simp add: grows_def isPtr_def isStep_def)
  have d: "distinct (map fst (bd_steps sub'))" using r(2) by (simp add: builderOK_def)
  have "isPtr a n (H', b)" if "(n, a) \<in> set (bd_steps sub')" for n a
    using r(2) that [unfolded in_set_map_of [OF d]] unfolding builderOK_def isPtr_def fst_conv snd_conv by blast
  then have "subKnown sub' (H', b)" unfolding subKnown_def by blast
  moreover have "subOK sub'" using r(2) unfolding subOK_def builderOK_def isStep_def snd_conv by blast
  ultimately show "\<exists>x st'. inSub sub m st = (Ok x, st') \<and> builderOK st' \<and> grows st st' \<and> subOK x \<and> subKnown x st'"
    using ok g builderOK_heap r(1) by (auto simp: st inSub_def)
qed

lemma bind_inSub:
  assumes "bsafe (\<lambda>_. True) m" "stable P" "\<And>sub. subOK sub \<Longrightarrow> bsafe (\<lambda>st. P st \<and> subKnown sub st) (k sub)"
  shows "bsafe P (gbind (bself (\<lambda>b. subBuilder b (nm b) (lv b))) (\<lambda>sub0. gbind (inSub sub0 m) k))"
proof (rule bspec_bind [where Q = "\<lambda>sub0 _. bd_steps sub0 = [] \<and> bd_startStep sub0 = '''' \<and> bd_currentStep sub0 = ''''"])
  show "bspec P (bself (\<lambda>b. subBuilder b (nm b) (lv b)))
      (\<lambda>sub0 _. bd_steps sub0 = [] \<and> bd_startStep sub0 = '''' \<and> bd_currentStep sub0 = '''')"
    unfolding bself_def by (rule bspec_read) (simp add: subBuilder_def split: prod.split)
  fix sub0
  show "bsafe (\<lambda>st. P st \<and> bd_steps sub0 = [] \<and> bd_startStep sub0 = '''' \<and> bd_currentStep sub0 = '''') (gbind (inSub sub0 m) k)"
  proof (cases "bd_steps sub0 = [] \<and> bd_startStep sub0 = '''' \<and> bd_currentStep sub0 = ''''")
    case True
    show ?thesis
    proof (rule bspec_bind [OF inSub_spec [OF assms(1)]])
      fix sub
      show "bsafe (\<lambda>st. (P st \<and> bd_steps sub0 = [] \<and> bd_startStep sub0 = '''' \<and> bd_currentStep sub0 = '''') \<and>
          subOK sub \<and> subKnown sub st) (k sub)"
        using bspec_conseq [OF assms(3)] by (cases "subOK sub") (simp_all add: bspec_def)
    qed (use True assms(2) in simp_all)
  qed (auto simp: bspec_def)
qed (use assms(2) in simp)

lemma mergeStep_safe:
  "stable P \<Longrightarrow> (\<And>st. P st \<Longrightarrow> isPtr a n st) \<Longrightarrow> bsafe P (mergeStep name start (n, a))"
  unfolding mergeStep_def prod.case by (intro bsteps; simp)

lemma buildForkBranch_safe:
  "stable P \<Longrightarrow> bsafe (\<lambda>_. True) m \<Longrightarrow> bsafe P (buildForkBranch name fs (i, m))"
  unfolding buildForkBranch_def prod.case
  by (rule bind_inSub, assumption+, intro bsteps)
    (auto intro!: mergeStep_safe intro: subKnownD)

lemma Fork_safe [bsteps]: "stable P \<Longrightarrow> (\<And>m. m \<in> set ms \<Longrightarrow> bsafe (\<lambda>_. True) m) \<Longrightarrow> bsafe P (Fork name ms)"
  unfolding Fork_def
  by (intro bsteps) (auto intro!: buildForkBranch_safe simp: in_set_enumerate_eq)

lemma ForkJoin_safe: "(\<And>m. m \<in> set ms \<Longrightarrow> bsafe (\<lambda>_. True) m) \<Longrightarrow> bsafe (\<lambda>_. True) (ForkJoin name ms j s)"
  unfolding ForkJoin_def by (intro bsteps) simp_all

lemma adoptStep_safe: "stable P \<Longrightarrow> (\<And>st. P st \<Longrightarrow> isPtr a n st) \<Longrightarrow> bsafe P (adoptStep (n, a))"
  unfolding adoptStep_def prod.case
  by (rule bspec_bind [OF bspec_read [where Q = "\<lambda>m. isPtr a m"]])
    (auto intro!: put_safe simp: isPtr_def)

lemma elseBranch_safe: "stable P \<Longrightarrow> bsafe (\<lambda>_. True) m \<Longrightarrow> bsafe P (elseBranch name st m)"
  unfolding elseBranch_def
  by (rule bind_inSub, assumption+, intro bsteps)
    (auto intro!: adoptStep_safe intro: subKnownD map_of_SomeD simp: subOK_def)

lemma Condition_safe:
  "(\<And>m. e = Some m \<Longrightarrow> bsafe (\<lambda>_. True) m) \<Longrightarrow> bsafe (\<lambda>_. True) (Condition name expr e)"
  unfolding Condition_def
  by (intro bsteps bind_safe [where m = "case e of None \<Rightarrow> gret True | Some f \<Rightarrow> k f" for k] elseBranch_safe) simp_all

section \<open>Client programs\<close>

lemma gseqs_safe: "(\<And>m. m \<in> set ms \<Longrightarrow> bsafe (\<lambda>_. True) m) \<Longrightarrow> bsafe (\<lambda>_. True) (gseqs ms)"
proof (induction ms)
  case Nil
  show ?case unfolding gseqs_def by (simp only: foldr.simps id_apply) (rule ret_safe)
next
  case (Cons m ms)
  then have "bsafe (\<lambda>_. True) m" "bsafe (\<lambda>_. True) (gseqs ms)" by simp_all
  then have "bsafe (\<lambda>_. True) (gseq m (gseqs ms))" by (intro seq_safe) simp_all
  then show ?case by (simp add: gseqs_def)
qed

theorem runCall_safe: "bsafe (\<lambda>_. True) (runCall c)"
proof (induction c)
  case (CParallel n ts)
  show ?case unfolding runCall.simps
    by (rule bspec_bind [OF newTasks_spec]) (auto intro: bspec_conseq [OF Parallel_safe])
next
  case (CFork n bs)
  then show ?case unfolding runCall.simps by (intro Fork_safe) (auto intro!: gseqs_safe)
next
  case (CForkJoin n bs j s)
  then show ?case unfolding runCall.simps by (intro ForkJoin_safe) (auto intro!: gseqs_safe)
next
  case (CCondition n expr e)
  then show ?case unfolding runCall.simps by (intro Condition_safe) (auto intro!: gseqs_safe)
qed (simp_all only: runCall.simps Step_safe OnFailure_safe simple_safe, (intro JoinStep_safe Join_safe, simp)+)

lemma runCalls_safe: "bsafe (\<lambda>_. True) (runCalls cs)"
  unfolding runCalls_def by (rule gseqs_safe) (auto intro: runCall_safe)

end
