(* ===== verification/Builder_Props.thy ===== *)
theory Builder_Props
  imports Builder_Laws Engine_State
begin

text \<open>
  What client programs of the builder get: building never panics, and what \<open>Build\<close> returns is accepted by
  the engine; the identifier determines name and version; a chain of steps becomes exactly the chain
  of definitions; and a human step in front is lost.
\<close>

section \<open>Every program\<close>

lemma NewBuilder_fields:
  "bd_name (NewBuilder name version opts) = name \<and> bd_version (NewBuilder name version opts) = version \<and>
   bd_steps (NewBuilder name version opts) = [] \<and> bd_startStep (NewBuilder name version opts) = '''' \<and>
   bd_currentStep (NewBuilder name version opts) = '''' \<and> bd_err (NewBuilder name version opts) = None"
proof -
  have o: "bd_name (applyBuilderOption opt b) = bd_name b" "bd_version (applyBuilderOption opt b) = bd_version b"
    "bd_steps (applyBuilderOption opt b) = bd_steps b" "bd_startStep (applyBuilderOption opt b) = bd_startStep b"
    "bd_currentStep (applyBuilderOption opt b) = bd_currentStep b" "bd_err (applyBuilderOption opt b) = bd_err b" for opt b
    by (cases opt; cases b; simp)+
  have "bd_name (foldl (\<lambda>b opt. applyBuilderOption opt b) b0 opts) = bd_name b0 \<and>
      bd_version (foldl (\<lambda>b opt. applyBuilderOption opt b) b0 opts) = bd_version b0 \<and>
      bd_steps (foldl (\<lambda>b opt. applyBuilderOption opt b) b0 opts) = bd_steps b0 \<and>
      bd_startStep (foldl (\<lambda>b opt. applyBuilderOption opt b) b0 opts) = bd_startStep b0 \<and>
      bd_currentStep (foldl (\<lambda>b opt. applyBuilderOption opt b) b0 opts) = bd_currentStep b0 \<and>
      bd_err (foldl (\<lambda>b opt. applyBuilderOption opt b) b0 opts) = bd_err b0" for b0
    by (induction opts arbitrary: b0) (simp_all add: o)
  then show ?thesis by (simp add: NewBuilder_def)
qed

lemma NewBuilder_OK: "builderOK ([], NewBuilder name version opts)"
  using NewBuilder_fields [of name version opts] by (simp add: builderOK_def)

lemma runCalls_state:
  obtains H b where "runCalls cs ([], NewBuilder name version opts) = (Ok (), (H, b))" "builderOK (H, b)"
    "bd_name b = name" "bd_version b = version"
proof -
  obtain x st where "runCalls cs ([], NewBuilder name version opts) = (Ok x, st)" "builderOK st"
    "grows ([], NewBuilder name version opts) st"
    using bspecD [OF runCalls_safe NewBuilder_OK] by metis
  with that NewBuilder_fields [of name version opts] show thesis by (cases st) (auto simp: grows_def)
qed

lemma Build_Inr:
  assumes "Build H b = Inr def"
  shows "wd_ID def = bd_name b @ ''-v'' @ itoa (bd_version b)" "wd_Name def = bd_name b" "wd_Version def = bd_version b"
    "stepsOf def = snapshot H (bd_steps b)" "gd_Start (wd_Definition def) = bd_startStep b"
    "bd_name b \<noteq> ''''" "bd_startStep b \<noteq> ''''" "ValidateWorkflowDefinition def = None" "bd_err b = None"
  using assms by (cases b; auto simp: Let_def split: option.splits if_splits)+

lemma map_of_snapshot: "map_of (snapshot H steps) n = map_option (nth H) (map_of steps n)"
  by (induction steps) (auto simp: snapshot_def)

lemma map_fst_snapshot: "map fst (snapshot H steps) = map fst steps"
  by (induction steps) (auto simp: snapshot_def)

lemma Build_state_valid:
  assumes ok: "builderOK (H, b)" and "Build H b = Inr def"
  shows "validateDefinition def = None" "distinct (map fst (stepsOf def))"
    "stepDefOf def n = Some sd \<Longrightarrow> sd_Name sd = n"
proof -
  note d = Build_Inr [OF assms(2)]
  obtain a where a: "map_of (bd_steps b) (bd_startStep b) = Some a"
    using ok d(7) unfolding builderOK_def isStep_def by fastforce
  then have s: "stepDefOf def (bd_startStep b) \<noteq> None" by (simp add: stepDefOf_def d(4) map_of_snapshot)
  then have "stepsOf def \<noteq> []" by (auto simp: stepDefOf_def)
  with s show "validateDefinition def = None" using d by (simp add: validateDefinition_def)
  show "distinct (map fst (stepsOf def))" using ok by (simp add: d(4) map_fst_snapshot builderOK_def)
  show "stepDefOf def n = Some sd \<Longrightarrow> sd_Name sd = n"
    using ok unfolding stepDefOf_def d(4) map_of_snapshot builderOK_def isPtr_def by auto
qed

text \<open>
  C30. Building is safe and its result is accepted. Every client program of the builder, with nested forks,
  conditions and parallel tasks in any order, runs without a panic; and a definition it builds carries the given name and
  version, maps every name to the step of that name, and passes the check of \<open>RegisterWorkflow\<close> and \<open>Start\<close>.
\<close>

theorem buildProgram_spec:
  "\<exists>r. buildProgram name version opts cs = Ok r \<and>
     (\<forall>def. r = Inr def \<longrightarrow> validateDefinition def = None \<and>
        wd_ID def = name @ ''-v'' @ itoa version \<and> wd_Name def = name \<and> wd_Version def = version \<and>
        distinct (map fst (stepsOf def)) \<and> (\<forall>n sd. stepDefOf def n = Some sd \<longrightarrow> sd_Name sd = n))"
proof -
  obtain H b where r: "runCalls cs ([], NewBuilder name version opts) = (Ok (), (H, b))" "builderOK (H, b)"
    "bd_name b = name" "bd_version b = version" by (rule runCalls_state)
  have "buildProgram name version opts cs = Ok (Build H b)" by (simp add: buildProgram_def r(1))
  moreover have "validateDefinition def = None \<and> wd_ID def = name @ ''-v'' @ itoa version \<and> wd_Name def = name \<and>
      wd_Version def = version \<and> distinct (map fst (stepsOf def)) \<and> (\<forall>n sd. stepDefOf def n = Some sd \<longrightarrow> sd_Name sd = n)"
    if "Build H b = Inr def" for def
    using Build_state_valid [OF r(2) that] Build_Inr(1-3) [OF that] r(3,4) by blast
  ultimately show ?thesis by blast
qed

text \<open>A fork with a condition in one branch, joined and followed by a step.\<close>

definition forkProgram :: "bcall list" where
  "forkProgram = [CStep ''a'' ''h'' [WithStepMaxRetries 5], COnFailure ''undo'' ''u'' [],
     CFork ''f'' [[CStep ''x'' ''h'' [], CCondition ''c'' ''{{.ok}}'' (Some [CStep ''z'' ''h'' []]), CStep ''y'' ''h'' []],
                  [CStep ''v'' ''h'' [], CStep ''w'' ''h'' []]],
     CJoin ''j'' JoinStrategyAll, CSavePoint ''s'', CStep ''last'' ''h'' []]"

lemma forkProgram_builds:
  "case buildProgram ''wf'' 2 [WithDLQEnabled True] forkProgram of Ok (Inr def) \<Rightarrow>
     map_option sd_WaitFor (stepDefOf def ''j'') = Some [''cond#c'', ''w''] | _ \<Rightarrow> False"
  by code_simp

theorem buildProgram_spec_witness:
  "\<exists>def. buildProgram ''wf'' 2 [WithDLQEnabled True] forkProgram = Ok (Inr def) \<and> validateDefinition def = None \<and>
     wd_ID def = ''wf-v2''"
proof -
  obtain def where "buildProgram ''wf'' 2 [WithDLQEnabled True] forkProgram = Ok (Inr def)"
    using forkProgram_builds by (auto split: res.splits sum.splits)
  moreover have "itoa 2 = ''2''" by code_simp
  ultimately show ?thesis
    using buildProgram_spec [of "''wf''" 2 "[WithDLQEnabled True]" forkProgram] by auto
qed

section \<open>Identifiers\<close>

text \<open>
  A workflow's identifier, \<open>name-v<version>\<close>, determines its name and its version, whatever characters the name
  contains: two builders whose definitions share an identifier had the same name and version.
\<close>

theorem workflowID_inject:
  assumes "Build H b = Inr def" "Build H' b' = Inr def'" "wd_ID def = wd_ID def'"
  shows "wd_Name def = wd_Name def' \<and> wd_Version def = wd_Version def'"
proof -
  have v: "CHR ''v'' \<notin> set (rev (itoa i))" for i using not_in_itoa [of "CHR ''v''" i] by simp
  have "wd_Name def @ ''-v'' @ itoa (wd_Version def) = wd_Name def' @ ''-v'' @ itoa (wd_Version def')"
    using assms Build_Inr(1-3) [OF assms(1)] Build_Inr(1-3) [OF assms(2)] by simp
  then have "rev (itoa (wd_Version def)) @ CHR ''v'' # CHR ''-'' # rev (wd_Name def) =
      rev (itoa (wd_Version def')) @ CHR ''v'' # CHR ''-'' # rev (wd_Name def')"
    by (metis append.assoc append_Cons append_Nil rev.simps(2) rev_append rev.simps(1))
  from append_sep_inject [OF v v this] show ?thesis by simp
qed

theorem workflowID_inject_witness:
  "\<exists>def def'. buildProgram ''a-v1'' 2 [] [CStep ''s'' ''h'' []] = Ok (Inr def) \<and>
     buildProgram ''a-v1'' 2 [] [CStep ''t'' ''g'' []] = Ok (Inr def') \<and>
     wd_ID def = wd_ID def' \<and> wd_Name def = wd_Name def' \<and> wd_Version def = wd_Version def'"
proof -
  have "case buildProgram ''a-v1'' 2 [] [CStep ''s'' ''h'' []] of Ok (Inr def) \<Rightarrow> wd_ID def = ''a-v1-v2'' | _ \<Rightarrow> False"
    "case buildProgram ''a-v1'' 2 [] [CStep ''t'' ''g'' []] of Ok (Inr def) \<Rightarrow> wd_ID def = ''a-v1-v2'' | _ \<Rightarrow> False"
    by code_simp+
  then obtain def def' where d: "buildProgram ''a-v1'' 2 [] [CStep ''s'' ''h'' []] = Ok (Inr def)"
    "buildProgram ''a-v1'' 2 [] [CStep ''t'' ''g'' []] = Ok (Inr def')" "wd_ID def = wd_ID def'"
    by (force split: res.splits sum.splits)
  obtain H b H' b' where "Build H b = Inr def" "Build H' b' = Inr def'"
    using d(1,2) by (auto simp: buildProgram_def split: res.splits prod.splits)
  with workflowID_inject [OF this d(3)] d show ?thesis by blast
qed

section \<open>Chains\<close>

definition chainTask :: "string \<Rightarrow> string \<Rightarrow> string \<Rightarrow> string list \<Rightarrow> StepDefinition" where
  "chainTask n h prev succs = emptyStepDefinition\<lparr>sd_Name := n, sd_Type := StepTypeTask, sd_Handler := h,
     sd_MaxRetries := 3, sd_Prev := prev, sd_Next := succs\<rparr>"

fun chainDefs :: "string \<Rightarrow> (string \<times> string) list \<Rightarrow> StepDefinition list" where
  "chainDefs prev [] = []"
| "chainDefs prev ((n, h) # xs) = chainTask n h prev (map fst (take 1 xs)) # chainDefs n xs"

lemma length_chainDefs [simp]: "length (chainDefs prev xs) = length xs"
  by (induction prev xs rule: chainDefs.induct) simp_all

lemma chainDefs_snoc:
  assumes "xs \<noteq> []"
  shows "chainDefs prev (xs @ [(n, h)]) =
    (let D = chainDefs prev xs; k = length xs - 1
     in D[k := (D ! k)\<lparr>sd_Next := sd_Next (D ! k) @ [n]\<rparr>]) @ [chainTask n h (fst (last xs)) []]"
  using assms
proof (induction prev xs rule: chainDefs.induct)
  case (2 prev m g xs)
  show ?case
  proof (cases xs)
    case Nil
    then show ?thesis by (simp add: chainTask_def)
  next
    case (Cons y ys)
    with 2 show ?thesis by (simp add: Let_def)
  qed
qed simp

lemma update_new: "k \<notin> fst ` set al \<Longrightarrow> AList.update k v al = al @ [(k, v)]"
  by (induction al) auto

abbreviation chainMap :: "(string \<times> string) list \<Rightarrow> (string \<times> nat) list" where
  "chainMap xs \<equiv> zip (map fst xs) [0..<length xs]"

abbreviation chainCalls :: "(string \<times> string) list \<Rightarrow> bcall list" where
  "chainCalls xs \<equiv> map (\<lambda>(n, h). CStep n h []) xs"

lemma chainMap_last:
  assumes "distinct (map fst xs)" "xs \<noteq> []"
  shows "map_of (chainMap xs) (fst (last xs)) = Some (length xs - 1)"
proof -
  have "map fst xs ! (length xs - 1) = fst (last xs)" using assms(2) by (simp add: last_conv_nth)
  with map_of_zip_nth [of "map fst xs" "[0..<length xs]" "length xs - 1"] assms show ?thesis by simp
qed

lemmas builder_run = unlessErr_def bself_def refuse_def alloc_def putStep_def bmod_def linkCurrent_def updateStep_def
  writeAt_def

lemma chain_step:
  assumes "distinct (map fst xs)" "xs \<noteq> []" "n \<notin> fst ` set xs" "'''' \<notin> fst ` set xs"
  shows "Step n h [] (chainDefs rootStepName xs, Builder w v (chainMap xs) (fst (hd xs)) (fst (last xs)) 1 [] 3 False None) =
    (Ok (), (chainDefs rootStepName (xs @ [(n, h)]), Builder w v (chainMap (xs @ [(n, h)])) (fst (hd xs)) n 1 [] 3 False None))"
proof -
  have "map_of (chainMap xs) n = None" using assms(3) by (simp add: map_of_zip_is_None)
  moreover have "n \<notin> fst ` set (chainMap xs)" using assms(3) by (simp add: set_zip) force
  moreover have "fst (last xs) \<noteq> ''''" "fst (hd xs) \<noteq> ''''" "fst (last xs) \<noteq> n"
    using assms(2-4) by (metis hd_in_set image_eqI last_in_set)+
  moreover have "chainMap (xs @ [(n, h)]) = chainMap xs @ [(n, length xs)]" by simp
  ultimately show ?thesis
    using chainMap_last [OF assms(1,2)] assms(2)
    by (simp add: Step_def builder_run update_new applyStepOptions_def chainDefs_snoc chainTask_def Let_def
        emptyStepDefinition_def list_update_append nth_append del: zip_append upt_Suc)
qed

lemma chain_first:
  "Step n h [] ([], NewBuilder w v []) =
    (Ok (), (chainDefs rootStepName [(n, h)], Builder w v (chainMap [(n, h)]) n n 1 [] 3 False None))"
  by (simp add: Step_def builder_run NewBuilder_def applyStepOptions_def chainTask_def defaultMaxRetries_def
      emptyStepDefinition_def)

lemma gseqs_Cons: "gseqs (m # ms) = gseq m (gseqs ms)"
  by (simp add: gseqs_def)

lemma chain_run:
  assumes "distinct (map fst (xs @ ys))" "xs \<noteq> []" "'''' \<notin> fst ` set (xs @ ys)"
  shows "gseqs (map runCall (chainCalls ys))
      (chainDefs rootStepName xs, Builder w v (chainMap xs) (fst (hd xs)) (fst (last xs)) 1 [] 3 False None) =
    (Ok (), (chainDefs rootStepName (xs @ ys),
      Builder w v (chainMap (xs @ ys)) (fst (hd xs)) (fst (last (xs @ ys))) 1 [] 3 False None))"
  using assms
proof (induction ys arbitrary: xs)
  case Nil
  then show ?case by (simp add: gseqs_def)
next
  case (Cons y ys)
  obtain n h where y: "y = (n, h)" by (cases y)
  have s: "Step n h [] (chainDefs rootStepName xs, Builder w v (chainMap xs) (fst (hd xs)) (fst (last xs)) 1 [] 3 False None) =
    (Ok (), (chainDefs rootStepName (xs @ [(n, h)]), Builder w v (chainMap (xs @ [(n, h)])) (fst (hd xs)) n 1 [] 3 False None))"
    by (rule chain_step) (use Cons.prems y in \<open>auto simp: rev_image_eqI\<close>)
  from Cons.IH [of "xs @ [(n, h)]"] Cons.prems show ?case
    by (simp add: gseqs_Cons y s)
qed

lemma map_of_chain:
  "distinct (map fst xs) \<Longrightarrow> (n, sd) \<in> set (snapshot (chainDefs prev xs) (chainMap xs)) \<Longrightarrow>
   \<exists>i < length xs. n = fst (xs ! i) \<and> sd = chainDefs prev xs ! i"
  by (auto simp: snapshot_def set_zip)

lemma chainDefs_nth:
  "i < length xs \<Longrightarrow> \<exists>p. chainDefs prev xs ! i = chainTask (fst (xs ! i)) (snd (xs ! i)) p (map fst (take 1 (drop (Suc i) xs)))"
proof (induction prev xs arbitrary: i rule: chainDefs.induct)
  case (2 prev n h xs)
  then show ?case by (cases i) auto
qed simp

text \<open>Along a chain positions grow, so there is no cycle.\<close>

lemma chain_acyclic:
  assumes "distinct (map fst xs)"
  shows "(x, x) \<notin> (edges (snapshot (chainDefs prev xs) (chainMap xs)))\<^sup>+"
proof
  let ?S = "snapshot (chainDefs prev xs) (chainMap xs)"
  let ?E = "edges ?S"
  define pos where "pos = (\<lambda>m. the (map_of (chainMap xs) m))"
  have pos: "pos (fst (xs ! i)) = i" if "i < length xs" for i
    using map_of_zip_nth [of "map fst xs" "[0..<length xs]" i] assms that by (simp add: pos_def)
  have "pos a < pos b" if ab: "(a, b) \<in> ?E" for a b
  proof -
    obtain sd where sd: "map_of ?S a = Some sd" "b \<in> set (outgoing sd)"
      using ab unfolding edges_iff by blast
    obtain i where i: "i < length xs" "a = fst (xs ! i)" "sd = chainDefs prev xs ! i"
      using map_of_chain [OF assms map_of_SomeD [OF sd(1)]] by blast
    obtain p where "sd = chainTask (fst (xs ! i)) (snd (xs ! i)) p (map fst (take 1 (drop (Suc i) xs)))"
      using chainDefs_nth [OF i(1)] i(3) by blast
    with sd(2) have "b \<in> set (map fst (take 1 (drop (Suc i) xs)))"
      by (simp add: outgoing_def chainTask_def emptyStepDefinition_def)
    then have "Suc i < length xs \<and> b = fst (xs ! Suc i)"
      by (cases "Suc i < length xs") (auto simp: take_Suc_conv_app_nth take_Suc hd_drop_conv_nth)
    with pos i show ?thesis by simp
  qed
  note up = this
  have "pos a < pos b" if "(a, b) \<in> ?E\<^sup>+" for a b
    using that by (induction rule: trancl.induct) (auto dest: up intro: less_trans)
  moreover assume "(x, x) \<in> ?E\<^sup>+"
  ultimately show False by blast
qed

text \<open>
  A chain of steps. Building \<open>Step\<close> calls with distinct, usable names and handlers yields exactly
  the chain: the first step is the start step with \<open>Prev = _root_\<close>, every step has its successor as only \<open>Next\<close> and its
  predecessor as \<open>Prev\<close>, and the definition is valid.
\<close>

theorem chain_built:
  assumes "xs \<noteq> []" "distinct (map fst xs)" "w \<noteq> ''''"
    and "\<forall>(n, h) \<in> set xs. validateStepName n = None \<and> h \<noteq> ''''"
  shows "buildProgram w v [] (chainCalls xs) = Ok (Inr \<lparr>wd_ID = w @ ''-v'' @ itoa v, wd_Name = w, wd_Version = v,
    wd_Definition = \<lparr>gd_Steps = zip (map fst xs) (chainDefs rootStepName xs), gd_Start = fst (hd xs), gd_DLQEnabled = False\<rparr>,
    wd_CreatedAt = 0\<rparr>)"
proof -
  obtain n h ys where xs: "xs = (n, h) # ys" using assms(1) by (metis neq_Nil_conv surj_pair)
  have ne: "'''' \<notin> fst ` set xs" using assms(4) by (force simp: validateStepName_def)
  have run: "runCalls (chainCalls xs) ([], NewBuilder w v []) =
      (Ok (), (chainDefs rootStepName xs, Builder w v (chainMap xs) (fst (hd xs)) (fst (last xs)) 1 [] 3 False None))"
    using chain_run [of "[(n, h)]" ys w v] assms(2) ne
    by (simp add: runCalls_def xs gseqs_Cons chain_first)
  let ?S = "snapshot (chainDefs rootStepName xs) (chainMap xs)"
  let ?def = "\<lparr>wd_ID = w @ ''-v'' @ itoa v, wd_Name = w, wd_Version = v,
    wd_Definition = \<lparr>gd_Steps = ?S, gd_Start = fst (hd xs), gd_DLQEnabled = False\<rparr>, wd_CreatedAt = 0\<rparr>"
  have S: "?S = zip (map fst xs) (chainDefs rootStepName xs)"
    by (rule nth_equalityI) (simp_all add: snapshot_def)
  have "validStep ?def m sd" if msd: "(m, sd) \<in> set ?S" for m sd
  proof -
    obtain i where i: "i < length xs" "m = fst (xs ! i)" "sd = chainDefs rootStepName xs ! i"
      using map_of_chain [OF assms(2) msd] by blast
    obtain p where sd: "sd = chainTask m (snd (xs ! i)) p (map fst (take 1 (drop (Suc i) xs)))"
      using chainDefs_nth [OF i(1)] i(2,3) by blast
    have "fst ` set (take 1 (drop (Suc i) xs)) \<subseteq> fst ` set xs" by (meson image_mono set_drop_subset set_take_subset order_trans)
    moreover have "knownStep ?def k" if "k \<in> fst ` set xs" for k
      using that by (simp add: knownStep_def stepDefOf_def S map_of_zip_is_None)
    moreover have "m \<noteq> '''' \<and> m \<noteq> rootStepName \<and> \<not> isVirtualStep m" "snd (xs ! i) \<noteq> ''''"
      using assms(4) nth_mem [OF i(1)] i(2) by (force simp: validateStepName_None)+
    ultimately show ?thesis
      by (auto simp: validStep_def sd chainTask_def emptyStepDefinition_def)
  qed
  then have "ValidateWorkflowDefinition ?def = None"
    using chain_acyclic [OF assms(2), of _ rootStepName] detectCycles_iff [of ?S "fst (hd xs)"]
    by (auto simp: ValidateWorkflowDefinition_def validateStep_None split: option.splits)
  moreover have "fst (hd xs) \<noteq> ''''" using ne xs by auto
  ultimately show ?thesis
    using assms(3) by (simp add: buildProgram_def run S [symmetric])
qed

theorem chain_built_witness:
  "\<exists>def. buildProgram ''pay'' 1 [] [CStep ''reserve'' ''r'' [], CStep ''charge'' ''c'' []] = Ok (Inr def) \<and>
     map_option sd_Prev (stepDefOf def ''charge'') = Some ''reserve''"
  using chain_built [of "[(''reserve'', ''r''), (''charge'', ''c'')]" "''pay''" 1]
  by (simp add: validateStepName_def rootStepName_def isVirtualStep_def stepDefOf_def chainTask_def)

section \<open>A lost step\<close>

text \<open>
  A human step in front is lost. \<open>WaitHumanConfirm\<close> does not set the start step, so the workflow that asks first
  and then runs a task starts with the task: the start step is the task, with \<open>Prev = _root_\<close>, and the human
  step, though built and valid, is reached from no step. The same holds for any names and options.
\<close>

theorem human_first_is_skipped:
  assumes "q \<noteq> ''''" "n \<noteq> q" "n \<noteq> ''''"
  shows "\<exists>H b. runCalls [CWaitHumanConfirm q qopts, CStep n h opts] ([], NewBuilder w v bopts) = (Ok (), (H, b)) \<and>
    bd_err b = None \<and> bd_startStep b = n \<and> map_of (snapshot H (bd_steps b)) q \<noteq> None \<and>
    (\<forall>sd. map_of (snapshot H (bd_steps b)) n = Some sd \<longrightarrow> sd_Prev sd = rootStepName \<and> sd_Next sd = [])"
proof -
  obtain l sb m d where b: "NewBuilder w v bopts = Builder w v [] '''' '''' l sb m d None"
    using NewBuilder_fields [of w v bopts] by (cases "NewBuilder w v bopts") auto
  show ?thesis
    using assms by (simp add: runCalls_def gseqs_def b WaitHumanConfirm_def appendStep_def Step_def builder_run snapshot_def
        emptyStepDefinition_def)
qed

theorem human_first_is_skipped_witness:
  "\<exists>def. buildProgram ''w'' 1 [] [CWaitHumanConfirm ''approve'' [], CStep ''pay'' ''h'' []] = Ok (Inr def) \<and>
     gd_Start (wd_Definition def) = ''pay''"
proof -
  obtain H b where r: "runCalls [CWaitHumanConfirm ''approve'' [], CStep ''pay'' ''h'' []] ([], NewBuilder ''w'' 1 []) = (Ok (), (H, b))"
    "bd_startStep b = ''pay''"
    using human_first_is_skipped [of "''approve''" "''pay''" "[]" "''h''" "[]" "''w''" 1 "[]"] by auto
  have "case buildProgram ''w'' 1 [] [CWaitHumanConfirm ''approve'' [], CStep ''pay'' ''h'' []] of Ok (Inr _) \<Rightarrow> True | _ \<Rightarrow> False"
    by code_simp
  then obtain def where "Build H b = Inr def" by (auto simp: buildProgram_def r(1) split: sum.splits)
  with r Build_Inr(5) [OF this] show ?thesis by (simp add: buildProgram_def)
qed

end
