(* ===== verification/Chain_Run.thy ===== *)
theory Chain_Run
  imports Outcome_Props Builder_Props
begin

text \<open>
  A whole run: a chain of tasks from the builder to the result. The engine between two rounds is described by \<open>poised\<close>;
  one lemma per outcome of a round (\<open>poised_next\<close>, \<open>poised_last\<close>, \<open>poised_fails\<close>) leads from one such state to the next, and the run
  is their composition along the chain. Handlers may fail within their retry limit.
\<close>

section \<open>Definitions that are a line of tasks\<close>

definition plainTasks :: "WorkflowDefinition \<Rightarrow> bool" where
  "plainTasks def \<longleftrightarrow> (\<forall>(n, sd) \<in> set (stepsOf def). sd_Type sd = StepTypeTask)"

lemma plainTasksD: "plainTasks def \<Longrightarrow> (n, sd) \<in> set (stepsOf def) \<Longrightarrow> sd_Type sd = StepTypeTask"
  by (auto simp: plainTasks_def)

lemma plainTasks_stepDef: "plainTasks def \<Longrightarrow> stepDefOf def n = Some sd \<Longrightarrow> sd_Type sd = StepTypeTask"
  unfolding stepDefOf_def by (drule map_of_SomeD) (rule plainTasksD)

lemma prevWalk_climbs:
  assumes "\<And>n sd. (n, sd) \<in> set steps \<Longrightarrow> \<exists>m. body n sd = Inr m"
  shows "prevWalk steps stop body visited current = None"
  using assms
proof (induction steps stop body visited current rule: prevWalk.induct)
  case (1 steps stop body visited current)
  show ?case
  proof (cases "map_of steps current")
    case None
    then show ?thesis by (subst prevWalk.simps) simp
  next
    case (Some sd)
    then obtain m where "body current sd = Inr m" using 1(2) by (meson map_of_SomeD)
    with Some 1 show ?thesis by (subst prevWalk.simps) simp
  qed
qed

lemma plain_findFork:
  assumes "plainTasks def"
  shows "findForkOf def n = ''''"
proof -
  have "find (\<lambda>(m, sd). sd_Type sd = StepTypeFork \<and> n \<in> set (sd_Parallel sd)) (stepsOf def) = None"
    using plainTasksD [OF assms] by (auto simp: find_None_iff)
  then show ?thesis by (simp add: findForkOf_def)
qed

lemma plain_questions:
  assumes "plainTasks def"
  shows "findConditionStepInBranch sd def = ''''"
    and "instanceDef s i = Some def \<Longrightarrow> isTerminalStepInForkBranch (findForkStepForParallelStep s i) n def = False"
proof -
  note task = plainTasksD [OF assms]
  have "prevWalk (stepsOf def) atTop (\<lambda>n sd. if sd_Type sd = StepTypeCondition then Inl n else Inr (sd_Prev sd)) [] (sd_Prev sd) = None"
    by (rule prevWalk_climbs) (simp add: task)
  then show "findConditionStepInBranch sd def = ''''" by (simp add: findConditionStepInBranch_def)
  have "\<not> list_ex (\<lambda>(m, f). sd_Type f = StepTypeFork \<and> k \<in> set (sd_Parallel f)) (stepsOf def)" for k
    using task by (fastforce simp: list_ex_iff)
  then have "prevWalk (stepsOf def) atTop
      (\<lambda>n d. if sd_Type d = StepTypeFork then Inl ()
             else if list_ex (\<lambda>(m, f). sd_Type f = StepTypeFork \<and> n \<in> set (sd_Parallel f)) (stepsOf def)
             then Inl () else Inr (sd_Prev d)) [] p = None" for p
    by (intro prevWalk_climbs) (simp add: task)
  then show "isTerminalStepInForkBranch (findForkStepForParallelStep s i) n def = False" if "instanceDef s i = Some def"
    using that by (simp add: isTerminalStepInForkBranch_def findForkStepForParallelStep_def plain_findFork [OF assms]
        split: option.split)
qed

lemma gbind_gread [simp]: "gbind (gread f) k w = k (f w) w"
  by (simp add: gbind_def)

lemma gforeach_idle: "(\<And>x. x \<in> set xs \<Longrightarrow> f x w = (Ok (), w)) \<Longrightarrow> gforeach f xs w = (Ok (), w)"
  by (induction xs) simp_all

lemma plain_joins:
  assumes "plainTasks def" "map_of (ms_instances (en_store w)) i = Some inst" "defAt (en_store w) (wi_WorkflowID inst) = Some def"
  shows "notifyJoinSteps E i n ok w = (Ok (), w)" "updateBranchJoin E i st sd def w = (Ok (), w)"
proof -
  have "instanceDef (en_store w) i = Some def" using assms(2,3) by (simp add: instanceDef_def)
  then show "updateBranchJoin E i st sd def w = (Ok (), w)"
    by (simp add: updateBranchJoin_def plain_questions [OF assms(1)])
  show "notifyJoinSteps E i n ok w = (Ok (), w)"
    unfolding notifyJoinSteps_def
    by (simp add: GetInstance_run [OF assms(2)] GetDefinition_run [OF assms(3)], rule gforeach_idle)
      (use plainTasksD [OF assms(1)] in auto)
qed


section \<open>Running one task\<close>

text \<open>The store after the status of a stored step was set and an event written.\<close>

definition recorded ::
    "env \<Rightarrow> int \<Rightarrow> StepStatus \<Rightarrow> raw \<Rightarrow> string \<Rightarrow> (string \<times> jval) list \<Rightarrow> WorkflowStep \<Rightarrow> MemoryStore \<Rightarrow> MemoryStore" where
  "recorded E iid status out ty kvs st s =
     logged E iid (Some (ws_ID st)) ty kvs (s\<lparr>
       ms_steps := AList.update (ws_ID st) (stepAfter (clk E (ms_cursor s)) status out None st) (ms_steps s),
       ms_cursor := Suc (ms_cursor s)\<rparr>)"

lemma recorded_fields [simp]:
  "ms_definitions (recorded E iid status out ty kvs st s) = ms_definitions s"
  "ms_defheap (recorded E iid status out ty kvs st s) = ms_defheap s"
  "ms_instances (recorded E iid status out ty kvs st s) = ms_instances s"
  "ms_stepsByInstance (recorded E iid status out ty kvs st s) = ms_stepsByInstance s"
  "ms_queue (recorded E iid status out ty kvs st s) = ms_queue s"
  "ms_cancelRequests (recorded E iid status out ty kvs st s) = ms_cancelRequests s"
  "ms_nextStepID (recorded E iid status out ty kvs st s) = ms_nextStepID s"
  "ms_nextQueueID (recorded E iid status out ty kvs st s) = ms_nextQueueID s"
  "ms_steps (recorded E iid status out ty kvs st s) =
     AList.update (ws_ID st) (stepAfter (clk E (ms_cursor s)) status out None st) (ms_steps s)"
  "defAt (recorded E iid status out ty kvs st s) wid = defAt s wid"
  by (simp_all add: recorded_def) (rule defAt_cong, simp_all)

lemma record_run:
  assumes "map_of (ms_steps (en_store w)) (ws_ID st) = Some st"
  shows "cmd msg (UpdateStep E (ws_ID st) status out None) (gseq (logEvent E iid (Some (ws_ID st)) ty kvs) k) w =
    k (w\<lparr>en_store := recorded E iid status out ty kvs st (en_store w)\<rparr>)"
  by (simp add: UpdateStep_run [OF assms] recorded_def)

text \<open>What follows the success of a task in a line of tasks: its record, and the next step or the end.\<close>

definition doneStore :: "env \<Rightarrow> WorkflowInstance \<Rightarrow> raw \<Rightarrow> WorkflowStep \<Rightarrow> MemoryStore \<Rightarrow> MemoryStore" where
  "doneStore E inst out st = recorded E (wi_ID inst) StepStatusCompleted out ''step_completed''
     [(''step_name'', JStr (ws_StepName st))] st"

lemma success_run:
  assumes plain: "plainTasks def" and i: "map_of (ms_instances (en_store w)) (wi_ID inst) = Some inst"
    and d: "defAt (en_store w) (wi_WorkflowID inst) = Some def" and sd: "sd_Type sd = StepTypeTask"
    and st: "map_of (ms_steps (en_store w)) (ws_ID st) = Some st'" "ws_ID st' = ws_ID st" "ws_StepName st' = ws_StepName st"
  shows "handleStepSuccess E inst (SCopy st) sd out True w =
    (if sd_Next sd = []
     then gbind (gread (\<lambda>w. hasUnfinishedSteps (en_store w) (wi_ID inst)))
            (\<lambda>unfinished. if unfinished then gret () else completeWorkflow E inst out)
     else gforeach (\<lambda>n. needStep ''next step definition not found: '' def n (\<lambda>nextStepDef.
            if sd_Type nextStepDef = StepTypeJoin then gret () else enqueueNextSteps E (wi_ID inst) [n] out)) (sd_Next sd))
      (w\<lparr>en_store := doneStore E inst out st' (en_store w)\<rparr>)"
proof -
  let ?w1 = "w\<lparr>en_store := doneStore E inst out st' (en_store w)\<rparr>"
  have i1: "map_of (ms_instances (en_store ?w1)) (wi_ID inst) = Some inst" and
    d1: "defAt (en_store ?w1) (wi_WorkflowID inst) = Some def" using i d by (simp_all add: doneStore_def)
  have rec: "cmd ''update step: '' (UpdateStep E (ws_ID st) StepStatusCompleted out None)
      (gseq (logEvent E (wi_ID inst) (Some (ws_ID st)) ''step_completed'' [(''step_name'', JStr (ws_StepName st))]) k) w = k ?w1" for k
    using record_run [of w st'] st by (simp add: doneStore_def)
  show ?thesis
    unfolding handleStepSuccess_def
    by (simp add: sd rec GetDefinition_run [OF d1] plain_joins [OF plain i1 d1])
qed

text \<open>The engine inside the execution of a step: its context is registered, the step runs, the handler has answered.\<close>

definition called :: "env \<Rightarrow> WorkflowInstance \<Rightarrow> WorkflowStep \<Rightarrow> Engine \<Rightarrow> Engine" where
  "called E inst st w = (snd (registerInstanceContext (wi_ID inst) (ws_ID st) w))\<lparr>
     en_store := recorded E (wi_ID inst) StepStatusRunning RawNil ''step_started''
       [(''step_name'', JStr (ws_StepName st)), (''step_type'', JStr (stepTypeStr StepTypeTask))] st (en_store w),
     en_hcalls := Suc (en_hcalls w)\<rparr>"

lemma called_fields [simp]:
  "en_store (called E inst st w) = recorded E (wi_ID inst) StepStatusRunning RawNil ''step_started''
     [(''step_name'', JStr (ws_StepName st)), (''step_type'', JStr (stepTypeStr StepTypeTask))] st (en_store w)"
  "en_hcalls (called E inst st w) = Suc (en_hcalls w)" "en_handlers (called E inst st w) = en_handlers w"
  "en_isShuttingDown (called E inst st w) = en_isShuttingDown w"
  "en_pluginManager (called E inst st w) = en_pluginManager w"
  "(wi_ID inst, ws_ID st) \<notin> set (en_cancelled (called E inst st w))"
  by (simp_all add: called_def registerInstanceContext_def Let_def)

definition taskContext :: "WorkflowInstance \<Rightarrow> WorkflowStep \<Rightarrow> StepDefinition \<Rightarrow> executionContext" where
  "taskContext inst st sd = \<lparr>ec_instanceID = wi_ID inst, ec_stepName = ws_StepName st,
     ec_idempotencyKey = ws_IdempotencyKey st, ec_retryCount = ws_RetryCount st, ec_variables = sd_Metadata sd\<rparr>"

lemma taskContext_fields [simp]:
  "ec_stepName (taskContext inst st sd) = ws_StepName st" "ec_retryCount (taskContext inst st sd) = ws_RetryCount st"
  by (simp_all add: taskContext_def)

lemma executeTask_answers:
  assumes "map_of (en_handlers w) (sd_Handler sd) = Some h" "during E (en_hcalls w) = []"
  shows "executeTask E inst st sd w =
    (case noPanicExecute h (en_hcalls w) (taskContext inst st sd) (ws_Input st) of Inl err \<Rightarrow> Fail err | Inr out \<Rightarrow> Ok out,
     w\<lparr>en_hcalls := Suc (en_hcalls w)\<rparr>)"
  using assms by (simp add: executeTask_def callHandler_def taskContext_def split: sum.split)

text \<open>A task that nobody cancels runs its handler and goes on with the answer.\<close>

lemma executeStep_answers:
  assumes st: "map_of (ms_steps (en_store w)) (ws_ID st) = Some st" and status: "wi_Status inst \<noteq> StatusDLQ"
    and d: "defAt (en_store w) (wi_WorkflowID inst) = Some def" "stepDefOf def (ws_StepName st) = Some sd" "sd_Type sd = StepTypeTask"
    and quiet: "en_pluginManager w = None" "map_of (ms_cancelRequests (en_store w)) (wi_ID inst) = None" "during E (en_hcalls w) = []"
    and h: "map_of (en_handlers w) (sd_Handler sd) = Some h"
    and cont: "(case noPanicExecute h (en_hcalls w) (taskContext inst st sd) (ws_Input st) of
        Inl err \<Rightarrow> handleStepFailure E inst (SCopy st) sd err
      | Inr out \<Rightarrow> handleStepSuccess E inst (SCopy st) sd out True) (called E inst st w) = (Ok (), w1)"
  shows "executeStep E inst (SCopy st) w = (Ok (), snd (unregisterInstanceContext (wi_ID inst) (ws_ID st) w1))"
proof -
  define v u where "v = snd (registerInstanceContext (wi_ID inst) (ws_ID st) w)"
    and "u = snd (unregisterInstanceContext (wi_ID inst) (ws_ID st) w1)"
  let ?run = "v\<lparr>en_store := recorded E (wi_ID inst) StepStatusRunning RawNil ''step_started''
       [(''step_name'', JStr (ws_StepName st)), (''step_type'', JStr (stepTypeStr StepTypeTask))] st (en_store w)\<rparr>"
  have reg: "registerInstanceContext (wi_ID inst) (ws_ID st) w = (Ok (), v)"
    by (simp add: v_def registerInstanceContext_def)
  have unreg: "unregisterInstanceContext (wi_ID inst) (ws_ID st) w1 = (Ok (), u)"
    by (simp add: u_def unregisterInstanceContext_def)
  have f: "en_store v = en_store w" "en_handlers v = en_handlers w" "en_hcalls v = en_hcalls w"
    by (simp_all add: v_def registerInstanceContext_def Let_def)
  have st': "map_of (ms_steps (en_store v)) (ws_ID st) = Some st" using st f by simp
  have none: "onStore (GetCancelRequest (wi_ID inst)) v = (Fail EntityNotFound, v)"
    using quiet(2) f by (simp add: onStore_def gzoom_def GetCancelRequest_def)
  have "gtry (runStep E inst (SCopy st) sd) ?run =
      (Ok (case noPanicExecute h (en_hcalls w) (taskContext inst st sd) (ws_Input st) of
          Inl err \<Rightarrow> Inl err | Inr out \<Rightarrow> Inr (out, True, False, SCopy st)), called E inst st w)"
    using executeTask_answers [of ?run sd h E inst st] h quiet(3) f
    by (simp add: runStep_def d(3) called_def v_def split: sum.split)
  then show ?thesis
    using status quiet(1) cont unreg unfolding u_def [symmetric]
    by (simp add: executeStep_def GetDefinition_run [OF d(1)] needStep_run [OF d(2)] pluginHook_def reg gfinally_def none
        record_run [OF st'] f d(3) split: sum.splits)
qed

section \<open>Between the rounds\<close>

text \<open>What a step of an instance has come to: its name, status, input and output.\<close>

definition traceOf :: "(int \<times> WorkflowStep) list \<Rightarrow> int list \<Rightarrow> (string \<times> StepStatus \<times> raw \<times> raw) list" where
  "traceOf steps ids = map (\<lambda>st. (ws_StepName st, ws_Status st, ws_Input st, ws_Output st)) (List.map_filter (map_of steps) ids)"

definition instanceTrace :: "MemoryStore \<Rightarrow> int \<Rightarrow> (string \<times> StepStatus \<times> raw \<times> raw) list" where
  "instanceTrace s iid = traceOf (ms_steps s) (stepIDsOf s iid)"

lemma traceOf_update [simp]: "k \<notin> set ids \<Longrightarrow> traceOf (AList.update k st steps) ids = traceOf steps ids"
  unfolding traceOf_def map_filter_def by (intro arg_cong [of _ _ "map _"] filter_cong map_cong) (auto simp: update_conv')

lemma traceOf_append [simp]:
  "map_of steps k = Some st \<Longrightarrow>
   traceOf steps (ids @ [k]) = traceOf steps ids @ [(ws_StepName st, ws_Status st, ws_Input st, ws_Output st)]"
  by (simp add: traceOf_def map_filter_def)

lemma hasStatus_trace: "hasStatus S s i \<longleftrightarrow> (\<exists>x \<in> set (instanceTrace s i). fst (snd x) \<in> S)"
  by (auto simp: hasStatus_def stepsIn_def stepsOfInstance_def instanceTrace_def traceOf_def list_ex_iff)

text \<open>An unclaimed item for the step \<open>sid\<close> that is due at the clock's reading \<open>c\<close> and later.\<close>

definition dueItem :: "env \<Rightarrow> int \<Rightarrow> int \<Rightarrow> nat \<Rightarrow> QueueItem \<Rightarrow> bool" where
  "dueItem E iid sid c item \<longleftrightarrow> qi_InstanceID item = iid \<and> qi_StepID item = Some sid \<and> 0 \<le> qi_Priority item \<and>
     qi_AttemptedAt item = None \<and> (\<exists>t \<le> c. qi_ScheduledAt item = clk E t)"

definition soleItem :: "env \<Rightarrow> int \<Rightarrow> int \<Rightarrow> MemoryStore \<Rightarrow> QueueItem \<Rightarrow> bool" where
  "soleItem E iid sid s item \<longleftrightarrow> ms_queue s = [(qi_ID item, item)] \<and> dueItem E iid sid (ms_cursor s) item"

lemma effectivePriority_nonneg:
  assumes "0 \<le> qi_Priority item" "qi_ScheduledAt item \<le> now"
  shows "0 \<le> effectivePriority aging rate now item"
proof -
  have "0 \<le> (of_int (now - qi_ScheduledAt item) / 1000000000 * rate :: rat)" if "0 < rate"
    using that assms(2) by simp
  then show ?thesis using assms(1) by (auto simp: effectivePriority_def truncRat_def)
qed

lemma soleItem_dequeued:
  assumes "mono (clk E)" "soleItem E iid sid s item"
  shows "DequeueStep E worker s =
    (let item' = item\<lparr>qi_AttemptedAt := Some (clk E (ms_cursor s)), qi_AttemptedBy := Some worker\<rparr>
     in (Ok (Some item'), s\<lparr>ms_cursor := Suc (ms_cursor s), ms_queue := [(qi_ID item, item')]\<rparr>))"
proof -
  let ?now = "clk E (ms_cursor s)"
  have q: "ms_queue s = [(qi_ID item, item)]" "0 \<le> qi_Priority item" "qi_AttemptedAt item = None"
    using assms(2) by (simp_all add: soleItem_def dueItem_def)
  have due: "qi_ScheduledAt item \<le> ?now" using assms unfolding soleItem_def dueItem_def by (metis monoD)
  have "-1 < effectivePriority a r ?now item" for a r
    using effectivePriority_nonneg [OF q(2) due, of a r] by simp
  then have "dequeueSelect s ?now = Some item"
    using q due by (simp add: dequeueSelect_def dequeuePick_def eligible_def Let_def)
  with q show ?thesis by (simp add: DequeueStep_def Let_def)
qed

text \<open>No step of the instance has entered compensation.\<close>

definition uncompensated :: "(int \<times> WorkflowStep) list \<Rightarrow> int \<Rightarrow> bool" where
  "uncompensated steps iid \<longleftrightarrow> (\<forall>k st. map_of steps k = Some st \<longrightarrow> ws_InstanceID st = iid \<longrightarrow> ws_CompensationRetryCount st = 0)"

lemma uncompensatedD: "uncompensated steps iid \<Longrightarrow> map_of steps k = Some st \<Longrightarrow> ws_InstanceID st = iid \<Longrightarrow> ws_CompensationRetryCount st = 0"
  unfolding uncompensated_def by blast

lemma uncompensated_update:
  "uncompensated steps iid \<Longrightarrow> ws_CompensationRetryCount st = 0 \<Longrightarrow> uncompensated (AList.update k st steps) iid"
  by (auto simp: uncompensated_def update_conv')

text \<open>
  The engine between two rounds: the instance runs, nobody disturbs it, its last step \<open>st\<close> waits to be run, for the
  first time or again, and the queue holds the item for it and nothing else.
\<close>

definition poised ::
    "env \<Rightarrow> WorkflowInstance \<Rightarrow> WorkflowDefinition \<Rightarrow> int list \<Rightarrow> WorkflowStep \<Rightarrow> QueueItem \<Rightarrow> Engine \<Rightarrow> bool" where
  "poised E inst def ids st item w \<longleftrightarrow>
     store_wf (en_store w) \<and> \<not> en_isShuttingDown w \<and> en_pluginManager w = None \<and>
     map_of (ms_cancelRequests (en_store w)) (wi_ID inst) = None \<and>
     defAt (en_store w) (wi_WorkflowID inst) = Some def \<and>
     map_of (ms_instances (en_store w)) (wi_ID inst) = Some inst \<and> wi_Status inst = StatusRunning \<and>
     stepIDsOf (en_store w) (wi_ID inst) = ids @ [ws_ID st] \<and>
     map_of (ms_steps (en_store w)) (ws_ID st) = Some st \<and> ws_InstanceID st = wi_ID inst \<and>
     ws_Status st \<in> {StepStatusPending, StepStatusFailed} \<and> uncompensated (ms_steps (en_store w)) (wi_ID inst) \<and>
     soleItem E (wi_ID inst) (ws_ID st) (en_store w) item"

text \<open>The handler's answer, and the engine that has it.\<close>

definition answerOf :: "handler \<Rightarrow> WorkflowInstance \<Rightarrow> WorkflowStep \<Rightarrow> StepDefinition \<Rightarrow> Engine \<Rightarrow> error + raw" where
  "answerOf h inst st sd w = noPanicExecute h (en_hcalls w) (taskContext inst st sd) (ws_Input st)"

definition answered :: "env \<Rightarrow> string \<Rightarrow> WorkflowInstance \<Rightarrow> WorkflowStep \<Rightarrow> QueueItem \<Rightarrow> Engine \<Rightarrow> Engine" where
  "answered E worker inst st item w = called E inst st (claimed (snd (DequeueStep E worker (en_store w))) w)"

lemma poised_round:
  assumes E: "mono (clk E)" "during E = (\<lambda>_. [])" and p: "poised E inst def ids st item w"
    and sd: "stepDefOf def (ws_StepName st) = Some sd" "sd_Type sd = StepTypeTask"
    and h: "map_of (en_handlers w) (sd_Handler sd) = Some h"
    and cont: "(case answerOf h inst st sd w of
        Inl err \<Rightarrow> handleStepFailure E inst (SCopy st) sd err
      | Inr out \<Rightarrow> handleStepSuccess E inst (SCopy st) sd out True) (answered E worker inst st item w) = (Ok (), w1)"
  shows "ExecuteNext E worker w =
    (Ok False, uncounted (dropItem (qi_ID item) (snd (unregisterInstanceContext (wi_ID inst) (ws_ID st) w1))))"
proof -
  let ?s = "en_store w"
  define item' where "item' = item\<lparr>qi_AttemptedAt := Some (clk E (ms_cursor ?s)), qi_AttemptedBy := Some worker\<rparr>"
  define s1 where "s1 = ?s\<lparr>ms_cursor := Suc (ms_cursor ?s), ms_queue := [(qi_ID item, item')]\<rparr>"
  have q: "soleItem E (wi_ID inst) (ws_ID st) ?s item" and up: "\<not> en_isShuttingDown w" and wf: "store_wf ?s"
    and st: "map_of (ms_steps ?s) (ws_ID st) = Some st" "ws_InstanceID st = wi_ID inst" "ws_Status st \<in> {StepStatusPending, StepStatusFailed}"
    and inst: "map_of (ms_instances ?s) (wi_ID inst) = Some inst" "wi_Status inst = StatusRunning"
    using p unfolding poised_def by blast+
  have deq: "DequeueStep E worker ?s = (Ok (Some item'), s1)"
    using soleItem_dequeued [OF E(1) q] by (simp add: item'_def s1_def Let_def)
  have ids: "qi_ID item' = qi_ID item" "qi_InstanceID item' = wi_ID inst" "qi_StepID item' = Some (ws_ID st)"
    using q by (simp_all add: item'_def soleItem_def dueItem_def)
  have on: "worksOn E worker w item' s1 inst" using deq up inst wf ids by (simp add: worksOn_def)
  have found: "findStep E item' inst (claimed s1 w) = (Ok (SCopy st), claimed s1 w)"
    by (rule itemStep_found(1) [OF on]) (use st ids in \<open>simp add: itemStep_def\<close>)
  have d: "defAt s1 (wi_WorkflowID inst) = Some def" using p defAt_cong [of s1 ?s] by (simp add: poised_def s1_def)
  have "executeStep E inst (SCopy st) (claimed s1 w) = (Ok (), snd (unregisterInstanceContext (wi_ID inst) (ws_ID st) w1))"
  proof (rule executeStep_answers [where h = h])
    show "map_of (ms_steps (en_store (claimed s1 w))) (ws_ID st) = Some st" using st by (simp add: s1_def)
    show "defAt (en_store (claimed s1 w)) (wi_WorkflowID inst) = Some def" using d by simp
    show "map_of (ms_cancelRequests (en_store (claimed s1 w))) (wi_ID inst) = None" using p by (simp add: poised_def s1_def)
    show "en_pluginManager (claimed s1 w) = None" using p by (simp add: poised_def claimed_def)
  qed (use inst sd h E cont in \<open>simp_all add: answerOf_def answered_def deq\<close>)
  then have "processItem E item' (claimed s1 w) = (Ok False, snd (unregisterInstanceContext (wi_ID inst) (ws_ID st) w1))"
    using inst st sd h by (auto simp: processItem_def worksOn_claimed [OF on] found GetDefinition_run d needStep_run)
  from ExecuteNext_processed [OF up deq this] show ?thesis by (simp add: ids)
qed

text \<open>The end of a round: the context is given up, the item leaves the queue, the step is counted off.\<close>

definition wrapUp :: "int \<Rightarrow> int \<Rightarrow> int \<Rightarrow> Engine \<Rightarrow> Engine" where
  "wrapUp k iid sid w = uncounted (dropItem k (snd (unregisterInstanceContext iid sid w)))"

lemma wrapUp_fields [simp]:
  "en_store (wrapUp k iid sid w) = (en_store w)\<lparr>ms_queue := AList.delete k (ms_queue (en_store w))\<rparr>"
  "en_handlers (wrapUp k iid sid w) = en_handlers w" "en_isShuttingDown (wrapUp k iid sid w) = en_isShuttingDown w"
  "en_pluginManager (wrapUp k iid sid w) = en_pluginManager w" "en_hcalls (wrapUp k iid sid w) = en_hcalls w"
  by (auto simp: wrapUp_def uncounted_def dropItem_def unregisterInstanceContext_def Let_def split: option.splits)

lemma answered_fields:
  assumes "mono (clk E)" "poised E inst def ids st item w"
  shows "en_handlers (answered E worker inst st item w) = en_handlers w"
    "en_isShuttingDown (answered E worker inst st item w) = en_isShuttingDown w"
    "en_pluginManager (answered E worker inst st item w) = en_pluginManager w"
    "en_hcalls (answered E worker inst st item w) = Suc (en_hcalls w)"
    "ms_instances (en_store (answered E worker inst st item w)) = ms_instances (en_store w)"
    "ms_stepsByInstance (en_store (answered E worker inst st item w)) = ms_stepsByInstance (en_store w)"
    "ms_cancelRequests (en_store (answered E worker inst st item w)) = ms_cancelRequests (en_store w)"
    "ms_nextStepID (en_store (answered E worker inst st item w)) = ms_nextStepID (en_store w)"
    "ms_nextQueueID (en_store (answered E worker inst st item w)) = ms_nextQueueID (en_store w)"
    "defAt (en_store (answered E worker inst st item w)) wid = defAt (en_store w) wid"
    "\<exists>item'. ms_queue (en_store (answered E worker inst st item w)) = [(qi_ID item, item')]"
    "\<exists>st1. ms_steps (en_store (answered E worker inst st item w)) = AList.update (ws_ID st) st1 (ms_steps (en_store w)) \<and>
       ws_ID st1 = ws_ID st \<and> ws_StepName st1 = ws_StepName st \<and> ws_Input st1 = ws_Input st \<and>
       ws_InstanceID st1 = ws_InstanceID st \<and> ws_RetryCount st1 = ws_RetryCount st \<and> ws_MaxRetries st1 = ws_MaxRetries st \<and>
       ws_CompensationRetryCount st1 = ws_CompensationRetryCount st"
proof -
  have q: "soleItem E (wi_ID inst) (ws_ID st) (en_store w) item" using assms(2) by (simp add: poised_def)
  show "defAt (en_store (answered E worker inst st item w)) wid = defAt (en_store w) wid"
    by (rule defAt_cong) (simp_all add: answered_def soleItem_dequeued [OF assms(1) q] Let_def)
qed (use assms(2) in \<open>auto simp: answered_def soleItem_dequeued [OF assms(1)] poised_def Let_def claimed_def\<close>)

lemma fresh_ids:
  assumes "store_wf s"
  shows "ms_nextStepID s \<notin> set (stepIDsOf s i)" "map_of (ms_queue s) (ms_nextQueueID s) = None"
    "map_of (ms_steps s) (ms_nextStepID s) = None"
  using stepIDsOf_stored [OF assms, of "ms_nextStepID s" i] store_wfD(2,3) [OF assms] tableOK_fresh by fastforce+

lemma stepIDsOf_frame: "ms_stepsByInstance t = ms_stepsByInstance s \<Longrightarrow> stepIDsOf t i = stepIDsOf s i"
  by (simp add: stepIDsOf_def)

lemma ExecuteNext_wf: "store_wf (en_store w) \<Longrightarrow> ExecuteNext E worker w = (r, w') \<Longrightarrow> store_wf (en_store w')"
  using eok_wf [OF sys.ExecuteNext, of w E worker] by simp

text \<open>The stores after the success of a task whose successor is \<open>m\<close>.\<close>

definition succStore ::
    "env \<Rightarrow> WorkflowInstance \<Rightarrow> raw \<Rightarrow> WorkflowStep \<Rightarrow> string \<Rightarrow> StepDefinition \<Rightarrow> MemoryStore \<Rightarrow> MemoryStore" where
  "succStore E inst out st m sd s =
     snd (EnqueueStep E (wi_ID inst) (Some (ms_nextStepID s)) PriorityNormal (sd_Delay sd)
       (snd (CreateStep E (newStep (wi_ID inst) m (sd_Type sd) StepStatusPending out (sd_MaxRetries sd)) (doneStore E inst out st s))))"

lemma succ_run:
  assumes plain: "plainTasks def" and i: "map_of (ms_instances (en_store w)) (wi_ID inst) = Some inst" "wi_Status inst = StatusRunning"
    and d: "defAt (en_store w) (wi_WorkflowID inst) = Some def"
    and sd: "sd_Type sd = StepTypeTask" "sd_Next sd = [m]" "stepDefOf def m = Some sd'"
    and st: "map_of (ms_steps (en_store w)) (ws_ID st) = Some st'" "ws_ID st' = ws_ID st" "ws_StepName st' = ws_StepName st"
  shows "handleStepSuccess E inst (SCopy st) sd out True w = (Ok (), w\<lparr>en_store := succStore E inst out st' m sd' (en_store w)\<rparr>)"
proof -
  let ?w1 = "w\<lparr>en_store := doneStore E inst out st' (en_store w)\<rparr>"
  have "enqueueNextSteps E (wi_ID inst) [m] out ?w1 = (Ok (), w\<lparr>en_store := succStore E inst out st' m sd' (en_store w)\<rparr>)"
    using enqueueNextSteps_one [of ?w1 "wi_ID inst" inst def m sd' E out] i d sd(3)
    by (simp add: doneStore_def succStore_def madeStep_def CreateStep_def newStep_def Let_def)
  moreover have "sd_Type sd' \<noteq> StepTypeJoin" using plainTasks_stepDef [OF plain sd(3)] by simp
  ultimately show ?thesis
    using success_run [OF plain i(1) d sd(1) st] sd by (simp add: needStep_run)
qed

lemma succStore_fields:
  "ms_definitions (succStore E inst out st m sd s) = ms_definitions s" "ms_defheap (succStore E inst out st m sd s) = ms_defheap s"
  "ms_instances (succStore E inst out st m sd s) = ms_instances s"
  "ms_cancelRequests (succStore E inst out st m sd s) = ms_cancelRequests s"
  "stepIDsOf (succStore E inst out st m sd s) (wi_ID inst) = stepIDsOf s (wi_ID inst) @ [ms_nextStepID s]"
  "\<exists>st'. map_of (ms_steps (succStore E inst out st m sd s)) (ms_nextStepID s) = Some st' \<and>
     ws_ID st' = ms_nextStepID s \<and> ws_InstanceID st' = wi_ID inst \<and> ws_StepName st' = m \<and> ws_Status st' = StepStatusPending \<and>
     ws_Input st' = out \<and> ws_RetryCount st' = 0 \<and> ws_MaxRetries st' = sd_MaxRetries sd \<and> ws_CompensationRetryCount st' = 0 \<and>
     ms_steps (succStore E inst out st m sd s) = AList.update (ms_nextStepID s) st'
       (AList.update (ws_ID st) (stepAfter (clk E (ms_cursor s)) StepStatusCompleted out None st) (ms_steps s))"
  "sd_Delay sd = 0 \<Longrightarrow> \<exists>item t. t \<le> ms_cursor (succStore E inst out st m sd s) \<and>
     ms_queue (succStore E inst out st m sd s) = AList.update (ms_nextQueueID s) item (ms_queue s) \<and>
     qi_ID item = ms_nextQueueID s \<and> qi_InstanceID item = wi_ID inst \<and> qi_StepID item = Some (ms_nextStepID s) \<and>
     qi_Priority item = PriorityNormal \<and> qi_AttemptedAt item = None \<and> qi_ScheduledAt item = clk E t"
  by (auto simp: succStore_def EnqueueStep_def CreateStep_def newStep_def doneStore_def stepIDsOf_def Let_def
      intro!: exI [of _ "Suc (Suc (ms_cursor (recorded E (wi_ID inst) StepStatusCompleted out ''step_completed'' [(''step_name'', JStr (ws_StepName st))] st s)))"])

lemma poised_ids:
  assumes "poised E inst def ids st item w"
  shows "ws_ID st \<notin> set ids" "ms_nextStepID (en_store w) \<notin> set ids" "ms_nextStepID (en_store w) \<noteq> ws_ID st"
proof -
  have wf: "store_wf (en_store w)" and ids: "stepIDsOf (en_store w) (wi_ID inst) = ids @ [ws_ID st]"
    using assms unfolding poised_def by blast+
  show "ws_ID st \<notin> set ids" using stepIDsOf_distinct [OF wf, of "wi_ID inst"] unfolding ids by simp
  show "ms_nextStepID (en_store w) \<notin> set ids" "ms_nextStepID (en_store w) \<noteq> ws_ID st"
    using fresh_ids(1) [OF wf, of "wi_ID inst"] unfolding ids by auto
qed

lemma poised_next:
  assumes E: "mono (clk E)" "during E = (\<lambda>_. [])" and p: "poised E inst def ids st item w" and plain: "plainTasks def"
    and sd: "stepDefOf def (ws_StepName st) = Some sd" "sd_Next sd = [m]" "stepDefOf def m = Some sd'" "sd_Delay sd' = 0"
    and h: "map_of (en_handlers w) (sd_Handler sd) = Some h" "answerOf h inst st sd w = Inr out"
  shows "\<exists>w' st' item'. ExecuteNext E worker w = (Ok False, w') \<and> poised E inst def (ids @ [ws_ID st]) st' item' w' \<and>
    ws_StepName st' = m \<and> ws_Input st' = out \<and> ws_RetryCount st' = 0 \<and> ws_MaxRetries st' = sd_MaxRetries sd' \<and>
    traceOf (ms_steps (en_store w')) (ids @ [ws_ID st]) =
      traceOf (ms_steps (en_store w)) ids @ [(ws_StepName st, StepStatusCompleted, ws_Input st, out)] \<and>
    en_handlers w' = en_handlers w \<and> en_hcalls w' = Suc (en_hcalls w)"
proof -
  let ?s = "en_store w" and ?a = "answered E worker inst st item w"
  note p' = p [unfolded poised_def] and a = answered_fields [OF E(1) p, of worker]
  have task: "sd_Type sd = StepTypeTask" by (rule plainTasks_stepDef [OF plain sd(1)])
  obtain st1 where t: "ms_steps (en_store ?a) = AList.update (ws_ID st) st1 (ms_steps ?s)" and
    st1: "ws_ID st1 = ws_ID st" "ws_StepName st1 = ws_StepName st" "ws_Input st1 = ws_Input st"
      "ws_CompensationRetryCount st1 = ws_CompensationRetryCount st" using a(12) by blast
  define s2 where "s2 = succStore E inst out st1 m sd' (en_store ?a)"
  have run: "handleStepSuccess E inst (SCopy st) sd out True ?a = (Ok (), ?a\<lparr>en_store := s2\<rparr>)"
    unfolding s2_def by (rule succ_run [OF plain]) (use p' a sd task t st1 in simp_all)
  define w' where "w' = wrapUp (qi_ID item) (wi_ID inst) (ws_ID st) (?a\<lparr>en_store := s2\<rparr>)"
  have next': "ExecuteNext E worker w = (Ok False, w')"
    unfolding w'_def wrapUp_def by (rule poised_round [OF E p sd(1) task h(1)]) (simp add: h(2) run)
  note f = succStore_fields [where E = E and inst = inst and out = out and st = st1 and m = m and sd = sd' and s = "en_store ?a", folded s2_def]
  obtain st' where st': "map_of (ms_steps s2) (ms_nextStepID ?s) = Some st'" "ws_ID st' = ms_nextStepID ?s"
    "ws_InstanceID st' = wi_ID inst" "ws_StepName st' = m" "ws_Status st' = StepStatusPending" "ws_Input st' = out"
    "ws_RetryCount st' = 0" "ws_MaxRetries st' = sd_MaxRetries sd'" "ws_CompensationRetryCount st' = 0"
    "ms_steps s2 = AList.update (ms_nextStepID ?s) st' (AList.update (ws_ID st)
       (stepAfter (clk E (ms_cursor (en_store ?a))) StepStatusCompleted out None st1) (ms_steps (en_store ?a)))"
    using f(6) a(8) st1(1) by auto
  obtain item' u t' where q: "t' \<le> ms_cursor s2" "ms_queue s2 = AList.update (ms_nextQueueID ?s) item' [(qi_ID item, u)]"
    "qi_ID item' = ms_nextQueueID ?s" "qi_InstanceID item' = wi_ID inst" "qi_StepID item' = Some (ws_ID st')"
    "qi_Priority item' = PriorityNormal" "qi_AttemptedAt item' = None" "qi_ScheduledAt item' = clk E t'"
    using f(7) [OF sd(4)] a(8,9,11) st'(2) by auto
  have wf: "store_wf ?s" using p' by blast
  have "qi_ID item \<noteq> ms_nextQueueID ?s" using fresh_ids(2) [OF wf] p' by (auto simp: soleItem_def dueItem_def)
  with q have "soleItem E (wi_ID inst) (ws_ID st') (en_store w') item'"
    by (auto simp: soleItem_def dueItem_def w'_def PriorityNormal_def intro!: exI [of _ t'])
  moreover have "stepIDsOf (en_store w') (wi_ID inst) = ids @ [ws_ID st, ws_ID st']"
    using f(5) p' a(6,8) st'(2) by (simp add: w'_def stepIDsOf_def)
  moreover have "defAt (en_store w') (wi_WorkflowID inst) = Some def"
    using p' a(10) f(1,2) defAt_cong [of "en_store w'" "en_store ?a"] by (simp add: w'_def)
  moreover have "uncompensated (ms_steps (en_store w')) (wi_ID inst)"
    using p' uncompensatedD [of "ms_steps ?s" "wi_ID inst" "ws_ID st" st] st1(4) st'(9)
    by (simp add: w'_def st'(10) t uncompensated_update)
  ultimately have "poised E inst def (ids @ [ws_ID st]) st' item' w'"
    using ExecuteNext_wf [OF wf next'] p' a f(3,4) st' unfolding poised_def by (simp add: w'_def)
  moreover have "traceOf (ms_steps (en_store w')) (ids @ [ws_ID st]) =
      traceOf (ms_steps ?s) ids @ [(ws_StepName st, StepStatusCompleted, ws_Input st, out)]"
    using poised_ids [OF p] by (simp add: w'_def st'(10) t st1)
  ultimately show ?thesis using next' st' a by (intro exI [of _ w'] exI [of _ st'] exI [of _ item']) (simp add: w'_def)
qed

text \<open>The last step: the workflow completes.\<close>

lemma complete_run:
  assumes i: "map_of (ms_instances (en_store w)) (wi_ID inst) = Some inst"
    and ok: "\<forall>x \<in> set (instanceTrace (en_store w) (wi_ID inst)). fst (snd x) = StepStatusCompleted"
  shows "\<exists>s' i'. completeWorkflow E inst out w = (Ok (), w\<lparr>en_store := s'\<rparr>) \<and>
    map_of (ms_instances s') (wi_ID inst) = Some i' \<and> wi_Status i' = StatusCompleted \<and> wi_Output i' = out \<and> wi_Error i' = None \<and>
    ms_steps s' = ms_steps (en_store w) \<and> ms_queue s' = ms_queue (en_store w) \<and>
    ms_stepsByInstance s' = ms_stepsByInstance (en_store w)"
proof -
  obtain s' i' where u: "onStore (UpdateInstanceStatus E (wi_ID inst) StatusCompleted out None) w = (Ok (), w\<lparr>en_store := s'\<rparr>)"
    "map_of (ms_instances s') = (map_of (ms_instances (en_store w)))(wi_ID inst \<mapsto> i')"
    "wi_Status i' = StatusCompleted" "wi_Output i' = out" "wi_Error i' = None"
    "ms_steps s' = ms_steps (en_store w)" "ms_queue s' = ms_queue (en_store w)"
    "ms_stepsByInstance s' = ms_stepsByInstance (en_store w)"
    using UpdateInstanceStatus_run [OF i, of E StatusCompleted out None] by blast
  have "\<not> hasFailedOrRolledBackSteps (en_store w) (wi_ID inst)"
    using ok by (auto simp: hasFailedOrRolledBackSteps_def hasStatus_trace)
  then have "completeWorkflow E inst out w = (Ok (), w\<lparr>en_store := logged E (wi_ID inst) None ''workflow_completed''
      [(''workflow_id'', JStr (wi_WorkflowID inst))] s'\<rparr>)"
    by (simp add: completeWorkflow_def u(1))
  with u show ?thesis
    by (intro exI [of _ "logged E (wi_ID inst) None ''workflow_completed'' [(''workflow_id'', JStr (wi_WorkflowID inst))] s'"]
        exI [of _ i']) simp
qed

lemma poised_last:
  assumes E: "mono (clk E)" "during E = (\<lambda>_. [])" and p: "poised E inst def ids st item w" and plain: "plainTasks def"
    and sd: "stepDefOf def (ws_StepName st) = Some sd" "sd_Next sd = []"
    and ok: "\<forall>x \<in> set (traceOf (ms_steps (en_store w)) ids). fst (snd x) = StepStatusCompleted"
    and h: "map_of (en_handlers w) (sd_Handler sd) = Some h" "answerOf h inst st sd w = Inr out"
  shows "\<exists>w' i'. ExecuteNext E worker w = (Ok False, w') \<and>
    map_of (ms_instances (en_store w')) (wi_ID inst) = Some i' \<and> wi_Status i' = StatusCompleted \<and> wi_Output i' = out \<and>
    wi_Error i' = None \<and> ms_queue (en_store w') = [] \<and>
    instanceTrace (en_store w') (wi_ID inst) =
      traceOf (ms_steps (en_store w)) ids @ [(ws_StepName st, StepStatusCompleted, ws_Input st, out)] \<and>
    en_hcalls w' = Suc (en_hcalls w)"
proof -
  let ?s = "en_store w" and ?a = "answered E worker inst st item w"
  let ?trace = "traceOf (ms_steps ?s) ids @ [(ws_StepName st, StepStatusCompleted, ws_Input st, out)]"
  note p' = p [unfolded poised_def] and a = answered_fields [OF E(1) p, of worker]
  have task: "sd_Type sd = StepTypeTask" by (rule plainTasks_stepDef [OF plain sd(1)])
  obtain st1 where t: "ms_steps (en_store ?a) = AList.update (ws_ID st) st1 (ms_steps ?s)" and
    st1: "ws_ID st1 = ws_ID st" "ws_StepName st1 = ws_StepName st" "ws_Input st1 = ws_Input st" using a(12) by blast
  let ?w1 = "?a\<lparr>en_store := doneStore E inst out st1 (en_store ?a)\<rparr>"
  have ids: "stepIDsOf (en_store ?w1) (wi_ID inst) = ids @ [ws_ID st]"
    using p' a(6) by (simp add: doneStore_def stepIDsOf_def)
  have trace: "instanceTrace (en_store ?w1) (wi_ID inst) = ?trace"
    using poised_ids [OF p] unfolding instanceTrace_def ids by (simp add: doneStore_def t st1)
  with ok have done': "\<forall>x \<in> set (instanceTrace (en_store ?w1) (wi_ID inst)). fst (snd x) = StepStatusCompleted" by auto
  then have "\<not> hasUnfinishedSteps (en_store ?w1) (wi_ID inst)" by (auto simp: hasUnfinishedSteps_def hasStatus_trace)
  moreover have "handleStepSuccess E inst (SCopy st) sd out True ?a =
      gbind (gread (\<lambda>w. hasUnfinishedSteps (en_store w) (wi_ID inst)))
        (\<lambda>unfinished. if unfinished then gret () else completeWorkflow E inst out) ?w1"
    by (subst success_run [OF plain, of _ inst _ _ st1]) (use p' a sd task t st1 in simp_all)
  moreover obtain s' i' where c: "completeWorkflow E inst out ?w1 = (Ok (), ?w1\<lparr>en_store := s'\<rparr>)"
    "map_of (ms_instances s') (wi_ID inst) = Some i'" "wi_Status i' = StatusCompleted" "wi_Output i' = out" "wi_Error i' = None"
    "ms_steps s' = ms_steps (en_store ?w1)" "ms_queue s' = ms_queue (en_store ?w1)"
    "ms_stepsByInstance s' = ms_stepsByInstance (en_store ?w1)"
    using complete_run [OF _ done', of E out] p' a(5) by (auto simp: doneStore_def)
  ultimately have run: "handleStepSuccess E inst (SCopy st) sd out True ?a = (Ok (), ?a\<lparr>en_store := s'\<rparr>)" by simp
  define w' where "w' = wrapUp (qi_ID item) (wi_ID inst) (ws_ID st) (?a\<lparr>en_store := s'\<rparr>)"
  have next': "ExecuteNext E worker w = (Ok False, w')"
    unfolding w'_def wrapUp_def by (rule poised_round [OF E p sd(1) task h(1)]) (simp add: h(2) run)
  have "ms_queue (en_store w') = []" using a(11) c(7) by (auto simp: w'_def doneStore_def)
  moreover have "instanceTrace (en_store w') (wi_ID inst) = ?trace"
    using trace c(6,8) by (simp add: instanceTrace_def stepIDsOf_def w'_def)
  ultimately show ?thesis using next' c a(4) by (intro exI [of _ w'] exI [of _ i']) (simp add: w'_def)
qed

text \<open>A failure within the budget: the step waits again.\<close>

lemma poised_fails:
  assumes E: "mono (clk E)" "during E = (\<lambda>_. [])" and p: "poised E inst def ids st item w"
    and sd: "stepDefOf def (ws_StepName st) = Some sd" "sd_Type sd = StepTypeTask" "sd_Delay sd = 0" "mayRetry sd st"
    and h: "map_of (en_handlers w) (sd_Handler sd) = Some h" "answerOf h inst st sd w = Inl err"
  shows "\<exists>w' st' item'. ExecuteNext E worker w = (Ok False, w') \<and> poised E inst def ids st' item' w' \<and>
    ws_StepName st' = ws_StepName st \<and> ws_Input st' = ws_Input st \<and> ws_RetryCount st' = ws_RetryCount st + 1 \<and>
    ws_MaxRetries st' = ws_MaxRetries st \<and>
    traceOf (ms_steps (en_store w')) ids = traceOf (ms_steps (en_store w)) ids \<and>
    en_handlers w' = en_handlers w \<and> en_hcalls w' = Suc (en_hcalls w)"
proof -
  let ?s = "en_store w" and ?a = "answered E worker inst st item w"
  note p' = p [unfolded poised_def] and a = answered_fields [OF E(1) p, of worker]
  obtain st1 where t: "ms_steps (en_store ?a) = AList.update (ws_ID st) st1 (ms_steps ?s)" and
    st1: "ws_ID st1 = ws_ID st" "ws_StepName st1 = ws_StepName st" "ws_Input st1 = ws_Input st" "ws_InstanceID st1 = ws_InstanceID st"
      "ws_RetryCount st1 = ws_RetryCount st" "ws_MaxRetries st1 = ws_MaxRetries st"
      "ws_CompensationRetryCount st1 = ws_CompensationRetryCount st" using a(12) by blast
  define s2 where "s2 = retryStore E inst sd (errStr err) st st1 (en_store ?a)"
  define st' where "st' = stepAfter (clk E (ms_cursor (en_store ?a))) StepStatusFailed RawNil (Some (errStr err)) st1"
  note f = retryStore_fields [where E = E and inst = inst and sd = sd and errMsg = "errStr err" and st = st and ?st0.0 = st1
      and s = "en_store ?a", folded s2_def st'_def]
  have run: "handleStepFailure E inst (SCopy st) sd err ?a = (Ok (), ?a\<lparr>en_store := s2\<rparr>)"
    unfolding s2_def by (rule retry_run) (simp_all add: t sd)
  define w' where "w' = wrapUp (qi_ID item) (wi_ID inst) (ws_ID st) (?a\<lparr>en_store := s2\<rparr>)"
  have next': "ExecuteNext E worker w = (Ok False, w')"
    unfolding w'_def wrapUp_def by (rule poised_round [OF E p sd(1,2) h(1)]) (simp add: h(2) run)
  obtain item' u t' where q: "t' \<le> ms_cursor s2" "ms_queue s2 = AList.update (ms_nextQueueID ?s) item' [(qi_ID item, u)]"
    "qi_ID item' = ms_nextQueueID ?s" "qi_InstanceID item' = wi_ID inst" "qi_StepID item' = Some (ws_ID st)"
    "qi_Priority item' = PriorityHigh" "qi_AttemptedAt item' = None" "qi_ScheduledAt item' = clk E t'"
    using f(8,9) a(9,11) sd(3) by (metis add.right_neutral le_SucI order_refl)
  have wf: "store_wf ?s" using p' by blast
  have "qi_ID item \<noteq> ms_nextQueueID ?s" using fresh_ids(2) [OF wf] p' by (auto simp: soleItem_def dueItem_def)
  with q have "soleItem E (wi_ID inst) (ws_ID st') (en_store w') item'"
    by (auto simp: soleItem_def dueItem_def w'_def PriorityHigh_def st'_def st1 intro!: exI [of _ t'])
  moreover have "defAt (en_store w') (wi_WorkflowID inst) = Some def"
    using p' a(10) f(1,2) defAt_cong [of "en_store w'" "en_store ?a"] by (simp add: w'_def)
  moreover have "uncompensated (ms_steps (en_store w')) (wi_ID inst)"
    using p' uncompensatedD [of "ms_steps ?s" "wi_ID inst" "ws_ID st" st] st1(7) by (simp add: w'_def f(7) t uncompensated_update st'_def)
  ultimately have "poised E inst def ids st' item' w'"
    using ExecuteNext_wf [OF wf next'] p' a f st1 unfolding poised_def by (simp add: w'_def st'_def stepIDsOf_def)
  moreover have "traceOf (ms_steps (en_store w')) ids = traceOf (ms_steps ?s) ids"
    using poised_ids [OF p] by (simp add: w'_def f(7) t)
  ultimately show ?thesis
    using next' a st1 by (intro exI [of _ w'] exI [of _ st'] exI [of _ item']) (simp add: w'_def st'_def)
qed

section \<open>The run of a line of tasks\<close>

primrec taskLine :: "WorkflowDefinition \<Rightarrow> string list \<Rightarrow> bool" where
  "taskLine def [] = True"
| "taskLine def (n # ns) = (case stepDefOf def n of
     None \<Rightarrow> False
   | Some sd \<Rightarrow> sd_Next sd = take 1 ns \<and> sd_Delay sd = 0 \<and> taskLine def ns)"

text \<open>How often a step may fail and be tried again.\<close>

definition retryBudget :: "StepDefinition \<Rightarrow> int" where
  "retryBudget sd = (if sd_NoIdempotent sd then min 1 (max 0 (sd_MaxRetries sd)) else max 0 (sd_MaxRetries sd))"

lemma mayRetry_budget:
  "0 \<le> ws_RetryCount st \<Longrightarrow> ws_MaxRetries st = sd_MaxRetries sd \<Longrightarrow> mayRetry sd st \<longleftrightarrow> ws_RetryCount st < retryBudget sd"
  by (auto simp: mayRetry_def retryBudget_def)

text \<open>
  The handler of step \<open>n\<close> fails the first \<open>fails n\<close> times it is called for a step, which the retry limit allows, and
  computes \<open>f n\<close> of its input after that. It may look at everything in its context.
\<close>

definition handles ::
    "(string \<Rightarrow> raw \<Rightarrow> raw) \<Rightarrow> (string \<Rightarrow> nat) \<Rightarrow> WorkflowDefinition \<Rightarrow> (string \<times> handler) list \<Rightarrow> string \<Rightarrow> bool" where
  "handles f fails def hs n \<longleftrightarrow> (\<exists>sd h. stepDefOf def n = Some sd \<and> map_of hs (sd_Handler sd) = Some h \<and>
     int (fails n) \<le> retryBudget sd \<and> (\<forall>k ctx v. ec_stepName ctx = n \<longrightarrow> 0 \<le> ec_retryCount ctx \<longrightarrow>
        (if ec_retryCount ctx < int (fails n) then \<exists>err. noPanicExecute h k ctx v = Inl err
         else noPanicExecute h k ctx v = Inr (f n v))))"

text \<open>Rounds of any workers, each of which found work and returned without an error.\<close>

primrec busyRounds :: "env \<Rightarrow> string list \<Rightarrow> Engine \<Rightarrow> Engine option" where
  "busyRounds E [] w = Some w"
| "busyRounds E (worker # ws) w = (case ExecuteNext E worker w of (Ok False, w') \<Rightarrow> busyRounds E ws w' | _ \<Rightarrow> None)"

lemma busyRounds_step: "ExecuteNext E worker w = (Ok False, w') \<Longrightarrow> busyRounds E (worker # ws) w = busyRounds E ws w'"
  by simp

declare busyRounds.simps(2) [simp del]

lemma busyRounds_append: "busyRounds E (ws @ vs) w = Option.bind (busyRounds E ws w) (busyRounds E vs)"
  by (induction ws arbitrary: w) (auto simp: busyRounds.simps(2) split: prod.split res.split bool.split)

text \<open>What the steps come to: each gets the output of the one before.\<close>

primrec lineTrace :: "(string \<Rightarrow> raw \<Rightarrow> raw) \<Rightarrow> string list \<Rightarrow> raw \<Rightarrow> (string \<times> StepStatus \<times> raw \<times> raw) list" where
  "lineTrace f [] v = []"
| "lineTrace f (n # ns) v = (n, StepStatusCompleted, v, f n v) # lineTrace f ns (f n v)"

lemma lineTrace_append: "lineTrace f (ns @ ms) v = lineTrace f ns v @ lineTrace f ms (fold f ns v)"
  by (induction ns arbitrary: v) simp_all

lemma taskLine_last: "taskLine def (ns @ ms) \<Longrightarrow> taskLine def ms"
  by (induction ns) (auto split: option.splits)

lemma lineTrace_completed: "\<forall>x \<in> set (lineTrace f ns v). fst (snd x) = StepStatusCompleted"
  by (induction ns arbitrary: v) auto

text \<open>The failures of one step, within its budget.\<close>

lemma failures_pass:
  assumes E: "mono (clk E)" "during E = (\<lambda>_. [])" and p: "poised E inst def ids st item w"
    and sd: "stepDefOf def (ws_StepName st) = Some sd" "sd_Type sd = StepTypeTask" "sd_Delay sd = 0"
    and h: "map_of (en_handlers w) (sd_Handler sd) = Some h"
      "\<And>k ctx v. ec_stepName ctx = ws_StepName st \<Longrightarrow> 0 \<le> ec_retryCount ctx \<Longrightarrow> ec_retryCount ctx < int c \<Longrightarrow>
         \<exists>err. noPanicExecute h k ctx v = Inl err"
    and max: "ws_MaxRetries st = sd_MaxRetries sd" "int c \<le> retryBudget sd"
    and c: "0 \<le> ws_RetryCount st" "ws_RetryCount st + int (length ws) = int c"
  shows "\<exists>w' st' item'. busyRounds E ws w = Some w' \<and> poised E inst def ids st' item' w' \<and>
    ws_StepName st' = ws_StepName st \<and> ws_Input st' = ws_Input st \<and> ws_RetryCount st' = int c \<and>
    ws_MaxRetries st' = ws_MaxRetries st \<and>
    traceOf (ms_steps (en_store w')) ids = traceOf (ms_steps (en_store w)) ids \<and>
    en_handlers w' = en_handlers w \<and> en_hcalls w' = en_hcalls w + length ws"
  using p sd h max c
proof (induction ws arbitrary: st item w)
  case Nil
  then show ?case by auto
next
  case (Cons worker ws)
  have "\<exists>err. answerOf h inst st sd w = Inl err"
    unfolding answerOf_def by (rule Cons.prems(6)) (use Cons.prems(9,10) in simp_all)
  then obtain err where err: "answerOf h inst st sd w = Inl err" by blast
  have may: "mayRetry sd st" using mayRetry_budget [OF Cons.prems(9,7)] Cons.prems(8,10) by simp
  obtain w1 st1 item1 where r: "ExecuteNext E worker w = (Ok False, w1)" "poised E inst def ids st1 item1 w1"
    "ws_StepName st1 = ws_StepName st" "ws_Input st1 = ws_Input st" "ws_RetryCount st1 = ws_RetryCount st + 1"
    "ws_MaxRetries st1 = ws_MaxRetries st"
    "traceOf (ms_steps (en_store w1)) ids = traceOf (ms_steps (en_store w)) ids"
    "en_handlers w1 = en_handlers w" "en_hcalls w1 = Suc (en_hcalls w)"
    using poised_fails [OF E Cons.prems(1-4) may Cons.prems(5) err] by blast
  from Cons.IH [OF r(2)] Cons.prems r show ?case by (simp add: busyRounds_step)
qed

text \<open>One step of a line, up to the round in which it succeeds.\<close>

lemma step_ready:
  assumes E: "mono (clk E)" "during E = (\<lambda>_. [])" and plain: "plainTasks def" and line: "taskLine def (n # ns)"
    and h: "handles f fails def (en_handlers w) n" and p: "poised E inst def ids st item w"
    and st: "ws_StepName st = n" "ws_RetryCount st = 0" "\<And>sd. stepDefOf def n = Some sd \<Longrightarrow> ws_MaxRetries st = sd_MaxRetries sd"
    and len: "length ws = Suc (fails n)"
  obtains worker w' st' item' sd h' where "busyRounds E ws w = busyRounds E [worker] w'"
    "poised E inst def ids st' item' w'" "ws_StepName st' = n" "ws_Input st' = ws_Input st"
    "stepDefOf def n = Some sd" "sd_Next sd = take 1 ns" "map_of (en_handlers w') (sd_Handler sd) = Some h'"
    "answerOf h' inst st' sd w' = Inr (f n (ws_Input st))"
    "traceOf (ms_steps (en_store w')) ids = traceOf (ms_steps (en_store w)) ids"
    "en_handlers w' = en_handlers w" "en_hcalls w' = en_hcalls w + fails n"
proof -
  obtain sd where sd: "stepDefOf def n = Some sd" "sd_Next sd = take 1 ns" "sd_Delay sd = 0"
    using line by (auto split: option.splits)
  obtain us worker where ws: "ws = us @ [worker]" "length us = fails n" using len by (auto simp: length_Suc_conv_rev)
  obtain h' where h': "map_of (en_handlers w) (sd_Handler sd) = Some h'" "int (fails n) \<le> retryBudget sd"
    "\<And>k ctx v. ec_stepName ctx = n \<Longrightarrow> 0 \<le> ec_retryCount ctx \<Longrightarrow>
       if ec_retryCount ctx < int (fails n) then \<exists>err. noPanicExecute h' k ctx v = Inl err else noPanicExecute h' k ctx v = Inr (f n v)"
    using h sd(1) unfolding handles_def by auto
  have "\<exists>w' st' item'. busyRounds E us w = Some w' \<and> poised E inst def ids st' item' w' \<and>
    ws_StepName st' = ws_StepName st \<and> ws_Input st' = ws_Input st \<and> ws_RetryCount st' = int (fails n) \<and>
    ws_MaxRetries st' = ws_MaxRetries st \<and>
    traceOf (ms_steps (en_store w')) ids = traceOf (ms_steps (en_store w)) ids \<and>
    en_handlers w' = en_handlers w \<and> en_hcalls w' = en_hcalls w + length us"
  proof (rule failures_pass [OF E p _ plainTasks_stepDef [OF plain sd(1)] sd(3) h'(1)])
    show "\<exists>err. noPanicExecute h' k ctx v = Inl err"
      if "ec_stepName ctx = ws_StepName st" "0 \<le> ec_retryCount ctx" "ec_retryCount ctx < int (fails n)" for k ctx v
      using h'(3) [of ctx] that st(1) by simp
  qed (use sd st h'(2) ws in simp_all)
  then obtain w' st' item' where r: "busyRounds E us w = Some w'" "poised E inst def ids st' item' w'"
    "ws_StepName st' = n" "ws_Input st' = ws_Input st" "ws_RetryCount st' = int (fails n)"
    "traceOf (ms_steps (en_store w')) ids = traceOf (ms_steps (en_store w)) ids"
    "en_handlers w' = en_handlers w" "en_hcalls w' = en_hcalls w + length us" using st(1) by auto
  have "answerOf h' inst st' sd w' = Inr (f n (ws_Input st))"
    unfolding answerOf_def using h'(3) [of "taskContext inst st' sd"] r(3-5) by simp
  with that [of worker w'] r sd h'(1) ws show thesis by (simp add: busyRounds_append)
qed

text \<open>A line of tasks up to the moment the step \<open>m\<close> waits.\<close>

lemma line_reaches:
  assumes E: "mono (clk E)" "during E = (\<lambda>_. [])" and plain: "plainTasks def" and line: "taskLine def (ns @ m # ms)"
    and h: "\<forall>n \<in> set ns. handles f fails def (en_handlers w) n" and p: "poised E inst def ids st item w"
    and st: "ws_StepName st = hd (ns @ [m])" "ws_RetryCount st = 0"
      "\<And>sd. stepDefOf def (hd (ns @ [m])) = Some sd \<Longrightarrow> ws_MaxRetries st = sd_MaxRetries sd"
    and len: "length ws = (\<Sum>n \<leftarrow> ns. Suc (fails n))"
  shows "\<exists>w' ids' st' item'. busyRounds E ws w = Some w' \<and> poised E inst def ids' st' item' w' \<and> ws_StepName st' = m \<and>
    ws_RetryCount st' = 0 \<and> (\<forall>sd. stepDefOf def m = Some sd \<longrightarrow> ws_MaxRetries st' = sd_MaxRetries sd) \<and>
    ws_Input st' = fold f ns (ws_Input st) \<and>
    traceOf (ms_steps (en_store w')) ids' = traceOf (ms_steps (en_store w)) ids @ lineTrace f ns (ws_Input st) \<and>
    en_handlers w' = en_handlers w \<and> en_hcalls w' = en_hcalls w + length ws"
  using line h p st len
proof (induction ns arbitrary: ids st item w ws)
  case Nil
  then show ?case by auto
next
  case (Cons n ns)
  define us vs where "us = take (Suc (fails n)) ws" and "vs = drop (Suc (fails n)) ws"
  have ws: "ws = us @ vs" "length us = Suc (fails n)" "length vs = (\<Sum>n \<leftarrow> ns. Suc (fails n))"
    using Cons.prems(7) by (simp_all add: us_def vs_def)
  obtain m' ms' where next': "ns @ m # ms = m' # ms'" "m' = hd (ns @ [m])" by (cases ns) auto
  obtain sd' where sd': "stepDefOf def m' = Some sd'" "sd_Delay sd' = 0" "taskLine def (ns @ m # ms)"
    using Cons.prems(1) next' by (auto split: option.splits)
  have st: "ws_StepName st = n" "\<And>sd. stepDefOf def n = Some sd \<Longrightarrow> ws_MaxRetries st = sd_MaxRetries sd"
    and hn: "handles f fails def (en_handlers w) n" and line: "taskLine def (n # ns @ m # ms)"
    using Cons.prems by simp_all
  from step_ready [where f = f and fails = fails, OF E plain line hn Cons.prems(3) st(1) Cons.prems(5) st(2) ws(2)]
  obtain worker w1 st1 item1 sd h' where r: "busyRounds E us w = busyRounds E [worker] w1" "poised E inst def ids st1 item1 w1"
    "ws_StepName st1 = n" "ws_Input st1 = ws_Input st" "stepDefOf def n = Some sd" "sd_Next sd = take 1 (ns @ m # ms)"
    "map_of (en_handlers w1) (sd_Handler sd) = Some h'" "answerOf h' inst st1 sd w1 = Inr (f n (ws_Input st))"
    "traceOf (ms_steps (en_store w1)) ids = traceOf (ms_steps (en_store w)) ids"
    "en_handlers w1 = en_handlers w" "en_hcalls w1 = en_hcalls w + fails n" .
  have "sd_Next sd = [m']" using r(6) next' by simp
  from poised_next [OF E r(2) plain _ this sd'(1,2) r(7,8), of worker] r
  obtain w2 st2 item2 where q: "ExecuteNext E worker w1 = (Ok False, w2)" "poised E inst def (ids @ [ws_ID st1]) st2 item2 w2"
    "ws_StepName st2 = m'" "ws_Input st2 = f n (ws_Input st)" "ws_RetryCount st2 = 0" "ws_MaxRetries st2 = sd_MaxRetries sd'"
    "traceOf (ms_steps (en_store w2)) (ids @ [ws_ID st1]) =
      traceOf (ms_steps (en_store w)) ids @ [(n, StepStatusCompleted, ws_Input st, f n (ws_Input st))]"
    "en_handlers w2 = en_handlers w" "en_hcalls w2 = Suc (en_hcalls w + fails n)" by auto
  have "busyRounds E ws w = busyRounds E vs w2"
    using r(1) q(1) unfolding ws(1) busyRounds_append by (simp add: busyRounds_step)
  with Cons.IH [OF sd'(3) _ q(2) _ q(5) _ ws(3)] next'(2) sd'(1) q ws Cons.prems(2) show ?case by (simp add: add.assoc)
qed

text \<open>A line of tasks, from the moment its first step waits.\<close>

lemma line_completes:
  assumes E: "mono (clk E)" "during E = (\<lambda>_. [])" and plain: "plainTasks def" and line: "taskLine def (ns @ [m])"
    and h: "\<forall>n \<in> set (ns @ [m]). handles f fails def (en_handlers w) n" and p: "poised E inst def [] st item w"
    and st: "ws_StepName st = hd (ns @ [m])" "ws_RetryCount st = 0"
      "\<And>sd. stepDefOf def (hd (ns @ [m])) = Some sd \<Longrightarrow> ws_MaxRetries st = sd_MaxRetries sd"
    and len: "length ws = (\<Sum>n \<leftarrow> ns @ [m]. Suc (fails n))"
  shows "\<exists>w' i'. busyRounds E ws w = Some w' \<and> map_of (ms_instances (en_store w')) (wi_ID inst) = Some i' \<and>
    wi_Status i' = StatusCompleted \<and> wi_Output i' = fold f (ns @ [m]) (ws_Input st) \<and> wi_Error i' = None \<and>
    ms_queue (en_store w') = [] \<and> instanceTrace (en_store w') (wi_ID inst) = lineTrace f (ns @ [m]) (ws_Input st) \<and>
    en_hcalls w' = en_hcalls w + length ws"
proof -
  define us vs where "us = take (\<Sum>n \<leftarrow> ns. Suc (fails n)) ws" and "vs = drop (\<Sum>n \<leftarrow> ns. Suc (fails n)) ws"
  have ws: "ws = us @ vs" "length us = (\<Sum>n \<leftarrow> ns. Suc (fails n))" "length vs = Suc (fails m)"
    using len by (simp_all add: us_def vs_def)
  have empty: "traceOf (ms_steps (en_store w)) [] = []" by (simp add: traceOf_def map_filter_def)
  from line_reaches [OF E plain _ _ p st ws(2), of "[]" f] line h
  obtain w1 ids st1 item1 where r: "busyRounds E us w = Some w1" "poised E inst def ids st1 item1 w1" "ws_StepName st1 = m"
    "ws_RetryCount st1 = 0" "\<And>sd. stepDefOf def m = Some sd \<Longrightarrow> ws_MaxRetries st1 = sd_MaxRetries sd"
    "ws_Input st1 = fold f ns (ws_Input st)" "traceOf (ms_steps (en_store w1)) ids = lineTrace f ns (ws_Input st)"
    "en_handlers w1 = en_handlers w" "en_hcalls w1 = en_hcalls w + length us" by (auto simp: empty)
  have hm: "handles f fails def (en_handlers w1) m" using h r(8) by simp
  from step_ready [where f = f and fails = fails, OF E plain taskLine_last [OF line] hm r(2-5) ws(3)]
  obtain worker w2 st2 item2 sd h' where q: "busyRounds E vs w1 = busyRounds E [worker] w2" "poised E inst def ids st2 item2 w2"
    "ws_StepName st2 = m" "ws_Input st2 = ws_Input st1" "stepDefOf def m = Some sd" "sd_Next sd = take 1 []"
    "map_of (en_handlers w2) (sd_Handler sd) = Some h'" "answerOf h' inst st2 sd w2 = Inr (f m (ws_Input st1))"
    "traceOf (ms_steps (en_store w2)) ids = traceOf (ms_steps (en_store w1)) ids"
    "en_handlers w2 = en_handlers w1" "en_hcalls w2 = en_hcalls w1 + fails m" .
  have ok: "\<forall>x \<in> set (traceOf (ms_steps (en_store w2)) ids). fst (snd x) = StepStatusCompleted"
    unfolding q(9) r(7) by (rule lineTrace_completed)
  from poised_last [OF E q(2) plain _ _ ok q(7,8), of worker] q ws r show ?thesis
    by (auto simp: busyRounds_append busyRounds_step lineTrace_append)
qed

section \<open>From the builder to the result\<close>

text \<open>An engine with an empty queue that knows nothing of the instance it will create next.\<close>

definition idle :: "Engine \<Rightarrow> bool" where
  "idle w \<longleftrightarrow> store_wf (en_store w) \<and> \<not> en_isShuttingDown w \<and> en_pluginManager w = None \<and> ms_queue (en_store w) = [] \<and>
     stepIDsOf (en_store w) (ms_nextInstanceID (en_store w)) = [] \<and>
     map_of (ms_cancelRequests (en_store w)) (ms_nextInstanceID (en_store w)) = None"

definition registerAndStart :: "env \<Rightarrow> WorkflowDefinition \<Rightarrow> raw \<Rightarrow> int ego" where
  "registerAndStart E def input = gbind (RegisterWorkflow E def) (\<lambda>d. Start E (wd_ID d) input)"

lemma register_idle:
  assumes "validateDefinition def = None" "idle w"
  obtains def' w' where "RegisterWorkflow E def w = (Ok def', w')" "defAt (en_store w') (wd_ID def') = Some def'"
    "validateDefinition def' = None" "wd_Definition def' = wd_Definition def" "idle w'" "en_handlers w' = en_handlers w"
    "en_hcalls w' = en_hcalls w"
proof -
  from RegisterWorkflow_run [OF assms(1), of E w] obtain def' s where
    r: "RegisterWorkflow E def w = (Ok def', w\<lparr>en_store := s\<rparr>)" "defAt s (wd_ID def') = Some def'"
    "validateDefinition def' = None" "wd_Definition def' = wd_Definition def"
    "ms_queue s = ms_queue (en_store w)" "ms_stepsByInstance s = ms_stepsByInstance (en_store w)"
    "ms_nextInstanceID s = ms_nextInstanceID (en_store w)" "ms_cancelRequests s = ms_cancelRequests (en_store w)" .
  have "store_wf s" using eok_wf [OF sys.RegisterWorkflow, of w E def] assms(2) by (simp add: r(1) idle_def)
  then have "idle (w\<lparr>en_store := s\<rparr>)" using assms(2) r by (simp add: idle_def stepIDsOf_def)
  with that [OF r(1)] r show thesis by simp
qed

lemma start_poised:
  assumes d: "defAt (en_store w) wid = Some def" and ok: "validateDefinition def = None" and i: "idle w"
    and sd: "stepDefOf def (gd_Start (wd_Definition def)) = Some sd" "sd_Delay sd = 0"
  shows "\<exists>w' inst st item. Start E wid input w = (Ok (wi_ID inst), w') \<and> poised E inst def [] st item w' \<and>
    ws_StepName st = gd_Start (wd_Definition def) \<and> ws_RetryCount st = 0 \<and> ws_MaxRetries st = sd_MaxRetries sd \<and>
    ws_Input st = input \<and> en_handlers w' = en_handlers w \<and> en_hcalls w' = en_hcalls w"
proof -
  let ?s = "en_store w" and ?iid = "ms_nextInstanceID (en_store w)"
  let ?s3 = "startInstance E wid input ?s"
  let ?w' = "w\<lparr>en_store := startStep E ?iid def sd input ?s3\<rparr>"
  let ?st = "madeStep (E, firstStep ?iid def sd input) ?s3"
  let ?item = "queuedItem (E, ?iid, Some (ms_nextStepID ?s3), PriorityNormal, sd_Delay sd) (snd (CreateStep E (firstStep ?iid def sd input) ?s3))"
  note idle = i [unfolded idle_def]
  have "pluginsAllowStart w" using idle by (simp add: pluginsAllowStart_def)
  from Start_run [OF d ok this sd(1)] have run: "Start E wid input w = (Ok ?iid, ?w')" .
  obtain inst where inst: "map_of (ms_instances ?s3) ?iid = Some inst" "wi_Status inst = StatusRunning" "wi_WorkflowID inst = wid"
    using startInstance_instance by blast
  have wf: "store_wf (en_store ?w')" using eok_wf [OF sys.Start, of w E wid input] idle by (simp add: run)
  note t = startStep_tables [where iid = ?iid and def = def and sd = sd and input = input and s = ?s3 and E = E]
  have iid: "wi_ID inst = ?iid" using tableOK_id [OF store_wfD(1) [OF wf], of ?iid inst] inst t(1) by simp
  have "defAt (en_store ?w') wid = Some def"
    using d defAt_cong [of "en_store ?w'" ?s] by (simp add: startStep_def EnqueueStep_def CreateStep_def Let_def)
  moreover have "soleItem E ?iid (ws_ID ?st) (en_store ?w') ?item"
    using idle sd(2) by (auto simp: soleItem_def dueItem_def startStep_def EnqueueStep_def CreateStep_def queuedItem_def madeStep_def
        firstStep_def newStep_def PriorityNormal_def Let_def intro!: exI [of _ "Suc (Suc (ms_cursor ?s3))"])
  moreover have "map_of (ms_cancelRequests (en_store ?w')) ?iid = None"
    using idle by (simp add: startStep_def EnqueueStep_def CreateStep_def startInstance_def UpdateInstanceStatus_def
        CreateInstance_def Let_def split: option.split)
  moreover have "stepIDsOf (en_store ?w') ?iid = [ws_ID ?st]"
    using t(3) idle by (simp add: stepIDsOf_frame [of ?s3 ?s])
  moreover have "uncompensated (ms_steps (en_store ?w')) ?iid"
  proof (unfold uncompensated_def, intro allI impI)
    fix k x assume x: "map_of (ms_steps (en_store ?w')) k = Some x" "ws_InstanceID x = ?iid"
    then have "x \<in> set (stepsOfInstance (en_store ?w') ?iid)"
      using set_stepsOfInstance [OF wf] tableOK_id [OF store_wfD(2) [OF wf] x(1)] by simp
    then have "x = ?st"
      using t(2) \<open>stepIDsOf (en_store ?w') ?iid = [ws_ID ?st]\<close> by (auto simp: stepsOfInstance_def map_filter_def)
    then show "ws_CompensationRetryCount x = 0" by (simp add: madeStep_def CreateStep_def firstStep_def newStep_def Let_def)
  qed
  ultimately have "poised E inst def [] ?st ?item ?w'"
    using wf inst iid idle t unfolding poised_def by simp
  moreover have "ws_RetryCount ?st = 0" by (simp add: madeStep_def CreateStep_def firstStep_def newStep_def Let_def)
  ultimately show ?thesis
    using run iid t by (intro exI [of _ ?w'] exI [of _ inst] exI [of _ ?st] exI [of _ ?item]) simp
qed

lemma buildProgram_valid: "buildProgram name version opts cs = Ok (Inr def) \<Longrightarrow> validateDefinition def = None"
proof -
  assume b: "buildProgram name version opts cs = Ok (Inr def)"
  obtain H b' where r: "runCalls cs ([], NewBuilder name version opts) = (Ok (), (H, b'))" "builderOK (H, b')" by (rule runCalls_state)
  with b have "Build H b' = Inr def" by (simp add: buildProgram_def)
  then show ?thesis by (rule Build_state_valid(1) [OF r(2)])
qed

text \<open>A built chain is a line of tasks.\<close>

lemma chain_line:
  assumes dist: "distinct (map fst xs)" and steps: "stepsOf def = zip (map fst xs) (chainDefs rootStepName xs)"
  shows "plainTasks def" "taskLine def (map fst xs)"
    and "i < length xs \<Longrightarrow> \<exists>p. stepDefOf def (fst (xs ! i)) =
      Some (chainTask (fst (xs ! i)) (snd (xs ! i)) p (map fst (take 1 (drop (Suc i) xs))))"
proof -
  have at: "\<exists>p. stepDefOf def (fst (xs ! i)) = Some (chainTask (fst (xs ! i)) (snd (xs ! i)) p (map fst (take 1 (drop (Suc i) xs))))"
    if "i < length xs" for i
    using map_of_zip_nth [of "map fst xs" "chainDefs rootStepName xs" i] chainDefs_nth [OF that, of rootStepName] dist that
    by (simp add: stepDefOf_def steps)
  show "i < length xs \<Longrightarrow> \<exists>p. stepDefOf def (fst (xs ! i)) =
      Some (chainTask (fst (xs ! i)) (snd (xs ! i)) p (map fst (take 1 (drop (Suc i) xs))))" by (rule at)
  show "plainTasks def"
    unfolding plainTasks_def steps by (auto simp: set_zip chainTask_def dest: chainDefs_nth [of _ xs rootStepName])
  have "taskLine def (map fst (drop k xs))" if "k \<le> length xs" for k
    using that
  proof (induction "length xs - k" arbitrary: k)
    case (Suc j)
    then have k: "k < length xs" by simp
    with Suc(1) [of "Suc k"] Suc(2) at [OF k] show ?case
      by (auto simp: Cons_nth_drop_Suc [symmetric] take_map chainTask_def emptyStepDefinition_def)
  qed simp
  from this [of 0] show "taskLine def (map fst xs)" by simp
qed

text \<open>
  The handler of a chain's step: it fails the first \<open>fails n\<close> times, at most three, and then computes \<open>f n\<close> of its input.
\<close>

definition chainHandler :: "(string \<Rightarrow> raw \<Rightarrow> raw) \<Rightarrow> (string \<Rightarrow> nat) \<Rightarrow> string \<Rightarrow> handler \<Rightarrow> bool" where
  "chainHandler f fails n h \<longleftrightarrow> fails n \<le> 3 \<and> (\<forall>k ctx v. ec_stepName ctx = n \<longrightarrow> 0 \<le> ec_retryCount ctx \<longrightarrow>
     (if ec_retryCount ctx < int (fails n) then \<exists>err. noPanicExecute h k ctx v = Inl err
      else noPanicExecute h k ctx v = Inr (f n v)))"

text \<open>
  C4. A chain runs to its end. Build a chain of steps with distinct, usable names, register it with an idle engine and start it. If
  nobody interferes, the clock does not run backwards and the handler of each step fails at most three times before it answers,
  then, whichever workers take the rounds, one round per handler call finishes the workflow: the instance is completed with
  the composition of the handlers' functions applied to the input, every step ran to completion once, in order, each on
  the output of the one before, no handler was called more often, and the queue is empty.
\<close>

theorem chain_completes:
  assumes xs: "xs \<noteq> []" "distinct (map fst xs)" "name \<noteq> ''''" "\<forall>(n, h) \<in> set xs. validateStepName n = None \<and> h \<noteq> ''''"
    and E: "mono (clk E)" "during E = (\<lambda>_. [])" and idle: "idle w"
    and hs: "\<forall>(n, h) \<in> set xs. \<exists>hd. map_of (en_handlers w) h = Some hd \<and> chainHandler f fails n hd"
  shows "\<exists>def iid w1. buildProgram name v [] (chainCalls xs) = Ok (Inr def) \<and> registerAndStart E def input w = (Ok iid, w1) \<and>
    (\<forall>workers. length workers = (\<Sum>n \<leftarrow> map fst xs. Suc (fails n)) \<longrightarrow>
      (\<exists>w' inst. busyRounds E workers w1 = Some w' \<and> map_of (ms_instances (en_store w')) iid = Some inst \<and>
         wi_Status inst = StatusCompleted \<and> wi_Output inst = fold f (map fst xs) input \<and> wi_Error inst = None \<and>
         instanceTrace (en_store w') iid = lineTrace f (map fst xs) input \<and>
         ms_queue (en_store w') = [] \<and> en_hcalls w' = en_hcalls w + length workers))"
proof -
  let ?n = "hd (map fst xs)"
  obtain ns m where ns: "map fst xs = ns @ [m]" using xs(1) by (cases "map fst xs" rule: rev_cases) auto
  define def0 where "def0 = \<lparr>wd_ID = name @ ''-v'' @ itoa v, wd_Name = name, wd_Version = v,
    wd_Definition = \<lparr>gd_Steps = zip (map fst xs) (chainDefs rootStepName xs), gd_Start = fst (hd xs), gd_DLQEnabled = False\<rparr>,
    wd_CreatedAt = 0\<rparr>"
  have built: "buildProgram name v [] (chainCalls xs) = Ok (Inr def0)" unfolding def0_def by (rule chain_built [OF xs])
  have valid: "validateDefinition def0 = None" using buildProgram_valid [OF built] .
  obtain def w0 where r: "RegisterWorkflow E def0 w = (Ok def, w0)" "defAt (en_store w0) (wd_ID def) = Some def"
    "validateDefinition def = None" "wd_Definition def = wd_Definition def0" "idle w0" "en_handlers w0 = en_handlers w"
    "en_hcalls w0 = en_hcalls w" using register_idle [OF valid idle] .
  have steps: "stepsOf def = zip (map fst xs) (chainDefs rootStepName xs)" and start: "gd_Start (wd_Definition def) = ?n"
    using r(4) xs(1) by (simp_all add: def0_def hd_map)
  note line = chain_line [OF xs(2) steps]
  have handles: "handles f fails def (en_handlers w) m" if m: "m \<in> set (map fst xs)" for m
  proof -
    obtain i where i: "i < length xs" "m = fst (xs ! i)" using m unfolding in_set_conv_nth by auto
    obtain hd where "map_of (en_handlers w) (snd (xs ! i)) = Some hd" "chainHandler f fails m hd"
      using hs nth_mem [OF i(1)] i(2) by (cases "xs ! i") auto
    with line(3) [OF i(1)] i(2) show ?thesis
      by (auto simp: handles_def chainHandler_def chainTask_def emptyStepDefinition_def retryBudget_def)
  qed
  have "\<exists>sd. stepDefOf def ?n = Some sd \<and> sd_Delay sd = 0"
    using line(2) xs(1) by (cases "map fst xs") (auto split: option.splits)
  then obtain sd where sd: "stepDefOf def ?n = Some sd" "sd_Delay sd = 0" by blast
  obtain w1 inst st item where s: "Start E (wd_ID def) input w0 = (Ok (wi_ID inst), w1)" "poised E inst def [] st item w1"
    "ws_StepName st = ?n" "ws_RetryCount st = 0" "ws_MaxRetries st = sd_MaxRetries sd" "ws_Input st = input"
    "en_handlers w1 = en_handlers w0" "en_hcalls w1 = en_hcalls w0"
    using start_poised [OF r(2,3,5), of sd E input] sd start by auto
  have "\<exists>w' i'. busyRounds E workers w1 = Some w' \<and> map_of (ms_instances (en_store w')) (wi_ID inst) = Some i' \<and>
      wi_Status i' = StatusCompleted \<and> wi_Output i' = fold f (map fst xs) input \<and> wi_Error i' = None \<and>
      instanceTrace (en_store w') (wi_ID inst) = lineTrace f (map fst xs) input \<and>
      ms_queue (en_store w') = [] \<and> en_hcalls w' = en_hcalls w + length workers"
    if len: "length workers = (\<Sum>n \<leftarrow> map fst xs. Suc (fails n))" for workers
    using line_completes [OF E line(1) _ _ s(2) _ s(4) _ len [unfolded ns], of f] line(2) s r handles sd
    unfolding ns by (simp add: conj_ac)
  moreover have "registerAndStart E def0 input w = (Ok (wi_ID inst), w1)"
    by (simp add: registerAndStart_def r(1) s(1))
  ultimately show ?thesis using built by blast
qed

text \<open>A handler that tags its input with the name of the step and fails on the first call for \<open>charge\<close>.\<close>

definition tag :: "string \<Rightarrow> raw \<Rightarrow> raw" where
  "tag n v = RawJson (JList [JStr n, (case v of RawJson j \<Rightarrow> j | _ \<Rightarrow> JNull)])"

definition flaky :: handler where
  "flaky = \<lparr>hn_Name = ''h'', hn_Execute = (\<lambda>k ctx v.
     if ec_stepName ctx = ''charge'' \<and> ec_retryCount ctx < 1 then HErr (Err ''card declined'') else HOk (tag (ec_stepName ctx) v))\<rparr>"

definition shop0 :: Engine where
  "shop0 = snd (RegisterHandler flaky (NewEngine NewMemoryStore))"

theorem chain_completes_witness:
  "\<exists>def iid w1 w' inst. buildProgram ''pay'' 1 [] (chainCalls [(''reserve'', ''h''), (''charge'', ''h'')]) = Ok (Inr def) \<and>
     registerAndStart env0 def (RawJson JNull) shop0 = (Ok iid, w1) \<and> busyRounds env0 [''a'', ''b'', ''a''] w1 = Some w' \<and>
     map_of (ms_instances (en_store w')) iid = Some inst \<and> wi_Status inst = StatusCompleted \<and>
     wi_Output inst = RawJson (JList [JStr ''charge'', JList [JStr ''reserve'', JNull]])"
proof -
  let ?fails = "\<lambda>n. if n = ''charge'' then 1 else 0 :: nat"
  let ?xs = "[(''reserve'', ''h''), (''charge'', ''h'')]"
  have "mono (clk env0)" "during env0 = (\<lambda>_. [])" by (auto simp: env0_def mono_def)
  moreover have "idle shop0"
    using NewMemoryStore_wf by (simp add: idle_def shop0_def RegisterHandler_def NewEngine_def NewMemoryStore_def stepIDsOf_def)
  moreover have "map_of (en_handlers shop0) ''h'' = Some flaky"
    by (simp add: shop0_def RegisterHandler_def NewEngine_def flaky_def)
  moreover have "chainHandler tag ?fails ''reserve'' flaky" "chainHandler tag ?fails ''charge'' flaky"
    by (simp_all add: chainHandler_def flaky_def noPanicExecute_def)
  ultimately obtain def iid w1 where r: "buildProgram ''pay'' 1 [] (chainCalls ?xs) = Ok (Inr def)"
    "registerAndStart env0 def (RawJson JNull) shop0 = (Ok iid, w1)"
    "\<exists>w' inst. busyRounds env0 [''a'', ''b'', ''a''] w1 = Some w' \<and> map_of (ms_instances (en_store w')) iid = Some inst \<and>
       wi_Status inst = StatusCompleted \<and> wi_Output inst = fold tag [''reserve'', ''charge''] (RawJson JNull)"
    using chain_completes [of ?xs "''pay''" env0 shop0 tag ?fails 1 "RawJson JNull"]
    by (auto simp: validateStepName_def rootStepName_def isVirtualStep_def dest: spec [of _ "[''a'', ''b'', ''a'']"])
  then show ?thesis by (auto simp: tag_def)
qed

end
