(* ===== verification/Rollback_Props.thy ===== *)
theory Rollback_Props
  imports Outcome_Props
begin

text \<open>
  What rolling back and compensating a step do (\<open>rollbackStep\<close> and \<open>executeCompensationStep\<close> of
  \<open>engine.go\<close>), and what a cancellation or an abort makes of an instance.
\<close>

section \<open>Rolling back one step\<close>

lemma CreateDeadLetterRecord_run:
  "onStore (CreateDeadLetterRecord E r) w = (Ok (), w\<lparr>en_store := (en_store w)\<lparr>
      ms_deadLetters := AList.update (ms_nextDeadLetterID (en_store w))
        (r\<lparr>dl_ID := ms_nextDeadLetterID (en_store w), dl_CreatedAt := clk E (ms_cursor (en_store w))\<rparr>)
        (ms_deadLetters (en_store w)),
      ms_nextDeadLetterID := ms_nextDeadLetterID (en_store w) + 1, ms_cursor := Suc (ms_cursor (en_store w))\<rparr>\<rparr>)"
  by (simp add: onStore_def gzoom_def CreateDeadLetterRecord_def Let_def)

lemma UpdateStepCompensationRetry_run:
  "map_of (ms_steps (en_store w)) k = Some st \<Longrightarrow>
   onStore (UpdateStepCompensationRetry k n status) w = (Ok (), w\<lparr>en_store := (en_store w)\<lparr>
      ms_steps := AList.update k (st\<lparr>ws_CompensationRetryCount := n, ws_Status := status\<rparr>) (ms_steps (en_store w))\<rparr>\<rparr>)"
  by (simp add: onStore_def gzoom_def UpdateStepCompensationRetry_def)

text \<open>The three outcomes, each in terms of the two tables it may touch.\<close>

lemma rollbackStep_none:
  assumes "map_of (ms_steps (en_store w)) (ws_ID st) = Some st"
    "stepDefOf def (ws_StepName st) = Some sd" "stepDefOf def (sd_OnFailure sd) = None"
  shows "\<exists>w'. rollbackStep E st def w = (Ok (), w') \<and>
      ms_steps (en_store w') = AList.update (ws_ID st)
        (stepAfter (clk E (ms_cursor (en_store w))) StepStatusRolledBack (ws_Input st) None st) (ms_steps (en_store w)) \<and>
      ms_queue (en_store w') = ms_queue (en_store w)"
  using assms by (simp add: rollbackStep_def needStep_def UpdateStep_run)

lemma rollbackStep_exhausted:
  assumes "map_of (ms_steps (en_store w)) (ws_ID st) = Some st"
    "stepDefOf def (ws_StepName st) = Some sd" "stepDefOf def (sd_OnFailure sd) = Some onf"
    "sd_MaxRetries onf \<le> ws_CompensationRetryCount st"
  shows "\<exists>w' r. rollbackStep E st def w = (Ok (), w') \<and>
      ms_steps (en_store w') = AList.update (ws_ID st)
        (stepAfter (clk E (ms_cursor (en_store w))) StepStatusFailed (ws_Input st) None st) (ms_steps (en_store w)) \<and>
      ms_queue (en_store w') = ms_queue (en_store w) \<and>
      ms_deadLetters (en_store w') = AList.update (ms_nextDeadLetterID (en_store w)) r (ms_deadLetters (en_store w)) \<and>
      dl_StepID r = ws_ID st"
  using assms
  by (simp add: rollbackStep_def needStep_def UpdateStep_run CreateDeadLetterRecord_run Let_def)
     (intro exI conjI, rule refl, simp)

lemma rollbackStep_again:
  assumes "map_of (ms_steps (en_store w)) (ws_ID st) = Some st"
    "stepDefOf def (ws_StepName st) = Some sd" "stepDefOf def (sd_OnFailure sd) = Some onf"
    "\<not> sd_MaxRetries onf \<le> ws_CompensationRetryCount st"
  shows "\<exists>w' item. rollbackStep E st def w = (Ok (), w') \<and>
      ms_steps (en_store w') = AList.update (ws_ID st)
        (st\<lparr>ws_CompensationRetryCount := ws_CompensationRetryCount st + 1, ws_Status := StepStatusCompensation\<rparr>)
        (ms_steps (en_store w)) \<and>
      ms_queue (en_store w') = AList.update (ms_nextQueueID (en_store w)) item (ms_queue (en_store w)) \<and>
      qi_StepID item = Some (ws_ID st) \<and> qi_Priority item = PriorityHigh \<and>
      qi_ScheduledAt item = clk E (ms_cursor (en_store w)) + retryDelayOf E onf (ws_CompensationRetryCount st + 1)"
  using assms
  by (simp add: rollbackStep_def needStep_def UpdateStepCompensationRetry_run EnqueueStep_run Let_def)
     (intro exI conjI, rule refl, simp_all add: queuedItem_def)

text \<open>
  C17. Rolling back one step. A step without a compensation is marked rolled back at once. With a
  compensation whose retry budget is used up (for a budget of 0: at once, before any attempt) it is
  marked failed and recorded as a dead letter, and nothing is queued. Otherwise it goes into compensation,
  the attempt is counted, and one item of high priority, delayed by the compensation's back-off, is queued.
\<close>

theorem rollbackStep_spec:
  assumes st: "map_of (ms_steps (en_store w)) (ws_ID st) = Some st"
    and sd: "stepDefOf def (ws_StepName st) = Some sd"
  shows "case stepDefOf def (sd_OnFailure sd) of
      None \<Rightarrow> (\<exists>w' st'. rollbackStep E st def w = (Ok (), w') \<and>
        map_of (ms_steps (en_store w')) = (map_of (ms_steps (en_store w)))(ws_ID st \<mapsto> st') \<and>
        ws_Status st' = StepStatusRolledBack \<and> ms_queue (en_store w') = ms_queue (en_store w))
    | Some onf \<Rightarrow>
        (if sd_MaxRetries onf \<le> ws_CompensationRetryCount st then
           (\<exists>w' st' r. rollbackStep E st def w = (Ok (), w') \<and>
              map_of (ms_steps (en_store w')) = (map_of (ms_steps (en_store w)))(ws_ID st \<mapsto> st') \<and>
              ws_Status st' = StepStatusFailed \<and> ms_queue (en_store w') = ms_queue (en_store w) \<and>
              map_of (ms_deadLetters (en_store w')) (ms_nextDeadLetterID (en_store w)) = Some r \<and> dl_StepID r = ws_ID st)
         else
           (\<exists>w' st' item t. rollbackStep E st def w = (Ok (), w') \<and>
              map_of (ms_steps (en_store w')) = (map_of (ms_steps (en_store w)))(ws_ID st \<mapsto> st') \<and>
              ws_Status st' = StepStatusCompensation \<and>
              ws_CompensationRetryCount st' = ws_CompensationRetryCount st + 1 \<and>
              map_of (ms_queue (en_store w')) = (map_of (ms_queue (en_store w)))(ms_nextQueueID (en_store w) \<mapsto> item) \<and>
              qi_StepID item = Some (ws_ID st) \<and> qi_Priority item = PriorityHigh \<and>
              qi_ScheduledAt item = clk E t + retryDelayOf E onf (ws_CompensationRetryCount st + 1)))"
proof (cases "stepDefOf def (sd_OnFailure sd)")
  case None
  from rollbackStep_none [OF st sd None, of E] obtain w' where "rollbackStep E st def w = (Ok (), w')"
    "ms_steps (en_store w') = AList.update (ws_ID st)
        (stepAfter (clk E (ms_cursor (en_store w))) StepStatusRolledBack (ws_Input st) None st) (ms_steps (en_store w))"
    "ms_queue (en_store w') = ms_queue (en_store w)" by blast
  with None show ?thesis by (auto intro!: exI [of _ w'])
next
  case (Some onf)
  show ?thesis
  proof (cases "sd_MaxRetries onf \<le> ws_CompensationRetryCount st")
    case True
    from rollbackStep_exhausted [OF st sd Some True, of E] obtain w' r where "rollbackStep E st def w = (Ok (), w')"
      "ms_steps (en_store w') = AList.update (ws_ID st)
        (stepAfter (clk E (ms_cursor (en_store w))) StepStatusFailed (ws_Input st) None st) (ms_steps (en_store w))"
      "ms_queue (en_store w') = ms_queue (en_store w)"
      "ms_deadLetters (en_store w') = AList.update (ms_nextDeadLetterID (en_store w)) r (ms_deadLetters (en_store w))"
      "dl_StepID r = ws_ID st" by blast
    with Some True show ?thesis by (auto intro!: exI [of _ w'])
  next
    case False
    from rollbackStep_again [OF st sd Some False, of E] obtain w' item where "rollbackStep E st def w = (Ok (), w')"
      "ms_steps (en_store w') = AList.update (ws_ID st)
        (st\<lparr>ws_CompensationRetryCount := ws_CompensationRetryCount st + 1, ws_Status := StepStatusCompensation\<rparr>)
        (ms_steps (en_store w))"
      "ms_queue (en_store w') = AList.update (ms_nextQueueID (en_store w)) item (ms_queue (en_store w))"
      "qi_StepID item = Some (ws_ID st)" "qi_Priority item = PriorityHigh"
      "qi_ScheduledAt item = clk E (ms_cursor (en_store w)) + retryDelayOf E onf (ws_CompensationRetryCount st + 1)" by blast
    with Some False show ?thesis by (auto intro!: exI [of _ w'] exI [of _ item])
  qed
qed

definition compDef :: "int \<Rightarrow> WorkflowDefinition" where
  "compDef n = taskDef\<lparr>wd_Definition := (wd_Definition taskDef)\<lparr>gd_Steps :=
     [(''a'', emptyStepDefinition\<lparr>sd_Name := ''a'', sd_Type := StepTypeTask, sd_Handler := ''h'', sd_OnFailure := ''c''\<rparr>),
      (''c'', emptyStepDefinition\<lparr>sd_Name := ''c'', sd_Type := StepTypeTask, sd_Handler := ''u'', sd_MaxRetries := n\<rparr>)]\<rparr>\<rparr>"

abbreviation step0 :: WorkflowStep where
  "step0 \<equiv> snd (hd (ms_steps (en_store started0)))"

lemma step0_stored: "map_of (ms_steps (en_store started0)) (ws_ID step0) = Some step0" "ws_StepName step0 = ''a''"
  "ws_CompensationRetryCount step0 = 0" "ws_ID step0 = 1"
  by code_simp+

text \<open>With a budget of 0 the compensation is not tried; with a budget of 3 it is queued.\<close>

theorem rollbackStep_spec_witness:
  "(\<exists>w' st'. rollbackStep env0 step0 (compDef 0) started0 = (Ok (), w') \<and>
      map_of (ms_steps (en_store w')) 1 = Some st' \<and> ws_Status st' = StepStatusFailed) \<and>
   (\<exists>w' st'. rollbackStep env0 step0 (compDef 3) started0 = (Ok (), w') \<and>
      map_of (ms_steps (en_store w')) 1 = Some st' \<and> ws_Status st' = StepStatusCompensation)"
proof -
  have d: "stepDefOf (compDef n) (ws_StepName step0) = Some (snd (hd (stepsOf (compDef n))))"
    "stepDefOf (compDef n) (sd_OnFailure (snd (hd (stepsOf (compDef n))))) =
       Some (emptyStepDefinition\<lparr>sd_Name := ''c'', sd_Type := StepTypeTask, sd_Handler := ''u'', sd_MaxRetries := n\<rparr>)" for n
    by (simp_all add: step0_stored(2) compDef_def stepDefOf_def)
  show ?thesis
    using rollbackStep_spec [OF step0_stored(1) d(1) [of 0], of env0]
      rollbackStep_spec [OF step0_stored(1) d(1) [of 3], of env0]
    unfolding d(2) by (auto simp: step0_stored(3,4))
qed

section \<open>A compensation that fails\<close>

text \<open>
  C18. A failing compensation. While attempts are left the step stays in compensation, the attempt is
  counted and one delayed item of high priority is queued. With the budget used up the step is marked
  failed with the handler's error, and that is all: no dead letter is written, nothing is queued and the
  instance keeps its status.
\<close>

theorem compensationFailed_spec:
  assumes st: "map_of (ms_steps (en_store w)) (ws_ID st) = Some st"
  shows "\<exists>w' st'. compensationFailed E st onf err w = (Ok (), w') \<and>
      map_of (ms_steps (en_store w')) = (map_of (ms_steps (en_store w)))(ws_ID st \<mapsto> st') \<and>
      ms_instances (en_store w') = ms_instances (en_store w) \<and>
      ms_deadLetters (en_store w') = ms_deadLetters (en_store w) \<and>
      (if ws_CompensationRetryCount st < sd_MaxRetries onf then
         ws_Status st' = StepStatusCompensation \<and> ws_CompensationRetryCount st' = ws_CompensationRetryCount st + 1 \<and>
         (\<exists>item. map_of (ms_queue (en_store w')) = (map_of (ms_queue (en_store w)))(ms_nextQueueID (en_store w) \<mapsto> item) \<and>
            qi_StepID item = Some (ws_ID st) \<and> qi_Priority item = PriorityHigh \<and>
            qi_ScheduledAt item = clk E (ms_cursor (en_store w)) + retryDelayOf E onf (ws_CompensationRetryCount st + 1))
       else
         ws_Status st' = StepStatusFailed \<and> ws_Error st' = Some (errStr err) \<and>
         ms_queue (en_store w') = ms_queue (en_store w))"
proof (cases "ws_CompensationRetryCount st < sd_MaxRetries onf")
  case True
  let ?st = "st\<lparr>ws_CompensationRetryCount := ws_CompensationRetryCount st + 1, ws_Status := StepStatusCompensation\<rparr>"
  from True st show ?thesis
    by (simp add: compensationFailed_def UpdateStepCompensationRetry_run EnqueueStep_run Let_def queuedItem_def)
       (rule exI [of _ ?st], simp, intro exI conjI, rule refl, simp_all)
next
  case False
  let ?st = "stepAfter (clk E (ms_cursor (en_store w))) StepStatusFailed (ws_Input st) (Some (errStr err)) st"
  from False st show ?thesis
    by (simp add: compensationFailed_def UpdateStep_run) (rule exI [of _ ?st], simp)
qed

theorem compensationFailed_spec_witness:
  "\<exists>w' st'. compensationFailed env0 step0 emptyStepDefinition (Err ''boom'') started0 = (Ok (), w') \<and>
     map_of (ms_steps (en_store w')) 1 = Some st' \<and> ws_Status st' = StepStatusFailed \<and>
     ms_deadLetters (en_store w') = ms_deadLetters (en_store started0)"
  using compensationFailed_spec [OF step0_stored(1), of env0 emptyStepDefinition "Err ''boom''"]
  by (auto simp: step0_stored(3,4) emptyStepDefinition_def)

end
