(* ===== verification/Store_Props.thy ===== *)
theory Store_Props
  imports Store_Laws
begin

text \<open>
  The behaviour of the in-memory store's operations: which queue item is handed out and when it
  can be handed out again, ageing, join readiness, dead letters, listing and clean-up.
\<close>

section \<open>The queue\<close>

abbreviation nowOf :: "env \<Rightarrow> MemoryStore \<Rightarrow> int" where
  "nowOf E s \<equiv> clk E (ms_cursor s)"

definition prioOf :: "MemoryStore \<Rightarrow> int \<Rightarrow> QueueItem \<Rightarrow> int" where
  "prioOf s now = effectivePriority (ms_agingEnabled s) (ms_agingRate s) now"

text \<open>\<open>item\<close> goes before \<open>other\<close>.\<close>

definition precedes :: "MemoryStore \<Rightarrow> int \<Rightarrow> QueueItem \<Rightarrow> QueueItem \<Rightarrow> bool" where
  "precedes s now item other \<longleftrightarrow>
     prioOf s now other < prioOf s now item \<or>
     (prioOf s now other = prioOf s now item \<and> qi_ScheduledAt item \<le> qi_ScheduledAt other)"

lemma precedes_refl: "precedes s now i i"
  by (simp add: precedes_def)

lemma precedes_trans: "precedes s now i j \<Longrightarrow> precedes s now j k \<Longrightarrow> precedes s now i k"
  by (auto simp: precedes_def)

text \<open>The accumulator of the selection loop after the items \<open>xs\<close>.\<close>

definition pickedOK :: "MemoryStore \<Rightarrow> int \<Rightarrow> QueueItem list \<Rightarrow> int \<times> QueueItem option \<Rightarrow> bool" where
  "pickedOK s now xs acc \<longleftrightarrow>
     (case acc of
        (m, None) \<Rightarrow> m = -1 \<and> (\<forall>o1 \<in> set xs. eligible now o1 \<longrightarrow> prioOf s now o1 < 0)
      | (m, Some i) \<Rightarrow> m = prioOf s now i \<and> 0 \<le> m \<and> i \<in> set xs \<and> eligible now i \<and>
          (\<forall>o1 \<in> set xs. eligible now o1 \<longrightarrow> precedes s now i o1))"

lemma pickedOK_step:
  assumes "pickedOK s now xs acc"
  shows "pickedOK s now (xs @ [x]) (dequeuePick (ms_agingEnabled s) (ms_agingRate s) now acc x)"
proof (cases acc)
  case acc: (Pair m sel)
  let ?new = "dequeuePick (ms_agingEnabled s) (ms_agingRate s) now acc x"
  have p: "effectivePriority (ms_agingEnabled s) (ms_agingRate s) now x = prioOf s now x"
    by (simp add: prioOf_def)
  show ?thesis
  proof (cases sel)
    case None
    then show ?thesis
      using assms by (auto simp: acc pickedOK_def dequeuePick_def Let_def p precedes_def split: if_splits)
  next
    case (Some i)
    with assms have m: "m = prioOf s now i" "0 \<le> m" "i \<in> set xs" "eligible now i"
      and max: "\<forall>o1 \<in> set xs. eligible now o1 \<longrightarrow> precedes s now i o1"
      by (simp_all add: acc pickedOK_def)
    show ?thesis
    proof (cases "eligible now x \<and> \<not> precedes s now i x")
      case True
      then have "?new = (prioOf s now x, Some x)"
        using m(1) by (auto simp: acc Some dequeuePick_def Let_def p precedes_def)
      moreover have x: "precedes s now x i" "0 \<le> prioOf s now x"
        using True m(1,2) by (auto simp: precedes_def)
      moreover have "\<forall>o1 \<in> set xs. eligible now o1 \<longrightarrow> precedes s now x o1"
        using max x(1) precedes_trans by blast
      ultimately show ?thesis using True by (simp add: pickedOK_def precedes_refl)
    next
      case False
      then have "?new = acc"
        using m(1) by (auto simp: acc Some dequeuePick_def Let_def p precedes_def)
      then show ?thesis using m max False by (simp add: acc Some pickedOK_def)
    qed
  qed
qed

lemma pickedOK_fold:
  "pickedOK s now xs acc \<Longrightarrow>
   pickedOK s now (xs @ ys) (foldl (dequeuePick (ms_agingEnabled s) (ms_agingRate s) now) acc ys)"
proof (induction ys arbitrary: xs acc)
  case Nil
  then show ?case by simp
next
  case (Cons y ys)
  from Cons.IH [OF pickedOK_step [OF Cons.prems, of y]] show ?case by simp
qed

lemma dequeueSelect_spec:
  "case dequeueSelect s now of
     None \<Rightarrow> (\<forall>o1 \<in> set (map snd (ms_queue s)). eligible now o1 \<longrightarrow> prioOf s now o1 < 0)
   | Some i \<Rightarrow> i \<in> set (map snd (ms_queue s)) \<and> eligible now i \<and> 0 \<le> prioOf s now i \<and>
       (\<forall>o1 \<in> set (map snd (ms_queue s)). eligible now o1 \<longrightarrow> precedes s now i o1)"
proof -
  have "pickedOK s now [] (-1, None)" by (simp add: pickedOK_def)
  from pickedOK_fold [OF this, of "map snd (ms_queue s)"] show ?thesis
    by (auto simp: pickedOK_def dequeueSelect_def split: prod.splits option.splits)
qed

text \<open>
  C7. What \<open>DequeueStep\<close> hands out. An item is handed out if and only if some unclaimed item that is
  due has a non-negative effective priority. It is then a due, unclaimed item of the highest effective
  priority, the earliest scheduled one among those; it is returned and stored as claimed by the
  worker at the current time, and the store is otherwise unchanged.
\<close>

theorem DequeueStep_spec:
  assumes wf: "store_wf s"
  shows "(case DequeueStep E worker s of
      (Ok None, s') \<Rightarrow> s' = s\<lparr>ms_cursor := Suc (ms_cursor s)\<rparr> \<and>
        (\<forall>k item. map_of (ms_queue s) k = Some item \<longrightarrow> eligible (nowOf E s) item \<longrightarrow>
           prioOf s (nowOf E s) item < 0)
    | (Ok (Some item'), s') \<Rightarrow> (\<exists>k item. map_of (ms_queue s) k = Some item \<and>
        eligible (nowOf E s) item \<and> 0 \<le> prioOf s (nowOf E s) item \<and>
        (\<forall>j other. map_of (ms_queue s) j = Some other \<longrightarrow> eligible (nowOf E s) other \<longrightarrow>
           precedes s (nowOf E s) item other) \<and>
        item' = item\<lparr>qi_AttemptedAt := Some (nowOf E s), qi_AttemptedBy := Some worker\<rparr> \<and>
        s' = s\<lparr>ms_queue := AList.update k item' (ms_queue s), ms_cursor := Suc (ms_cursor s)\<rparr>)
    | _ \<Rightarrow> False)"
proof -
  let ?now = "nowOf E s"
  have val: "other \<in> set (map snd (ms_queue s))" if "map_of (ms_queue s) j = Some other" for j other
    using that by (force dest: map_of_SomeD)
  show ?thesis
  proof (cases "dequeueSelect s ?now")
    case None
    with dequeueSelect_spec [of s ?now] val
    have "\<forall>k item. map_of (ms_queue s) k = Some item \<longrightarrow> eligible ?now item \<longrightarrow> prioOf s ?now item < 0"
      by simp blast
    with None show ?thesis by (simp add: DequeueStep_def Let_def)
  next
    case (Some item)
    with dequeueSelect_spec [of s ?now] have "eligible ?now item" "0 \<le> prioOf s ?now item"
      and max: "\<forall>other \<in> set (map snd (ms_queue s)). eligible ?now other \<longrightarrow> precedes s ?now item other" by simp_all
    moreover have "map_of (ms_queue s) (qi_ID item) = Some item"
      by (rule dequeueSelect_lookup [OF store_wfD(3) [OF wf] Some])
    moreover have "\<forall>j other. map_of (ms_queue s) j = Some other \<longrightarrow> eligible ?now other \<longrightarrow> precedes s ?now item other"
      using max val by blast
    moreover have "DequeueStep E worker s =
        (let item' = item\<lparr>qi_AttemptedAt := Some ?now, qi_AttemptedBy := Some worker\<rparr>
         in (Ok (Some item'), s\<lparr>ms_queue := AList.update (qi_ID item) item' (ms_queue s), ms_cursor := Suc (ms_cursor s)\<rparr>))"
      using Some by (cases s) (simp add: DequeueStep_def Let_def)
    ultimately show ?thesis by (simp add: Let_def) blast
  qed
qed

text \<open>A store with two queued steps of different priority, for the examples.\<close>

definition queue0 :: MemoryStore where
  "queue0 = snd (EnqueueStep env0 1 (Some 2) PriorityHigh 0
              (snd (EnqueueStep env0 1 (Some 1) PriorityNormal 0 NewMemoryStore)))"

lemma queue0_wf: "store_wf queue0"
  unfolding queue0_def
  using go_rel_snd [OF evolves_EnqueueStep] NewMemoryStore_wf unfolding store_evolves_def by blast

lemma queue0_run:
  "fst (DequeueStep env0 ''w'' queue0) = Ok (Some \<lparr>qi_ID = 2, qi_InstanceID = 1, qi_StepID = Some 2,
     qi_ScheduledAt = 1000000000, qi_AttemptedAt = Some 2000000000, qi_AttemptedBy = Some ''w'',
     qi_Priority = 100\<rparr>)"
  by (simp add: queue0_def EnqueueStep_def NewMemoryStore_def env0_def DequeueStep_def dequeueSelect_def
      dequeuePick_def eligible_def effectivePriority_def truncRat_def priority_defs Let_def)

theorem DequeueStep_spec_witness:
  "store_wf queue0 \<and> (\<exists>k item. map_of (ms_queue queue0) k = Some item \<and>
     eligible (nowOf env0 queue0) item \<and>
     (\<forall>j other. map_of (ms_queue queue0) j = Some other \<longrightarrow> eligible (nowOf env0 queue0) other \<longrightarrow>
        precedes queue0 (nowOf env0 queue0) item other))"
proof -
  obtain i s' where run: "DequeueStep env0 ''w'' queue0 = (Ok (Some i), s')"
    using queue0_run by (metis prod.collapse)
  show ?thesis using DequeueStep_spec [OF queue0_wf, of env0 "''w''"] queue0_wf
    unfolding run by (simp only: prod.case res.case option.case) blast
qed

text \<open>
  A claimed item is never handed out a second time: while a queue entry carries a claim, no worker
  is given it, whatever else is in the queue, and the entry stays as it is.
\<close>

theorem claimed_not_dequeued:
  assumes wf: "store_wf s" and k: "map_of (ms_queue s) k = Some item" and "qi_AttemptedAt item \<noteq> None"
    and run: "DequeueStep E worker s = (Ok r, s')"
  shows "map_of (ms_queue s') k = Some item \<and> (\<forall>b. r = Some b \<longrightarrow> qi_ID b \<noteq> k \<and> qi_AttemptedAt b \<noteq> None)"
proof (cases "dequeueSelect s (nowOf E s)")
  case None
  with run k show ?thesis by (auto simp: DequeueStep_def Let_def)
next
  case (Some i)
  with dequeueSelect_spec [of s "nowOf E s"] have "eligible (nowOf E s) i" by simp
  moreover have "map_of (ms_queue s) (qi_ID i) = Some i"
    by (rule dequeueSelect_lookup [OF store_wfD(3) [OF wf] Some])
  ultimately have "qi_ID i \<noteq> k" using k assms(3) by (auto simp: eligible_def)
  with run Some k show ?thesis by (auto simp: DequeueStep_def Let_def)
qed

theorem claimed_not_dequeued_witness:
  "\<exists>item r s'. map_of (ms_queue (snd (DequeueStep env0 ''w'' queue0))) 2 = Some item \<and>
     DequeueStep env0 ''v'' (snd (DequeueStep env0 ''w'' queue0)) = (Ok r, s') \<and>
     map_of (ms_queue s') 2 = Some item"
proof -
  let ?s = "snd (DequeueStep env0 ''w'' queue0)"
  have wf: "store_wf ?s"
    using go_rel_snd [OF evolves_DequeueStep] queue0_wf unfolding store_evolves_def by blast
  have k: "\<exists>item. map_of (ms_queue ?s) 2 = Some item \<and> qi_AttemptedAt item \<noteq> None"
    by (simp add: queue0_def EnqueueStep_def NewMemoryStore_def env0_def DequeueStep_def dequeueSelect_def
        dequeuePick_def eligible_def effectivePriority_def truncRat_def priority_defs Let_def)
  have "\<exists>r s'. DequeueStep env0 ''v'' ?s = (Ok r, s')"
    by (cases "dequeueSelect ?s (nowOf env0 ?s)") (simp_all add: DequeueStep_def Let_def)
  with k claimed_not_dequeued [OF wf, of 2 _ env0 "''v''"] show ?thesis by blast
qed

text \<open>Ageing.\<close>

lemma truncRat_le: "x \<le> of_int n \<Longrightarrow> 0 \<le> n \<Longrightarrow> truncRat x \<le> n"
  unfolding truncRat_def by (auto simp: floor_le_iff ceiling_le_iff)

lemma truncRat_ge: "of_int n \<le> x \<Longrightarrow> 0 \<le> n \<Longrightarrow> n \<le> truncRat x"
  unfolding truncRat_def by (auto simp: le_floor_iff)

definition agedAt :: "rat \<Rightarrow> int \<Rightarrow> QueueItem \<Rightarrow> bool" where
  "agedAt rate now item \<longleftrightarrow>
     of_int (100 - qi_Priority item) \<le> of_int (now - qi_ScheduledAt item) / 1000000000 * rate"

lemma effectivePriority_cap:
  "0 < rate \<Longrightarrow> effectivePriority True rate now item \<le> 100"
  by (simp add: effectivePriority_def)

lemma effectivePriority_aged:
  assumes "0 < rate" "agedAt rate now item"
  shows "effectivePriority True rate now item = 100"
proof -
  have "(100::rat) \<le> of_int (qi_Priority item) + of_int (now - qi_ScheduledAt item) / 1000000000 * rate"
    using assms(2) unfolding agedAt_def of_int_diff by simp
  then have "100 \<le> truncRat (of_int (qi_Priority item) + of_int (now - qi_ScheduledAt item) / 1000000000 * rate)"
    by (intro truncRat_ge) simp_all
  with assms(1) show ?thesis by (simp add: effectivePriority_def)
qed



text \<open>
  Giving an item back never brings it forward: after \<open>RescheduleAndReleaseQueueItem\<close> the item is
  unclaimed, scheduled no earlier than before and no earlier than the delay asks, and is otherwise
  the same; the rest of the queue is untouched.
\<close>

theorem Reschedule_spec:
  assumes "map_of (ms_queue s) k = Some item"
  shows "\<exists>s' item'. RescheduleAndReleaseQueueItem E k delay s = (Ok (), s') \<and>
     map_of (ms_queue s') = (map_of (ms_queue s))(k \<mapsto> item') \<and>
     qi_AttemptedAt item' = None \<and> qi_AttemptedBy item' = None \<and>
     qi_ScheduledAt item' = max (nowOf E s + delay) (qi_ScheduledAt item) \<and>
     qi_ID item' = qi_ID item \<and> qi_StepID item' = qi_StepID item \<and> qi_Priority item' = qi_Priority item"
proof -
  let ?t = "max (nowOf E s + delay) (qi_ScheduledAt item)"
  let ?item = "item\<lparr>qi_ScheduledAt := ?t, qi_AttemptedAt := None, qi_AttemptedBy := None\<rparr>"
  have "(if nowOf E s + delay < qi_ScheduledAt item then qi_ScheduledAt item else nowOf E s + delay) = ?t"
    by (simp add: max_def)
  then have "RescheduleAndReleaseQueueItem E k delay s =
      (Ok (), s\<lparr>ms_queue := AList.update k ?item (ms_queue s), ms_cursor := Suc (ms_cursor s)\<rparr>)"
    using assms by (simp only: RescheduleAndReleaseQueueItem_def Let_def option.case)
  then show ?thesis
    by (intro exI [of _ "s\<lparr>ms_queue := AList.update k ?item (ms_queue s), ms_cursor := Suc (ms_cursor s)\<rparr>"]
        exI [of _ ?item]) simp
qed

theorem Reschedule_spec_witness:
  "\<exists>s' item'. RescheduleAndReleaseQueueItem env0 2 5 queue0 = (Ok (), s') \<and>
     map_of (ms_queue s') 2 = Some item' \<and> qi_ScheduledAt item' = 2000000005"
proof -
  have k: "map_of (ms_queue queue0) 2 = Some \<lparr>qi_ID = 2, qi_InstanceID = 1, qi_StepID = Some 2,
      qi_ScheduledAt = 1000000000, qi_AttemptedAt = None, qi_AttemptedBy = None, qi_Priority = 100\<rparr>"
    by (simp add: queue0_def EnqueueStep_def NewMemoryStore_def env0_def priority_defs Let_def)
  have "nowOf env0 queue0 = 2000000000"
    by (simp add: queue0_def EnqueueStep_def NewMemoryStore_def env0_def Let_def)
  with Reschedule_spec [OF k, of env0 5] show ?thesis by auto
qed

end
