(* ===== verification/Saga.thy ===== *)
theory Saga
  imports Chain_Run Rollback_Props Store_Props
begin

text \<open>
  A whole run that fails: a line of tasks of which one is given up, from the start to the last compensation. Along a line the recursive
  rollback is a loop over its steps, newest first (\<open>rollback_line\<close>, \<open>rollback_all\<close>), which leaves each step rolled back or waiting for
  its compensation (\<open>unwound\<close>). The failure for good leads from \<open>poised\<close> to \<open>unwinding\<close> (\<open>poised_gives_up\<close>), and each further round
  runs one compensation (\<open>unwinding_round\<close>) until none is left.
\<close>

section \<open>The way back\<close>

text \<open>The steps of a line, each with the one before as its \<open>Prev\<close>.\<close>

primrec prevLine :: "WorkflowDefinition \<Rightarrow> string \<Rightarrow> string list \<Rightarrow> bool" where
  "prevLine def prev [] = True"
| "prevLine def prev (n # ns) = (n \<noteq> '''' \<and> n \<noteq> rootStepName \<and> map_option sd_Prev (stepDefOf def n) = Some prev \<and> prevLine def n ns)"

lemma prevLine_snoc:
  "prevLine def prev (ns @ [n]) \<longleftrightarrow> prevLine def prev ns \<and> n \<noteq> '''' \<and> n \<noteq> rootStepName \<and>
     map_option sd_Prev (stepDefOf def n) = Some (if ns = [] then prev else last ns)"
  by (induction ns arbitrary: prev) auto

lemma prevLine_append: "prevLine def prev (ns @ ms) \<Longrightarrow> prevLine def prev ns"
  by (induction ns arbitrary: prev) auto

lemma plain_savePoint: "plainTasks def \<Longrightarrow> findNearestSavePoint n def = rootStepName"
proof -
  assume plain: "plainTasks def"
  have found: "sd_Type d = StepTypeTask" if "find P (stepsOf def) = Some (m, d)" for P m d
    using that plainTasksD [OF plain, of m d] by (metis find_Some_iff nth_mem)
  have "prevWalk (stepsOf def) (\<lambda>n. n = '''')
        (\<lambda>n sd. let sd' = (if sd_Prev sd = '''' then
                     (case find (\<lambda>(m, d). sd_Prev d \<noteq> '''') (stepsOf def) of
                        None \<Rightarrow> sd | Some (m, d) \<Rightarrow> d) else sd)
                in if sd_Type sd' = StepTypeSavePoint then Inl n else Inr (sd_Prev sd')) [] n = None"
    by (rule prevWalk_climbs) (auto simp: Let_def plainTasksD [OF plain] dest: found split: option.split)
  then show ?thesis by (simp add: findNearestSavePoint_def)
qed

text \<open>Along a line, the recursion is the loop over its steps, the newest first.\<close>

lemma rollback_line:
  assumes plain: "plainTasks def" and "sts \<noteq> []" "prevLine def rootStepName (map ws_StepName sts)"
    and "distinct (map ws_StepName sts)" "set (map ws_StepName sts) \<inter> set visited = {}" "length sts \<le> fuel"
    and "\<forall>st \<in> set sts. stepMap (ws_StepName st) = Some st \<and> ws_Status st \<in> {StepStatusCompleted, StepStatusFailed}"
    and "gforeach (\<lambda>st. rollbackStep E st def) (rev sts) w = (Ok (), w')"
  shows "\<exists>v. rollbackStepChainWithVisited fuel E def stepMap rootStepName False (ws_StepName (last sts)) visited w = (Ok v, w')"
  using assms(2-)
proof (induction sts arbitrary: visited fuel w rule: rev_induct)
  case (snoc st sts)
  obtain fuel' where fuel: "fuel = Suc fuel'" "length sts \<le> fuel'" using snoc.prems(5) by (cases fuel) auto
  obtain sd where sd: "stepDefOf def (ws_StepName st) = Some sd"
    "sd_Prev sd = (if sts = [] then rootStepName else ws_StepName (last sts))" "ws_StepName st \<noteq> rootStepName"
    using snoc.prems(2) by (auto simp: prevLine_snoc last_map)
  have task: "sd_Type sd = StepTypeTask" by (rule plainTasks_stepDef [OF plain sd(1)])
  obtain w1 where r: "rollbackStep E st def w = (Ok (), w1)" "gforeach (\<lambda>st. rollbackStep E st def) (rev sts) w1 = (Ok (), w')"
    using snoc.prems(7) by (auto elim: gseq_OkE)
  have st: "stepMap (ws_StepName st) = Some st" "ws_Status st \<in> {StepStatusCompleted, StepStatusFailed}" "ws_StepName st \<notin> set visited"
    using snoc.prems(4,6) by auto
  show ?case
  proof (cases "sts = []")
    case True
    with r st sd task fuel show ?thesis by (simp add: needStep_run isForkType_def)
  next
    case False
    obtain sd' where sd': "stepDefOf def (ws_StepName (last sts)) = Some sd'" "ws_StepName (last sts) \<noteq> ''''"
      "ws_StepName (last sts) \<noteq> rootStepName"
      using prevLine_append [of def rootStepName "map ws_StepName sts" "[ws_StepName st]"] snoc.prems(2) False
      by (cases sts rule: rev_cases) (auto simp: prevLine_snoc)
    have "sd_Type sd' = StepTypeTask" by (rule plainTasks_stepDef [OF plain sd'(1)])
    moreover obtain v where "rollbackStepChainWithVisited fuel' E def stepMap rootStepName False (ws_StepName (last sts))
        (ws_StepName st # visited) w1 = (Ok v, w')"
      using snoc.IH [OF False _ _ _ fuel(2) _ r(2), of "ws_StepName st # visited"] snoc.prems
      by (auto simp: prevLine_snoc)
    ultimately show ?thesis
      using False r st sd sd' task fuel(1) by (simp add: needStep_run isForkType_def)
  qed
qed simp

section \<open>Rolling back all steps\<close>

definition compensationOf :: "WorkflowDefinition \<Rightarrow> string \<Rightarrow> StepDefinition option" where
  "compensationOf def n = (case stepDefOf def n of None \<Rightarrow> None | Some sd \<Rightarrow> stepDefOf def (sd_OnFailure sd))"

text \<open>A step without a compensation, or with one that may be tried and is queued without a back-off.\<close>

definition compensable :: "env \<Rightarrow> WorkflowDefinition \<Rightarrow> string \<Rightarrow> bool" where
  "compensable E def n \<longleftrightarrow> (case compensationOf def n of None \<Rightarrow> True
     | Some onf \<Rightarrow> 0 < sd_MaxRetries onf \<and> retryDelayOf E onf 1 = 0)"

text \<open>What the rollback makes of a step.\<close>

definition fate :: "WorkflowDefinition \<Rightarrow> WorkflowStep \<Rightarrow> WorkflowStep \<Rightarrow> bool" where
  "fate def st st' \<longleftrightarrow> ws_ID st' = ws_ID st \<and> ws_StepName st' = ws_StepName st \<and> ws_Input st' = ws_Input st \<and>
     ws_InstanceID st' = ws_InstanceID st \<and>
     (if compensationOf def (ws_StepName st) = None then ws_Status st' = StepStatusRolledBack \<and> ws_Output st' = ws_Input st
      else ws_Status st' = StepStatusCompensation)"

definition sameButSteps :: "MemoryStore \<Rightarrow> MemoryStore \<Rightarrow> bool" where
  "sameButSteps s s' \<longleftrightarrow> ms_instances s' = ms_instances s \<and> ms_stepsByInstance s' = ms_stepsByInstance s \<and>
     ms_definitions s' = ms_definitions s \<and> ms_defheap s' = ms_defheap s \<and> ms_cancelRequests s' = ms_cancelRequests s \<and>
     ms_cursor s \<le> ms_cursor s'"

definition unwound :: "env \<Rightarrow> WorkflowDefinition \<Rightarrow> int \<Rightarrow> WorkflowStep list \<Rightarrow> MemoryStore \<Rightarrow> MemoryStore \<Rightarrow> bool" where
  "unwound E def iid sts s s' \<longleftrightarrow> sameButSteps s s' \<and>
     (\<forall>k. k \<notin> ws_ID ` set sts \<longrightarrow> map_of (ms_steps s') k = map_of (ms_steps s) k) \<and>
     (\<forall>st \<in> set sts. \<exists>st'. map_of (ms_steps s') (ws_ID st) = Some st' \<and> fate def st st') \<and>
     (\<exists>items. ms_queue s' = ms_queue s @ map (\<lambda>i. (qi_ID i, i)) items \<and>
        map qi_StepID items = map (Some \<circ> ws_ID) (filter (\<lambda>st. compensationOf def (ws_StepName st) \<noteq> None) sts) \<and>
        (\<forall>i \<in> set items. \<exists>k. dueItem E iid k (ms_cursor s') i))"

lemma unwound_other: "unwound E def iid sts s s' \<Longrightarrow> k \<notin> ws_ID ` set sts \<Longrightarrow> map_of (ms_steps s') k = map_of (ms_steps s) k"
  unfolding unwound_def by blast

lemma dueItem_later: "dueItem E iid sid c item \<Longrightarrow> c \<le> d \<Longrightarrow> dueItem E iid sid d item"
  unfolding dueItem_def by (meson order_trans)

lemma unwound_trans:
  assumes "unwound E def iid xs s t" "unwound E def iid ys t u" "ws_ID ` set xs \<inter> ws_ID ` set ys = {}"
  shows "unwound E def iid (xs @ ys) s u"
proof -
  obtain is1 is2 where q: "ms_queue t = ms_queue s @ map (\<lambda>i. (qi_ID i, i)) is1" "ms_queue u = ms_queue t @ map (\<lambda>i. (qi_ID i, i)) is2"
    "map qi_StepID is1 = map (Some \<circ> ws_ID) (filter (\<lambda>st. compensationOf def (ws_StepName st) \<noteq> None) xs)"
    "map qi_StepID is2 = map (Some \<circ> ws_ID) (filter (\<lambda>st. compensationOf def (ws_StepName st) \<noteq> None) ys)"
    "\<forall>i \<in> set is1. \<exists>k. dueItem E iid k (ms_cursor t) i" "\<forall>i \<in> set is2. \<exists>k. dueItem E iid k (ms_cursor u) i"
    using assms(1,2) unfolding unwound_def by blast
  have c: "ms_cursor t \<le> ms_cursor u" using assms(2) by (simp add: unwound_def sameButSteps_def)
  have "\<exists>st'. map_of (ms_steps u) (ws_ID st) = Some st' \<and> fate def st st'" if "st \<in> set (xs @ ys)" for st
    using that assms unfolding unwound_def by (metis (no_types, lifting) Un_iff disjoint_iff image_eqI set_append)
  moreover have "sameButSteps s u" using assms(1,2) by (auto simp: unwound_def sameButSteps_def)
  moreover have "map_of (ms_steps u) k = map_of (ms_steps s) k" if "k \<notin> ws_ID ` set (xs @ ys)" for k
    using that unwound_other [OF assms(1), of k] unwound_other [OF assms(2), of k] by (simp add: image_Un)
  moreover have "\<exists>k. dueItem E iid k (ms_cursor u) i" if "i \<in> set (is1 @ is2)" for i
    using that q(5,6) dueItem_later [OF _ c] by (metis Un_iff set_append)
  ultimately show ?thesis
    using q(1-4) unfolding unwound_def by (intro conjI exI [of _ "is1 @ is2"]) auto
qed

lemma rollbackStep_unwinds:
  assumes wf: "store_wf (en_store w)" and st: "map_of (ms_steps (en_store w)) (ws_ID st) = Some st" "ws_CompensationRetryCount st = 0"
    and sd: "stepDefOf def (ws_StepName st) = Some sd" and c: "compensable E def (ws_StepName st)"
  shows "\<exists>s'. rollbackStep E st def w = (Ok (), w\<lparr>en_store := s'\<rparr>) \<and> unwound E def (ws_InstanceID st) [st] (en_store w) s'"
proof (cases "compensationOf def (ws_StepName st)")
  case None
  then have "stepDefOf def (sd_OnFailure sd) = None" using sd by (simp add: compensationOf_def)
  then have "rollbackStep E st def w = (Ok (), w\<lparr>en_store := (en_store w)\<lparr>ms_steps := AList.update (ws_ID st)
      (stepAfter (clk E (ms_cursor (en_store w))) StepStatusRolledBack (ws_Input st) None st) (ms_steps (en_store w)),
      ms_cursor := Suc (ms_cursor (en_store w))\<rparr>\<rparr>)"
    using sd by (simp add: rollbackStep_def needStep_run UpdateStep_run [OF st(1)])
  then show ?thesis
    using None by (auto simp: unwound_def sameButSteps_def fate_def update_conv')
next
  case (Some onf)
  let ?s = "en_store w"
  let ?s1 = "?s\<lparr>ms_steps := AList.update (ws_ID st) (st\<lparr>ws_CompensationRetryCount := 1, ws_Status := StepStatusCompensation\<rparr>) (ms_steps ?s)\<rparr>"
  let ?item = "queuedItem (E, ws_InstanceID st, Some (ws_ID st), PriorityHigh, 0) ?s1"
  let ?s2 = "?s1\<lparr>ms_queue := AList.update (ms_nextQueueID ?s) ?item (ms_queue ?s), ms_nextQueueID := ms_nextQueueID ?s + 1,
      ms_cursor := Suc (ms_cursor ?s)\<rparr>"
  let ?s3 = "logged E (ws_InstanceID st) (Some (ws_ID st)) ''step_started''
     [(''step_name'', JStr (ws_StepName st)), (''step_type'', JStr (stepTypeStr (ws_StepType st))),
      (''retry_count'', jnum 1), (''reason'', JStr ''compensation'')] ?s2"
  have onf: "stepDefOf def (sd_OnFailure sd) = Some onf" "0 < sd_MaxRetries onf" "retryDelayOf E onf 1 = 0"
    using Some sd c by (auto simp: compensationOf_def compensable_def)
  then have run: "rollbackStep E st def w = (Ok (), w\<lparr>en_store := ?s3\<rparr>)"
    using sd st(2) by (simp add: rollbackStep_def needStep_run UpdateStepCompensationRetry_run [OF st(1)] EnqueueStep_run Let_def)
  have "ms_nextQueueID ?s \<notin> fst ` set (ms_queue ?s)"
    using fresh_ids(2) [OF wf] by (simp add: map_of_eq_None_iff)
  then have "ms_queue ?s3 = ms_queue ?s @ map (\<lambda>i. (qi_ID i, i)) [?item]" by (simp add: update_new queuedItem_def)
  moreover have "dueItem E (ws_InstanceID st) (ws_ID st) (ms_cursor ?s3) ?item"
    by (auto simp: dueItem_def queuedItem_def PriorityHigh_def logged_cursor intro!: exI [of _ "ms_cursor ?s"])
  moreover have "qi_StepID ?item = Some (ws_ID st)" by (simp add: queuedItem_def)
  ultimately show ?thesis
    unfolding run unwound_def using Some
    by (intro exI [of _ ?s3] conjI exI [of _ "[?item]"]) (auto simp: sameButSteps_def fate_def logged_cursor update_conv')
qed

lemma unwound_nil: "unwound E def iid [] s s"
  by (simp add: unwound_def sameButSteps_def)

lemma rollback_all:
  assumes "store_wf (en_store w)" "distinct (map ws_ID sts)"
    and "\<forall>st \<in> set sts. map_of (ms_steps (en_store w)) (ws_ID st) = Some st \<and> ws_CompensationRetryCount st = 0 \<and>
      ws_InstanceID st = iid \<and> stepDefOf def (ws_StepName st) \<noteq> None \<and> compensable E def (ws_StepName st)"
  shows "\<exists>s'. gforeach (\<lambda>st. rollbackStep E st def) sts w = (Ok (), w\<lparr>en_store := s'\<rparr>) \<and> unwound E def iid sts (en_store w) s'"
  using assms
proof (induction sts arbitrary: w)
  case Nil
  show ?case using unwound_nil by (auto intro!: exI [of _ "en_store w"])
next
  case (Cons st sts)
  have st: "map_of (ms_steps (en_store w)) (ws_ID st) = Some st" "ws_CompensationRetryCount st = 0" "ws_InstanceID st = iid"
    "compensable E def (ws_StepName st)" using Cons.prems(3) by auto
  obtain sd where "stepDefOf def (ws_StepName st) = Some sd" using Cons.prems(3) by auto
  from rollbackStep_unwinds [OF Cons.prems(1) st(1,2) this st(4)]
  obtain s1 where r: "rollbackStep E st def w = (Ok (), w\<lparr>en_store := s1\<rparr>)" "unwound E def iid [st] (en_store w) s1"
    using st(3) by auto
  have wf: "store_wf (en_store (w\<lparr>en_store := s1\<rparr>))"
    using eok_wf [OF sys.rollbackStep Cons.prems(1), of E st def] by (simp add: r(1))
  have "map_of (ms_steps s1) (ws_ID x) = map_of (ms_steps (en_store w)) (ws_ID x)" if "x \<in> set sts" for x
    by (rule unwound_other [OF r(2)]) (use Cons.prems(2) that in \<open>auto simp: image_iff\<close>)
  with Cons.prems(3) have "\<forall>x \<in> set sts. map_of (ms_steps (en_store (w\<lparr>en_store := s1\<rparr>))) (ws_ID x) = Some x \<and> ws_CompensationRetryCount x = 0 \<and>
      ws_InstanceID x = iid \<and> stepDefOf def (ws_StepName x) \<noteq> None \<and> compensable E def (ws_StepName x)" by simp
  from Cons.IH [OF wf _ this] Cons.prems(2)
  obtain s2 where s2: "gforeach (\<lambda>st. rollbackStep E st def) sts (w\<lparr>en_store := s1\<rparr>) = (Ok (), w\<lparr>en_store := s2\<rparr>)"
    "unwound E def iid sts s1 s2" by auto
  have "unwound E def iid ([st] @ sts) (en_store w) s2"
    by (rule unwound_trans [OF r(2) s2(2)]) (use Cons.prems(2) in auto)
  with r(1) s2(1) show ?case by auto
qed

section \<open>A failure for good\<close>

text \<open>The store when the failure is on record and the rollback begins.\<close>

definition failedStore :: "env \<Rightarrow> int \<Rightarrow> string \<Rightarrow> WorkflowStep \<Rightarrow> MemoryStore \<Rightarrow> MemoryStore" where
  "failedStore E iid errMsg st s =
     logged E iid (Some (ws_ID st)) ''step_failed'' [(''step_name'', JStr (ws_StepName st)), (''error'', JStr errMsg)]
       (s\<lparr>ms_steps := AList.update (ws_ID st) (stepAfter (clk E (ms_cursor s)) StepStatusFailed RawNil (Some errMsg) st) (ms_steps s),
          ms_cursor := Suc (ms_cursor s)\<rparr>)"

lemma failedStore_fields [simp]:
  "ms_instances (failedStore E iid errMsg st s) = ms_instances s"
  "ms_stepsByInstance (failedStore E iid errMsg st s) = ms_stepsByInstance s"
  "ms_queue (failedStore E iid errMsg st s) = ms_queue s" "ms_definitions (failedStore E iid errMsg st s) = ms_definitions s"
  "ms_defheap (failedStore E iid errMsg st s) = ms_defheap s" "ms_cancelRequests (failedStore E iid errMsg st s) = ms_cancelRequests s"
  "ms_cursor (failedStore E iid errMsg st s) = Suc (Suc (ms_cursor s))"
  "ms_steps (failedStore E iid errMsg st s) =
     AList.update (ws_ID st) (stepAfter (clk E (ms_cursor s)) StepStatusFailed RawNil (Some errMsg) st) (ms_steps s)"
  "defAt (failedStore E iid errMsg st s) wid = defAt s wid"
  by (simp_all add: failedStore_def logged_cursor) (rule defAt_cong, simp_all)

lemma failedStore_wf:
  assumes "store_wf s" "map_of (ms_steps s) (ws_ID st) = Some st"
  shows "store_wf (failedStore E iid errMsg st s)"
proof -
  have "sys.eok (cmd msg (UpdateStep E (ws_ID st) StepStatusFailed RawNil (Some errMsg)) (gseq (logEvent E iid (Some (ws_ID st)) ''step_failed''
      [(''step_name'', JStr (ws_StepName st)), (''error'', JStr errMsg)]) (gret ())))" for msg
    by (intro sys.engine_control sys.store_ops sys.logEvent)
  from eok_wf [OF this, of "(NewEngine s)\<lparr>en_store := s\<rparr>"] assms show ?thesis by (simp add: UpdateStep_run failedStore_def)
qed

text \<open>The steps of an instance that are rolled back: those of a line, all of which ran.\<close>

definition ranLine :: "env \<Rightarrow> WorkflowDefinition \<Rightarrow> WorkflowStep list \<Rightarrow> bool" where
  "ranLine E def sts \<longleftrightarrow> sts \<noteq> [] \<and> prevLine def rootStepName (map ws_StepName sts) \<and> distinct (map ws_StepName sts) \<and>
     (\<forall>st \<in> set sts. ws_Status st \<in> {StepStatusCompleted, StepStatusFailed} \<and> ws_CompensationRetryCount st = 0 \<and>
        stepDefOf def (ws_StepName st) \<noteq> None \<and> compensable E def (ws_StepName st))"

lemma stepMapOf_unique:
  assumes "distinct (map ws_StepName sts)" "set xs = set sts" "distinct xs" "st \<in> set sts"
  shows "stepMapOf xs (ws_StepName st) = Some st"
proof -
  have "inj_on ws_StepName (set xs)" using assms(1,2) by (simp add: distinct_map)
  then have "distinct (map fst (rev (map (\<lambda>st. (ws_StepName st, st)) xs)))"
    using assms(3) by (simp add: rev_map comp_def distinct_map)
  then show ?thesis
    unfolding stepMapOf_def by (rule map_of_is_SomeI) (use assms(2,4) in auto)
qed

lemma rollback_run:
  assumes wf: "store_wf (en_store w)" and plain: "plainTasks def" and sts: "stepsOfInstance (en_store w) iid = sts" "ranLine E def sts"
    and st: "ws_StepName st = ws_StepName (last sts)"
  shows "\<exists>s'. rollbackToSavePointOrRoot E iid (SCopy st) def w = (Ok (), w\<lparr>en_store := s'\<rparr>) \<and>
    unwound E def iid (rev sts) (en_store w) s'"
proof -
  let ?xs = "sort_key ws_CreatedAt sts"
  note line = sts(2) [unfolded ranLine_def]
  have stored: "map_of (ms_steps (en_store w)) (ws_ID x) = Some x \<and> ws_InstanceID x = iid" if "x \<in> set sts" for x
    using that set_stepsOfInstance [OF wf] sts(1) by blast
  have dist: "distinct sts" using line by (simp add: distinct_map)
  moreover have "inj_on ws_ID (set sts)" by (rule inj_onI) (metis stored option.inject)
  ultimately have ids: "distinct (map ws_ID (rev sts))" by (simp add: distinct_map)
  obtain s' where r: "gforeach (\<lambda>st. rollbackStep E st def) (rev sts) w = (Ok (), w\<lparr>en_store := s'\<rparr>)"
    "unwound E def iid (rev sts) (en_store w) s'"
    using rollback_all [OF wf ids, of iid def E] stored line by auto
  have map: "stepMapOf ?xs (ws_StepName x) = Some x" if "x \<in> set sts" for x
    using stepMapOf_unique [of sts ?xs] line dist that by simp
  have "length sts \<le> chainFuel def"
  proof -
    have "set (map ws_StepName sts) \<subseteq> set (map fst (stepsOf def))"
      using line by (auto simp: stepDefOf_def map_of_eq_None_iff simp del: not_None_eq)
    then have "card (set (map ws_StepName sts)) \<le> card (set (map fst (stepsOf def)))" by (intro card_mono) auto
    also have "\<dots> \<le> length (stepsOf def)" by (metis card_length length_map)
    finally have "card (set (map ws_StepName sts)) \<le> length (stepsOf def)" .
    moreover have "card (set (map ws_StepName sts)) = length sts" using line distinct_card [of "map ws_StepName sts"] by simp
    ultimately show ?thesis by (simp add: chainFuel_def)
  qed
  then obtain v where "rollbackStepChainWithVisited (chainFuel def) E def (stepMapOf ?xs) rootStepName False (ws_StepName (last sts)) [] w =
      (Ok v, w\<lparr>en_store := s'\<rparr>)"
    using rollback_line [OF plain _ _ _ _ _ _ r(1), of "[]" "chainFuel def" "stepMapOf ?xs"] line map by auto
  then have "rollbackStepChain E (ws_StepName st) rootStepName def (stepMapOf ?xs) False w = (Ok (), w\<lparr>en_store := s'\<rparr>)"
    by (simp add: rollbackStepChain_def st)
  moreover have "onStore (GetStepsByInstance iid) w = (Ok ?xs, w)"
    by (simp add: onStore_def gzoom_def GetStepsByInstance_def sts(1))
  moreover have "stepMapOf ?xs (ws_StepName st) = Some (last sts)" using map [of "last sts"] line st by simp
  ultimately show ?thesis
    using r(2) by (intro exI [of _ s']) (simp add: rollbackToSavePointOrRoot_def rollbackStepsToSavePoint_def plain_savePoint [OF plain] Let_def)
qed

lemma fail_run:
  assumes wf: "store_wf (en_store w)" and plain: "plainTasks def" and i: "map_of (ms_instances (en_store w)) (wi_ID inst) = Some inst"
    and d: "defAt (en_store w) (wi_WorkflowID inst) = Some def" "\<not> gd_DLQEnabled (wd_Definition def)"
    and st: "map_of (ms_steps (en_store w)) (ws_ID st) = Some st0" "ws_ID st0 = ws_ID st" "ws_StepName st0 = ws_StepName st"
    and no: "\<not> mayRetry sd st"
    and sts: "stepsOfInstance (failedStore E (wi_ID inst) (errStr err) st0 (en_store w)) (wi_ID inst) = sts" "ranLine E def sts"
      "ws_StepName (last sts) = ws_StepName st"
  shows "\<exists>s' s'' i'. handleStepFailure E inst (SCopy st) sd err w = (Ok (), w\<lparr>en_store := s''\<rparr>) \<and>
    unwound E def (wi_ID inst) (rev sts) (failedStore E (wi_ID inst) (errStr err) st0 (en_store w)) s' \<and>
    map_of (ms_instances s'') = (map_of (ms_instances s'))(wi_ID inst \<mapsto> i') \<and> wi_Status i' = StatusFailed \<and> wi_Error i' = Some (errStr err) \<and>
    ms_steps s'' = ms_steps s' \<and> ms_queue s'' = ms_queue s' \<and> ms_stepsByInstance s'' = ms_stepsByInstance s' \<and>
    ms_definitions s'' = ms_definitions s' \<and> ms_defheap s'' = ms_defheap s' \<and> ms_cancelRequests s'' = ms_cancelRequests s' \<and>
    ms_cursor s' \<le> ms_cursor s'' \<and> wi_WorkflowID i' = wi_WorkflowID inst \<and> wi_ID i' = wi_ID inst"
proof -
  let ?s1 = "failedStore E (wi_ID inst) (errStr err) st0 (en_store w)" and ?iid = "wi_ID inst"
  let ?w1 = "w\<lparr>en_store := ?s1\<rparr>"
  have upd: "cmd ''update step: '' (UpdateStep E (ws_ID st) StepStatusFailed RawNil (Some (errStr err)))
      (gseq (logEvent E ?iid (Some (ws_ID st)) ''step_failed''
               [(''step_name'', JStr (ws_StepName st)), (''error'', JStr (errStr err))]) k) w = k ?w1" for k
    using UpdateStep_run [OF st(1)] st(2,3) by (simp add: failedStore_def)
  have i1: "map_of (ms_instances (en_store ?w1)) ?iid = Some inst" and d1: "defAt (en_store ?w1) (wi_WorkflowID inst) = Some def"
    using i d by simp_all
  have fork: "isStepInForkBranch ?s1 ?iid n = False" for n
    using i1 d1 by (simp add: isStepInForkBranch_def findForkStepForParallelStep_def instanceDef_def plain_findFork [OF plain])
  have wf1: "store_wf ?s1" using failedStore_wf [OF wf, of st0] st(1,2) by simp
  obtain s' where r: "rollbackToSavePointOrRoot E ?iid (SCopy st) def ?w1 = (Ok (), w\<lparr>en_store := s'\<rparr>)"
    "unwound E def ?iid (rev sts) ?s1 s'"
    using rollback_run [of ?w1 def ?iid sts E st] wf1 plain sts by auto
  have i2: "map_of (ms_instances (en_store (w\<lparr>en_store := s'\<rparr>))) ?iid = Some inst"
    using r(2) i by (simp add: unwound_def sameButSteps_def)
  let ?i' = "instanceAfter (clk E (ms_cursor s')) (clk E (Suc (ms_cursor s'))) StatusFailed RawNil (Some (errStr err)) inst"
  let ?s'' = "s'\<lparr>ms_instances := AList.update ?iid ?i' (ms_instances s'), ms_cursor := Suc (Suc (ms_cursor s'))\<rparr>"
  have u: "onStore (UpdateInstanceStatus E ?iid StatusFailed RawNil (Some (errStr err))) (w\<lparr>en_store := s'\<rparr>) = (Ok (), w\<lparr>en_store := ?s''\<rparr>)"
    using i2 by (simp add: onStore_def gzoom_def UpdateInstanceStatus_def stampsCompletion_def)
  have "handleStepFailure E inst (SCopy st) sd err w = failAndRollback E inst (SCopy st) sd (errStr err) w"
    using no d by (simp add: handleStepFailure_def)
  also have "\<dots> = (Ok (), w\<lparr>en_store := ?s''\<rparr>)"
    using d1 by (simp add: failAndRollback_def Let_def upd plain_questions(1) [OF plain] plain_joins(1) [OF plain i1 d1] fork r(1) u)
  finally show ?thesis
    using r(2) by (intro exI [of _ s'] exI [of _ ?s''] exI [of _ ?i']) (simp add: update_conv' instanceAfter_def Let_def)
qed

section \<open>The compensations\<close>

text \<open>
  The engine while the compensations run: the instance has failed, every step that ran is rolled back or waits for its
  compensation, and the queue holds one item for each of the latter and nothing else.
\<close>

definition settledStep :: "WorkflowDefinition \<Rightarrow> WorkflowStep \<Rightarrow> bool" where
  "settledStep def st \<longleftrightarrow> (if ws_Status st = StepStatusCompensation then compensationOf def (ws_StepName st) \<noteq> None
     else ws_Status st = StepStatusRolledBack \<and> ws_Output st = ws_Input st)"

definition compensating :: "MemoryStore \<Rightarrow> int \<Rightarrow> WorkflowStep set" where
  "compensating s iid = {st \<in> set (stepsOfInstance s iid). ws_Status st = StepStatusCompensation}"

definition unwinding ::
    "env \<Rightarrow> int \<Rightarrow> string \<Rightarrow> WorkflowDefinition \<Rightarrow> (string \<times> raw) list \<Rightarrow> string \<Rightarrow> QueueItem list \<Rightarrow> Engine \<Rightarrow> bool" where
  "unwinding E iid wid def hist msg items w \<longleftrightarrow>
     store_wf (en_store w) \<and> \<not> en_isShuttingDown w \<and> defAt (en_store w) wid = Some def \<and>
     (\<exists>inst. map_of (ms_instances (en_store w)) iid = Some inst \<and> wi_Status inst = StatusFailed \<and>
        wi_WorkflowID inst = wid \<and> wi_Error inst = Some msg) \<and>
     map (\<lambda>st. (ws_StepName st, ws_Input st)) (stepsOfInstance (en_store w) iid) = hist \<and>
     (\<forall>st \<in> set (stepsOfInstance (en_store w) iid). settledStep def st) \<and>
     ms_queue (en_store w) = map (\<lambda>i. (qi_ID i, i)) items \<and> distinct (map qi_StepID items) \<and>
     (\<forall>i \<in> set items. \<exists>k. dueItem E iid k (ms_cursor (en_store w)) i) \<and>
     qi_StepID ` set items = (Some \<circ> ws_ID) ` compensating (en_store w) iid"

lemma hasStatus_steps: "hasStatus S s i \<longleftrightarrow> (\<exists>st \<in> set (stepsOfInstance s i). ws_Status st \<in> S)"
  by (auto simp: hasStatus_def stepsIn_def list_ex_iff)

text \<open>The handlers of the compensations are there and succeed.\<close>

definition compensates :: "WorkflowDefinition \<Rightarrow> (string \<times> handler) list \<Rightarrow> string \<Rightarrow> bool" where
  "compensates def hs n \<longleftrightarrow> (case compensationOf def n of None \<Rightarrow> True
     | Some onf \<Rightarrow> \<exists>h. map_of hs (sd_Handler onf) = Some h \<and> (\<forall>k ctx v. \<exists>out. noPanicExecute h k ctx v = Inr out))"

text \<open>The due item that is picked.\<close>

lemma pick_due:
  assumes "mono (clk E)" and q: "ms_queue s = map (\<lambda>i. (qi_ID i, i)) items" "items \<noteq> []"
    and due: "\<forall>i \<in> set items. \<exists>k. dueItem E iid k (ms_cursor s) i"
  obtains item where "item \<in> set items" "DequeueStep E worker s =
    (let item' = item\<lparr>qi_AttemptedAt := Some (clk E (ms_cursor s)), qi_AttemptedBy := Some worker\<rparr>
     in (Ok (Some item'), s\<lparr>ms_cursor := Suc (ms_cursor s), ms_queue := AList.update (qi_ID item) item' (ms_queue s)\<rparr>))"
proof -
  let ?now = "clk E (ms_cursor s)"
  have el: "eligible ?now i \<and> 0 \<le> prioOf s ?now i" if i: "i \<in> set items" for i
  proof -
    obtain t where t: "t \<le> ms_cursor s" "qi_ScheduledAt i = clk E t" "0 \<le> qi_Priority i" "qi_AttemptedAt i = None"
      using due i unfolding dueItem_def by blast
    then have "qi_ScheduledAt i \<le> ?now" using assms(1) by (metis monoD)
    with t effectivePriority_nonneg show ?thesis by (simp add: eligible_def prioOf_def)
  qed
  obtain item where item: "dequeueSelect s ?now = Some item"
  proof (cases "dequeueSelect s ?now")
    case None
    with dequeueSelect_spec [of s ?now] have "prioOf s ?now (hd items) < 0" using q el [of "hd items"] by (auto simp: comp_def)
    with el [of "hd items"] q(2) show thesis by simp
  qed (rule that)
  with dequeueSelect_mem [OF item] q(1) have "item \<in> set items" by auto
  with that item show thesis by (simp add: DequeueStep_def Let_def)
qed

text \<open>The end of a successful compensation: the step is rolled back, and after the last one the instance is marked again.\<close>

definition failedMessage :: string where
  "failedMessage = ''workflow has failed or rolled back steps''"

lemma done_run:
  assumes st: "map_of (ms_steps (en_store w)) (ws_ID st) = Some st" "ws_InstanceID st = iid"
    and i: "map_of (ms_instances (en_store w)) iid = Some i0" "wi_WorkflowID inst = wid"
    and s1: "s1 = recorded E iid StepStatusRolledBack (ws_Input st) ''step_completed''
       [(''step_name'', JStr (ws_StepName st)), (''step_type'', JStr (stepTypeStr (ws_StepType st))),
        (''retry_count'', jnum (ws_CompensationRetryCount st)), (''reason'', JStr ''compensation_success'')] st (en_store w)"
    and settled: "\<forall>x \<in> set (stepsOfInstance s1 iid). settledStep def x" and some: "stepsOfInstance s1 iid \<noteq> []"
  shows "\<exists>s2 i'. compensationDone E inst st w = (Ok (), w\<lparr>en_store := s2\<rparr>) \<and> ms_steps s2 = ms_steps s1 \<and>
    ms_stepsByInstance s2 = ms_stepsByInstance s1 \<and> ms_queue s2 = ms_queue s1 \<and> ms_definitions s2 = ms_definitions s1 \<and>
    ms_defheap s2 = ms_defheap s1 \<and> ms_cursor s1 \<le> ms_cursor s2 \<and> map_of (ms_instances s2) iid = Some i' \<and>
    (if compensating s1 iid = {} then wi_Status i' = StatusFailed \<and> wi_WorkflowID i' = wi_WorkflowID i0 \<and> wi_Error i' = Some failedMessage
     else i' = i0)"
proof -
  have no: "\<not> hasUnfinishedSteps s1 iid" using settled
    by (auto simp: hasUnfinishedSteps_def hasStatus_steps settledStep_def split: if_splits)
  have comp: "hasStepsInCompensation s1 iid \<longleftrightarrow> compensating s1 iid \<noteq> {}"
    by (auto simp: hasStepsInCompensation_def hasStatus_steps compensating_def)
  have run: "compensationDone E inst st w =
      (if compensating s1 iid = {} \<and> hasFailedOrRolledBackSteps s1 iid then markFailed E iid wid else gret ()) (w\<lparr>en_store := s1\<rparr>)"
    using no comp i(2) by (simp add: compensationDone_def record_run [OF st(1)] st(2) s1 [symmetric])
  show ?thesis
  proof (cases "compensating s1 iid = {}")
    case False
    with run i(1) show ?thesis by (intro exI [of _ s1] exI [of _ i0]) (simp add: s1)
  next
    case True
    have "hasFailedOrRolledBackSteps s1 iid"
      using settled some True by (auto simp: hasFailedOrRolledBackSteps_def hasStatus_steps settledStep_def compensating_def neq_Nil_conv
          split: if_splits)
    moreover have i1: "map_of (ms_instances (en_store (w\<lparr>en_store := s1\<rparr>))) iid = Some i0" using i(1) by (simp add: s1)
    let ?i' = "instanceAfter (clk E (ms_cursor s1)) (clk E (Suc (ms_cursor s1))) StatusFailed RawNil (Some failedMessage) i0"
    let ?s' = "s1\<lparr>ms_instances := AList.update iid ?i' (ms_instances s1), ms_cursor := Suc (Suc (ms_cursor s1))\<rparr>"
    let ?s2 = "logged E iid None ''workflow_failed'' [(''workflow_id'', JStr wid), (''reason'', JStr failedMessage)] ?s'"
    have "onStore (UpdateInstanceStatus E iid StatusFailed RawNil (Some failedMessage)) (w\<lparr>en_store := s1\<rparr>) = (Ok (), w\<lparr>en_store := ?s'\<rparr>)"
      using i1 by (simp add: onStore_def gzoom_def UpdateInstanceStatus_def stampsCompletion_def)
    then have "markFailed E iid wid (w\<lparr>en_store := s1\<rparr>) = (Ok (), w\<lparr>en_store := ?s2\<rparr>)"
      by (simp add: markFailed_def Let_def failedMessage_def [symmetric])
    ultimately show ?thesis
      using run True by (intro exI [of _ ?s2] exI [of _ ?i']) (simp add: logged_cursor instanceAfter_def Let_def)
  qed
qed

lemma stepsOfInstance_update:
  assumes "store_wf s" "map_of (ms_steps s) k = Some x" and t: "ms_steps t = AList.update k y (ms_steps s)" "ms_stepsByInstance t = ms_stepsByInstance s"
  shows "stepsOfInstance t i = map (\<lambda>z. if ws_ID z = k then y else z) (stepsOfInstance s i)"
proof -
  have id: "ws_ID z = j" if "map_of (ms_steps s) j = Some z" for j z
    by (rule tableOK_id [OF store_wfD(2) [OF assms(1)] that])
  have "List.map_filter (map_of (AList.update k y (ms_steps s))) ids =
      map (\<lambda>z. if ws_ID z = k then y else z) (List.map_filter (map_of (ms_steps s)) ids)" for ids
    by (induction ids) (auto simp: map_filter_def update_conv' assms(2) id [OF assms(2)] dest: id)
  then show ?thesis by (simp add: stepsOfInstance_def stepIDsOf_def t)
qed

text \<open>A queue without one of its items.\<close>

lemma queue_delete:
  assumes "distinct (map qi_ID (xs @ i # ys))"
  shows "AList.delete (qi_ID i) (AList.update (qi_ID i) j (map (\<lambda>i. (qi_ID i, i)) (xs @ i # ys))) = map (\<lambda>i. (qi_ID i, i)) (xs @ ys)"
proof -
  have del: "AList.delete k (map (\<lambda>i. (qi_ID i, i)) zs) = map (\<lambda>i. (qi_ID i, i)) (filter (\<lambda>i. qi_ID i \<noteq> k) zs)" for k zs
    by (induction zs) auto
  have keep: "filter (\<lambda>z. qi_ID z \<noteq> qi_ID i) zs = zs" if "qi_ID i \<notin> qi_ID ` set zs" for zs
    using that by (simp add: filter_id_conv image_iff) metis
  show ?thesis using assms keep [of xs] keep [of ys] unfolding AList.delete_update_same del by simp
qed

lemma dueItem_step: "dueItem E iid k c i \<Longrightarrow> qi_StepID i = Some k \<and> qi_InstanceID i = iid"
  by (simp add: dueItem_def)

text \<open>The work on the item of a step in compensation.\<close>

lemma compensate_run:
  assumes "during E = (\<lambda>_. [])" and on: "worksOn E worker w item s1 inst" and st: "itemStep w item st" "ws_Status st = StepStatusCompensation"
    and i: "wi_Status inst = StatusFailed" "defAt s1 (wi_WorkflowID inst) = Some def"
    and c: "compensationOf def (ws_StepName st) = Some onf" "compensates def (en_handlers w) (ws_StepName st)"
    and done': "compensationDone E inst st ((claimed s1 w)\<lparr>en_hcalls := Suc (en_hcalls w)\<rparr>) = (Ok (), w2)"
  shows "processItem E item (claimed s1 w) = (Ok False, w2)"
proof -
  obtain sd where sd: "stepDefOf def (ws_StepName st) = Some sd" "stepDefOf def (sd_OnFailure sd) = Some onf"
    using c(1) by (auto simp: compensationOf_def split: option.splits)
  obtain h where h: "map_of (en_handlers w) (sd_Handler onf) = Some h" "\<And>k ctx v. \<exists>out. noPanicExecute h k ctx v = Inr out"
    using c by (auto simp: compensates_def)
  obtain out where "noPanicExecute h (en_hcalls w) (compensationContext st onf) (ws_Input st) = Inr out" using h(2) by blast
  then have call: "callHandler E h (compensationContext st onf) (ws_Input st) (claimed s1 w) =
      (Ok (Inr out), (claimed s1 w)\<lparr>en_hcalls := Suc (en_hcalls w)\<rparr>)"
    using assms(1) by (simp add: callHandler_def)
  have d: "defAt (en_store (claimed s1 w)) (wi_WorkflowID inst) = Some def" using i(2) by simp
  have "executeCompensationStep E inst st (claimed s1 w) = (Ok (), w2)"
    using h(1) done' by (simp add: executeCompensationStep_def GetDefinition_run [OF d] needStep_run [OF sd(1)] sd(2) call Let_def)
  then show ?thesis
    using i st(2) sd h(1) by (simp add: processItem_def worksOn_claimed [OF on] itemStep_found [OF on st(1)]
        GetDefinition_run [OF d] needStep_run [OF sd(1)])
qed

text \<open>What it makes of the steps.\<close>

lemma compensated_steps:
  assumes wf: "store_wf s" and st: "st \<in> set (stepsOfInstance s iid)" and settled: "\<forall>z \<in> set (stepsOfInstance s iid). settledStep def z"
    and t: "ms_steps t = AList.update (ws_ID st) (stepAfter now StepStatusRolledBack (ws_Input st) None st) (ms_steps s)"
      "ms_stepsByInstance t = ms_stepsByInstance s"
  shows "map (\<lambda>st. (ws_StepName st, ws_Input st)) (stepsOfInstance t iid) = map (\<lambda>st. (ws_StepName st, ws_Input st)) (stepsOfInstance s iid)"
    "\<forall>z \<in> set (stepsOfInstance t iid). settledStep def z" "stepsOfInstance t iid \<noteq> []"
    "compensating t iid = {z \<in> compensating s iid. ws_ID z \<noteq> ws_ID st}"
proof -
  let ?y = "stepAfter now StepStatusRolledBack (ws_Input st) None st"
  have st': "map_of (ms_steps s) (ws_ID st) = Some st" using st set_stepsOfInstance [OF wf] by blast
  have steps: "stepsOfInstance t iid = map (\<lambda>z. if ws_ID z = ws_ID st then ?y else z) (stepsOfInstance s iid)"
    by (rule stepsOfInstance_update [OF wf st' t])
  have "z = st" if "z \<in> set (stepsOfInstance s iid)" "ws_ID z = ws_ID st" for z
    using that set_stepsOfInstance [OF wf] st' by (metis option.inject)
  then show "map (\<lambda>st. (ws_StepName st, ws_Input st)) (stepsOfInstance t iid) = map (\<lambda>st. (ws_StepName st, ws_Input st)) (stepsOfInstance s iid)"
    by (auto simp: steps)
  have "settledStep def ?y" by (simp add: settledStep_def)
  with settled show "\<forall>z \<in> set (stepsOfInstance t iid). settledStep def z" by (auto simp: steps)
  show "stepsOfInstance t iid \<noteq> []" using st by (auto simp: steps)
  show "compensating t iid = {z \<in> compensating s iid. ws_ID z \<noteq> ws_ID st}" by (auto simp: compensating_def steps)
qed

text \<open>The item a worker picks while the compensations run, and its step.\<close>

lemma unwinding_picks:
  assumes E: "mono (clk E)" and u: "unwinding E iid wid def hist msg items w" "items \<noteq> []"
  obtains xs item ys item' s1 inst st onf where "items = xs @ item # ys" "qi_ID item' = qi_ID item"
    "DequeueStep E worker (en_store w) = (Ok (Some item'), s1)"
    "s1 = (en_store w)\<lparr>ms_cursor := Suc (ms_cursor (en_store w)), ms_queue := AList.update (qi_ID item) item' (ms_queue (en_store w))\<rparr>"
    "worksOn E worker w item' s1 inst" "itemStep w item' st" "st \<in> set (stepsOfInstance (en_store w) iid)" "ws_Status st = StepStatusCompensation"
    "qi_StepID item = Some (ws_ID st)" "compensationOf def (ws_StepName st) = Some onf" "map_of (ms_instances (en_store w)) iid = Some inst"
    "wi_Status inst = StatusFailed" "wi_WorkflowID inst = wid" "wi_Error inst = Some msg"
proof -
  let ?s = "en_store w"
  note u' = u(1) [unfolded unwinding_def]
  have wf: "store_wf ?s" and up: "\<not> en_isShuttingDown w" using u' by blast+
  obtain inst where inst: "map_of (ms_instances ?s) iid = Some inst" "wi_Status inst = StatusFailed" "wi_WorkflowID inst = wid"
    "wi_Error inst = Some msg" using u' by blast
  have q: "ms_queue ?s = map (\<lambda>i. (qi_ID i, i)) items" and due: "\<forall>i \<in> set items. \<exists>k. dueItem E iid k (ms_cursor ?s) i" using u' by blast+
  from pick_due [OF E q u(2) due] obtain item where item: "item \<in> set items" "DequeueStep E worker ?s =
    (let item' = item\<lparr>qi_AttemptedAt := Some (clk E (ms_cursor ?s)), qi_AttemptedBy := Some worker\<rparr>
     in (Ok (Some item'), ?s\<lparr>ms_cursor := Suc (ms_cursor ?s), ms_queue := AList.update (qi_ID item) item' (ms_queue ?s)\<rparr>))" .
  obtain xs ys where items: "items = xs @ item # ys" using item(1) by (meson split_list)
  define item' where "item' = item\<lparr>qi_AttemptedAt := Some (clk E (ms_cursor ?s)), qi_AttemptedBy := Some worker\<rparr>"
  define s1 where "s1 = ?s\<lparr>ms_cursor := Suc (ms_cursor ?s), ms_queue := AList.update (qi_ID item) item' (ms_queue ?s)\<rparr>"
  have deq: "DequeueStep E worker ?s = (Ok (Some item'), s1)" using item(2) by (simp add: item'_def s1_def Let_def)
  have "qi_StepID ` set items = (Some \<circ> ws_ID) ` compensating ?s iid" using u' by blast
  then have "qi_StepID item \<in> (Some \<circ> ws_ID) ` compensating ?s iid" using item(1) by blast
  then obtain st where st: "st \<in> set (stepsOfInstance ?s iid)" "ws_Status st = StepStatusCompensation" "qi_StepID item = Some (ws_ID st)"
    by (auto simp: compensating_def)
  have st': "map_of (ms_steps ?s) (ws_ID st) = Some st" "ws_InstanceID st = iid" using st(1) set_stepsOfInstance [OF wf] by blast+
  have iid: "qi_InstanceID item = iid" using due item(1) dueItem_step by blast
  have on: "worksOn E worker w item' s1 inst" using deq up inst wf iid by (simp add: worksOn_def item'_def)
  have at: "itemStep w item' st" using st st' iid by (simp add: itemStep_def item'_def)
  have "settledStep def st" using u' st(1) by blast
  then obtain onf where "compensationOf def (ws_StepName st) = Some onf" using st(2) by (auto simp: settledStep_def)
  with that [OF items _ deq s1_def on at st _ inst] show thesis by (simp add: item'_def)
qed

text \<open>One round: one compensation.\<close>

lemma unwinding_round:
  assumes E: "mono (clk E)" "during E = (\<lambda>_. [])" and u: "unwinding E iid wid def hist msg items w" "items \<noteq> []"
    and h: "\<forall>n \<in> fst ` set hist. compensates def (en_handlers w) n"
  shows "\<exists>w' items'. ExecuteNext E worker w = (Ok False, w') \<and> length items = Suc (length items') \<and>
    unwinding E iid wid def hist (if items' = [] then failedMessage else msg) items' w' \<and>
    en_handlers w' = en_handlers w \<and> en_hcalls w' = Suc (en_hcalls w)"
proof -
  let ?s = "en_store w"
  from unwinding_picks [OF E(1) u, of worker] obtain xs item ys item' s1 inst st onf where items: "items = xs @ item # ys" "qi_ID item' = qi_ID item"
    and deq: "DequeueStep E worker ?s = (Ok (Some item'), s1)"
    and s1: "s1 = ?s\<lparr>ms_cursor := Suc (ms_cursor ?s), ms_queue := AList.update (qi_ID item) item' (ms_queue ?s)\<rparr>"
    and on: "worksOn E worker w item' s1 inst" "itemStep w item' st" and st: "st \<in> set (stepsOfInstance ?s iid)"
      "ws_Status st = StepStatusCompensation" "qi_StepID item = Some (ws_ID st)" and onf: "compensationOf def (ws_StepName st) = Some onf"
    and inst: "map_of (ms_instances ?s) iid = Some inst" "wi_Status inst = StatusFailed" "wi_WorkflowID inst = wid" "wi_Error inst = Some msg" .
  note u' = u(1) [unfolded unwinding_def]
  have wf: "store_wf ?s" and up: "\<not> en_isShuttingDown w" and q: "ms_queue ?s = map (\<lambda>i. (qi_ID i, i)) items"
    and due: "\<forall>i \<in> set items. \<exists>k. dueItem E iid k (ms_cursor ?s) i" and settled: "\<forall>z \<in> set (stepsOfInstance ?s iid). settledStep def z"
    and hist: "map (\<lambda>st. (ws_StepName st, ws_Input st)) (stepsOfInstance ?s iid) = hist"
    and ids: "qi_StepID ` set items = (Some \<circ> ws_ID) ` compensating ?s iid" and dist: "distinct (map qi_StepID items)" using u' by blast+
  have st': "map_of (ms_steps ?s) (ws_ID st) = Some st" "ws_InstanceID st = iid" using st(1) set_stepsOfInstance [OF wf] by blast+
  have "ws_StepName st \<in> fst ` set hist" using st(1) by (auto simp: hist [symmetric] image_iff)
  with h have comp: "compensates def (en_handlers w) (ws_StepName st)" by blast
  have d: "defAt s1 wid = Some def" using u' defAt_cong [of s1 ?s] by (simp add: s1)
  let ?w1 = "(claimed s1 w)\<lparr>en_hcalls := Suc (en_hcalls w)\<rparr>"
  define r where "r = recorded E iid StepStatusRolledBack (ws_Input st) ''step_completed''
       [(''step_name'', JStr (ws_StepName st)), (''step_type'', JStr (stepTypeStr (ws_StepType st))),
        (''retry_count'', jnum (ws_CompensationRetryCount st)), (''reason'', JStr ''compensation_success'')] st (en_store ?w1)"
  have t: "ms_steps r = AList.update (ws_ID st) (stepAfter (clk E (ms_cursor s1)) StepStatusRolledBack (ws_Input st) None st) (ms_steps ?s)"
    "ms_stepsByInstance r = ms_stepsByInstance ?s" by (simp_all add: r_def s1)
  note f = compensated_steps [OF wf st(1) settled t]
  have p: "map_of (ms_steps (en_store ?w1)) (ws_ID st) = Some st" "map_of (ms_instances (en_store ?w1)) iid = Some inst"
    using st'(1) inst(1) by (simp_all add: s1)
  obtain s2 i' where c: "compensationDone E inst st ?w1 = (Ok (), ?w1\<lparr>en_store := s2\<rparr>)" "ms_steps s2 = ms_steps r"
    "ms_stepsByInstance s2 = ms_stepsByInstance r" "ms_queue s2 = ms_queue r" "ms_definitions s2 = ms_definitions r"
    "ms_defheap s2 = ms_defheap r" "ms_cursor r \<le> ms_cursor s2" "map_of (ms_instances s2) iid = Some i'"
    "if compensating r iid = {} then wi_Status i' = StatusFailed \<and> wi_WorkflowID i' = wi_WorkflowID inst \<and> wi_Error i' = Some failedMessage
     else i' = inst"
    using done_run [OF p(1) st'(2) p(2) inst(3) r_def f(2,3)] by blast
  define w' where "w' = uncounted (dropItem (qi_ID item) (?w1\<lparr>en_store := s2\<rparr>))"
  have next': "ExecuteNext E worker w = (Ok False, w')"
    using ExecuteNext_processed [OF up deq compensate_run [OF E(2) on st(2) inst(2) _ onf comp c(1)]] d inst(3) by (simp add: w'_def items(2))
  have eq: "stepsOfInstance (en_store w') iid = stepsOfInstance r iid" by (simp add: w'_def stepsOfInstance_def stepIDsOf_def c)
  have "(Some \<circ> ws_ID) ` compensating r iid = qi_StepID ` set items - {qi_StepID item}" unfolding f(4) ids st(3) by (auto simp: image_iff)
  also have "\<dots> = qi_StepID ` set (xs @ ys)" using dist by (simp add: items image_Un)
  finally have rest: "qi_StepID ` set (xs @ ys) = (Some \<circ> ws_ID) ` compensating r iid" by simp
  have "distinct (map qi_ID items)" using tableOK_distinct [OF store_wfD(3) [OF wf]] by (simp add: q comp_def)
  then have q': "ms_queue (en_store w') = map (\<lambda>i. (qi_ID i, i)) (xs @ ys)"
    using queue_delete [of xs item ys item'] by (simp add: w'_def c(4) r_def s1 q items)
  have cur: "ms_cursor ?s \<le> ms_cursor (en_store w')" using c(7) by (simp add: w'_def r_def s1 recorded_def logged_cursor)
  have none: "compensating r iid = {} \<longleftrightarrow> xs @ ys = []" using rest by (metis image_is_empty set_empty)
  have "unwinding E iid wid def hist (if xs @ ys = [] then failedMessage else msg) (xs @ ys) w'"
    unfolding unwinding_def compensating_def eq
  proof (intro conjI)
    show "store_wf (en_store w')" by (rule ExecuteNext_wf [OF wf next'])
    show "defAt (en_store w') wid = Some def" using d defAt_cong [of "en_store w'" s1] c(5,6) by (simp add: w'_def r_def)
    show "\<exists>inst. map_of (ms_instances (en_store w')) iid = Some inst \<and> wi_Status inst = StatusFailed \<and>
        wi_WorkflowID inst = wid \<and> wi_Error inst = Some (if xs @ ys = [] then failedMessage else msg)"
      using c(8,9) inst none by (intro exI [of _ i']) (auto simp: w'_def split: if_splits)
    show "\<forall>i\<in>set (xs @ ys). \<exists>k. dueItem E iid k (ms_cursor (en_store w')) i"
      using due dueItem_later [OF _ cur] by (simp add: items) blast
  qed (use q' dist items up f hist rest in \<open>auto simp: w'_def uncounted_def dropItem_def compensating_def\<close>)
  then show ?thesis using next' by (intro exI [of _ w'] exI [of _ "xs @ ys"]) (simp add: items w'_def uncounted_def dropItem_def claimed_def)
qed

text \<open>All of them.\<close>

lemma unwinding_ends:
  assumes E: "mono (clk E)" "during E = (\<lambda>_. [])" and u: "unwinding E iid wid def hist msg items w" "length ws = length items"
    and h: "\<forall>n \<in> fst ` set hist. compensates def (en_handlers w) n"
  shows "\<exists>w'. busyRounds E ws w = Some w' \<and> unwinding E iid wid def hist (if items = [] then msg else failedMessage) [] w' \<and>
    en_handlers w' = en_handlers w \<and> en_hcalls w' = en_hcalls w + length ws"
  using u h
proof (induction ws arbitrary: msg items w)
  case (Cons worker ws)
  then have "items \<noteq> []" by auto
  with unwinding_round [OF E Cons.prems(1) _ Cons.prems(3), of worker]
  obtain w1 items1 where r: "ExecuteNext E worker w = (Ok False, w1)" "length items = Suc (length items1)"
    "unwinding E iid wid def hist (if items1 = [] then failedMessage else msg) items1 w1"
    "en_handlers w1 = en_handlers w" "en_hcalls w1 = Suc (en_hcalls w)" by blast
  have "length ws = length items1" "\<forall>n \<in> fst ` set hist. compensates def (en_handlers w1) n" using Cons.prems r by simp_all
  from Cons.IH [OF r(3) this] r \<open>items \<noteq> []\<close> show ?case
    by (auto simp: busyRounds_step split: if_splits)
qed simp

lemma unwinding_done:
  assumes "unwinding E iid wid def hist msg [] w"
  shows "instanceTrace (en_store w) iid = map (\<lambda>(n, v). (n, StepStatusRolledBack, v, v)) hist" "ms_queue (en_store w) = []"
    "\<exists>inst. map_of (ms_instances (en_store w)) iid = Some inst \<and> wi_Status inst = StatusFailed \<and> wi_Error inst = Some msg"
proof -
  have "settledStep def st \<and> ws_Status st \<noteq> StepStatusCompensation" if "st \<in> set (stepsOfInstance (en_store w) iid)" for st
    using assms that unfolding unwinding_def compensating_def by auto
  then have "ws_Status st = StepStatusRolledBack \<and> ws_Output st = ws_Input st" if "st \<in> set (stepsOfInstance (en_store w) iid)" for st
    using that unfolding settledStep_def by metis
  moreover have "map (\<lambda>st. (ws_StepName st, ws_Input st)) (stepsOfInstance (en_store w) iid) = hist"
    using assms unfolding unwinding_def by blast
  ultimately show "instanceTrace (en_store w) iid = map (\<lambda>(n, v). (n, StepStatusRolledBack, v, v)) hist"
    by (auto simp: instanceTrace_def traceOf_def stepsOfInstance_def [symmetric])
qed (use assms in \<open>auto simp: unwinding_def\<close>)

section \<open>The step that gives up\<close>

lemma recorded_wf:
  assumes "store_wf s" "map_of (ms_steps s) (ws_ID st) = Some st"
  shows "store_wf (recorded E iid status out ty kvs st s)"
proof -
  have "sys.eok (cmd '''' (UpdateStep E (ws_ID st) status out None) (gseq (logEvent E iid (Some (ws_ID st)) ty kvs) (gret ())))"
    by (intro sys.engine_control sys.store_ops sys.logEvent)
  from eok_wf [OF this, of "(NewEngine s)\<lparr>en_store := s\<rparr>"] assms show ?thesis by (simp add: record_run)
qed

lemma answered_wf:
  assumes "mono (clk E)" "poised E inst def ids st item w"
  shows "store_wf (en_store (answered E worker inst st item w))"
proof -
  obtain item' s1 where d: "DequeueStep E worker (en_store w) = (Ok (Some item'), s1)"
    using soleItem_dequeued [OF assms(1)] assms(2) unfolding poised_def by (metis (no_types))
  have wf: "store_wf (en_store w)" "map_of (ms_steps (en_store w)) (ws_ID st) = Some st" using assms(2) by (simp_all add: poised_def)
  then have "store_wf s1" using go_relD [OF evolves_DequeueStep d] unfolding store_evolves_def by blast
  then show ?thesis unfolding answered_def using wf(2) Dequeue_frame(2) [OF d] by (simp add: d recorded_wf)
qed

lemma list_all2_steps:
  assumes "\<forall>x \<in> set (List.map_filter g ids). \<exists>y. g' (ws_ID x) = Some y \<and> P x y" "\<forall>k \<in> set ids. \<exists>x. g k = Some x \<and> ws_ID x = k"
  shows "list_all2 P (List.map_filter g ids) (List.map_filter g' ids)"
  using assms by (induction ids) (auto simp: map_filter_def)

lemma stepsOfInstance_ids:
  assumes "store_wf s"
  shows "map ws_ID (stepsOfInstance s iid) = stepIDsOf s iid"
proof -
  have "map ws_ID (List.map_filter g ids) = ids" if "\<forall>k \<in> set ids. \<exists>x. g k = Some x \<and> ws_ID x = k" for g ids
    using that by (induction ids) (auto simp: map_filter_def)
  moreover have "\<forall>k \<in> set (stepIDsOf s iid). \<exists>x. map_of (ms_steps s) k = Some x \<and> ws_ID x = k"
    using stepIDsOf_stored [OF assms] tableOK_id [OF store_wfD(2) [OF assms]] by blast
  ultimately show ?thesis by (simp add: stepsOfInstance_def)
qed

lemma unwound_steps:
  assumes "store_wf s" "unwound E def iid (rev (stepsOfInstance s iid)) s s'"
  shows "list_all2 (fate def) (stepsOfInstance s iid) (stepsOfInstance s' iid)"
proof -
  have "stepIDsOf s' iid = stepIDsOf s iid" using assms(2) by (simp add: unwound_def sameButSteps_def stepIDsOf_def)
  moreover have "\<forall>x \<in> set (stepsOfInstance s iid). \<exists>y. map_of (ms_steps s') (ws_ID x) = Some y \<and> fate def x y"
    using assms(2) by (simp add: unwound_def)
  moreover have "\<forall>k \<in> set (stepIDsOf s iid). \<exists>x. map_of (ms_steps s) k = Some x \<and> ws_ID x = k"
    using stepIDsOf_stored [OF assms(1)] tableOK_id [OF store_wfD(2) [OF assms(1)]] by blast
  ultimately show ?thesis unfolding stepsOfInstance_def by (metis list_all2_steps)
qed

lemma fates:
  assumes "list_all2 (fate def) xs ys"
  shows "map (\<lambda>st. (ws_StepName st, ws_Input st)) ys = map (\<lambda>st. (ws_StepName st, ws_Input st)) xs"
    "\<forall>y \<in> set ys. settledStep def y"
    "map ws_ID (filter (\<lambda>y. ws_Status y = StepStatusCompensation) ys) = map ws_ID (filter (\<lambda>x. compensationOf def (ws_StepName x) \<noteq> None) xs)"
proof -
  show "map (\<lambda>st. (ws_StepName st, ws_Input st)) ys = map (\<lambda>st. (ws_StepName st, ws_Input st)) xs"
    using assms by (induction rule: list_all2_induct) (auto simp: fate_def)
  show "\<forall>y \<in> set ys. settledStep def y"
    using assms by (induction rule: list_all2_induct) (auto simp: fate_def settledStep_def split: if_splits)
  show "map ws_ID (filter (\<lambda>y. ws_Status y = StepStatusCompensation) ys) = map ws_ID (filter (\<lambda>x. compensationOf def (ws_StepName x) \<noteq> None) xs)"
    using assms by (induction rule: list_all2_induct) (auto simp: fate_def split: if_splits)
qed

lemma map_filter_simps [simp]:
  "List.map_filter g (xs @ ys) = List.map_filter g xs @ List.map_filter g ys"
  "List.map_filter g [k] = (case g k of None \<Rightarrow> [] | Some x \<Rightarrow> [x])"
  "k \<notin> set xs \<Longrightarrow> List.map_filter (m(k \<mapsto> x)) xs = List.map_filter m xs"
  by (induction xs) (auto simp: map_filter_def split: option.split)

lemma lineTrace_names [simp]: "map fst (lineTrace f ns v) = ns"
  by (induction ns arbitrary: v) simp_all

lemma prevLine_defined: "prevLine def prev ns \<Longrightarrow> n \<in> set ns \<Longrightarrow> stepDefOf def n \<noteq> None"
  by (induction ns arbitrary: prev) auto

text \<open>A rollback that has been recorded, with nothing else in the queue, leaves the engine unwinding.\<close>

lemma unwound_unwinding:
  assumes wf: "store_wf s" "store_wf (en_store w)" and r: "unwound E def iid (rev (stepsOfInstance s iid)) s s'"
    and w: "\<not> en_isShuttingDown w" "defAt (en_store w) wid = Some def"
      "\<exists>inst. map_of (ms_instances (en_store w)) iid = Some inst \<and> wi_Status inst = StatusFailed \<and> wi_WorkflowID inst = wid \<and> wi_Error inst = Some msg"
    and same: "ms_steps (en_store w) = ms_steps s'" "ms_stepsByInstance (en_store w) = ms_stepsByInstance s'" "ms_cursor s' \<le> ms_cursor (en_store w)"
    and q: "ms_queue (en_store w) = drop (length (ms_queue s)) (ms_queue s')"
  shows "\<exists>items. unwinding E iid wid def (map (\<lambda>st. (ws_StepName st, ws_Input st)) (stepsOfInstance s iid)) msg items w \<and>
    length items = length (filter (\<lambda>st. compensationOf def (ws_StepName st) \<noteq> None) (stepsOfInstance s iid))"
proof -
  let ?sts = "stepsOfInstance s iid" and ?c = "\<lambda>st. compensationOf def (ws_StepName st) \<noteq> None"
  obtain items where items: "ms_queue s' = ms_queue s @ map (\<lambda>i. (qi_ID i, i)) items"
    "map qi_StepID items = map (Some \<circ> ws_ID) (filter ?c (rev ?sts))" "\<forall>i \<in> set items. \<exists>k. dueItem E iid k (ms_cursor s') i"
    using r unfolding unwound_def by blast
  have steps: "stepsOfInstance (en_store w) iid = stepsOfInstance s' iid" by (simp add: stepsOfInstance_def stepIDsOf_def same)
  note f = fates [OF unwound_steps [OF wf(1) r]]
  have "compensating (en_store w) iid = set (filter (\<lambda>y. ws_Status y = StepStatusCompensation) (stepsOfInstance s' iid))"
    by (auto simp: compensating_def steps)
  then have "(Some \<circ> ws_ID) ` compensating (en_store w) iid = set (map Some (map ws_ID (filter ?c ?sts)))"
    unfolding f(3) [symmetric] by (simp add: image_image)
  also have "\<dots> = set (map qi_StepID items)" by (simp add: items(2) image_image)
  finally have ids: "qi_StepID ` set items = (Some \<circ> ws_ID) ` compensating (en_store w) iid" by simp
  have "distinct (map ws_ID ?sts)" using stepsOfInstance_ids [OF wf(1)] stepIDsOf_distinct [OF wf(1)] by simp
  then have "distinct (map qi_StepID items)" unfolding items(2)
    by (simp add: distinct_map inj_on_def rev_filter [symmetric])
  moreover have "\<forall>i \<in> set items. \<exists>k. dueItem E iid k (ms_cursor (en_store w)) i" using items(3) dueItem_later [OF _ same(3)] by blast
  moreover have "length items = length (filter ?c ?sts)" using arg_cong [OF items(2), of length] by (simp add: rev_filter [symmetric])
  ultimately show ?thesis
    using w wf(2) f(1,2) items(1) ids q by (intro exI [of _ items]) (simp add: unwinding_def steps)
qed

lemma poised_gives_up:
  assumes E: "mono (clk E)" "during E = (\<lambda>_. [])" and p: "poised E inst def ids st item w" and plain: "plainTasks def"
    and sd: "stepDefOf def (ws_StepName st) = Some sd" "\<not> mayRetry sd st" "\<not> gd_DLQEnabled (wd_Definition def)"
    and h: "map_of (en_handlers w) (sd_Handler sd) = Some h" "answerOf h inst st sd w = Inl err"
    and tr: "traceOf (ms_steps (en_store w)) ids = lineTrace f ns v"
    and line: "prevLine def rootStepName (ns @ [ws_StepName st])" "distinct (ns @ [ws_StepName st])"
      "\<forall>n \<in> set (ns @ [ws_StepName st]). compensable E def n"
  shows "\<exists>w' items. ExecuteNext E worker w = (Ok False, w') \<and>
    unwinding E (wi_ID inst) (wi_WorkflowID inst) def (map (\<lambda>(n, _, v, _). (n, v)) (lineTrace f ns v) @ [(ws_StepName st, ws_Input st)])
      (errStr err) items w' \<and>
    length items = length (filter (\<lambda>n. compensationOf def n \<noteq> None) (ns @ [ws_StepName st])) \<and>
    en_handlers w' = en_handlers w \<and> en_hcalls w' = Suc (en_hcalls w)"
proof -
  let ?s = "en_store w" and ?a = "answered E worker inst st item w" and ?iid = "wi_ID inst"
  note p' = p [unfolded poised_def] and a = answered_fields [OF E(1) p, of worker]
  have task: "sd_Type sd = StepTypeTask" by (rule plainTasks_stepDef [OF plain sd(1)])
  obtain st1 where t: "ms_steps (en_store ?a) = AList.update (ws_ID st) st1 (ms_steps ?s)" and
    st1: "ws_ID st1 = ws_ID st" "ws_StepName st1 = ws_StepName st" "ws_Input st1 = ws_Input st"
      "ws_CompensationRetryCount st1 = ws_CompensationRetryCount st" using a(12) by blast
  define F where "F = failedStore E ?iid (errStr err) st1 (en_store ?a)"
  define old where "old = List.map_filter (map_of (ms_steps ?s)) ids"
  define stF where "stF = stepAfter (clk E (ms_cursor (en_store ?a))) StepStatusFailed RawNil (Some (errStr err)) st1"
  have "stepIDsOf F ?iid = ids @ [ws_ID st]" using p' a(6) by (simp add: F_def stepIDsOf_def)
  then have sts: "stepsOfInstance F ?iid = old @ [stF]"
    using poised_ids(1) [OF p] by (simp add: stepsOfInstance_def old_def F_def stF_def t st1 update_conv')
  have wf: "store_wf ?s" using p' by blast
  have steps: "\<exists>k \<in> set ids. map_of (ms_steps ?s) k = Some x" if "x \<in> set old" for x
    using that by (auto simp: old_def map_filter_def)
  have old: "traceOf (ms_steps ?s) ids = map (\<lambda>st. (ws_StepName st, ws_Status st, ws_Input st, ws_Output st)) old"
    by (simp add: traceOf_def old_def)
  then have names: "map ws_StepName old = ns" using arg_cong [OF tr, of "map fst"] by (simp add: comp_def)
  have "ws_Status x = StepStatusCompleted" if "x \<in> set old" for x
    using that lineTrace_completed [of f ns v] unfolding tr [symmetric] old by simp
  moreover have "ws_CompensationRetryCount x = 0" if x: "x \<in> set old" for x
  proof -
    obtain k where k: "k \<in> set ids" "map_of (ms_steps ?s) k = Some x" using steps [OF x] by blast
    then have "ws_InstanceID x = ?iid" using stepIDsOf_stored [OF wf, of k ?iid] p' by auto
    with k p' uncompensatedD show ?thesis by blast
  qed
  moreover have "ws_CompensationRetryCount st = 0" using p' uncompensatedD by blast
  moreover have "stepDefOf def (ws_StepName x) \<noteq> None \<and> compensable E def (ws_StepName x)" if "x \<in> set (old @ [stF])" for x
    using that line(3) prevLine_defined [OF line(1)] unfolding names [symmetric] by (auto simp: stF_def st1)
  ultimately have ran: "ranLine E def (old @ [stF])"
    using line(1,2) unfolding ranLine_def names [symmetric] by (auto simp: stF_def st1)
  have i: "map_of (ms_instances (en_store ?a)) ?iid = Some inst" and d: "defAt (en_store ?a) (wi_WorkflowID inst) = Some def"
    and st0: "map_of (ms_steps (en_store ?a)) (ws_ID st) = Some st1" and lst: "ws_StepName (last (old @ [stF])) = ws_StepName st"
    using p' a by (simp_all add: t stF_def st1)
  obtain s' s'' i' where r: "handleStepFailure E inst (SCopy st) sd err ?a = (Ok (), ?a\<lparr>en_store := s''\<rparr>)"
    "unwound E def ?iid (rev (old @ [stF])) F s'" "map_of (ms_instances s'') = (map_of (ms_instances s'))(?iid \<mapsto> i')"
    "wi_Status i' = StatusFailed" "wi_Error i' = Some (errStr err)" "ms_steps s'' = ms_steps s'" "ms_queue s'' = ms_queue s'"
    "ms_stepsByInstance s'' = ms_stepsByInstance s'" "ms_definitions s'' = ms_definitions s'" "ms_defheap s'' = ms_defheap s'"
    "ms_cursor s' \<le> ms_cursor s''" "wi_WorkflowID i' = wi_WorkflowID inst"
    using fail_run [OF answered_wf [OF E(1) p] plain i d sd(3) st0 st1(1,2) sd(2) sts [unfolded F_def] ran lst] unfolding F_def by blast
  define w' where "w' = wrapUp (qi_ID item) ?iid (ws_ID st) (?a\<lparr>en_store := s''\<rparr>)"
  have next': "ExecuteNext E worker w = (Ok False, w')"
    unfolding w'_def wrapUp_def by (rule poised_round [OF E p sd(1) task h(1)]) (simp add: h(2) r(1))
  obtain u where q: "ms_queue F = [(qi_ID item, u)]" using a(11) by (auto simp: F_def)
  then obtain qs where qs: "ms_queue s' = (qi_ID item, u) # qs" using r(2) by (auto simp: unwound_def)
  have "store_wf s''" using eok_wf [OF sys.handleStepFailure answered_wf [OF E(1) p, of worker], of E inst "SCopy st" sd err] by (simp add: r(1))
  then have "qi_ID item \<notin> fst ` set qs" using tableOK_distinct [OF store_wfD(3), of s''] by (simp add: r(7) qs)
  then have q': "ms_queue (en_store w') = drop (length (ms_queue F)) (ms_queue s')" by (simp add: w'_def r(7) qs q AList.delete_id)
  have d': "defAt (en_store w') (wi_WorkflowID inst) = Some def"
    using d defAt_cong [of "en_store w'" "en_store ?a"] r(2,9,10) by (simp add: w'_def unwound_def sameButSteps_def F_def)
  have "\<exists>items. unwinding E ?iid (wi_WorkflowID inst) def (map (\<lambda>st. (ws_StepName st, ws_Input st)) (stepsOfInstance F ?iid)) (errStr err) items w' \<and>
      length items = length (filter (\<lambda>st. compensationOf def (ws_StepName st) \<noteq> None) (stepsOfInstance F ?iid))"
  proof (rule unwound_unwinding [OF _ ExecuteNext_wf [OF wf next'] _ _ d' _ _ _ _ q'])
    show "store_wf F" unfolding F_def by (rule failedStore_wf [OF answered_wf [OF E(1) p]]) (simp add: st0 st1(1))
  qed (use r sts p' a in \<open>simp_all add: w'_def\<close>)
  moreover have "map (\<lambda>st. (ws_StepName st, ws_Input st)) (old @ [stF]) = map (\<lambda>(n, _, v, _). (n, v)) (lineTrace f ns v) @ [(ws_StepName st, ws_Input st)]"
    by (simp add: tr [symmetric] old stF_def st1)
  moreover have "length (filter (\<lambda>st. compensationOf def (ws_StepName st) \<noteq> None) (old @ [stF])) =
      length (filter (\<lambda>n. compensationOf def n \<noteq> None) (ns @ [ws_StepName st]))"
    by (simp add: names [symmetric] filter_map stF_def st1 comp_def)
  ultimately show ?thesis using next' a(1,4) unfolding sts by (auto simp: w'_def)
qed

section \<open>From the start to the last compensation\<close>

text \<open>The handler of the step \<open>m\<close> answers every call for it with the same error.\<close>

definition refuses :: "WorkflowDefinition \<Rightarrow> (string \<times> handler) list \<Rightarrow> string \<Rightarrow> error \<Rightarrow> bool" where
  "refuses def hs m err \<longleftrightarrow> (\<exists>sd h. stepDefOf def m = Some sd \<and> map_of hs (sd_Handler sd) = Some h \<and>
     (\<forall>k ctx v. ec_stepName ctx = m \<longrightarrow> noPanicExecute h k ctx v = Inl err))"

definition attempts :: "WorkflowDefinition \<Rightarrow> string \<Rightarrow> nat" where
  "attempts def m = Suc (nat (retryBudget (the (stepDefOf def m))))"

text \<open>A line of tasks that goes well up to \<open>m\<close>, which fails for good.\<close>

definition sagaLine :: "env \<Rightarrow> WorkflowDefinition \<Rightarrow> string list \<Rightarrow> string \<Rightarrow> string list \<Rightarrow> bool" where
  "sagaLine E def ns m ms \<longleftrightarrow> plainTasks def \<and> \<not> gd_DLQEnabled (wd_Definition def) \<and> taskLine def (ns @ m # ms) \<and>
     prevLine def rootStepName (ns @ [m]) \<and> distinct (ns @ [m]) \<and> (\<forall>n \<in> set (ns @ [m]). compensable E def n)"

definition sagaHandlers ::
    "(string \<Rightarrow> raw \<Rightarrow> raw) \<Rightarrow> (string \<Rightarrow> nat) \<Rightarrow> WorkflowDefinition \<Rightarrow> (string \<times> handler) list \<Rightarrow> string list \<Rightarrow> string \<Rightarrow> error \<Rightarrow> bool" where
  "sagaHandlers f fails def hs ns m err \<longleftrightarrow> (\<forall>n \<in> set ns. handles f fails def hs n) \<and> refuses def hs m err \<and>
     (\<forall>n \<in> set (ns @ [m]). compensates def hs n)"

lemma gives_up_rounds:
  assumes E: "mono (clk E)" "during E = (\<lambda>_. [])" and line: "sagaLine E def ns m ms" and h: "refuses def (en_handlers w) m err"
    and p: "poised E inst def ids st item w" and st: "ws_StepName st = m" "ws_RetryCount st = 0"
      "\<And>sd. stepDefOf def m = Some sd \<Longrightarrow> ws_MaxRetries st = sd_MaxRetries sd"
    and tr: "traceOf (ms_steps (en_store w)) ids = lineTrace f ns v" and len: "length ws = attempts def m"
  shows "\<exists>w' items. busyRounds E ws w = Some w' \<and>
    unwinding E (wi_ID inst) (wi_WorkflowID inst) def (map (\<lambda>(n, _, v, _). (n, v)) (lineTrace f ns v) @ [(m, ws_Input st)]) (errStr err) items w' \<and>
    length items = length (filter (\<lambda>n. compensationOf def n \<noteq> None) (ns @ [m])) \<and>
    en_handlers w' = en_handlers w \<and> en_hcalls w' = en_hcalls w + length ws"
proof -
  note line' = line [unfolded sagaLine_def]
  obtain sd h' where sd: "stepDefOf def m = Some sd" "map_of (en_handlers w) (sd_Handler sd) = Some h'"
    and err: "\<And>k ctx v. ec_stepName ctx = m \<Longrightarrow> noPanicExecute h' k ctx v = Inl err" using h unfolding refuses_def by blast
  have delay: "sd_Delay sd = 0" using taskLine_last [of def ns "m # ms"] line' sd by simp
  have plain: "plainTasks def" using line' by blast
  define c where "c = nat (retryBudget sd)"
  have c: "int c = retryBudget sd" by (simp add: c_def retryBudget_def)
  obtain us worker where ws: "ws = us @ [worker]" "length us = c" using len sd(1) by (auto simp: attempts_def c_def length_Suc_conv_rev)
  have "\<exists>w' st' item'. busyRounds E us w = Some w' \<and> poised E inst def ids st' item' w' \<and>
    ws_StepName st' = ws_StepName st \<and> ws_Input st' = ws_Input st \<and> ws_RetryCount st' = int c \<and>
    ws_MaxRetries st' = ws_MaxRetries st \<and>
    traceOf (ms_steps (en_store w')) ids = traceOf (ms_steps (en_store w)) ids \<and>
    en_handlers w' = en_handlers w \<and> en_hcalls w' = en_hcalls w + length us"
    by (rule failures_pass [OF E p _ plainTasks_stepDef [OF plain sd(1)] delay sd(2)]) (use sd(1) st err c ws in simp_all)
  then obtain w1 st1 item1 where r: "busyRounds E us w = Some w1" "poised E inst def ids st1 item1 w1" "ws_StepName st1 = m"
    "ws_Input st1 = ws_Input st" "ws_RetryCount st1 = int c" "ws_MaxRetries st1 = sd_MaxRetries sd"
    "traceOf (ms_steps (en_store w1)) ids = lineTrace f ns v" "en_handlers w1 = en_handlers w" "en_hcalls w1 = en_hcalls w + length us"
    using st sd(1) tr by auto
  have no: "\<not> mayRetry sd st1" using mayRetry_budget [of st1 sd] r(5,6) c by simp
  have "answerOf h' inst st1 sd w1 = Inl err" unfolding answerOf_def by (rule err) (simp add: r(3))
  from poised_gives_up [OF E r(2) plain _ no _ _ this r(7), of worker] sd r line' ws show ?thesis
    by (simp add: busyRounds_append) (auto simp: busyRounds_step)
qed

text \<open>How often the handlers are called: the successes, the attempts of \<open>m\<close>, and one call per compensation.\<close>

definition sagaRounds :: "(string \<Rightarrow> nat) \<Rightarrow> WorkflowDefinition \<Rightarrow> string list \<Rightarrow> string \<Rightarrow> nat" where
  "sagaRounds fails def ns m =
     (\<Sum>n \<leftarrow> ns. Suc (fails n)) + attempts def m + length (filter (\<lambda>n. compensationOf def n \<noteq> None) (ns @ [m]))"

text \<open>The error that stays with the instance: that of the step, unless a compensation ran after it.\<close>

definition sagaError :: "WorkflowDefinition \<Rightarrow> string list \<Rightarrow> error \<Rightarrow> string" where
  "sagaError def ns err = (if \<exists>n \<in> set ns. compensationOf def n \<noteq> None then failedMessage else errStr err)"

text \<open>What the steps have come to: each is rolled back and has its input as output.\<close>

definition undoneTrace :: "(string \<Rightarrow> raw \<Rightarrow> raw) \<Rightarrow> string list \<Rightarrow> raw \<Rightarrow> (string \<times> StepStatus \<times> raw \<times> raw) list" where
  "undoneTrace f ns v = map (\<lambda>(n, _, v, _). (n, StepStatusRolledBack, v, v)) (lineTrace f ns v)"

lemma line_undone:
  assumes E: "mono (clk E)" "during E = (\<lambda>_. [])" and line: "sagaLine E def ns m ms" and h: "sagaHandlers f fails def (en_handlers w) ns m err"
    and p: "poised E inst def [] st item w" and st: "ws_StepName st = hd (ns @ [m])" "ws_RetryCount st = 0"
      "\<And>sd. stepDefOf def (hd (ns @ [m])) = Some sd \<Longrightarrow> ws_MaxRetries st = sd_MaxRetries sd"
    and len: "length ws = sagaRounds fails def ns m"
  shows "\<exists>w' i'. busyRounds E ws w = Some w' \<and> map_of (ms_instances (en_store w')) (wi_ID inst) = Some i' \<and>
    wi_Status i' = StatusFailed \<and> wi_Error i' = Some (sagaError def (ns @ [m]) err) \<and> ms_queue (en_store w') = [] \<and>
    instanceTrace (en_store w') (wi_ID inst) = undoneTrace f (ns @ [m]) (ws_Input st) \<and> en_hcalls w' = en_hcalls w + length ws"
proof -
  note line' = line [unfolded sagaLine_def] and h' = h [unfolded sagaHandlers_def]
  let ?c = "\<lambda>n. compensationOf def n \<noteq> None" and ?a = "\<Sum>n \<leftarrow> ns. Suc (fails n)"
  let ?hist = "map (\<lambda>(n, _, v, _). (n, v)) (lineTrace f (ns @ [m]) (ws_Input st))"
  define us vs xs where "us = take ?a ws" and "vs = take (attempts def m) (drop ?a ws)" and "xs = drop (?a + attempts def m) ws"
  have ws: "ws = us @ vs @ xs" "length us = ?a" "length vs = attempts def m" "length xs = length (filter ?c (ns @ [m]))"
    using len by (simp_all add: us_def vs_def xs_def sagaRounds_def add.commute flip: drop_drop)
  have plain: "plainTasks def" and tl: "taskLine def (ns @ m # ms)" and hs: "\<forall>n \<in> set ns. handles f fails def (en_handlers w) n"
    using line' h' by blast+
  have empty: "traceOf (ms_steps (en_store w)) [] = []" by (simp add: traceOf_def map_filter_def)
  from line_reaches [OF E plain tl hs p st ws(2)]
  obtain w1 ids st1 item1 where r: "busyRounds E us w = Some w1" "poised E inst def ids st1 item1 w1" "ws_StepName st1 = m"
    "ws_RetryCount st1 = 0" "\<And>sd. stepDefOf def m = Some sd \<Longrightarrow> ws_MaxRetries st1 = sd_MaxRetries sd"
    "ws_Input st1 = fold f ns (ws_Input st)" "traceOf (ms_steps (en_store w1)) ids = lineTrace f ns (ws_Input st)"
    "en_handlers w1 = en_handlers w" "en_hcalls w1 = en_hcalls w + length us" by (auto simp: empty)
  have ref: "refuses def (en_handlers w1) m err" using h' r(8) by simp
  have hist: "map (\<lambda>(n, _, v, _). (n, v)) (lineTrace f ns (ws_Input st)) @ [(m, ws_Input st1)] = ?hist" by (simp add: lineTrace_append r(6))
  obtain w2 items where q: "busyRounds E vs w1 = Some w2" "unwinding E (wi_ID inst) (wi_WorkflowID inst) def ?hist (errStr err) items w2"
    "length items = length (filter ?c (ns @ [m]))" "en_handlers w2 = en_handlers w" "en_hcalls w2 = en_hcalls w + length us + length vs"
    using gives_up_rounds [OF E line ref r(2-5,7) ws(3)] unfolding hist r(8,9) by blast
  have "map fst ?hist = ns @ [m]" using lineTrace_names [of f "ns @ [m]" "ws_Input st"] by (simp add: comp_def case_prod_unfold)
  then have "fst ` set ?hist = set (ns @ [m])" by (metis list.set_map)
  then have comps: "\<forall>n \<in> fst ` set ?hist. compensates def (en_handlers w2) n" using h' q(4) by simp
  have "length xs = length items" using ws(4) q(3) by simp
  from unwinding_ends [OF E q(2) this comps]
  obtain w3 where e: "busyRounds E xs w2 = Some w3"
    "unwinding E (wi_ID inst) (wi_WorkflowID inst) def ?hist (if items = [] then errStr err else failedMessage) [] w3"
    "en_hcalls w3 = en_hcalls w2 + length xs" by blast
  then have calls: "en_hcalls w3 = en_hcalls w + length ws" by (simp add: q(5) ws(1))
  have "items = [] \<longleftrightarrow> filter ?c (ns @ [m]) = []" using arg_cong [OF q(3), of "\<lambda>k. k = 0"] unfolding length_0_conv by simp
  then have "items = [] \<longleftrightarrow> \<not> (\<exists>n \<in> set (ns @ [m]). ?c n)" unfolding filter_empty_conv by blast
  then have msg: "(if items = [] then errStr err else failedMessage) = sagaError def (ns @ [m]) err" by (simp add: sagaError_def)
  have "busyRounds E ws w = Some w3" using r(1) q(1) e(1) by (simp add: ws(1) busyRounds_append)
  with unwinding_done [OF e(2)] calls show ?thesis unfolding msg by (auto simp: undoneTrace_def comp_def case_prod_unfold)
qed

text \<open>Only the graph of a definition matters.\<close>

lemma graph_cong:
  assumes "wd_Definition def' = wd_Definition def"
  shows "stepDefOf def' = stepDefOf def" "compensationOf def' = compensationOf def" "plainTasks def' = plainTasks def"
    "taskLine def' ns = taskLine def ns" "prevLine def' p ns = prevLine def p ns"
proof -
  show *: "stepDefOf def' = stepDefOf def" by (simp add: stepDefOf_def fun_eq_iff assms)
  then show "compensationOf def' = compensationOf def" unfolding compensationOf_def by (simp cong: option.case_cong)
  show "plainTasks def' = plainTasks def" by (simp add: plainTasks_def assms)
  show "taskLine def' ns = taskLine def ns" by (induction ns) (simp_all add: * split: option.split)
  show "prevLine def' p ns = prevLine def p ns" by (induction ns arbitrary: p) (simp_all add: *)
qed

lemma saga_cong:
  assumes "wd_Definition def' = wd_Definition def"
  shows "sagaLine E def' ns m ms = sagaLine E def ns m ms" "sagaHandlers f fails def' hs ns m err = sagaHandlers f fails def hs ns m err"
    "sagaRounds fails def' ns m = sagaRounds fails def ns m" "sagaError def' ns err = sagaError def ns err"
  by (simp_all add: sagaLine_def sagaHandlers_def sagaRounds_def sagaError_def attempts_def compensable_def handles_def refuses_def
      compensates_def assms graph_cong [OF assms])

text \<open>
  C5. A saga is undone to its beginning. Register a definition that is a line of tasks, start it on an idle engine and let the
  handler of some step \<open>m\<close> refuse every call, while the steps before it succeed within their retry limits and the compensations
  succeed. Then, whichever workers take the rounds, the workflow comes to rest after exactly one round per handler call: the
  successes, every attempt the retry limit of \<open>m\<close> allows, and one call for each step that ran and has a compensation. The
  instance has failed; every step that ran, \<open>m\<close> included, is rolled back with its input as output; no later step was ever
  created; the queue is empty. The error of \<open>m\<close> survives only if there was no compensation: the last one replaces it by
  a general message.
\<close>

theorem saga_rolls_back:
  assumes def: "validateDefinition def = None" "gd_Start (wd_Definition def) = hd (ns @ [m])" "sagaLine E def ns m ms"
    and E: "mono (clk E)" "during E = (\<lambda>_. [])" and w: "idle w" "sagaHandlers f fails def (en_handlers w) ns m err"
  shows "\<exists>iid w1. registerAndStart E def input w = (Ok iid, w1) \<and>
    (\<forall>workers. length workers = sagaRounds fails def ns m \<longrightarrow>
      (\<exists>w' inst. busyRounds E workers w1 = Some w' \<and> map_of (ms_instances (en_store w')) iid = Some inst \<and>
         wi_Status inst = StatusFailed \<and> wi_Error inst = Some (sagaError def (ns @ [m]) err) \<and>
         instanceTrace (en_store w') iid = undoneTrace f (ns @ [m]) input \<and>
         ms_queue (en_store w') = [] \<and> en_hcalls w' = en_hcalls w + length workers))"
proof -
  let ?n = "hd (ns @ [m])"
  obtain def' w0 where r: "RegisterWorkflow E def w = (Ok def', w0)" "defAt (en_store w0) (wd_ID def') = Some def'"
    "validateDefinition def' = None" "wd_Definition def' = wd_Definition def" "idle w0" "en_handlers w0 = en_handlers w"
    "en_hcalls w0 = en_hcalls w" using register_idle [OF def(1) w(1)] .
  note same = saga_cong [OF r(4)]
  have "taskLine def' (ns @ m # ms)" using def(3) by (simp add: sagaLine_def graph_cong [OF r(4)])
  then obtain sd where sd: "stepDefOf def' ?n = Some sd" "sd_Delay sd = 0" by (cases ns) (auto split: option.splits)
  obtain w1 inst st item where s: "Start E (wd_ID def') input w0 = (Ok (wi_ID inst), w1)" "poised E inst def' [] st item w1"
    "ws_StepName st = ?n" "ws_RetryCount st = 0" "ws_MaxRetries st = sd_MaxRetries sd" "ws_Input st = input"
    "en_handlers w1 = en_handlers w0" "en_hcalls w1 = en_hcalls w0"
    using start_poised [OF r(2,3,5), of sd E input] sd def(2) r(4) by auto
  have line: "sagaLine E def' ns m ms" and hs: "sagaHandlers f fails def' (en_handlers w1) ns m err"
    using def(3) w(2) by (simp_all add: same s(7) r(6))
  have max: "ws_MaxRetries st = sd_MaxRetries d" if "stepDefOf def' ?n = Some d" for d using that sd(1) s(5) by simp
  have "registerAndStart E def input w = (Ok (wi_ID inst), w1)" by (simp add: registerAndStart_def r(1) s(1))
  moreover note line_undone [OF E line hs s(2-4) max, unfolded same s(6,8) r(7)]
  ultimately show ?thesis by blast
qed

text \<open>A trip: the hotel is booked and has a cancellation, the airline refuses.\<close>

definition tripCalls :: "bcall list" where
  "tripCalls = [CStep ''hotel'' ''book'' [], COnFailure ''free'' ''cancel'' [], CStep ''flight'' ''fly'' [WithStepMaxRetries 1]]"

definition tripDef :: WorkflowDefinition where
  "tripDef = \<lparr>wd_ID = ''trip-v1'', wd_Name = ''trip'', wd_Version = 1, wd_Definition = \<lparr>gd_Steps =
     [(''hotel'', (chainTask ''hotel'' ''book'' rootStepName [''flight''])\<lparr>sd_OnFailure := ''free''\<rparr>),
      (''free'', chainTask ''free'' ''cancel'' '''' []),
      (''flight'', (chainTask ''flight'' ''fly'' ''hotel'' [])\<lparr>sd_MaxRetries := 1\<rparr>)],
     gd_Start = ''hotel'', gd_DLQEnabled = False\<rparr>, wd_CreatedAt = 0\<rparr>"

definition agency :: Engine where
  "agency = snd (gseqs (map RegisterHandler
     [\<lparr>hn_Name = ''book'', hn_Execute = (\<lambda>k ctx v. HOk (tag ''booked'' v))\<rparr>, \<lparr>hn_Name = ''cancel'', hn_Execute = (\<lambda>k ctx v. HOk RawNil)\<rparr>,
      \<lparr>hn_Name = ''fly'', hn_Execute = (\<lambda>k ctx v. HErr (Err ''sold out''))\<rparr>]) (NewEngine NewMemoryStore))"

theorem saga_rolls_back_witness:
  "\<exists>iid w1 w' inst. buildProgram ''trip'' 1 [] tripCalls = Ok (Inr tripDef) \<and>
     registerAndStart env0 tripDef (RawJson JNull) agency = (Ok iid, w1) \<and> busyRounds env0 [''a'', ''b'', ''b'', ''a''] w1 = Some w' \<and>
     map_of (ms_instances (en_store w')) iid = Some inst \<and> wi_Status inst = StatusFailed \<and>
     wi_Error inst = Some ''workflow has failed or rolled back steps'' \<and>
     instanceTrace (en_store w') iid = [(''hotel'', StepStatusRolledBack, RawJson JNull, RawJson JNull),
       (''flight'', StepStatusRolledBack, tag ''booked'' (RawJson JNull), tag ''booked'' (RawJson JNull))]"
proof -
  let ?f = "\<lambda>n v. tag ''booked'' v" and ?fails = "\<lambda>_. 0 :: nat"
  have built: "buildProgram ''trip'' 1 [] tripCalls = Ok (Inr tripDef)" by code_simp
  have sd: "stepDefOf tripDef ''hotel'' = Some ((chainTask ''hotel'' ''book'' rootStepName [''flight''])\<lparr>sd_OnFailure := ''free''\<rparr>)"
    "stepDefOf tripDef ''free'' = Some (chainTask ''free'' ''cancel'' '''' [])"
    "stepDefOf tripDef ''flight'' = Some ((chainTask ''flight'' ''fly'' ''hotel'' [])\<lparr>sd_MaxRetries := 1\<rparr>)" "stepDefOf tripDef '''' = None"
    by (simp_all add: stepDefOf_def tripDef_def)
  note task = sd chainTask_def emptyStepDefinition_def
  have comp: "compensationOf tripDef ''hotel'' = Some (chainTask ''free'' ''cancel'' '''' [])" "compensationOf tripDef ''flight'' = None"
    by (simp_all add: compensationOf_def task)
  have "compensable env0 tripDef ''hotel''" unfolding compensable_def comp(1) by code_simp
  moreover have "plainTasks tripDef" by (simp add: plainTasks_def tripDef_def chainTask_def)
  ultimately have line: "sagaLine env0 tripDef [''hotel''] ''flight'' []"
    by (simp add: sagaLine_def task compensable_def [of _ _ "''flight''"] comp(2) rootStepName_def) (simp add: tripDef_def)
  have hs: "map_of (en_handlers agency) ''book'' = Some \<lparr>hn_Name = ''book'', hn_Execute = (\<lambda>k ctx v. HOk (tag ''booked'' v))\<rparr>"
    "map_of (en_handlers agency) ''cancel'' = Some \<lparr>hn_Name = ''cancel'', hn_Execute = (\<lambda>k ctx v. HOk RawNil)\<rparr>"
    "map_of (en_handlers agency) ''fly'' = Some \<lparr>hn_Name = ''fly'', hn_Execute = (\<lambda>k ctx v. HErr (Err ''sold out''))\<rparr>"
    by (simp_all add: agency_def gseqs_def RegisterHandler_def NewEngine_def)
  have "sagaHandlers ?f ?fails tripDef (en_handlers agency) [''hotel''] ''flight'' (Err ''sold out'')"
    by (simp add: sagaHandlers_def handles_def refuses_def compensates_def comp task hs noPanicExecute_def retryBudget_def)
  moreover have "idle agency"
    using NewMemoryStore_wf by (simp add: idle_def agency_def gseqs_def RegisterHandler_def NewEngine_def NewMemoryStore_def stepIDsOf_def)
  moreover have "mono (clk env0)" "during env0 = (\<lambda>_. [])" by (auto simp: env0_def mono_def)
  moreover have "gd_Start (wd_Definition tripDef) = ''hotel''" by (simp add: tripDef_def)
  moreover have "sagaRounds ?fails tripDef [''hotel''] ''flight'' = 4"
    by (simp add: sagaRounds_def attempts_def comp task retryBudget_def)
  ultimately show ?thesis
    using saga_rolls_back [OF buildProgram_valid [OF built] _ line, of agency ?f ?fails "Err ''sold out''" "RawJson JNull"] built
    by (auto simp: sagaError_def comp undoneTrace_def failedMessage_def dest: spec [of _ "[''a'', ''b'', ''b'', ''a'']"])
qed

end
