(* ===== verification/Join_Props.thy ===== *)
theory Join_Props
  imports Store_Laws
begin

text \<open>
  Join states of the in-memory store: their keys, when a join is ready, how results are entered, and
  what the two operations that change the list of awaited steps do to it.
\<close>

text \<open>
  Join states of different instances or different join steps never share a key: the key
  \<open>%d:%s\<close> determines the instance and the name, whatever characters the name contains.
\<close>

theorem joinStateKey_inject:
  "joinStateKey i n = joinStateKey j m \<longleftrightarrow> i = j \<and> n = m"
proof
  assume "joinStateKey i n = joinStateKey j m"
  moreover have "CHR '':'' \<notin> set (itoa x)" for x by (rule not_in_itoa) simp_all
  ultimately have "itoa i = itoa j \<and> n = m"
    using append_sep_inject [of "CHR '':''" "itoa i" "itoa j" n m] by (simp add: joinStateKey_def)
  then show "i = j \<and> n = m" by simp
qed simp

section \<open>Entering results\<close>

lemma recordResult_sets:
  assumes "joinOK j"
  shows "set (js_Completed (recordResult ok x j)) =
      (if ok then insert x (set (js_Completed j)) else set (js_Completed j) - {x})"
    and "set (js_Failed (recordResult ok x j)) =
      (if ok then set (js_Failed j) - {x} else insert x (set (js_Failed j)))"
  using assms by (auto simp: recordResult_def addOnce_def joinOK_def)

lemma recordResult_other [simp]:
  "js_WaitingFor (recordResult ok x j) = js_WaitingFor j"
  "js_JoinStrategy (recordResult ok x j) = js_JoinStrategy j"
  by (simp_all add: recordResult_def)

lemma joinOK_length:
  assumes "joinOK j"
  shows "length (js_Completed j) + length (js_Failed j) = card (set (js_Completed j) \<union> set (js_Failed j))"
  using assms unfolding joinOK_def by (simp add: card_Un_disjoint distinct_card)

lemma checkJoinReady_all:
  assumes ok: "joinOK j" and "distinct waiting" "st \<noteq> JoinStrategyAny"
    and sub: "set (js_Completed j) \<union> set (js_Failed j) \<subseteq> set waiting"
  shows "checkJoinReady waiting (js_Completed j) (js_Failed j) st \<longleftrightarrow>
    set waiting \<subseteq> set (js_Completed j) \<union> set (js_Failed j)"
proof -
  have "length waiting \<le> card (set (js_Completed j) \<union> set (js_Failed j)) \<longleftrightarrow>
      set waiting = set (js_Completed j) \<union> set (js_Failed j)"
    using sub assms(2) card_subset_eq [OF finite_set sub] card_mono [OF finite_set sub]
    by (metis distinct_card le_antisym order_refl)
  with assms(3) sub show ?thesis
    by (simp only: checkJoinReady_def joinOK_length [OF ok] if_False) blast
qed

text \<open>
  When a join becomes ready. Entering the result of an awaited step reports "ready" at once under
  the strategy \<open>any\<close>, and otherwise exactly when every awaited step has now reported, given that the
  awaited names are distinct and only awaited steps have reported so far.
\<close>

theorem UpdateJoinState_ready:
  assumes wf: "store_wf s" and j: "map_of (ms_joinStates s) (joinStateKey i jn) = Some j"
    and d: "distinct (derefW s (js_WaitingFor j))"
    and sub: "set (js_Completed j) \<union> set (js_Failed j) \<subseteq> set (derefW s (js_WaitingFor j))"
    and x: "x \<in> set (derefW s (js_WaitingFor j))"
  shows "\<exists>ready s'. UpdateJoinState E i jn x ok s = (Ok ready, s') \<and>
    (ready \<longleftrightarrow> js_JoinStrategy j = JoinStrategyAny \<or>
       set (derefW s (js_WaitingFor j)) \<subseteq> insert x (set (js_Completed j) \<union> set (js_Failed j)))"
proof -
  let ?j = "recordResult ok x j" and ?w = "derefW s (js_WaitingFor j)"
  have jok: "joinOK j" using joinsOK_D [OF store_wfD(6) [OF wf] j] by blast
  then have jok': "joinOK ?j" by (rule joinOK_record)
  have un: "set (js_Completed ?j) \<union> set (js_Failed ?j) = insert x (set (js_Completed j) \<union> set (js_Failed j))"
    unfolding recordResult_sets [OF jok] by (cases ok) auto
  have any: "checkJoinReady ?w (js_Completed ?j) (js_Failed ?j) JoinStrategyAny"
    by (auto simp: checkJoinReady_def recordResult_def addOnce_def)
  have all: "checkJoinReady ?w (js_Completed ?j) (js_Failed ?j) (js_JoinStrategy j) \<longleftrightarrow>
      set ?w \<subseteq> insert x (set (js_Completed j) \<union> set (js_Failed j))"
    if "js_JoinStrategy j \<noteq> JoinStrategyAny"
    using checkJoinReady_all [OF jok' d that] sub x un by auto
  show ?thesis
    using any all by (cases "js_JoinStrategy j = JoinStrategyAny") (auto simp: UpdateJoinState_def j Let_def)
qed

text \<open>A store with one join state that waits for two steps.\<close>

definition join0 :: MemoryStore where
  "join0 = snd (CreateJoinState env0 1 ''j'' (WOwn [''a'', ''b'']) JoinStrategyAll NewMemoryStore)"

lemma join0_wf: "store_wf join0"
  unfolding join0_def
  using go_rel_snd [OF evolves_joinOps(1)] NewMemoryStore_wf unfolding store_evolves_def by blast

lemma join0_state: "map_of (ms_joinStates join0) (joinStateKey 1 ''j'') = Some
    \<lparr>js_InstanceID = 1, js_JoinStepName = ''j'', js_WaitingFor = WOwn [''a'', ''b''], js_Completed = [],
     js_Failed = [], js_JoinStrategy = JoinStrategyAll, js_IsReady = False, js_CreatedAt = 0, js_UpdatedAt = 0\<rparr>"
  by (simp add: join0_def CreateJoinState_def NewMemoryStore_def env0_def Let_def)

theorem UpdateJoinState_ready_witness:
  "\<exists>s'. UpdateJoinState env0 1 ''j'' ''a'' True join0 = (Ok False, s')"
  using UpdateJoinState_ready [OF join0_wf join0_state, of "''a''" env0 True] by auto

text \<open>
  The last result of a step counts. After \<open>UpdateJoinState\<close> the step stands in the list of its last
  result and not in the other one, the results of all other steps are as before, and other join
  states are untouched.
\<close>

theorem UpdateJoinState_record:
  assumes wf: "store_wf s" and j: "map_of (ms_joinStates s) (joinStateKey i jn) = Some j"
  shows "\<exists>r s' j'. UpdateJoinState E i jn x ok s = (Ok r, s') \<and>
    map_of (ms_joinStates s') = (map_of (ms_joinStates s))(joinStateKey i jn \<mapsto> j') \<and>
    (x \<in> set (js_Completed j') \<longleftrightarrow> ok) \<and> (x \<in> set (js_Failed j') \<longleftrightarrow> \<not> ok) \<and>
    (\<forall>y. y \<noteq> x \<longrightarrow> (y \<in> set (js_Completed j') \<longleftrightarrow> y \<in> set (js_Completed j)) \<and>
                    (y \<in> set (js_Failed j') \<longleftrightarrow> y \<in> set (js_Failed j)))"
proof -
  have jok: "joinOK j" using joinsOK_D [OF store_wfD(6) [OF wf] j] by blast
  let ?r = "checkJoinReady (derefW s (js_WaitingFor j)) (js_Completed (recordResult ok x j))
      (js_Failed (recordResult ok x j)) (js_JoinStrategy j)"
  let ?j = "recordResult ok x j\<lparr>js_IsReady := ?r, js_UpdatedAt := clk E (ms_cursor s)\<rparr>"
  have "UpdateJoinState E i jn x ok s = (Ok ?r,
      s\<lparr>ms_joinStates := AList.update (joinStateKey i jn) ?j (ms_joinStates s), ms_cursor := Suc (ms_cursor s)\<rparr>)"
    by (simp add: UpdateJoinState_def j Let_def)
  moreover have "x \<in> set (js_Completed ?j) \<longleftrightarrow> ok" "x \<in> set (js_Failed ?j) \<longleftrightarrow> \<not> ok"
    using recordResult_sets [OF jok, of ok x] by auto
  moreover have "\<forall>y. y \<noteq> x \<longrightarrow> (y \<in> set (js_Completed ?j) \<longleftrightarrow> y \<in> set (js_Completed j)) \<and>
                    (y \<in> set (js_Failed ?j) \<longleftrightarrow> y \<in> set (js_Failed j))"
    using recordResult_sets [OF jok, of ok x] by auto
  ultimately show ?thesis by (intro exI [of _ ?r] exI [of _ ?j] exI) (auto simp del: recordResult_other)
qed

theorem UpdateJoinState_record_witness:
  "\<exists>r s' j'. UpdateJoinState env0 1 ''j'' ''a'' False join0 = (Ok r, s') \<and>
     map_of (ms_joinStates s') (joinStateKey 1 ''j'') = Some j' \<and> ''a'' \<in> set (js_Failed j')"
  using UpdateJoinState_record [OF join0_wf join0_state, of env0 "''a''" False] by auto

section \<open>Changing the awaited steps\<close>

text \<open>
  Without a join state, \<open>AddToJoinWaitFor\<close> and \<open>ReplaceInJoinWaitFor\<close> never return: each calls
  \<open>CreateJoinState\<close>, which locks the store's mutex, while holding it.
\<close>

theorem join_changes_deadlock:
  "map_of (ms_joinStates s) (joinStateKey i jn) = None \<Longrightarrow>
   AddToJoinWaitFor E i jn x s = (Deadlock, s) \<and> ReplaceInJoinWaitFor E i jn v x s = (Deadlock, s)"
  by (simp add: AddToJoinWaitFor_def ReplaceInJoinWaitFor_def Let_def)

theorem join_changes_deadlock_witness:
  "AddToJoinWaitFor env0 1 ''k'' ''a'' join0 = (Deadlock, join0)"
proof -
  have "map_of (ms_joinStates join0) (joinStateKey 1 ''k'') = None"
    using joinStateKey_def by (simp add: join0_def CreateJoinState_def NewMemoryStore_def Let_def)
  then show ?thesis using join_changes_deadlock by blast
qed

lemma set_replaceFirst:
  "distinct xs \<Longrightarrow> x \<in> set xs \<Longrightarrow> y \<notin> set xs \<Longrightarrow>
   set (replaceFirst x y xs) = insert y (set xs - {x}) \<and> distinct (replaceFirst x y xs)"
  by (induction xs) auto

lemma length_replaceFirst: "length (replaceFirst x y xs) = length xs"
  by (induction xs) auto

text \<open>
  \<open>ReplaceInJoinWaitFor\<close> writes into the registered workflow definition. When the awaited list of
  the join state is the \<open>WaitFor\<close> slice of the definition, as after \<open>executeFork\<close>, replacing a
  placeholder replaces it in the definition that all instances share: the object registered under
  the workflow's identifier afterwards awaits the real step instead of the placeholder.
\<close>

theorem ReplaceInJoinWaitFor_writes_definition:
  assumes j: "map_of (ms_joinStates s) (joinStateKey i jn) = Some j"
    and shared: "js_WaitingFor j = WDef a n"
    and def: "map_of (ms_definitions s) wid = Some a" "map_of (ms_defheap s) a = Some def"
    and sd: "stepDefOf def n = Some sd" and v: "v \<in> set (sd_WaitFor sd)"
  shows "\<exists>s' def' sd'. ReplaceInJoinWaitFor E i jn v x s = (Ok (), s') \<and> defAt s' wid = Some def' \<and>
    stepDefOf def' n = Some sd' \<and> sd_WaitFor sd' = replaceFirst v x (sd_WaitFor sd)"
proof -
  let ?sd = "sd\<lparr>sd_WaitFor := replaceFirst v x (sd_WaitFor sd)\<rparr>"
  let ?def = "mapStep (\<lambda>d. d\<lparr>sd_WaitFor := replaceFirst v x (sd_WaitFor sd)\<rparr>) n def"
  have look: "stepDefOf ?def n = Some ?sd"
    using sd by (simp add: mapStep_def stepDefOf_def)
  obtain st where run: "ReplaceInJoinWaitFor E i jn v x s = (Ok (), s\<lparr>ms_defheap := AList.update a ?def (ms_defheap s),
      ms_joinStates := AList.update (joinStateKey i jn) st (ms_joinStates s), ms_cursor := Suc (ms_cursor s)\<rparr>)"
    using v def(2) shared sd by (simp add: ReplaceInJoinWaitFor_def j Let_def)
  have "defAt (snd (ReplaceInJoinWaitFor E i jn v x s)) wid = Some ?def"
    using def by (simp add: run defAt_def)
  then have "defAt (snd (ReplaceInJoinWaitFor E i jn v x s)) wid = Some ?def \<and> stepDefOf ?def n = Some ?sd \<and>
      sd_WaitFor ?sd = replaceFirst v x (sd_WaitFor sd)" using look by simp
  then show ?thesis unfolding run snd_conv by blast
qed

definition virtualDef :: WorkflowDefinition where
  "virtualDef = \<lparr>wd_ID = ''w-v1'', wd_Name = ''w'', wd_Version = 1,
     wd_Definition = \<lparr>gd_Steps = [(''j'', emptyStepDefinition\<lparr>sd_Name := ''j'', sd_Type := StepTypeJoin,
         sd_WaitFor := [''cond#c'']\<rparr>)], gd_Start = ''f'', gd_DLQEnabled = False\<rparr>, wd_CreatedAt = 0\<rparr>"

definition virtualJoin :: JoinState where
  "virtualJoin = \<lparr>js_InstanceID = 7, js_JoinStepName = ''j'', js_WaitingFor = WDef 1 ''j'', js_Completed = [],
     js_Failed = [], js_JoinStrategy = JoinStrategyAll, js_IsReady = False, js_CreatedAt = 0, js_UpdatedAt = 0\<rparr>"

definition virtual0 :: MemoryStore where
  "virtual0 = NewMemoryStore\<lparr>ms_definitions := [(''w-v1'', 1)], ms_defheap := [(1, virtualDef)],
     ms_joinStates := [(joinStateKey 7 ''j'', virtualJoin)]\<rparr>"

theorem ReplaceInJoinWaitFor_writes_definition_witness:
  "\<exists>s' def' sd'. ReplaceInJoinWaitFor env0 7 ''j'' ''cond#c'' ''d'' virtual0 = (Ok (), s') \<and>
     defAt s' ''w-v1'' = Some def' \<and> stepDefOf def' ''j'' = Some sd' \<and> sd_WaitFor sd' = [''d'']"
proof -
  have "map_of (ms_joinStates virtual0) (joinStateKey 7 ''j'') = Some virtualJoin"
    "js_WaitingFor virtualJoin = WDef 1 ''j''" "map_of (ms_definitions virtual0) ''w-v1'' = Some 1"
    "map_of (ms_defheap virtual0) 1 = Some virtualDef"
    "stepDefOf virtualDef ''j'' = Some (emptyStepDefinition\<lparr>sd_Name := ''j'', sd_Type := StepTypeJoin,
       sd_WaitFor := [''cond#c'']\<rparr>)"
    by (simp_all add: virtual0_def virtualJoin_def virtualDef_def stepDefOf_def)
  from ReplaceInJoinWaitFor_writes_definition [OF this, of "''cond#c''" env0 "''d''"] show ?thesis by simp
qed

end
