(* ===== verification/Table_Props.thy ===== *)
theory Table_Props
  imports Store_Laws "HOL-Library.Multiset"
begin

text \<open>
  Steps, dead letters, listing, statistics and clean-up of the in-memory store: what a reader sees
  after a writer.
\<close>

section \<open>Steps\<close>

lemma stepsOfInstance_new:
  assumes wf: "store_wf s"
  shows "stepsOfInstance (snd (CreateStep E st s)) i =
    stepsOfInstance s i @ (if i = ws_InstanceID st then [madeStep (E, st) s] else [])"
proof -
  let ?t = "snd (CreateStep E st s)" and ?n = "ms_nextStepID s"
  have steps: "map_of (ms_steps ?t) = (map_of (ms_steps s))(?n \<mapsto> madeStep (E, st) s)"
    and ids: "stepIDsOf ?t i = stepIDsOf s i @ (if i = ws_InstanceID st then [?n] else [])"
    by (auto simp: CreateStep_def madeStep_def stepIDsOf_def Let_def split: option.split)
  have "?n \<notin> set (stepIDsOf s i)" using stepIDsOf_stored [OF wf] tableOK_fresh [OF store_wfD(2) [OF wf]] by fastforce
  then have "List.map_filter (map_of (ms_steps ?t)) (stepIDsOf s i) = stepsOfInstance s i"
    unfolding stepsOfInstance_def steps map_filter_def
    by (intro arg_cong2 [where f = map] filter_cong map_cong) (auto simp: fun_upd_def)
  then show ?thesis unfolding stepsOfInstance_def ids by (simp add: steps map_filter_def)
qed

text \<open>
  What is created is found. \<open>CreateStep\<close> assigns the next identifier and returns the stored step;
  afterwards \<open>GetStepByID\<close> finds it under that identifier, \<open>GetStepsByInstance\<close> of its instance
  lists what it listed before plus this step, sorted by creation time, and the lists of the other
  instances are unchanged.
\<close>

theorem CreateStep_roundtrip:
  assumes wf: "store_wf s"
  shows "\<exists>step s'. CreateStep E st s = (Ok step, s') \<and> ws_ID step = ms_nextStepID s \<and>
    ws_StepName step = ws_StepName st \<and> ws_Status step = ws_Status st \<and> ws_Input step = ws_Input st \<and>
    GetStepByID (ws_ID step) s' = (Ok step, s') \<and>
    (\<forall>i xs ys. GetStepsByInstance i s = (Ok xs, s) \<longrightarrow> GetStepsByInstance i s' = (Ok ys, s') \<longrightarrow>
       mset ys = mset xs + (if i = ws_InstanceID st then {#step#} else {#}) \<and>
       sorted (map ws_CreatedAt ys))"
proof -
  let ?step = "madeStep (E, st) s" and ?t = "snd (CreateStep E st s)"
  have "ws_ID ?step = ms_nextStepID s \<and> ws_StepName ?step = ws_StepName st \<and> ws_Status ?step = ws_Status st \<and>
      ws_Input ?step = ws_Input st"
    by (simp add: madeStep_def CreateStep_def Let_def)
  moreover have "GetStepByID (ws_ID ?step) ?t = (Ok ?step, ?t)"
    by (simp add: GetStepByID_def CreateStep_def madeStep_def Let_def)
  moreover have "\<forall>i xs ys. GetStepsByInstance i s = (Ok xs, s) \<longrightarrow> GetStepsByInstance i ?t = (Ok ys, ?t) \<longrightarrow>
       mset ys = mset xs + (if i = ws_InstanceID st then {#?step#} else {#}) \<and> sorted (map ws_CreatedAt ys)"
    by (auto simp: GetStepsByInstance_def stepsOfInstance_new [OF wf])
  ultimately show ?thesis using CreateStep_made [of E st s] by blast
qed

definition step0 :: WorkflowStep where
  "step0 = \<lparr>ws_ID = 0, ws_InstanceID = 1, ws_StepName = ''a'', ws_StepType = StepTypeTask,
     ws_Status = StepStatusPending, ws_Input = RawNil, ws_Output = RawNil, ws_Error = None,
     ws_RetryCount = 0, ws_MaxRetries = 3, ws_CompensationRetryCount = 0, ws_IdempotencyKey = '''',
     ws_StartedAt = None, ws_CompletedAt = None, ws_CreatedAt = 0\<rparr>"

theorem CreateStep_roundtrip_witness:
  "\<exists>step s'. CreateStep env0 step0 NewMemoryStore = (Ok step, s') \<and>
     GetStepByID (ws_ID step) s' = (Ok step, s')"
  using CreateStep_roundtrip [OF NewMemoryStore_wf, of env0 step0] by blast

text \<open>
  The retry counter counts failures. \<open>UpdateStep\<close> stores the given status, output and error,
  increments the retry counter exactly when the new status is \<open>failed\<close>, stamps the completion time
  exactly for \<open>completed\<close>, \<open>failed\<close> and \<open>skipped\<close>, keeps the start time once set, and changes no
  other step.
\<close>

theorem UpdateStep_spec:
  assumes "map_of (ms_steps s) k = Some st"
  shows "\<exists>s' st'. UpdateStep E k status out err s = (Ok (), s') \<and>
    map_of (ms_steps s') = (map_of (ms_steps s))(k \<mapsto> st') \<and>
    ws_Status st' = status \<and> ws_Output st' = out \<and> ws_Error st' = err \<and>
    ws_RetryCount st' = (if status = StepStatusFailed then ws_RetryCount st + 1 else ws_RetryCount st) \<and>
    ws_CompletedAt st' = (if status \<in> {StepStatusCompleted, StepStatusFailed, StepStatusSkipped}
                          then Some (clk E (ms_cursor s)) else ws_CompletedAt st) \<and>
    (\<forall>t. ws_StartedAt st = Some t \<longrightarrow> ws_StartedAt st' = Some t) \<and> sameStep st st'"
proof -
  let ?st = "stepAfter (clk E (ms_cursor s)) status out err st"
  have "UpdateStep E k status out err s =
      (Ok (), s\<lparr>ms_steps := AList.update k ?st (ms_steps s), ms_cursor := Suc (ms_cursor s)\<rparr>)"
    using assms by (simp add: UpdateStep_def)
  then show ?thesis
    by (intro exI [of _ "s\<lparr>ms_steps := AList.update k ?st (ms_steps s), ms_cursor := Suc (ms_cursor s)\<rparr>"]
        exI [of _ ?st]) (simp add: sameStep_def)
qed

theorem UpdateStep_spec_witness:
  "\<exists>s' st'. UpdateStep env0 1 StepStatusFailed RawNil (Some ''boom'')
       (snd (CreateStep env0 step0 NewMemoryStore)) = (Ok (), s') \<and>
     map_of (ms_steps s') 1 = Some st' \<and> ws_RetryCount st' = 1"
proof -
  have "\<exists>st. map_of (ms_steps (snd (CreateStep env0 step0 NewMemoryStore))) 1 = Some st \<and> ws_RetryCount st = 0"
    by (simp add: CreateStep_def step0_def NewMemoryStore_def Let_def)
  then obtain st where st: "map_of (ms_steps (snd (CreateStep env0 step0 NewMemoryStore))) 1 = Some st"
    "ws_RetryCount st = 0" by blast
  from UpdateStep_spec [OF st(1), of env0 StepStatusFailed RawNil "Some ''boom''"] st(2)
  show ?thesis by (metis add_0 fun_upd_same)
qed

section \<open>Dead letters\<close>

text \<open>
  C28. Requeueing a dead letter resets its step but does not queue it. \<open>RequeueDeadLetter\<close> makes the step
  pending with fresh counters (and the new input, if one is given), returns a failed or dead-lettered
  instance to \<open>running\<close> and deletes the record. The queue is exactly what it was: a step that is not
  queued before the call is not queued after it.
\<close>

theorem RequeueDeadLetter_spec:
  assumes wf: "store_wf s" and r: "map_of (ms_deadLetters s) d = Some r"
    and st: "map_of (ms_steps s) (dl_StepID r) = Some st"
  shows "\<exists>s' st'. RequeueDeadLetter d newInput s = (Ok (), s') \<and> ms_queue s' = ms_queue s \<and>
    map_of (ms_steps s') (dl_StepID r) = Some st' \<and> ws_Status st' = StepStatusPending \<and>
    ws_RetryCount st' = 0 \<and> ws_CompensationRetryCount st' = 0 \<and>
    ws_Input st' = (case newInput of None \<Rightarrow> ws_Input st | Some i \<Rightarrow> i) \<and>
    map_of (ms_deadLetters s') d = None \<and>
    (\<forall>i. map_of (ms_instances s) (dl_InstanceID r) = Some i \<longrightarrow> wi_Status i \<in> {StatusFailed, StatusDLQ} \<longrightarrow>
       (\<exists>i'. map_of (ms_instances s') (dl_InstanceID r) = Some i' \<and> wi_Status i' = StatusRunning))"
proof -
  let ?steps = "AList.update (dl_StepID r) (resetStep newInput st) (ms_steps s)"
  let ?steps' = "mapSteps wakeJoin (stepIDsOf s (dl_InstanceID r)) ?steps"
  have "map_of ?steps' (dl_StepID r) = Some (resetStep newInput st)" (is ?found)
    using map_of_mapSteps [OF stepIDsOf_distinct [OF wf], of wakeJoin "dl_InstanceID r" ?steps]
    by (simp add: wakeJoin_def resetStep_def)
  let ?s = "s\<lparr>ms_steps := ?steps', ms_instances := resumeInstance (dl_InstanceID r) (ms_instances s),
      ms_deadLetters := AList.delete d (ms_deadLetters s)\<rparr>"
  have "\<exists>i'. map_of (ms_instances ?s) (dl_InstanceID r) = Some i' \<and> wi_Status i' = StatusRunning"
    if "map_of (ms_instances s) (dl_InstanceID r) = Some i" "wi_Status i \<in> {StatusFailed, StatusDLQ}" for i
    using that by (auto simp: resumeInstance_def)
  with \<open>?found\<close> show ?thesis
    unfolding RequeueDeadLetter_Some [OF r st]
    by (intro exI [of _ ?s] exI [of _ "resetStep newInput st"] conjI) (simp_all add: resetStep_def)
qed

definition dead0 :: MemoryStore where
  "dead0 = snd (CreateDeadLetterRecord env0 \<lparr>dl_ID = 0, dl_InstanceID = 1, dl_WorkflowID = ''w-v1'',
      dl_StepID = 1, dl_StepName = ''a'', dl_StepType = ''task'', dl_Input = RawNil, dl_Error = None,
      dl_Reason = '''', dl_CreatedAt = 0\<rparr> (snd (CreateStep env0 step0 NewMemoryStore)))"

lemma dead0_wf: "store_wf dead0"
  unfolding dead0_def
  using go_rel_snd [OF evolves_CreateDeadLetterRecord] go_rel_snd [OF evolves_CreateStep] NewMemoryStore_wf
  unfolding store_evolves_def by blast

theorem RequeueDeadLetter_spec_witness:
  "\<exists>s' st'. RequeueDeadLetter 1 None dead0 = (Ok (), s') \<and> ms_queue s' = ms_queue dead0 \<and>
     map_of (ms_steps s') 1 = Some st' \<and> ws_Status st' = StepStatusPending"
proof -
  have "\<exists>r. map_of (ms_deadLetters dead0) 1 = Some r \<and> dl_StepID r = 1"
    "\<exists>st. map_of (ms_steps dead0) 1 = Some st"
    by (simp_all add: dead0_def CreateDeadLetterRecord_def CreateStep_def step0_def NewMemoryStore_def Let_def)
  then obtain r st where "map_of (ms_deadLetters dead0) 1 = Some r" "dl_StepID r = 1"
    "map_of (ms_steps dead0) 1 = Some st" by blast
  then show ?thesis using RequeueDeadLetter_spec [OF dead0_wf, of 1 r st None] by auto
qed

section \<open>Listing\<close>

lemma sliceOf_spec:
  "0 \<le> a \<Longrightarrow> a \<le> b \<Longrightarrow> b \<le> int (length xs) \<Longrightarrow> sliceOf a b xs = Some (take (nat (b - a)) (drop (nat a) xs))"
  by (simp add: sliceOf_def)

lemma paginate_spec:
  assumes "0 \<le> offset" "0 \<le> limit"
  shows "paginate offset limit xs = Ok (take (nat limit) (drop (nat offset) xs), int (length xs))"
proof (cases "offset \<ge> int (length xs)")
  case True
  then show ?thesis by (simp add: paginate_def Let_def)
next
  case False
  then have n: "nat (int (length xs) - offset) = length xs - nat offset" using assms(1) by linarith
  show ?thesis
  proof (cases "offset + limit > int (length xs)")
    case True
    then have "length xs - nat offset \<le> nat limit" using assms by linarith
    then show ?thesis using True False assms n by (simp add: paginate_def Let_def sliceOf_spec)
  next
    case small: False
    then show ?thesis using False assms by (simp add: paginate_def Let_def sliceOf_spec)
  qed
qed

lemma paginate_negative:
  assumes "offset < 0"
  shows "paginate offset limit xs = Panic ''slice bounds out of range''"
  using assms by (simp add: paginate_def Let_def sliceOf_def)

text \<open>
  Pages partition the listing. For non-negative bounds the page of \<open>GetWorkflowInstancesPaginated\<close>
  is the corresponding section of \<open>GetWorkflowInstances\<close>, with the total count, so that a page and the
  listing from the next offset on make up the listing from the page's offset on; a negative offset panics.
\<close>

theorem pages_partition:
  "(0 \<le> offset \<and> 0 \<le> limit \<longrightarrow>
     (\<exists>xs page. GetWorkflowInstances wid s = (Ok xs, s) \<and>
        GetWorkflowInstancesPaginated wid offset limit s = (Ok (page, int (length xs)), s) \<and>
        int (length page) \<le> limit \<and> page @ drop (nat (offset + limit)) xs = drop (nat offset) xs)) \<and>
   (offset < 0 \<longrightarrow> GetWorkflowInstancesPaginated wid offset limit s = (Panic ''slice bounds out of range'', s))"
proof (intro conjI impI)
  let ?xs = "instancesDesc (\<lambda>i. wi_WorkflowID i = wid) s"
  assume b: "0 \<le> offset \<and> 0 \<le> limit"
  have "take (nat limit) (drop (nat offset) ?xs) @ drop (nat (offset + limit)) ?xs = drop (nat offset) ?xs"
    using b append_take_drop_id [of "nat limit" "drop (nat offset) ?xs"]
    by (simp add: nat_add_distrib add.commute)
  then show "\<exists>xs page. GetWorkflowInstances wid s = (Ok xs, s) \<and>
      GetWorkflowInstancesPaginated wid offset limit s = (Ok (page, int (length xs)), s) \<and>
      int (length page) \<le> limit \<and> page @ drop (nat (offset + limit)) xs = drop (nat offset) xs"
    using b by (auto simp: GetWorkflowInstances_def GetWorkflowInstancesPaginated_def paginate_spec)
qed (simp add: GetWorkflowInstancesPaginated_def paginate_negative)

theorem pages_partition_witness:
  "\<exists>xs page. GetWorkflowInstances ''w'' NewMemoryStore = (Ok xs, NewMemoryStore) \<and>
     GetWorkflowInstancesPaginated ''w'' 0 10 NewMemoryStore = (Ok (page, int (length xs)), NewMemoryStore)"
  using pages_partition [of 0 10 "''w''" NewMemoryStore] by auto

section \<open>Statistics\<close>

lemma summary_fold:
  "foldl summaryAdd st xs =
     \<lparr>ss_TotalWorkflows = ss_TotalWorkflows st + length xs,
      ss_CompletedWorkflows = ss_CompletedWorkflows st + length (filter (\<lambda>i. wi_Status i = StatusCompleted) xs),
      ss_FailedWorkflows = ss_FailedWorkflows st + length (filter (\<lambda>i. wi_Status i = StatusFailed) xs),
      ss_RunningWorkflows = ss_RunningWorkflows st + length (filter (\<lambda>i. wi_Status i = StatusRunning) xs),
      ss_PendingWorkflows = ss_PendingWorkflows st + length (filter (\<lambda>i. wi_Status i = StatusPending) xs),
      ss_ActiveWorkflows = ss_ActiveWorkflows st +
        length (filter (\<lambda>i. wi_Status i = StatusRunning \<or> wi_Status i = StatusPending) xs)\<rparr>"
proof (induction xs arbitrary: st)
  case Nil
  then show ?case by simp
next
  case (Cons x xs)
  show ?case unfolding foldl_Cons Cons.IH by (cases "wi_Status x") (simp_all add: summaryAdd_def)
qed

text \<open>
  The summary counts every instance once: the counters of \<open>GetSummaryStats\<close> are the numbers of
  stored instances by status, the active ones are the running and the pending ones, and the statuses
  without a counter account for the rest.
\<close>

theorem GetSummaryStats_counts:
  "\<exists>st. GetSummaryStats s = (Ok st, s) \<and> ss_TotalWorkflows st = length (ms_instances s) \<and>
    ss_CompletedWorkflows st = countStatus StatusCompleted s \<and> ss_FailedWorkflows st = countStatus StatusFailed s \<and>
    ss_ActiveWorkflows st = countStatus StatusRunning s + countStatus StatusPending s \<and>
    ss_TotalWorkflows st = ss_CompletedWorkflows st + ss_FailedWorkflows st + ss_ActiveWorkflows st +
      countStatus StatusRollingBack s + countStatus StatusCancelling s + countStatus StatusCancelled s +
      countStatus StatusAborted s + countStatus StatusDLQ s"
proof -
  let ?n = "\<lambda>xs st. length (filter (\<lambda>i. wi_Status i = st) xs)"
  have active: "length (filter (\<lambda>i. wi_Status i = StatusRunning \<or> wi_Status i = StatusPending) xs) =
      ?n xs StatusRunning + ?n xs StatusPending" for xs :: "WorkflowInstance list"
    by (induction xs) auto
  have total: "length xs = ?n xs StatusCompleted + ?n xs StatusFailed + (?n xs StatusRunning + ?n xs StatusPending) +
      ?n xs StatusRollingBack + ?n xs StatusCancelling + ?n xs StatusCancelled + ?n xs StatusAborted + ?n xs StatusDLQ"
    for xs :: "WorkflowInstance list"
  proof (induction xs)
    case Nil
    then show ?case by simp
  next
    case (Cons x xs)
    then show ?case by (cases "wi_Status x") simp_all
  qed
  show ?thesis
    unfolding GetSummaryStats_def summary_fold countStatus_def
    using total [of "map snd (ms_instances s)"] by (simp add: active)
qed

section \<open>Clean-up\<close>

definition expired :: "int \<Rightarrow> WorkflowInstance \<Rightarrow> bool" where
  "expired now i \<longleftrightarrow> (case wi_CompletedAt i of None \<Rightarrow> False | Some t \<Rightarrow> t < now - 86400 * 1000000000)"

lemma cleanup_fold:
  "map_of (ms_instances (foldl cleanupInstance s ids)) =
     (\<lambda>k. if k \<in> set ids then None else map_of (ms_instances s) k)"
  "ms_steps (foldl cleanupInstance s ids) = filter (\<lambda>(k, st). ws_InstanceID st \<notin> set ids) (ms_steps s)"
  "ms_queue (foldl cleanupInstance s ids) = ms_queue s"
  "ms_events (foldl cleanupInstance s ids) = ms_events s"
proof (induction ids arbitrary: s)
  case Nil
  { case 1 show ?case by simp }
  { case 2 show ?case by simp }
  { case 3 show ?case by simp }
  { case 4 show ?case by simp }
next
  case (Cons i ids)
  { case 1 show ?case unfolding foldl_Cons Cons.IH by (auto simp: cleanupInstance_def) }
  { case 2 show ?case unfolding foldl_Cons Cons.IH by (auto simp: cleanupInstance_def intro!: filter_cong) }
  { case 3 show ?case unfolding foldl_Cons Cons.IH by (simp add: cleanupInstance_def) }
  { case 4 show ?case unfolding foldl_Cons Cons.IH by (simp add: cleanupInstance_def) }
qed

text \<open>
  Clean-up removes exactly the expired instances. \<open>CleanupOldWorkflows\<close> deletes the instances that
  completed more than a day ago together with all their steps, keeps every other instance and step as
  it is, and leaves the queue and the event log alone.
\<close>

theorem CleanupOldWorkflows_spec:
  assumes wf: "store_wf s"
  shows "\<exists>s'. CleanupOldWorkflows E s = (Ok (), s') \<and>
    (\<forall>k i. map_of (ms_instances s') k = Some i \<longleftrightarrow>
       map_of (ms_instances s) k = Some i \<and> \<not> expired (clk E (ms_cursor s)) i) \<and>
    (\<forall>k st. map_of (ms_steps s') k = Some st \<longleftrightarrow> map_of (ms_steps s) k = Some st \<and>
       (\<forall>i. map_of (ms_instances s) (ws_InstanceID st) = Some i \<longrightarrow> \<not> expired (clk E (ms_cursor s)) i)) \<and>
    ms_queue s' = ms_queue s \<and> ms_events s' = ms_events s"
proof -
  let ?old = "map fst (filter (\<lambda>(k, i). expired (clk E (ms_cursor s)) i) (ms_instances s))"
  let ?t = "s\<lparr>ms_cursor := Suc (ms_cursor s)\<rparr>"
  have run: "CleanupOldWorkflows E s = (Ok (), foldl cleanupInstance ?t ?old)"
    unfolding CleanupOldWorkflows_def expired_def Let_def ..
  have old: "k \<in> set ?old \<longleftrightarrow> (\<exists>i. map_of (ms_instances s) k = Some i \<and> expired (clk E (ms_cursor s)) i)" for k
    unfolding in_set_map_of [OF tableOK_distinct [OF store_wfD(1) [OF wf]], symmetric] by (auto simp: image_iff)
  have inst: "map_of (ms_instances (foldl cleanupInstance ?t ?old)) k = Some i \<longleftrightarrow>
      map_of (ms_instances s) k = Some i \<and> \<not> expired (clk E (ms_cursor s)) i" for k i
    unfolding cleanup_fold(1) using old [of k] by auto
  have steps: "map_of (ms_steps (foldl cleanupInstance ?t ?old)) k = Some st \<longleftrightarrow> map_of (ms_steps s) k = Some st \<and>
      ws_InstanceID st \<notin> set ?old" for k st
    unfolding cleanup_fold(2)
    using map_of_filter_Some [OF tableOK_distinct [OF store_wfD(2) [OF wf]],
        of "\<lambda>(k, st). ws_InstanceID st \<notin> set ?old" k st] by simp
  show ?thesis
    by (rule exI [of _ "foldl cleanupInstance ?t ?old"], intro conjI allI)
      (simp_all only: run inst steps old cleanup_fold(3,4), auto)
qed

theorem CleanupOldWorkflows_spec_witness:
  "\<exists>s'. CleanupOldWorkflows env0 dead0 = (Ok (), s') \<and> ms_queue s' = ms_queue dead0"
  using CleanupOldWorkflows_spec [OF dead0_wf, of env0] by blast

end
