(* ===== verification/Yaml.thy ===== *)
theory Yaml
  imports Builder
begin

text \<open>
  Workflow definitions in YAML (\<open>yaml_parser.go\<close>): the document's types, the custom decoding of steps and
  the translation of flows into calls of the builder. The YAML library is a parameter: \<open>unmarshal\<close> maps the
  bytes to an error or a document, and \<open>UnmarshalYAML\<close> gets the two results of \<open>Decode\<close>.

  The translation reaches into the builder (\<open>b.steps[name]\<close>), which the exported methods do not allow, so
  it can panic where client programs of the builder cannot.
\<close>

section \<open>Documents\<close>

record TLSConfig =
  tls_SkipVerify :: bool
  tls_CertFile :: string
  tls_KeyFile :: string
  tls_CAFile :: string

record YamlHandler =
  yh_Name :: string
  yh_Exec :: string
  yh_TLS :: "TLSConfig option"

record YamlTask =
  yt_Name :: string
  yt_Handler :: string
  yt_MaxRetries :: "int option"
  yt_NoIdem :: "bool option"
  yt_Delay :: "int option"
  yt_RetryDelay :: "int option"
  yt_RetryStr :: string
  yt_Timeout :: "int option"
  yt_Metadata :: "(string \<times> jval) list"

text \<open>The fields a step shares with a parallel task are kept together in \<open>ys_Task\<close>.\<close>

datatype YamlStep = YamlStep (ys_Type: string) (ys_Task: YamlTask) (ys_OnFailure: string)
  (ys_Tasks: "YamlTask list") (ys_Expr: string) (ys_Cond: string) (ys_Else: "YamlStep list")

abbreviation ys_Name :: "YamlStep \<Rightarrow> string" where
  "ys_Name st \<equiv> yt_Name (ys_Task st)"

record yamlFlow =
  yf_Name :: string
  yf_Steps :: "YamlStep list"

record YamlRoot =
  yr_TLS :: "TLSConfig option"
  yr_Handlers :: "YamlHandler list"
  yr_Flows :: "yamlFlow list"

definition emptyYamlTask :: YamlTask where
  "emptyYamlTask = \<lparr>yt_Name = '''', yt_Handler = '''', yt_MaxRetries = None, yt_NoIdem = None, yt_Delay = None,
     yt_RetryDelay = None, yt_RetryStr = '''', yt_Timeout = None, yt_Metadata = []\<rparr>"

text \<open>A scalar is the name and the handler of a task; the kind defaults to a task, \<open>condition\<close> stands in for \<open>expr\<close>.\<close>

definition UnmarshalYAML :: "bool \<Rightarrow> error + string \<Rightarrow> error + YamlStep \<Rightarrow> error + YamlStep" where
  "UnmarshalYAML isScalar decodeName decodeStep =
     (if isScalar then (case decodeName of Inl e \<Rightarrow> Inl e
        | Inr name \<Rightarrow> Inr (YamlStep ''task'' (emptyYamlTask\<lparr>yt_Name := name, yt_Handler := name\<rparr>) '''' [] '''' '''' []))
      else case decodeStep of Inl e \<Rightarrow> Inl e
        | Inr (YamlStep ty task onFailure tasks expr cond els) \<Rightarrow>
            Inr (YamlStep (if ty = '''' then ''task'' else ty) task onFailure tasks
              (if expr = '''' \<and> cond \<noteq> '''' then cond else expr) cond els))"

section \<open>Options\<close>

type_synonym execs = "(string \<times> string) list"

text \<open>\<open>handlersExec[h]\<close>, the empty string for an unknown handler.\<close>

definition execOf :: "execs \<Rightarrow> string \<Rightarrow> string" where
  "execOf ex h = (case map_of ex h of None \<Rightarrow> '''' | Some e \<Rightarrow> e)"

definition millisecondsToDuration :: "int \<Rightarrow> int" where
  "millisecondsToDuration ms = wrap64 (ms * 1000000)"

definition setExec :: "execs \<Rightarrow> string \<Rightarrow> StepDefinition \<Rightarrow> StepDefinition" where
  "setExec ex h step =
     (if execOf ex h \<noteq> '''' then step\<lparr>sd_Metadata := AList.update ''exec'' (JStr (execOf ex h)) (sd_Metadata step)\<rparr> else step)"

definition retryStrategyOf :: "string \<Rightarrow> RetryStrategy \<Rightarrow> RetryStrategy" where
  "retryStrategyOf s old =
     (if s = ''exponential'' then RetryStrategyExponential else if s = ''linear'' then RetryStrategyLinear
      else if s = '''' \<or> s = ''fixed'' then RetryStrategyFixed else old)"

definition applyYamlTaskOptions :: "execs \<Rightarrow> YamlTask \<Rightarrow> StepDefinition \<Rightarrow> StepDefinition" where
  "applyYamlTaskOptions ex t step0 =
     (let step = (if yt_Handler t \<noteq> '''' then setExec ex (yt_Handler t) step0 else step0)
      in step\<lparr>
        sd_MaxRetries := (case yt_MaxRetries t of None \<Rightarrow> sd_MaxRetries step | Some n \<Rightarrow> n),
        sd_NoIdempotent := (case yt_NoIdem t of None \<Rightarrow> sd_NoIdempotent step | Some b \<Rightarrow> b),
        sd_Delay := (case yt_Delay t of None \<Rightarrow> sd_Delay step | Some ms \<Rightarrow> millisecondsToDuration ms),
        sd_RetryDelay := (case yt_RetryDelay t of None \<Rightarrow> sd_RetryDelay step | Some ms \<Rightarrow> millisecondsToDuration ms),
        sd_RetryStrategy := retryStrategyOf (yt_RetryStr t) (sd_RetryStrategy step),
        sd_Timeout := (case yt_Timeout t of None \<Rightarrow> sd_Timeout step | Some ms \<Rightarrow> millisecondsToDuration ms),
        sd_Metadata := fold (\<lambda>(k, v). AList.update k v) (yt_Metadata t) (sd_Metadata step)\<rparr>)"

text \<open>The same text again for a step.\<close>

definition applyTaskOptions :: "execs \<Rightarrow> YamlTask \<Rightarrow> StepDefinition \<Rightarrow> StepDefinition" where
  "applyTaskOptions = applyYamlTaskOptions"

section \<open>Steps\<close>

definition withHandler :: "YamlTask \<Rightarrow> YamlTask" where
  "withHandler t = (if yt_Handler t = '''' then t\<lparr>yt_Handler := yt_Name t\<rparr> else t)"

definition at :: "nat \<Rightarrow> string" where
  "at idx = ''steps['' @ itoa (int idx) @ '']: ''"

definition taskIntoBuilder :: "execs \<Rightarrow> nat \<Rightarrow> YamlStep \<Rightarrow> unit bgo" where
  "taskIntoBuilder ex idx st =
     (if ys_Name st = '''' then gfail (Err (at idx @ ''task requires name''))
      else let t = withHandler (ys_Task st); onFailure = ys_OnFailure st in
        gseq (Step (yt_Name t) (yt_Handler t) [])
        (gseq (updateStep (yt_Name t) (applyTaskOptions ex t))
        (if onFailure = '''' then gret ()
         else gseq (OnFailure onFailure onFailure [])
           (gbind (bself (\<lambda>b. map_of (bd_steps b) onFailure)) (\<lambda>p.
            case p of None \<Rightarrow> gret () | Some compensation \<Rightarrow> writeAt compensation (setExec ex onFailure))))))"

definition yamlTask :: "execs \<Rightarrow> string \<Rightarrow> nat \<times> YamlTask \<Rightarrow> nat list \<Rightarrow> nat list bgo" where
  "yamlTask ex parallelName = (\<lambda>(i, t0) defs.
     if yt_Name t0 = ''''
     then gfail (Err (''parallel '' @ goQuote parallelName @ '': tasks['' @ itoa (int i) @ ''] missing name''))
     else let t = withHandler t0 in
       gbind (NewTask (yt_Name t) (yt_Handler t) []) (\<lambda>step.
       gseq (writeAt step (applyYamlTaskOptions ex t)) (gret (defs @ [step]))))"

definition parallelIntoBuilder :: "execs \<Rightarrow> nat \<Rightarrow> YamlStep \<Rightarrow> unit bgo" where
  "parallelIntoBuilder ex idx st =
     (if ys_Name st = '''' then gfail (Err (at idx @ ''parallel requires name''))
      else if length (ys_Tasks st) < 2
      then gfail (Err (''parallel '' @ goQuote (ys_Name st) @ '' must contain at least 2 tasks''))
      else gbind (gfold (yamlTask ex (ys_Name st)) (enumerate 0 (ys_Tasks st)) []) (Parallel (ys_Name st)))"

text \<open>\<open>elseFn\<close> drops the error of its steps.\<close>

definition conditionIntoBuilder :: "nat \<Rightarrow> YamlStep \<Rightarrow> unit bgo \<Rightarrow> unit bgo" where
  "conditionIntoBuilder idx st elseSteps =
     (if ys_Name st = '''' then gfail (Err (at idx @ ''condition requires name''))
      else if ys_Expr st = ''''
      then gfail (Err (''condition '' @ goQuote (ys_Name st) @ '': expr/condition is required''))
      else Condition (ys_Name st) (ys_Expr st) (if ys_Else st \<noteq> [] then Some (gignore elseSteps) else None))"

definition stepIntoBuilder :: "execs \<Rightarrow> nat \<Rightarrow> YamlStep \<Rightarrow> unit bgo \<Rightarrow> unit bgo" where
  "stepIntoBuilder ex idx st elseSteps =
     (if ys_Type st = ''task'' then taskIntoBuilder ex idx st
      else if ys_Type st = ''parallel'' then parallelIntoBuilder ex idx st
      else if ys_Type st = ''condition'' then conditionIntoBuilder idx st elseSteps
      else gfail (Err (at idx @ ''unsupported type '' @ goQuote (ys_Type st))))"

text \<open>The loop of \<open>buildStepsIntoBuilder\<close> from index \<open>idx\<close> on.\<close>

lemma size_else: "size_list size (ys_Else st) < size st"
  by (cases st) simp

function stepsFrom :: "execs \<Rightarrow> nat \<Rightarrow> YamlStep list \<Rightarrow> unit bgo" where
  "stepsFrom ex idx [] = gret ()"
| "stepsFrom ex idx (st # sts) =
     gseq (stepIntoBuilder ex idx st (stepsFrom ex 0 (ys_Else st))) (stepsFrom ex (Suc idx) sts)"
  by pat_completeness auto
termination
  by (relation "measure (\<lambda>(ex, idx, sts). size_list size sts)") (auto intro: less_le_trans [OF size_else])

definition buildStepsIntoBuilder :: "execs \<Rightarrow> YamlStep list \<Rightarrow> unit bgo" where
  "buildStepsIntoBuilder ex steps = stepsFrom ex 0 steps"

section \<open>Documents\<close>

definition rbind :: "'a res \<Rightarrow> ('a \<Rightarrow> 'b res) \<Rightarrow> 'b res" where
  "rbind r k = (case r of Ok x \<Rightarrow> k x | Fail e \<Rightarrow> Fail e | Panic p \<Rightarrow> Panic p | Deadlock \<Rightarrow> Deadlock | OutOfFuel \<Rightarrow> OutOfFuel)"

fun execsFrom :: "nat \<Rightarrow> YamlHandler list \<Rightarrow> execs \<Rightarrow> execs res" where
  "execsFrom i [] ex = Ok ex"
| "execsFrom i (h # hs) ex =
     (if yh_Name h = '''' then Fail (Err (''handlers['' @ itoa (int i) @ '']: missing name''))
      else if yh_Exec h = ''''
      then Fail (Err (''handlers['' @ itoa (int i) @ '']: missing exec for handler '' @ goQuote (yh_Name h)))
      else execsFrom (Suc i) hs (AList.update (yh_Name h) (yh_Exec h) ex))"

definition parseFlow :: "int \<Rightarrow> execs \<Rightarrow> nat \<Rightarrow> yamlFlow \<Rightarrow> WorkflowDefinition res" where
  "parseFlow version ex i f =
     (if yf_Name f = '''' then Fail (Err (''flows['' @ itoa (int i) @ '']: missing name''))
      else if yf_Steps f = [] then Fail (Err (''flow '' @ goQuote (yf_Name f) @ '': steps are required''))
      else case buildStepsIntoBuilder ex (yf_Steps f) ([], NewBuilder (yf_Name f) version []) of
        (Ok _, (H, b)) \<Rightarrow> (case Build H b of Inl e \<Rightarrow> Fail e | Inr def \<Rightarrow> Ok def)
      | (Fail e, _) \<Rightarrow> Fail (Wrap (''flow '' @ goQuote (yf_Name f) @ '': '') e)
      | (Panic p, _) \<Rightarrow> Panic p | (Deadlock, _) \<Rightarrow> Deadlock | (OutOfFuel, _) \<Rightarrow> OutOfFuel)"

fun flowsFrom :: "int \<Rightarrow> execs \<Rightarrow> nat \<Rightarrow> yamlFlow list \<Rightarrow> (string \<times> WorkflowDefinition) list \<Rightarrow>
    (string \<times> WorkflowDefinition) list res" where
  "flowsFrom version ex i [] defs = Ok defs"
| "flowsFrom version ex i (f # fs) defs =
     rbind (parseFlow version ex i f) (\<lambda>def. flowsFrom version ex (Suc i) fs (AList.update (yf_Name f) def defs))"

definition ParseWorkflowYAML ::
    "('bytes \<Rightarrow> error + YamlRoot) \<Rightarrow> 'bytes \<Rightarrow> int \<Rightarrow> ((string \<times> WorkflowDefinition) list \<times> execs) res" where
  "ParseWorkflowYAML unmarshal data version =
     (case unmarshal data of Inl e \<Rightarrow> Fail (Wrap ''yaml parse error: '' e)
      | Inr doc \<Rightarrow> rbind (execsFrom 0 (yr_Handlers doc) []) (\<lambda>ex.
          rbind (flowsFrom version ex 0 (yr_Flows doc) []) (\<lambda>defs. Ok (defs, ex))))"

definition ValidateYAMLDocument :: "('bytes \<Rightarrow> error + YamlRoot) \<Rightarrow> 'bytes \<Rightarrow> error option" where
  "ValidateYAMLDocument unmarshal data =
     (case unmarshal data of Inl e \<Rightarrow> Some e
      | Inr r \<Rightarrow> if yr_Flows r = [] then Some (Err ''no flows defined'') else None)"

end
