(* ===== verification/Yaml_Props.thy ===== *)
theory Yaml_Props
  imports Yaml Builder_Props
begin

text \<open>
  What the YAML front end guarantees: every definition it returns is filed under its name and accepted by the
  engine; when a step makes it panic; and that errors in an else branch are lost.

  The translation keeps the builder's invariant on every outcome but a panic (\<open>bpart\<close>). The triples of the builder's
  methods carry over (\<open>bpart_safe\<close>), also through the else branch of a condition, which runs a function that may panic:
  \<open>upto\<close> compares such code with its total variant.
\<close>

section \<open>Partial correctness\<close>

definition bpart :: "(bstate \<Rightarrow> bool) \<Rightarrow> 'a bgo \<Rightarrow> ('a \<Rightarrow> bstate \<Rightarrow> bool) \<Rightarrow> bool" where
  "bpart P m Q \<longleftrightarrow> (\<forall>st. builderOK st \<longrightarrow> P st \<longrightarrow>
     (case m st of (Ok x, st') \<Rightarrow> builderOK st' \<and> grows st st' \<and> Q x st'
      | (Fail e, st') \<Rightarrow> builderOK st' \<and> grows st st' | (Panic p, st') \<Rightarrow> True | _ \<Rightarrow> False))"

abbreviation bkeeps :: "(bstate \<Rightarrow> bool) \<Rightarrow> 'a bgo \<Rightarrow> bool" where
  "bkeeps P m \<equiv> bpart P m (\<lambda>_ _. True)"

lemma bpartE:
  assumes "bpart P m Q" "builderOK st" "P st"
  obtains (ok) x st' where "m st = (Ok x, st')" "builderOK st'" "grows st st'" "Q x st'"
  | (failed) e st' where "m st = (Fail e, st')" "builderOK st'" "grows st st'"
  | (panicked) p st' where "m st = (Panic p, st')"
  using assms unfolding bpart_def by (cases "m st"; cases "fst (m st)") fastforce+

lemma bpart_safe: "bspec P m Q \<Longrightarrow> bpart P m Q"
  unfolding bspec_def bpart_def by fastforce

lemma bpart_conseq: "bpart P m Q \<Longrightarrow> (\<And>st. builderOK st \<Longrightarrow> P' st \<Longrightarrow> P st) \<Longrightarrow> (\<And>x st. Q x st \<Longrightarrow> Q' x st) \<Longrightarrow> bpart P' m Q'"
  unfolding bpart_def by (fastforce split: prod.splits res.splits)

lemma bpart_fail: "bpart P (gfail e) Q"
  by (simp add: bpart_def grows_refl)

lemma bpart_bind:
  assumes m: "bpart P m Q" and s: "stable P" and k: "\<And>x. bpart (\<lambda>st. P st \<and> Q x st) (k x) R"
  shows "bpart P (gbind m k) R"
  unfolding bpart_def
proof (intro allI impI)
  fix st assume ok: "builderOK st" "P st"
  show "case gbind m k st of (Ok x, st') \<Rightarrow> builderOK st' \<and> grows st st' \<and> R x st'
      | (Fail e, st') \<Rightarrow> builderOK st' \<and> grows st st' | (Panic p, st') \<Rightarrow> True | _ \<Rightarrow> False"
    using m ok
  proof (cases rule: bpartE)
    case (ok x st1)
    have "P st1" using s ok(3) \<open>P st\<close> unfolding stable_def by blast
    then have "P st1 \<and> Q x st1" using ok(4) by blast
    from k ok(2) this ok(3) ok(1) show ?thesis by (cases rule: bpartE) (auto intro: grows_trans)
  qed (auto simp: gbind_def)
qed

lemma bpart_seq: "bkeeps P m \<Longrightarrow> stable P \<Longrightarrow> bpart P k R \<Longrightarrow> bpart P (gseq m k) R"
  unfolding gseq_def by (rule bpart_bind) (auto intro: bpart_conseq)

lemma bpart_if: "(c \<Longrightarrow> bpart P m Q) \<Longrightarrow> (\<not> c \<Longrightarrow> bpart P k Q) \<Longrightarrow> bpart P (if c then m else k) Q"
  by simp

lemma gignore_run: "m st = (Ok x, st') \<or> m st = (Fail e, st') \<Longrightarrow> gignore m st = (Ok (), st')"
  by auto

section \<open>Code up to panics\<close>

definition upto :: "'a bgo \<Rightarrow> 'a bgo \<Rightarrow> bool" where
  "upto m m' \<longleftrightarrow> (\<forall>st. m st = m' st \<or> (\<exists>p st'. m st = (Panic p, st')))"

lemma upto_refl [simp]: "upto m m"
  by (simp add: upto_def)

lemma upto_bind: "upto m m' \<Longrightarrow> (\<And>x. upto (k x) (k' x)) \<Longrightarrow> upto (gbind m k) (gbind m' k')"
  unfolding upto_def gbind_def by (auto split: prod.splits res.splits) (metis prod.inject res.simps)+

lemma upto_inSub:
  assumes "upto m m'"
  shows "upto (inSub sub m) (inSub sub m')"
  unfolding upto_def
proof
  fix st :: bstate
  obtain H b where st: "st = (H, b)" by (cases st)
  from assms consider "m (H, sub) = m' (H, sub)" | p s where "m (H, sub) = (Panic p, s)"
    unfolding upto_def by blast
  then show "inSub sub m st = inSub sub m' st \<or> (\<exists>p st'. inSub sub m st = (Panic p, st'))"
    by cases (auto simp: st inSub_def split: prod.split)
qed

lemma upto_Condition:
  assumes "upto m m'"
  shows "upto (Condition n e (Some m)) (Condition n e (Some m'))"
proof -
  have b: "upto (elseBranch n st m) (elseBranch n st m')" for st
    unfolding elseBranch_def by (intro upto_bind upto_inSub assms upto_refl)
  have e: "upto k k' \<Longrightarrow> upto (unlessErr k) (unlessErr k')" for k k'
    unfolding unlessErr_def by (rule upto_bind) (auto split: option.split)
  have r: "upto k k' \<Longrightarrow> upto (refuse c err k) (refuse c err k')" for c err k k'
    by (simp add: refuse_def)
  show ?thesis
    unfolding Condition_def gseq_def by (intro e upto_bind r upto_refl) (simp add: b)
qed

lemma bpart_upto: "upto m m' \<Longrightarrow> bspec P m' Q \<Longrightarrow> bpart P m Q"
  unfolding bpart_def
proof (intro allI impI)
  fix st assume u: "upto m m'" and m': "bspec P m' Q" and ok: "builderOK st" "P st"
  obtain x st' where r: "m' st = (Ok x, st')" "builderOK st'" "grows st st'" "Q x st'" by (rule bspecE [OF m' ok])
  from u consider "m st = m' st" | p s where "m st = (Panic p, s)" unfolding upto_def by blast
  then show "case m st of (Ok x, st') \<Rightarrow> builderOK st' \<and> grows st st' \<and> Q x st'
      | (Fail e, st') \<Rightarrow> builderOK st' \<and> grows st st' | (Panic p, st') \<Rightarrow> True | _ \<Rightarrow> False"
    using r by cases simp_all
qed

lemma Condition_keeps:
  assumes "bkeeps (\<lambda>_. True) m"
  shows "bkeeps (\<lambda>_. True) (Condition n e (Some (gignore m)))"
proof -
  define m' where "m' = (\<lambda>st. case gignore m st of (Panic p, st') \<Rightarrow> (Ok (), st) | r \<Rightarrow> r)"
  have "upto (gignore m) m'" unfolding upto_def m'_def by (auto split: prod.split res.split)
  moreover have "bsafe (\<lambda>_. True) m'"
  proof (rule bspecI)
    fix st assume ok: "builderOK st"
    show "\<exists>x st'. m' st = (Ok x, st') \<and> builderOK st' \<and> grows st st' \<and> True"
      using assms ok TrueI
    proof (cases rule: bpartE)
      case (panicked p st')
      then show ?thesis using ok by (simp add: m'_def gignore_def gbind_def gtry_def grows_refl)
    qed (simp_all add: m'_def)
  qed
  then have "bsafe (\<lambda>_. True) (Condition n e (Some m'))" by (intro Condition_safe) simp
  ultimately show ?thesis by (rule bpart_upto [OF upto_Condition])
qed

section \<open>The translation keeps the invariant\<close>

lemma options_name [simp]: "sd_Name (applyTaskOptions ex t sd) = sd_Name sd" "sd_Name (applyYamlTaskOptions ex t sd) = sd_Name sd"
  "sd_Name (setExec ex h sd) = sd_Name sd"
  by (simp_all add: applyTaskOptions_def applyYamlTaskOptions_def setExec_def Let_def)

lemma bkeeps_updateStep: "(\<And>sd. sd_Name (f sd) = sd_Name sd) \<Longrightarrow> bkeeps (\<lambda>_. True) (updateStep n f)"
  unfolding bpart_def
proof (intro allI impI)
  fix st assume f: "\<And>sd. sd_Name (f sd) = sd_Name sd" and ok: "builderOK st"
  show "case updateStep n f st of (Ok x, st') \<Rightarrow> builderOK st' \<and> grows st st' \<and> True
      | (Fail e, st') \<Rightarrow> builderOK st' \<and> grows st st' | (Panic p, st') \<Rightarrow> True | _ \<Rightarrow> False"
  proof (cases "isStep n st")
    case True
    with bspecD [OF bspec_updateStep [OF f] ok] show ?thesis by fastforce
  next
    case False
    then show ?thesis by (cases st) (simp add: isStep_def updateStep_def bself_def gpanic_def)
  qed
qed

lemma taskIntoBuilder_keeps: "bkeeps (\<lambda>_. True) (taskIntoBuilder ex idx st)"
  unfolding taskIntoBuilder_def Let_def
  by (intro bpart_if bpart_fail bpart_seq bpart_safe [OF Step_safe] bkeeps_updateStep bpart_safe [OF OnFailure_safe])
    (auto intro!: bpart_safe bsteps)

lemma yamlTask_keeps:
  "bpart (\<lambda>st. \<forall>a \<in> set as. isAddr a st) (yamlTask ex n it as) (\<lambda>as' st. \<forall>a \<in> set as'. isAddr a st)"
proof (cases it)
  case (Pair i t)
  have "bspec (\<lambda>st. \<forall>a \<in> set as. isAddr a st) (gbind (NewTask nm h []) (\<lambda>step.
       gseq (writeAt step (applyYamlTaskOptions ex t')) (gret (as @ [step])))) (\<lambda>as' st. \<forall>a \<in> set as'. isAddr a st)" for nm h t'
    unfolding NewTask_def
    by (rule bind_alloc, blast intro: stable_logic(3) stable_isAddr, rule seq_safe, rule bspec_writeAt, simp,
        intro stable_logic stable_facts stable_isAddr, rule bspec_ret)
      (auto simp: isPtr_def isAddr_def)
  then show ?thesis unfolding yamlTask_def Pair prod.case Let_def by (intro bpart_if bpart_fail bpart_safe)
qed

lemma yamlTasks_keeps:
  "bpart (\<lambda>st. \<forall>a \<in> set as. isAddr a st) (gfold (yamlTask ex n) ts as) (\<lambda>as' st. \<forall>a \<in> set as'. isAddr a st)"
proof (induction ts arbitrary: as)
  case Nil
  show ?case by (simp only: gfold.simps) (rule bpart_safe, rule bspec_ret)
next
  case (Cons t ts)
  show ?case unfolding gfold.simps
    by (rule bpart_bind [OF yamlTask_keeps]) (blast intro: bpart_conseq [OF Cons.IH] stable_logic(3) stable_isAddr)+
qed

lemma parallelIntoBuilder_keeps: "bkeeps (\<lambda>_. True) (parallelIntoBuilder ex idx st)"
  unfolding parallelIntoBuilder_def
  by (intro bpart_if bpart_fail bpart_bind [OF yamlTasks_keeps [of "[]", simplified]] bpart_conseq [OF bpart_safe [OF Parallel_safe]])
    simp_all

lemma stepsFrom_keeps: "bkeeps (\<lambda>_. True) (stepsFrom ex idx sts)"
proof (induction ex idx sts rule: stepsFrom.induct)
  case (1 ex idx)
  show ?case by (simp only: stepsFrom.simps) (rule bpart_safe, rule bspec_ret, rule TrueI)
next
  case (2 ex idx st sts)
  have "bkeeps (\<lambda>_. True) (Condition n e (if ys_Else st \<noteq> [] then Some (gignore (stepsFrom ex 0 (ys_Else st))) else None))" for n e
    using Condition_keeps [OF 2(1)] by (auto intro: bpart_safe Condition_safe)
  then have "bkeeps (\<lambda>_. True) (stepIntoBuilder ex idx st (stepsFrom ex 0 (ys_Else st)))"
    unfolding stepIntoBuilder_def conditionIntoBuilder_def
    by (intro bpart_if bpart_fail taskIntoBuilder_keeps parallelIntoBuilder_keeps)
  with 2(2) show ?case unfolding stepsFrom.simps by (intro bpart_seq) simp_all
qed

section \<open>What parsing returns\<close>

lemma parseFlow_outcome:
  "parseFlow version ex i f = Ok def \<Longrightarrow> yf_Name f \<noteq> '''' \<and> validateDefinition def = None \<and> wd_Name def = yf_Name f \<and>
     wd_Version def = version \<and> wd_ID def = yf_Name f @ ''-v'' @ itoa version"
  "parseFlow version ex i f \<noteq> Deadlock" "parseFlow version ex i f \<noteq> OutOfFuel"
proof -
  let ?st = "([], NewBuilder (yf_Name f) version [])"
  show "parseFlow version ex i f = Ok def \<Longrightarrow> yf_Name f \<noteq> '''' \<and> validateDefinition def = None \<and> wd_Name def = yf_Name f \<and>
     wd_Version def = version \<and> wd_ID def = yf_Name f @ ''-v'' @ itoa version"
    "parseFlow version ex i f \<noteq> Deadlock" "parseFlow version ex i f \<noteq> OutOfFuel"
    using stepsFrom_keeps [of ex 0 "yf_Steps f"] NewBuilder_OK [of "yf_Name f" version "[]"] TrueI
    by (cases rule: bpartE [where st = ?st];
        force simp: parseFlow_def buildStepsIntoBuilder_def grows_def NewBuilder_fields
          dest: Build_Inr Build_state_valid(1) split: if_splits sum.splits)+
qed

definition filed :: "int \<Rightarrow> (string \<times> WorkflowDefinition) list \<Rightarrow> bool" where
  "filed version defs \<longleftrightarrow> (\<forall>n def. map_of defs n = Some def \<longrightarrow>
     validateDefinition def = None \<and> wd_Name def = n \<and> wd_Version def = version)"

lemma filed_update: "filed version defs \<Longrightarrow> parseFlow version ex i f = Ok def \<Longrightarrow> filed version (AList.update (yf_Name f) def defs)"
  using parseFlow_outcome(1) [of version ex i f def] by (simp add: filed_def update_conv)

lemma flowsFrom_Ok:
  "filed version defs \<Longrightarrow> flowsFrom version ex i fs defs = Ok defs' \<Longrightarrow>
   filed version defs' \<and> dom (map_of defs) \<union> yf_Name ` set fs \<subseteq> dom (map_of defs')"
proof (induction fs arbitrary: i defs)
  case (Cons f fs)
  obtain def where def: "parseFlow version ex i f = Ok def"
    "flowsFrom version ex (Suc i) fs (AList.update (yf_Name f) def defs) = Ok defs'"
    using Cons.prems(2) by (auto simp: rbind_def split: res.splits)
  from Cons.IH [OF filed_update [OF Cons.prems(1) def(1)] def(2)] show ?case
    unfolding update_conv' dom_fun_upd by auto
qed simp

lemma flowsFrom_ends: "flowsFrom version ex i fs defs \<noteq> Deadlock" "flowsFrom version ex i fs defs \<noteq> OutOfFuel"
proof (induction fs arbitrary: i defs)
  case (Cons f fs)
  {
    case 1
    show ?case using Cons.IH(1) parseFlow_outcome(2,3) [of version ex i f]
      by (cases "parseFlow version ex i f") (simp_all add: rbind_def)
  next
    case 2
    show ?case using Cons.IH(2) parseFlow_outcome(2,3) [of version ex i f]
      by (cases "parseFlow version ex i f") (simp_all add: rbind_def)
  }
qed simp_all

text \<open>A document with a task, a compensation, a condition and two parallel tasks.\<close>

definition orderDoc :: YamlRoot where
  "orderDoc = \<lparr>yr_TLS = None, yr_Handlers = [\<lparr>yh_Name = ''reserve'', yh_Exec = ''./reserve.sh'', yh_TLS = None\<rparr>],
     yr_Flows = [\<lparr>yf_Name = ''order'', yf_Steps =
       [YamlStep ''task'' (emptyYamlTask\<lparr>yt_Name := ''reserve'', yt_Timeout := Some 500\<rparr>) ''release'' [] '''' '''' [],
        YamlStep ''condition'' (emptyYamlTask\<lparr>yt_Name := ''check''\<rparr>) '''' [] ''{{.ok}}'' ''''
          [YamlStep ''task'' (emptyYamlTask\<lparr>yt_Name := ''refuse''\<rparr>) '''' [] '''' '''' []],
        YamlStep ''parallel'' (emptyYamlTask\<lparr>yt_Name := ''ship''\<rparr>) ''''
          [emptyYamlTask\<lparr>yt_Name := ''pack''\<rparr>, emptyYamlTask\<lparr>yt_Name := ''bill''\<rparr>] '''' '''' [],
        YamlStep ''task'' (emptyYamlTask\<lparr>yt_Name := ''done'', yt_Handler := ''reserve''\<rparr>) '''' [] '''' '''' []]\<rparr>]\<rparr>"

lemma flowsFrom_distinct:
  "distinct (map fst defs) \<Longrightarrow> flowsFrom version ex i fs defs = Ok defs' \<Longrightarrow> distinct (map fst defs')"
proof (induction fs arbitrary: i defs)
  case (Cons f fs)
  obtain def where "flowsFrom version ex (Suc i) fs (AList.update (yf_Name f) def defs) = Ok defs'"
    using Cons.prems(2) by (auto simp: rbind_def split: res.splits)
  with Cons.IH [OF distinct_keys_update [OF Cons.prems(1)]] show ?case by blast
qed simp

lemma ParseWorkflowYAML_Ok:
  assumes "ParseWorkflowYAML unmarshal data version = Ok (defs, ex)"
  obtains doc where "unmarshal data = Inr doc" "execsFrom 0 (yr_Handlers doc) [] = Ok ex" "filed version defs"
    "yf_Name ` set (yr_Flows doc) \<subseteq> dom (map_of defs)" "distinct (map fst defs)"
proof -
  obtain doc where d: "unmarshal data = Inr doc" "execsFrom 0 (yr_Handlers doc) [] = Ok ex"
    "flowsFrom version ex 0 (yr_Flows doc) [] = Ok defs"
    using assms by (auto simp: ParseWorkflowYAML_def rbind_def split: sum.splits res.splits)
  have "filed version []" by (simp add: filed_def)
  from flowsFrom_Ok [OF this d(3)] flowsFrom_distinct [OF _ d(3)] d that show ?thesis by simp
qed

lemma ParseWorkflowYAML_ends:
  "ParseWorkflowYAML unmarshal data version \<noteq> Deadlock" "ParseWorkflowYAML unmarshal data version \<noteq> OutOfFuel"
proof -
  have ex: "execsFrom i hs x \<noteq> Deadlock \<and> execsFrom i hs x \<noteq> OutOfFuel" for i hs x
    by (induction i hs x rule: execsFrom.induct) auto
  then show "ParseWorkflowYAML unmarshal data version \<noteq> Deadlock" "ParseWorkflowYAML unmarshal data version \<noteq> OutOfFuel"
    using flowsFrom_ends by (auto simp: ParseWorkflowYAML_def rbind_def split: sum.splits res.splits)
qed

text \<open>
  C31. What parsing returns. Whatever the document (as the YAML library hands it over), \<open>ParseWorkflowYAML\<close> ends; when it
  succeeds, every flow of the document has its definition, and every definition is filed under its name, has the
  requested version, and passes the check of \<open>RegisterWorkflow\<close> and \<open>Start\<close>.
\<close>

theorem ParseWorkflowYAML_spec:
  "(\<exists>e. ParseWorkflowYAML unmarshal data version = Fail e) \<or> (\<exists>p. ParseWorkflowYAML unmarshal data version = Panic p) \<or>
   (\<exists>doc defs ex. unmarshal data = Inr doc \<and> ParseWorkflowYAML unmarshal data version = Ok (defs, ex) \<and>
      (\<forall>f \<in> set (yr_Flows doc). map_of defs (yf_Name f) \<noteq> None) \<and>
      (\<forall>n def. map_of defs n = Some def \<longrightarrow> validateDefinition def = None \<and> wd_Name def = n \<and> wd_Version def = version))"
proof (cases "ParseWorkflowYAML unmarshal data version")
  case (Ok x)
  obtain defs ex where x: "x = (defs, ex)" by (cases x)
  obtain doc where "unmarshal data = Inr doc" "filed version defs" "yf_Name ` set (yr_Flows doc) \<subseteq> dom (map_of defs)"
    using ParseWorkflowYAML_Ok [OF Ok [unfolded x]] by blast
  then show ?thesis using Ok x unfolding filed_def by blast
qed (use ParseWorkflowYAML_ends [of unmarshal data version] in simp_all)

theorem ParseWorkflowYAML_spec_witness:
  "\<exists>doc defs ex def. ParseWorkflowYAML (\<lambda>_. Inr orderDoc) () 1 = Ok (defs, ex) \<and> map_of defs ''order'' = Some def \<and>
     validateDefinition def = None \<and> wd_Name def = ''order''"
proof -
  have ok: "case ParseWorkflowYAML (\<lambda>_. Inr orderDoc) () 1 of Ok _ \<Rightarrow> True | _ \<Rightarrow> False"
    "\<exists>f \<in> set (yr_Flows orderDoc). yf_Name f = ''order''" by code_simp+
  with ParseWorkflowYAML_spec [of "\<lambda>_. Inr orderDoc" "()" 1] show ?thesis by force
qed

section \<open>Panics and lost errors\<close>

lemma taskIntoBuilder_panics:
  assumes ok: "builderOK (H, b)" and name: "ys_Name st \<noteq> ''''"
  shows "(\<exists>p st'. taskIntoBuilder ex idx st (H, b) = (Panic p, st')) \<longleftrightarrow>
    bd_err b \<noteq> None \<and> map_of (bd_steps b) (ys_Name st) = None"
proof -
  define t where "t = withHandler (ys_Task st)"
  have t: "yt_Name t = ys_Name st" by (simp add: t_def withHandler_def)
  obtain x s1 where s: "Step (yt_Name t) (yt_Handler t) [] (H, b) = (Ok x, s1)" "builderOK s1"
    using bspecD [OF Step_safe ok] by blast
  have "isStep (ys_Name st) s1 \<longleftrightarrow> bd_err b = None \<or> map_of (bd_steps b) (ys_Name st) \<noteq> None"
  proof (cases "bd_err b")
    case None
    with s(1) show ?thesis
      by (cases "map_of (bd_steps b) (ys_Name st)")
        (auto simp: t Step_def builder_run isStep_def gpanic_def split: if_splits option.splits res.splits elim!: gseq_OkE gbind_OkE)
  next
    case (Some e)
    with s(1) show ?thesis by (auto simp: unlessErr_def bself_def Step_def isStep_def)
  qed
  moreover have "(\<exists>p st'. taskIntoBuilder ex idx st (H, b) = (Panic p, st')) \<longleftrightarrow> \<not> isStep (ys_Name st) s1"
  proof -
    define rest where "rest = (if ys_OnFailure st = '''' then gret ()
         else gseq (OnFailure (ys_OnFailure st) (ys_OnFailure st) [])
           (gbind (bself (\<lambda>b. map_of (bd_steps b) (ys_OnFailure st))) (\<lambda>p.
            case p of None \<Rightarrow> gret () | Some compensation \<Rightarrow> writeAt compensation (setExec ex (ys_OnFailure st)))))"
    have run: "taskIntoBuilder ex idx st (H, b) = gseq (updateStep (ys_Name st) (applyTaskOptions ex t)) rest s1"
      using name s(1) by (simp add: taskIntoBuilder_def t t_def [symmetric] rest_def Let_def del: gignore_Ok)
    have "bsafe (\<lambda>_. True) rest"
      unfolding rest_def by (intro bsteps OnFailure_safe) simp_all
    then have "\<exists>x st'. gseq (updateStep (ys_Name st) (applyTaskOptions ex t)) rest s1 = (Ok x, st')" if "isStep (ys_Name st) s1"
      using bspecD [OF bspec_updateStep [of "applyTaskOptions ex t"] s(2) that] bspecD [of "\<lambda>_. True" rest] by fastforce
    moreover have "gseq (updateStep (ys_Name st) (applyTaskOptions ex t)) rest s1 = (Panic ''nil pointer dereference'', s1)"
      if "\<not> isStep (ys_Name st) s1"
      using that by (cases s1) (simp add: isStep_def updateStep_def bself_def gpanic_def gseq_def gbind_def)
    ultimately show ?thesis unfolding run by (metis prod.inject res.distinct(3))
  qed
  ultimately show ?thesis by simp
qed

text \<open>
  When a task makes the parser panic. After \<open>b.Step\<close> the parser writes through \<open>b.steps[name]\<close> without looking at the
  error the builder remembers: on a builder that has recorded an error before, and only there, a task with a new
  name is not in the map, and the nil pointer is dereferenced. So a flow that begins with a condition, and goes on with
  a task, crashes the parser instead of being reported.
\<close>

theorem yaml_task_panics:
  assumes "builderOK (H, b)" "ys_Type st = ''task''" "ys_Name st \<noteq> ''''"
  shows "(\<exists>p st'. buildStepsIntoBuilder ex [st] (H, b) = (Panic p, st')) \<longleftrightarrow>
    bd_err b \<noteq> None \<and> map_of (bd_steps b) (ys_Name st) = None"
proof -
  have "(\<exists>p st'. buildStepsIntoBuilder ex [st] (H, b) = (Panic p, st')) \<longleftrightarrow>
      (\<exists>p st'. taskIntoBuilder ex 0 st (H, b) = (Panic p, st'))"
    by (simp add: buildStepsIntoBuilder_def stepIntoBuilder_def assms(2) gseq_def gbind_def split: prod.split res.split)
  with taskIntoBuilder_panics [OF assms(1,3)] show ?thesis by simp
qed

definition condFirst :: YamlStep where
  "condFirst = YamlStep ''condition'' (emptyYamlTask\<lparr>yt_Name := ''check''\<rparr>) '''' [] ''{{.ok}}'' '''' []"

definition taskNext :: YamlStep where
  "taskNext = YamlStep ''task'' (emptyYamlTask\<lparr>yt_Name := ''pay''\<rparr>) '''' [] '''' '''' []"

theorem yaml_task_panics_witness:
  "\<exists>H b. buildStepsIntoBuilder [] [condFirst] ([], NewBuilder ''f'' 1 []) = (Ok (), (H, b)) \<and>
     (\<exists>p st'. buildStepsIntoBuilder [] [taskNext] (H, b) = (Panic p, st')) \<and>
     ParseWorkflowYAML (\<lambda>_. Inr \<lparr>yr_TLS = None, yr_Handlers = [],
       yr_Flows = [\<lparr>yf_Name = ''f'', yf_Steps = [condFirst, taskNext]\<rparr>]\<rparr>) () 1 = Panic ''nil pointer dereference''"
proof -
  define st where "st = snd (buildStepsIntoBuilder [] [condFirst] ([], NewBuilder ''f'' 1 []))"
  have r: "fst (buildStepsIntoBuilder [] [condFirst] ([], NewBuilder ''f'' 1 [])) = Ok ()"
    "bd_err (snd st) \<noteq> None" "map_of (bd_steps (snd st)) (ys_Name taskNext) = None"
    "ys_Type taskNext = ''task''" "ys_Name taskNext \<noteq> ''''"
    unfolding st_def by code_simp+
  have "builderOK st"
    using stepsFrom_keeps [of "[]" 0 "[condFirst]"] NewBuilder_OK [of "''f''" 1 "[]"] TrueI r(1)
    by (cases rule: bpartE) (simp_all add: st_def buildStepsIntoBuilder_def)
  then have ok: "builderOK (fst st, snd st)" by simp
  have "\<exists>p st'. buildStepsIntoBuilder [] [taskNext] (fst st, snd st) = (Panic p, st')"
    using yaml_task_panics [OF ok r(4,5)] r(2,3) by blast
  moreover have "buildStepsIntoBuilder [] [condFirst] ([], NewBuilder ''f'' 1 []) = (Ok (), (fst st, snd st))"
    using r(1) by (simp add: st_def prod_eq_iff)
  moreover have "ParseWorkflowYAML (\<lambda>_. Inr \<lparr>yr_TLS = None, yr_Handlers = [],
       yr_Flows = [\<lparr>yf_Name = ''f'', yf_Steps = [condFirst, taskNext]\<rparr>]\<rparr>) () 1 = Panic ''nil pointer dereference''"
    by code_simp
  ultimately show ?thesis by blast
qed

lemma stepsFrom_append: "stepsFrom ex i (xs @ ys) = gseq (stepsFrom ex i xs) (stepsFrom ex (i + length xs) ys)"
proof (induction xs arbitrary: i)
  case Nil
  show ?case by (rule ext) simp
next
  case (Cons x xs)
  show ?case by (rule ext) (simp add: Cons.IH gseq_def gbind_def split: prod.split res.split)
qed

lemma gignore_fail: "gignore (gseq m (gseq (gfail e) k)) = gignore (m :: unit bgo)"
  by (rule ext) (simp add: gignore_def gtry_def gseq_def gbind_def split: prod.split res.split)

text \<open>
  Errors in an else branch are lost. The function a condition hands to the builder drops the error of
  \<open>buildStepsIntoBuilder\<close>: with a step of an unsupported kind in the else branch, the flow is built exactly as if that step
  and everything behind it were not in the document, whatever the builder's state.
\<close>

theorem else_errors_lost:
  assumes "ys_Type bad \<notin> {''task'', ''parallel'', ''condition''}" "xs \<noteq> []"
  shows "buildStepsIntoBuilder ex [YamlStep ''condition'' t f ts e c (xs @ bad # ys)] =
    buildStepsIntoBuilder ex [YamlStep ''condition'' t f ts e c xs]"
proof -
  have "\<exists>err. stepIntoBuilder ex (length xs) bad m = gfail err" for m
    using assms(1) by (simp add: stepIntoBuilder_def) (rule exI, rule refl)
  then have "gignore (stepsFrom ex 0 (xs @ bad # ys)) = gignore (stepsFrom ex 0 xs)"
    unfolding stepsFrom_append stepsFrom.simps by (metis add_0 gignore_fail)
  then show ?thesis
    using assms(2) by (simp add: buildStepsIntoBuilder_def stepIntoBuilder_def conditionIntoBuilder_def)
qed

theorem else_errors_lost_witness:
  "buildStepsIntoBuilder [] [YamlStep ''condition'' (ys_Task condFirst) '''' [] ''x'' '''' [taskNext, YamlStep ''fork'' emptyYamlTask '''' [] '''' '''' []]] =
   buildStepsIntoBuilder [] [YamlStep ''condition'' (ys_Task condFirst) '''' [] ''x'' '''' [taskNext]]"
  using else_errors_lost [of "YamlStep ''fork'' emptyYamlTask '''' [] '''' '''' []" "[taskNext]" "[]" "ys_Task condFirst" "''''" "[]" "''x''" "''''" "[]"]
  by simp

end
