(* ===== verification/Store_Reads.thy ===== *)
theory Store_Reads
  imports MemoryStore "HOL-Library.List_Lexorder" "HOL-Library.Char_ord" "HOL-Library.Product_Lexorder"
begin

text \<open>
  The listings of the memory store for the HTTP interface: definitions by name, newest version first
  (\<open>GetWorkflowDefinitions\<close>), the steps of an instance, and the statistics per definition.
\<close>

text \<open>Names compare bytewise; a higher version comes first.\<close>

definition GetWorkflowDefinitions :: "WorkflowDefinition list sgo" where
  "GetWorkflowDefinitions s =
     (Ok (sort_key (\<lambda>d. (wd_Name d, - wd_Version d))
            (List.map_filter (\<lambda>(i, a). map_of (ms_defheap s) a) (ms_definitions s))), s)"

definition GetWorkflowSteps :: "int \<Rightarrow> WorkflowStep list sgo" where
  "GetWorkflowSteps = GetStepsByInstance"

record WorkflowStats =
  wst_WorkflowName :: string
  wst_Version :: int
  wst_TotalInstances :: nat
  wst_CompletedInstances :: nat
  wst_FailedInstances :: nat
  wst_RunningInstances :: nat
  wst_AverageDuration :: int

definition countInstance :: "WorkflowStatus \<Rightarrow> WorkflowStats \<Rightarrow> WorkflowStats" where
  "countInstance status stats =
     (let stats = stats\<lparr>wst_TotalInstances := Suc (wst_TotalInstances stats)\<rparr> in
      case status of
        StatusCompleted \<Rightarrow> stats\<lparr>wst_CompletedInstances := Suc (wst_CompletedInstances stats)\<rparr>
      | StatusFailed \<Rightarrow> stats\<lparr>wst_FailedInstances := Suc (wst_FailedInstances stats)\<rparr>
      | StatusRunning \<Rightarrow> stats\<lparr>wst_RunningInstances := Suc (wst_RunningInstances stats)\<rparr>
      | _ \<Rightarrow> stats)"

definition statsKey :: "WorkflowDefinition \<Rightarrow> string" where
  "statsKey def = wd_Name def @ CHR '':'' # itoa (wd_Version def)"

definition noStats :: "WorkflowDefinition \<Rightarrow> WorkflowStats" where
  "noStats def = \<lparr>wst_WorkflowName = wd_Name def, wst_Version = wd_Version def, wst_TotalInstances = 0,
     wst_CompletedInstances = 0, wst_FailedInstances = 0, wst_RunningInstances = 0, wst_AverageDuration = 0\<rparr>"

definition statsAdd :: "MemoryStore \<Rightarrow> (string \<times> WorkflowStats) list \<Rightarrow> WorkflowInstance \<Rightarrow> (string \<times> WorkflowStats) list" where
  "statsAdd s statsMap instance =
     (case defAt s (wi_WorkflowID instance) of None \<Rightarrow> statsMap
      | Some def \<Rightarrow>
          let stats = (case map_of statsMap (statsKey def) of None \<Rightarrow> noStats def | Some st \<Rightarrow> st)
          in AList.update (statsKey def) (countInstance (wi_Status instance) stats) statsMap)"

definition GetWorkflowStats :: "WorkflowStats list sgo" where
  "GetWorkflowStats s = (Ok (map snd (foldl (statsAdd s) [] (map snd (ms_instances s)))), s)"

end
