(* ===== verification/Api.thy ===== *)
theory Api
  imports Engine Store_Reads
begin

text \<open>
  The HTTP interface: the core routes (\<open>api/routes_core.go\<close>, \<open>api/errors.go\<close>) and the plugins for cancelling, aborting,
  human decisions, dead letters and clean-up (\<open>plugins/api\<close>). A request carries what the handlers read of it, a response
  is a status code and what is handed to the JSON encoder. Handlers over the store are operations on the
  store, handlers over the engine operations on the engine; a panic stays a panic.

  Parsing of numbers (\<open>strconv\<close>) and decoding of bodies (\<open>encoding/json\<close>) are written out. Parameters are
  the client's \<open>extractUserFn\<close> and the formatting of times.
\<close>

section \<open>Requests and responses\<close>

record request =
  rq_id :: string        \<comment> \<open>\<open>PathValue\<close>\<close>
  rq_page :: string      \<comment> \<open>\<open>URL.Query ().Get ("page")\<close>\<close>
  rq_pageSize :: string
  rq_body :: raw         \<comment> \<open>the first JSON value of the body\<close>

record PaginatedInstancesResponse =
  pr_Items :: "WorkflowInstance list"
  pr_Page :: int
  pr_PageSize :: int
  pr_Total :: int

record DeadLetterResponse =
  dr_ID :: int
  dr_InstanceID :: int
  dr_WorkflowID :: string
  dr_StepID :: int
  dr_StepName :: string
  dr_StepType :: string
  dr_Input :: raw
  dr_Error :: "string option"
  dr_Reason :: string
  dr_CreatedAt :: string

record ListResponse =
  lr_Items :: "DeadLetterResponse list"
  lr_Page :: int
  lr_PageSize :: int
  lr_Total :: int

datatype payload =
    NoContent | EmptyObject | ErrorResponse string
  | Definitions "WorkflowDefinition list" | Definition WorkflowDefinition
  | Instances PaginatedInstancesResponse | Instance WorkflowInstance
  | Steps "WorkflowStep list" | Events "WorkflowEvent list" | Stats "WorkflowStats list" | Summary SummaryStats
  | ActiveInstances "ActiveWorkflowInstance list" | DeadLetters ListResponse | DeadLetter DeadLetterResponse

type_synonym response = "int \<times> payload"

definition WriteErrorResponse :: "error \<Rightarrow> int \<Rightarrow> ('s, response) go" where
  "WriteErrorResponse err statusCode = gret (statusCode, ErrorResponse (errStr err))"

definition respond :: "payload \<Rightarrow> ('s, response) go" where
  "respond p = gret (200, p)"

section \<open>Numbers\<close>

datatype numError = ErrSyntax | ErrRange

fun digitsFrom :: "int \<Rightarrow> string \<Rightarrow> numError + int" where
  "digitsFrom n [] = Inr n"
| "digitsFrom n (c # cs) =
     (let d = int (of_char c) - 48 in
      if d < 0 \<or> 9 < d then Inl ErrSyntax
      else if n \<ge> 1844674407370955162 then Inl ErrRange
      else if n * 10 + d \<ge> 2 ^ 64 then Inl ErrRange
      else digitsFrom (n * 10 + d) cs)"

text \<open>\<open>strconv.ParseInt (s, 10, 64)\<close>\<close>

definition numErrorErr :: "string \<Rightarrow> numError \<Rightarrow> error" where
  "numErrorErr s e = Err (''strconv.ParseInt: parsing '' @ goQuote s @ '': '' @
     (case e of ErrSyntax \<Rightarrow> ''invalid syntax'' | ErrRange \<Rightarrow> ''value out of range''))"

definition ParseInt :: "string \<Rightarrow> error + int" where
  "ParseInt s =
     (let neg = (s \<noteq> [] \<and> hd s = CHR ''-''); rest = (if s \<noteq> [] \<and> (hd s = CHR ''-'' \<or> hd s = CHR ''+'') then tl s else s) in
      if rest = [] then Inl (numErrorErr s ErrSyntax)
      else case digitsFrom 0 rest of
        Inl e \<Rightarrow> Inl (numErrorErr s e)
      | Inr un \<Rightarrow> if \<not> neg \<and> un \<ge> 2 ^ 63 \<or> neg \<and> un > 2 ^ 63 then Inl (numErrorErr s ErrRange)
                  else Inr (if neg then - un else un))"

text \<open>The page and its size, with the defaults 1 and 20; \<open>strconv.Atoi\<close> accepts what \<open>ParseInt\<close> accepts.\<close>

definition pageOf :: "request \<Rightarrow> int" where
  "pageOf r = (case ParseInt (rq_page r) of Inl _ \<Rightarrow> 1 | Inr n \<Rightarrow> if n > 0 then n else 1)"

definition pageSizeOf :: "request \<Rightarrow> int" where
  "pageSizeOf r = (case ParseInt (rq_pageSize r) of Inl _ \<Rightarrow> 20 | Inr n \<Rightarrow> if n > 0 \<and> n \<le> 1000 then n else 20)"

definition offsetOf :: "request \<Rightarrow> int" where
  "offsetOf r = wrap64 ((pageOf r - 1) * pageSizeOf r)"

section \<open>Core routes\<close>

text \<open>A failing call: \<open>404\<close> with a message of its own if the entity does not exist, otherwise \<open>500\<close>.\<close>

definition fetch :: "'a sgo \<Rightarrow> error \<Rightarrow> string \<Rightarrow> ('a \<Rightarrow> response sgo) \<Rightarrow> response sgo" where
  "fetch call notFound msg k =
     gbind (gtry call) (\<lambda>r. case r of
       Inl err \<Rightarrow> if errIsNotFound err then WriteErrorResponse notFound 404 else WriteErrorResponse (Wrap msg err) 500
     | Inr x \<Rightarrow> k x)"

definition listing :: "'a sgo \<Rightarrow> string \<Rightarrow> ('a \<Rightarrow> payload) \<Rightarrow> response sgo" where
  "listing call msg f =
     gbind (gtry call) (\<lambda>r. case r of Inl err \<Rightarrow> WriteErrorResponse (Wrap msg err) 500 | Inr x \<Rightarrow> respond (f x))"

definition withInstanceID :: "request \<Rightarrow> (int \<Rightarrow> response sgo) \<Rightarrow> response sgo" where
  "withInstanceID r k =
     (case ParseInt (rq_id r) of Inl _ \<Rightarrow> WriteErrorResponse (Err ''invalid instance ID'') 400 | Inr i \<Rightarrow> k i)"

definition HandleGetWorkflowDefinitions :: "request \<Rightarrow> response sgo" where
  "HandleGetWorkflowDefinitions r = listing GetWorkflowDefinitions ''failed to fetch workflow definitions: '' Definitions"

definition HandleGetWorkflowDefinition :: "request \<Rightarrow> response sgo" where
  "HandleGetWorkflowDefinition r =
     fetch (GetWorkflowDefinition (rq_id r)) (Err ''workflow definition not found'') ''failed to fetch workflow definition: ''
       (\<lambda>def. respond (Definition def))"

definition pageResponse :: "request \<Rightarrow> WorkflowInstance list \<times> int \<Rightarrow> payload" where
  "pageResponse r = (\<lambda>(instances, total). Instances \<lparr>pr_Items = instances, pr_Page = pageOf r, pr_PageSize = pageSizeOf r,
     pr_Total = total\<rparr>)"

definition HandleGetWorkflowInstances :: "request \<Rightarrow> response sgo" where
  "HandleGetWorkflowInstances r =
     fetch (GetWorkflowDefinition (rq_id r)) (Err ''workflow not found'') ''failed to fetch workflow: '' (\<lambda>_.
     listing (GetWorkflowInstancesPaginated (rq_id r) (offsetOf r) (pageSizeOf r)) ''failed to fetch workflow instances: ''
       (pageResponse r))"

definition HandleGetAllInstances :: "request \<Rightarrow> response sgo" where
  "HandleGetAllInstances r =
     listing (GetAllWorkflowInstancesPaginated (offsetOf r) (pageSizeOf r)) ''failed to fetch instances: '' (pageResponse r)"

definition theInstance :: "int \<Rightarrow> (WorkflowInstance \<Rightarrow> response sgo) \<Rightarrow> response sgo" where
  "theInstance i = fetch (GetInstance i) (Err ''workflow instance not found'') ''failed to fetch workflow instance: ''"

definition HandleGetWorkflowInstance :: "request \<Rightarrow> response sgo" where
  "HandleGetWorkflowInstance r = withInstanceID r (\<lambda>i. theInstance i (\<lambda>inst. respond (Instance inst)))"

definition HandleGetWorkflowSteps :: "request \<Rightarrow> response sgo" where
  "HandleGetWorkflowSteps r =
     withInstanceID r (\<lambda>i. theInstance i (\<lambda>_. listing (GetWorkflowSteps i) ''failed to fetch workflow steps: '' Steps))"

definition HandleGetWorkflowEvents :: "request \<Rightarrow> response sgo" where
  "HandleGetWorkflowEvents r =
     withInstanceID r (\<lambda>i. theInstance i (\<lambda>_. listing (GetWorkflowEvents i) ''failed to fetch workflow events: '' Events))"

definition HandleGetStats :: "request \<Rightarrow> response sgo" where
  "HandleGetStats r = listing GetWorkflowStats ''failed to fetch workflow stats: '' Stats"

definition HandleGetSummaryStats :: "request \<Rightarrow> response sgo" where
  "HandleGetSummaryStats r = listing GetSummaryStats ''failed to fetch summary stats: '' Summary"

definition HandleGetActiveInstances :: "request \<Rightarrow> response sgo" where
  "HandleGetActiveInstances r = listing GetActiveInstances ''failed to fetch active instances: '' ActiveInstances"

text \<open>
  Paths as lists of segments. \<open>http.ServeMux\<close> prefers the pattern without a wildcard, so the literal
  \<open>active\<close> comes first; a path that matches no pattern is answered by the multiplexer.
\<close>

datatype seg = Lit string | Wild

fun matches :: "seg list \<Rightarrow> string list \<Rightarrow> string option" where
  "matches [] [] = Some ''''"
| "matches (Lit l # ps) (s # ss) = (if l = s then matches ps ss else None)"
| "matches (Wild # ps) (s # ss) = (if s \<noteq> '''' then map_option (\<lambda>_. s) (matches ps ss) else None)"
| "matches _ _ = None"

definition coreRoutes :: "(seg list \<times> (request \<Rightarrow> response sgo)) list" where
  "coreRoutes =
    [([Lit ''api'', Lit ''workflows''], HandleGetWorkflowDefinitions),
     ([Lit ''api'', Lit ''workflows'', Wild], HandleGetWorkflowDefinition),
     ([Lit ''api'', Lit ''workflows'', Wild, Lit ''instances''], HandleGetWorkflowInstances),
     ([Lit ''api'', Lit ''instances''], HandleGetAllInstances),
     ([Lit ''api'', Lit ''instances'', Lit ''active''], HandleGetActiveInstances),
     ([Lit ''api'', Lit ''instances'', Wild], HandleGetWorkflowInstance),
     ([Lit ''api'', Lit ''instances'', Wild, Lit ''steps''], HandleGetWorkflowSteps),
     ([Lit ''api'', Lit ''instances'', Wild, Lit ''events''], HandleGetWorkflowEvents),
     ([Lit ''api'', Lit ''stats''], HandleGetStats),
     ([Lit ''api'', Lit ''stats'', Lit ''summary''], HandleGetSummaryStats)]"

fun dispatch :: "(seg list \<times> (request \<Rightarrow> ('s, response) go)) list \<Rightarrow> string list \<Rightarrow> request \<Rightarrow> ('s, response) go" where
  "dispatch [] path r = gret (404, ErrorResponse ''404 page not found'')"
| "dispatch ((pat, h) # rs) path r =
     (case matches pat path of None \<Rightarrow> dispatch rs path r | Some i \<Rightarrow> h (r\<lparr>rq_id := i\<rparr>))"

definition serveCore :: "string list \<Rightarrow> request \<Rightarrow> response sgo" where
  "serveCore = dispatch coreRoutes"

section \<open>Request bodies\<close>

text \<open>
  \<open>json.NewDecoder (r.Body).Decode (&v)\<close> into a struct with one field: an empty body is \<open>io.EOF\<close>, \<open>null\<close> leaves the
  struct alone, names of members match case-insensitively, the last member counts.
\<close>

definition errEOF :: error where
  "errEOF = Err ''EOF''"

definition lowerChar :: "char \<Rightarrow> char" where
  "lowerChar c = (let n = of_char c :: nat in if 65 \<le> n \<and> n \<le> 90 then char_of (n + 32) else c)"

fun jkind :: "jval \<Rightarrow> string" where
  "jkind JNull = ''null''"
| "jkind (JBool _) = ''bool''"
| "jkind (JNum _) = ''number''"
| "jkind (JStr _) = ''string''"
| "jkind (JTime _) = ''string''"
| "jkind (JList _) = ''array''"
| "jkind (JObj _) = ''object''"

definition fieldsNamed :: "string \<Rightarrow> (string \<times> jval) list \<Rightarrow> jval list" where
  "fieldsNamed field kvs = map snd (filter (\<lambda>(k, v). map lowerChar k = field) kvs)"

fun bodyMembers :: "string \<Rightarrow> raw \<Rightarrow> error + (string \<times> jval) list" where
  "bodyMembers ty RawNil = Inl errEOF"
| "bodyMembers ty (RawBad msg) = Inl (Err msg)"
| "bodyMembers ty (RawJson (JObj kvs)) = Inr kvs"
| "bodyMembers ty (RawJson JNull) = Inr []"
| "bodyMembers ty (RawJson v) = Inl (Err (''json: cannot unmarshal '' @ jkind v @ '' into Go value of type '' @ ty))"

definition decodeString :: "string \<Rightarrow> string \<Rightarrow> raw \<Rightarrow> error + string" where
  "decodeString ty field body =
     (case bodyMembers ty body of Inl e \<Rightarrow> Inl e
      | Inr kvs \<Rightarrow>
          let vs = fieldsNamed field kvs in
          case find (\<lambda>v. jkind v \<notin> {''string'', ''null''}) vs of
            Some v \<Rightarrow> Inl (Err (''json: cannot unmarshal '' @ jkind v @ '' into Go struct field '' @ ty @ ''.'' @ field @ '' of type string''))
          | None \<Rightarrow> Inr (foldl (\<lambda>old v. case v of JStr s \<Rightarrow> s | _ \<Rightarrow> old) '''' vs))"

text \<open>\<open>RequeueRequest\<close>: a pointer to a \<open>json.RawMessage\<close>, nil for \<open>null\<close>.\<close>

definition decodeNewInput :: "raw \<Rightarrow> error + raw option" where
  "decodeNewInput body =
     (case bodyMembers ''dlq.RequeueRequest'' body of Inl e \<Rightarrow> Inl e
      | Inr kvs \<Rightarrow> Inr (foldl (\<lambda>_ v. if v = JNull then None else Some (RawJson v)) None (fieldsNamed ''new_input'' kvs)))"

section \<open>Plugins over the engine\<close>

type_synonym extractUser = "request \<Rightarrow> error + string"

definition withID :: "request \<Rightarrow> (int \<Rightarrow> ('s, response) go) \<Rightarrow> ('s, response) go" where
  "withID r k = (case ParseInt (rq_id r) of Inl err \<Rightarrow> WriteErrorResponse err 400 | Inr i \<Rightarrow> k i)"

definition failure :: "error \<Rightarrow> ('s, response) go" where
  "failure err = WriteErrorResponse err (if errIsNotFound err then 404 else 500)"

definition withUser :: "extractUser \<Rightarrow> request \<Rightarrow> (string \<Rightarrow> ('s, response) go) \<Rightarrow> ('s, response) go" where
  "withUser extractUserFn r k = (case extractUserFn r of Inl err \<Rightarrow> failure err | Inr user \<Rightarrow> k user)"

text \<open>\<open>strings.Contains (s, sub)\<close>\<close>

fun contains :: "string \<Rightarrow> string \<Rightarrow> bool" where
  "contains s sub = (take (length sub) s = sub \<or> (case s of [] \<Rightarrow> False | c # cs \<Rightarrow> contains cs sub))"

declare contains.simps [simp del]

definition stopHandler :: "string \<Rightarrow> (int \<Rightarrow> string \<Rightarrow> string \<Rightarrow> unit ego) \<Rightarrow> extractUser \<Rightarrow> request \<Rightarrow> response ego" where
  "stopHandler ty stop extractUserFn r =
     withID r (\<lambda>instanceID. withUser extractUserFn r (\<lambda>user.
       case decodeString ty ''reason'' (rq_body r) of
         Inl err \<Rightarrow> WriteErrorResponse err 400
       | Inr reason \<Rightarrow>
           if reason = '''' then WriteErrorResponse (Err ''reason is required'') 400
           else gbind (gtry (stop instanceID user reason)) (\<lambda>res. case res of
             Inl err \<Rightarrow>
               if errIsNotFound err then WriteErrorResponse err 404
               else if contains (errStr err) ''already in terminal state'' then WriteErrorResponse err 409
               else WriteErrorResponse err 500
           | Inr _ \<Rightarrow> gret (204, NoContent))))"

definition HandleCancelWorkflow :: "env \<Rightarrow> extractUser \<Rightarrow> request \<Rightarrow> response ego" where
  "HandleCancelWorkflow E = stopHandler ''cancel.CancelRequest'' (CancelWorkflow E)"

definition HandleAbortWorkflow :: "env \<Rightarrow> extractUser \<Rightarrow> request \<Rightarrow> response ego" where
  "HandleAbortWorkflow E = stopHandler ''abort.AbortRequest'' (AbortWorkflow E)"

definition HandleHumanDecision :: "env \<Rightarrow> extractUser \<Rightarrow> HumanDecision \<Rightarrow> request \<Rightarrow> response ego" where
  "HandleHumanDecision E extractUserFn decision r =
     withID r (\<lambda>instanceID. withUser extractUserFn r (\<lambda>user.
       gbind (gtry (onStore (GetHumanDecisionStepByInstanceID instanceID))) (\<lambda>s. case s of
         Inl err \<Rightarrow> failure err
       | Inr step \<Rightarrow>
           if ws_Status step \<noteq> StepStatusWaitingDecision
           then WriteErrorResponse (Err ''step is not waiting for human decision'') 409
           else
             let comment = (case decodeString ''human_decision.DecisionRequest'' ''message'' (rq_body r) of
                   Inl _ \<Rightarrow> None | Inr message \<Rightarrow> if message \<noteq> '''' then Some message else None)
             in gbind (gtry (MakeHumanDecision E (ws_ID step) user decision comment)) (\<lambda>res. case res of
                  Inl err \<Rightarrow> failure err | Inr _ \<Rightarrow> gret (204, NoContent)))))"

definition HandleCleanupWorkflows :: "env \<Rightarrow> request \<Rightarrow> response sgo" where
  "HandleCleanupWorkflows E r =
     gbind (gtry (CleanupOldWorkflows E)) (\<lambda>res. case res of
       Inl err \<Rightarrow> WriteErrorResponse err 500 | Inr _ \<Rightarrow> respond EmptyObject)"

section \<open>Dead letters\<close>

definition deadLetterResponse :: "(int \<Rightarrow> string) \<Rightarrow> DeadLetterRecord \<Rightarrow> DeadLetterResponse" where
  "deadLetterResponse formatTime it =
     \<lparr>dr_ID = dl_ID it, dr_InstanceID = dl_InstanceID it, dr_WorkflowID = dl_WorkflowID it, dr_StepID = dl_StepID it,
      dr_StepName = dl_StepName it, dr_StepType = dl_StepType it, dr_Input = dl_Input it, dr_Error = dl_Error it,
      dr_Reason = dl_Reason it, dr_CreatedAt = formatTime (dl_CreatedAt it)\<rparr>"

definition HandleList :: "(int \<Rightarrow> string) \<Rightarrow> request \<Rightarrow> response sgo" where
  "HandleList formatTime r =
     gbind (gtry (ListDeadLetters (offsetOf r) (pageSizeOf r))) (\<lambda>res. case res of
       Inl err \<Rightarrow> WriteErrorResponse err 500
     | Inr (items, n) \<Rightarrow> respond (DeadLetters \<lparr>lr_Items = map (deadLetterResponse formatTime) items,
         lr_Page = pageOf r, lr_PageSize = pageSizeOf r, lr_Total = n\<rparr>))"

definition HandleGet :: "(int \<Rightarrow> string) \<Rightarrow> request \<Rightarrow> response sgo" where
  "HandleGet formatTime r = withID r (\<lambda>i.
     gbind (gtry (GetDeadLetterByID i)) (\<lambda>res. case res of
       Inl err \<Rightarrow> failure err | Inr it \<Rightarrow> respond (DeadLetter (deadLetterResponse formatTime it))))"

definition HandleRequeue :: "request \<Rightarrow> response ego" where
  "HandleRequeue r = withID r (\<lambda>i.
     case (case decodeNewInput (rq_body r) of Inl err \<Rightarrow> if err = errEOF then Inr None else Inl err | Inr x \<Rightarrow> Inr x) of
       Inl err \<Rightarrow> WriteErrorResponse err 400
     | Inr newInput \<Rightarrow> gbind (gtry (RequeueFromDLQ i newInput)) (\<lambda>res. case res of
         Inl err \<Rightarrow> failure err | Inr _ \<Rightarrow> gret (204, NoContent)))"

end
