(* ===== verification/Request_Props.thy ===== *)
theory Request_Props
  imports Outcome_Props
begin

text \<open>
  What the requests from outside do to a running instance: human decisions (\<open>MakeHumanDecision\<close>),
  requests to cancel or abort (\<open>CancelWorkflow\<close>, \<open>AbortWorkflow\<close>) and their handling
  (\<open>handleCancellation\<close>), all of \<open>engine.go\<close>.
\<close>

section \<open>Human decisions\<close>

lemma CreateHumanDecision_run:
  "onStore (CreateHumanDecision E d) w = (Ok (), w\<lparr>en_store := (en_store w)\<lparr>
     ms_humanDecisions := AList.update (hd_StepID d)
       (d\<lparr>hd_ID := ms_nextHumanDecisionID (en_store w), hd_CreatedAt := clk E (ms_cursor (en_store w))\<rparr>)
       (ms_humanDecisions (en_store w)),
     ms_nextHumanDecisionID := ms_nextHumanDecisionID (en_store w) + 1, ms_cursor := Suc (ms_cursor (en_store w))\<rparr>\<rparr>)"
  by (simp add: onStore_def gzoom_def CreateHumanDecision_def)

lemma UpdateStepStatus_run:
  "map_of (ms_steps (en_store w)) k = Some st \<Longrightarrow>
   onStore (UpdateStepStatus k status) w =
     (Ok (), w\<lparr>en_store := (en_store w)\<lparr>ms_steps := AList.update k (st\<lparr>ws_Status := status\<rparr>) (ms_steps (en_store w))\<rparr>\<rparr>)"
  by (simp add: onStore_def gzoom_def UpdateStepStatus_def)

lemma GetStepByID_run:
  "onStore (GetStepByID k) w = (case map_of (ms_steps (en_store w)) k of None \<Rightarrow> (Fail EntityNotFound, w) | Some st \<Rightarrow> (Ok st, w))"
  by (simp add: onStore_def gzoom_def GetStepByID_def split: option.split)

definition awaitsDecision :: "MemoryStore \<Rightarrow> int \<Rightarrow> bool" where
  "awaitsDecision s k \<longleftrightarrow> (case map_of (ms_steps s) k of None \<Rightarrow> False
     | Some st \<Rightarrow> ws_StepType st = StepTypeHuman \<and> ws_Status st = StepStatusWaitingDecision)"

text \<open>
  C24. Who may decide, and what a rejection does. A decision on a step that does not exist, is no human step or
  is not waiting for a decision is refused and changes nothing. A rejection of a waiting step marks the step rejected,
  stores the decision under the step, aborts the instance, and queues nothing.
\<close>

theorem MakeHumanDecision_spec:
  assumes st: "map_of (ms_steps (en_store w)) k = Some st" and i: "map_of (ms_instances (en_store w)) (ws_InstanceID st) = Some i"
  shows "(\<not> awaitsDecision (en_store w) j \<longrightarrow> (\<exists>e. MakeHumanDecision E j who d comment w = (Fail e, w))) \<and>
    (awaitsDecision (en_store w) k \<longrightarrow>
      (\<exists>w' i' r. MakeHumanDecision E k who HumanDecisionRejected comment w = (Ok (), w') \<and>
        map_of (ms_steps (en_store w')) = (map_of (ms_steps (en_store w)))(k \<mapsto> st\<lparr>ws_Status := StepStatusRejected\<rparr>) \<and>
        map_of (ms_instances (en_store w')) = (map_of (ms_instances (en_store w)))(ws_InstanceID st \<mapsto> i') \<and>
        wi_Status i' = StatusAborted \<and>
        map_of (ms_humanDecisions (en_store w')) k = Some r \<and> hd_Decision r = HumanDecisionRejected \<and> hd_DecidedBy r = who \<and>
        ms_queue (en_store w') = ms_queue (en_store w)))"
proof (intro conjI impI)
  assume "\<not> awaitsDecision (en_store w) j"
  then show "\<exists>e. MakeHumanDecision E j who d comment w = (Fail e, w)"
    by (auto simp: MakeHumanDecision_def GetStepByID_run awaitsDecision_def split: option.splits)
next
  assume a: "awaitsDecision (en_store w) k"
  define w1 where "w1 = w\<lparr>en_store := logged E (ws_InstanceID st) (Some k) ''step_completed''
      [(''step_name'', JStr (ws_StepName st)), (''decision'', JStr (humanDecisionStr HumanDecisionRejected)),
       (''decided_by'', JStr who)]
      ((en_store w)\<lparr>ms_humanDecisions := AList.update k
          \<lparr>hd_ID = ms_nextHumanDecisionID (en_store w), hd_InstanceID = ws_InstanceID st, hd_StepID = k, hd_DecidedBy = who,
           hd_Decision = HumanDecisionRejected, hd_Comment = comment, hd_DecidedAt = clk E (ms_cursor (en_store w)),
           hd_CreatedAt = clk E (Suc (ms_cursor (en_store w)))\<rparr> (ms_humanDecisions (en_store w)),
         ms_nextHumanDecisionID := ms_nextHumanDecisionID (en_store w) + 1,
         ms_cursor := Suc (Suc (ms_cursor (en_store w))),
         ms_steps := AList.update k (st\<lparr>ws_Status := StepStatusRejected\<rparr>) (ms_steps (en_store w))\<rparr>)\<rparr>"
  have "map_of (ms_instances (en_store w1)) (ws_InstanceID st) = Some i" using i by (simp add: w1_def)
  from UpdateInstanceStatus_run [OF this, of E StatusAborted RawNil None] obtain s' i' where
    u: "onStore (UpdateInstanceStatus E (ws_InstanceID st) StatusAborted RawNil None) w1 = (Ok (), w1\<lparr>en_store := s'\<rparr>)"
      "map_of (ms_instances s') = (map_of (ms_instances (en_store w1)))(ws_InstanceID st \<mapsto> i')" "wi_Status i' = StatusAborted"
      "ms_steps s' = ms_steps (en_store w1)" "ms_queue s' = ms_queue (en_store w1)"
      "ms_humanDecisions s' = ms_humanDecisions (en_store w1)" by blast
  have run: "MakeHumanDecision E k who HumanDecisionRejected comment w = (Ok (), w1\<lparr>en_store := s'\<rparr>)"
    using a st u(1) unfolding w1_def
    by (simp add: MakeHumanDecision_def GetStepByID_run awaitsDecision_def readClock_def CreateHumanDecision_run
        UpdateStepStatus_run onStore_run)
  show "\<exists>w' i' r. MakeHumanDecision E k who HumanDecisionRejected comment w = (Ok (), w') \<and>
        map_of (ms_steps (en_store w')) = (map_of (ms_steps (en_store w)))(k \<mapsto> st\<lparr>ws_Status := StepStatusRejected\<rparr>) \<and>
        map_of (ms_instances (en_store w')) = (map_of (ms_instances (en_store w)))(ws_InstanceID st \<mapsto> i') \<and>
        wi_Status i' = StatusAborted \<and>
        map_of (ms_humanDecisions (en_store w')) k = Some r \<and> hd_Decision r = HumanDecisionRejected \<and> hd_DecidedBy r = who \<and>
        ms_queue (en_store w') = ms_queue (en_store w)"
    by (rule exI [of _ "w1\<lparr>en_store := s'\<rparr>"], rule exI [of _ i']) (use run u in \<open>simp add: w1_def\<close>)
qed

text \<open>A workflow that asks a human and then runs a task, up to the question.\<close>

definition humanDef :: WorkflowDefinition where
  "humanDef = \<lparr>wd_ID = ''q-v1'', wd_Name = ''q'', wd_Version = 1, wd_Definition = \<lparr>gd_Steps =
     [(''ask'', emptyStepDefinition\<lparr>sd_Name := ''ask'', sd_Type := StepTypeHuman, sd_Next := [''go''], sd_Prev := rootStepName\<rparr>),
      (''go'', emptyStepDefinition\<lparr>sd_Name := ''go'', sd_Type := StepTypeTask, sd_Handler := ''h'', sd_Prev := ''ask''\<rparr>)],
     gd_Start = ''ask'', gd_DLQEnabled = False\<rparr>, wd_CreatedAt = 0\<rparr>"

definition asked0 :: Engine where
  "asked0 = snd (ExecuteNext env0 ''w'' (snd (Start env0 ''q-v1'' RawNil
     (snd (RegisterWorkflow env0 humanDef (NewEngine NewMemoryStore))))))"

lemma asked0_waits: "awaitsDecision (en_store asked0) 1" "\<not> awaitsDecision (en_store asked0) 2"
  "case map_of (ms_steps (en_store asked0)) 1 of None \<Rightarrow> False | Some st \<Rightarrow> ws_InstanceID st = 1"
  "case map_of (ms_instances (en_store asked0)) 1 of None \<Rightarrow> False | Some i \<Rightarrow> True"
  by code_simp+

theorem MakeHumanDecision_spec_witness:
  "(\<exists>e. MakeHumanDecision env0 2 ''bob'' HumanDecisionConfirmed None asked0 = (Fail e, asked0)) \<and>
   (\<exists>w' i'. MakeHumanDecision env0 1 ''bob'' HumanDecisionRejected None asked0 = (Ok (), w') \<and>
      map_of (ms_instances (en_store w')) 1 = Some i' \<and> wi_Status i' = StatusAborted)"
proof -
  obtain st i where s: "map_of (ms_steps (en_store asked0)) 1 = Some st" "ws_InstanceID st = 1"
    "map_of (ms_instances (en_store asked0)) (ws_InstanceID st) = Some i"
    using asked0_waits(3,4) by (auto split: option.splits)
  from MakeHumanDecision_spec [OF s(1,3), of 2 env0 "''bob''" HumanDecisionConfirmed None] asked0_waits(1,2) s(2)
  show ?thesis by auto
qed


section \<open>Requests to stop\<close>

text \<open>
  C26. Requests to stop. A request for an unknown instance or for one in a terminal state is refused and changes nothing.
  Otherwise the first request counts: it is stored with its kind, and a later one, of either kind, leaves it in place;
  instances, steps and the queue stay as they are until a worker handles the request.
\<close>

theorem requestStop_spec:
  "case map_of (ms_instances (en_store w)) i of
     None \<Rightarrow> \<exists>e. requestStop E kind ev i who why w = (Fail e, w)
   | Some inst \<Rightarrow>
       if wi_Status inst \<in> {StatusCompleted, StatusFailed, StatusCancelled, StatusAborted}
       then \<exists>e. requestStop E kind ev i who why w = (Fail e, w)
       else \<exists>w' req. requestStop E kind ev i who why w = (Ok (), w') \<and>
         map_of (ms_cancelRequests (en_store w')) = (map_of (ms_cancelRequests (en_store w)))(i \<mapsto> req) \<and>
         (case map_of (ms_cancelRequests (en_store w)) i of
            Some old \<Rightarrow> req = old
          | None \<Rightarrow> cr_CancelType req = kind \<and> cr_RequestedBy req = who \<and> cr_Reason req = Some why) \<and>
         ms_instances (en_store w') = ms_instances (en_store w) \<and> ms_steps (en_store w') = ms_steps (en_store w) \<and>
         ms_queue (en_store w') = ms_queue (en_store w)"
proof (cases "map_of (ms_instances (en_store w)) i")
  case None
  then show ?thesis by (simp add: requestStop_def GetInstance_missing)
next
  case (Some inst)
  show ?thesis
  proof (cases "terminalForCancel (wi_Status inst)")
    case True
    with Some show ?thesis by (simp add: requestStop_def GetInstance_run terminalForCancel_def)
  next
    case False
    show ?thesis
    proof (cases "map_of (ms_cancelRequests (en_store w)) i")
      case None
      then show ?thesis using Some False
        by (simp add: requestStop_def GetInstance_run terminalForCancel_def CreateCancelRequest_def onStore_run)
          (intro exI conjI, rule refl, simp_all)
    next
      case old: (Some old)
      then show ?thesis using Some False
        by (simp add: requestStop_def GetInstance_run terminalForCancel_def CreateCancelRequest_def onStore_run fun_upd_idem)
    qed
  qed
qed

section \<open>Stopping the active steps\<close>

abbreviation activeStatuses :: "StepStatus set" where
  "activeStatuses \<equiv> {StepStatusPending, StepStatusRunning, StepStatusWaitingDecision}"

definition skipStep :: "env \<Rightarrow> int \<Rightarrow> WorkflowStep \<Rightarrow> unit ego" where
  "skipStep E instanceID step =
     cmd (''update step '' @ itoa (ws_ID step) @ '' status to skipped: '')
       (UpdateStep E (ws_ID step) StepStatusSkipped RawNil (Some ''Stopped due to workflow cancellation/abort''))
     (logEvent E instanceID (Some (ws_ID step)) ''step_failed''
        [(''step_name'', JStr (ws_StepName step)), (''reason'', JStr ''workflow_stopped'')])"

lemma skipStep_loop:
  assumes "\<forall>st \<in> set xs. map_of (ms_steps (en_store w)) (ws_ID st) \<noteq> None"
  shows "\<exists>w'. gforeach (skipStep E i) xs w = (Ok (), w') \<and>
    (\<forall>k. if k \<in> ws_ID ` set xs then \<exists>st'. map_of (ms_steps (en_store w')) k = Some st' \<and> ws_Status st' = StepStatusSkipped
         else map_of (ms_steps (en_store w')) k = map_of (ms_steps (en_store w)) k) \<and>
    ms_instances (en_store w') = ms_instances (en_store w) \<and> ms_queue (en_store w') = ms_queue (en_store w) \<and>
    ms_cancelRequests (en_store w') = ms_cancelRequests (en_store w)"
  using assms
proof (induction xs arbitrary: w)
  case (Cons x xs)
  then obtain st where st: "map_of (ms_steps (en_store w)) (ws_ID x) = Some st" by auto
  define w1 where "w1 = snd (skipStep E i x w)"
  have r: "skipStep E i x w = (Ok (), w1)" "map_of (ms_steps (en_store w1)) = (map_of (ms_steps (en_store w)))(ws_ID x \<mapsto>
      stepAfter (clk E (ms_cursor (en_store w))) StepStatusSkipped RawNil (Some ''Stopped due to workflow cancellation/abort'') st)"
    "ms_instances (en_store w1) = ms_instances (en_store w)" "ms_queue (en_store w1) = ms_queue (en_store w)"
    "ms_cancelRequests (en_store w1) = ms_cancelRequests (en_store w)"
    using st by (simp_all add: w1_def skipStep_def UpdateStep_run)
  have "\<forall>st \<in> set xs. map_of (ms_steps (en_store w1)) (ws_ID st) \<noteq> None" using Cons.prems r(2) by auto
  from Cons.IH [OF this] obtain w' where w': "gforeach (skipStep E i) xs w1 = (Ok (), w')"
    "\<forall>k. if k \<in> ws_ID ` set xs then \<exists>st'. map_of (ms_steps (en_store w')) k = Some st' \<and> ws_Status st' = StepStatusSkipped
         else map_of (ms_steps (en_store w')) k = map_of (ms_steps (en_store w1)) k"
    "ms_instances (en_store w') = ms_instances (en_store w1)" "ms_queue (en_store w') = ms_queue (en_store w1)"
    "ms_cancelRequests (en_store w') = ms_cancelRequests (en_store w1)" by blast
  have "if k \<in> ws_ID ` set (x # xs) then \<exists>st'. map_of (ms_steps (en_store w')) k = Some st' \<and> ws_Status st' = StepStatusSkipped
      else map_of (ms_steps (en_store w')) k = map_of (ms_steps (en_store w)) k" for k
    using w'(2) [rule_format, of k] r(2) by (cases "k \<in> ws_ID ` set xs"; cases "k = ws_ID x") (simp_all split: if_splits)
  with w' r show ?case by (intro exI [of _ w']) simp
qed simp

lemma stopActiveSteps_spec:
  assumes wf: "store_wf (en_store w)"
  shows "\<exists>w'. stopActiveSteps E i w = (Ok (), w') \<and>
    (\<forall>k st. map_of (ms_steps (en_store w)) k = Some st \<longrightarrow>
       (if ws_InstanceID st = i \<and> ws_Status st \<in> activeStatuses
        then \<exists>st'. map_of (ms_steps (en_store w')) k = Some st' \<and> ws_Status st' = StepStatusSkipped
        else map_of (ms_steps (en_store w')) k = Some st)) \<and>
    ms_instances (en_store w') = ms_instances (en_store w) \<and> ms_queue (en_store w') = ms_queue (en_store w) \<and>
    ms_cancelRequests (en_store w') = ms_cancelRequests (en_store w)"
proof -
  define xs where "xs = sort_key (\<lambda>st. - ws_CreatedAt st)
    (filter (\<lambda>st. ws_Status st \<in> activeStatuses) (stepsOfInstance (en_store w) i))"
  have mem: "st \<in> set xs \<longleftrightarrow> map_of (ms_steps (en_store w)) (ws_ID st) = Some st \<and> ws_InstanceID st = i \<and> ws_Status st \<in> activeStatuses"
    for st unfolding xs_def set_sort set_filter using set_stepsOfInstance [OF wf, of st i] by blast
  have run: "stopActiveSteps E i w = gforeach (skipStep E i) xs w"
    unfolding stopActiveSteps_def skipStep_def [abs_def] xs_def
    by (simp add: onStore_run GetActiveStepsForUpdate_def)
  have key: "k \<in> ws_ID ` set xs \<longleftrightarrow> ws_InstanceID st = i \<and> ws_Status st \<in> activeStatuses"
    if k: "map_of (ms_steps (en_store w)) k = Some st" for k st
  proof -
    have "ws_ID st = k" using tableOK_id [OF store_wfD(2) [OF wf] k] .
    with k mem show ?thesis by (metis (no_types, lifting) image_iff option.inject)
  qed
  from mem have "\<forall>st \<in> set xs. map_of (ms_steps (en_store w)) (ws_ID st) \<noteq> None" by auto
  from skipStep_loop [OF this, of E i] obtain w' where w': "gforeach (skipStep E i) xs w = (Ok (), w')"
    "\<forall>k. if k \<in> ws_ID ` set xs then \<exists>st'. map_of (ms_steps (en_store w')) k = Some st' \<and> ws_Status st' = StepStatusSkipped
         else map_of (ms_steps (en_store w')) k = map_of (ms_steps (en_store w)) k"
    "ms_instances (en_store w') = ms_instances (en_store w)" "ms_queue (en_store w') = ms_queue (en_store w)"
    "ms_cancelRequests (en_store w') = ms_cancelRequests (en_store w)" by blast
  show ?thesis
  proof (intro exI [of _ w'] conjI allI impI)
    fix k st assume k: "map_of (ms_steps (en_store w)) k = Some st"
    show "if ws_InstanceID st = i \<and> ws_Status st \<in> activeStatuses
        then \<exists>st'. map_of (ms_steps (en_store w')) k = Some st' \<and> ws_Status st' = StepStatusSkipped
        else map_of (ms_steps (en_store w')) k = Some st"
      using w'(2) [rule_format, of k] unfolding key [OF k] k .
  qed (use w' run in simp_all)
qed

text \<open>
  C27. Handling a request to abort. The instance is aborted and the message names who asked for it; every step of the
  instance that is pending, running or waiting for a decision is skipped, every other step (finished ones and those of
  other instances) is left alone; nothing is compensated, nothing is queued, and the request is gone.
\<close>

theorem handleCancellation_abort:
  assumes wf: "store_wf (en_store w)" and i: "map_of (ms_instances (en_store w)) (wi_ID inst) = Some inst"
    and abort: "cr_CancelType req = CancelTypeAbort"
  shows "\<exists>w' inst'. handleCancellation E inst step req w = (Ok (), w') \<and>
    map_of (ms_instances (en_store w')) = (map_of (ms_instances (en_store w)))(wi_ID inst \<mapsto> inst') \<and>
    wi_Status inst' = StatusAborted \<and>
    wi_Error inst' = Some (''Aborted by '' @ cr_RequestedBy req @ '': '' @ (case cr_Reason req of None \<Rightarrow> '''' | Some r \<Rightarrow> r)) \<and>
    (\<forall>k st. map_of (ms_steps (en_store w)) k = Some st \<longrightarrow>
       (if ws_InstanceID st = wi_ID inst \<and> ws_Status st \<in> {StepStatusPending, StepStatusRunning, StepStatusWaitingDecision}
        then \<exists>st'. map_of (ms_steps (en_store w')) k = Some st' \<and> ws_Status st' = StepStatusSkipped
        else map_of (ms_steps (en_store w')) k = Some st)) \<and>
    ms_queue (en_store w') = ms_queue (en_store w) \<and>
    map_of (ms_cancelRequests (en_store w')) (wi_ID inst) = None"
proof -
  from stopActiveSteps_spec [OF wf, of E "wi_ID inst"] obtain w1 where
    s: "stopActiveSteps E (wi_ID inst) w = (Ok (), w1)" and
    steps: "\<forall>k st. map_of (ms_steps (en_store w)) k = Some st \<longrightarrow>
       (if ws_InstanceID st = wi_ID inst \<and> ws_Status st \<in> activeStatuses
        then \<exists>st'. map_of (ms_steps (en_store w1)) k = Some st' \<and> ws_Status st' = StepStatusSkipped
        else map_of (ms_steps (en_store w1)) k = Some st)" and
    keep: "ms_instances (en_store w1) = ms_instances (en_store w)" "ms_queue (en_store w1) = ms_queue (en_store w)"
    by blast
  let ?msg = "Some (''Aborted by '' @ cr_RequestedBy req @ '': '' @ (case cr_Reason req of None \<Rightarrow> '''' | Some r \<Rightarrow> r))"
  have "map_of (ms_instances (en_store w1)) (wi_ID inst) = Some inst" using i keep by simp
  from UpdateInstanceStatus_run [OF this, of E StatusAborted RawNil ?msg] obtain s' i' where
    u: "onStore (UpdateInstanceStatus E (wi_ID inst) StatusAborted RawNil ?msg) w1 = (Ok (), w1\<lparr>en_store := s'\<rparr>)"
      "map_of (ms_instances s') = (map_of (ms_instances (en_store w1)))(wi_ID inst \<mapsto> i')" "wi_Status i' = StatusAborted"
      "wi_Error i' = ?msg" "ms_steps s' = ms_steps (en_store w1)" "ms_queue s' = ms_queue (en_store w1)" by blast
  define w2 where "w2 = snd (handleCancellation E inst step req w)"
  have run: "handleCancellation E inst step req w = (Ok (), w2)"
    and w2: "ms_steps (en_store w2) = ms_steps s'" "ms_instances (en_store w2) = ms_instances s'"
      "ms_queue (en_store w2) = ms_queue s'" "map_of (ms_cancelRequests (en_store w2)) (wi_ID inst) = None"
    using abort s u(1)
    by (simp_all add: w2_def handleCancellation_def Let_def gwrap_def gseq_def gignore_def onStore_run DeleteCancelRequest_def AList.delete_conv)
  show ?thesis
    by (intro exI [of _ w2] exI [of _ i'] conjI) (use run u w2 keep steps in simp_all)
qed

definition abortRequest :: WorkflowCancelRequest where
  "abortRequest = \<lparr>cr_ID = 1, cr_InstanceID = 1, cr_RequestedBy = ''ann'', cr_CancelType = CancelTypeAbort, cr_Reason = None,
     cr_CreatedAt = 0\<rparr>"

lemma started0_step: "case map_of (ms_steps (en_store started0)) 1 of None \<Rightarrow> False
    | Some st \<Rightarrow> ws_InstanceID st = 1 \<and> ws_Status st = StepStatusPending"
  "case map_of (ms_instances (en_store started0)) 1 of None \<Rightarrow> False | Some i \<Rightarrow> wi_ID i = 1"
  by code_simp+

theorem handleCancellation_abort_witness:
  "\<exists>inst st w' inst' st'. map_of (ms_instances (en_store started0)) 1 = Some inst \<and>
     map_of (ms_steps (en_store started0)) 1 = Some st \<and> ws_Status st = StepStatusPending \<and>
     handleCancellation env0 inst st abortRequest started0 = (Ok (), w') \<and>
     map_of (ms_instances (en_store w')) 1 = Some inst' \<and> wi_Status inst' = StatusAborted \<and>
     map_of (ms_steps (en_store w')) 1 = Some st' \<and> ws_Status st' = StepStatusSkipped"
proof -
  obtain st inst where s: "map_of (ms_steps (en_store started0)) 1 = Some st" "ws_InstanceID st = 1" "ws_Status st = StepStatusPending"
    "map_of (ms_instances (en_store started0)) (wi_ID inst) = Some inst" "wi_ID inst = 1"
    using started0_step by (auto split: option.splits)
  have "cr_CancelType abortRequest = CancelTypeAbort" by (simp add: abortRequest_def)
  from handleCancellation_abort [OF started0_wf s(4) this, of env0 st] s show ?thesis by fastforce
qed

end
