(* ===== verification/Api_Props.thy ===== *)
theory Api_Props
  imports Api Request_Props
begin

text \<open>
  What clients of the HTTP interface can rely on: numbers round trip, the read-only routes are read-only, pages are
  sections of the listing unless the offset overflows, and requests to stop an instance are answered
  with the documented status codes.
\<close>

section \<open>Numbers\<close>

lemma digitsFrom_snoc:
  "digitsFrom n (xs @ [c]) = (case digitsFrom n xs of Inl e \<Rightarrow> Inl e | Inr m \<Rightarrow> digitsFrom m [c])"
  by (induction n xs rule: digitsFrom.induct) (simp_all add: Let_def)

lemma digitsFrom_ndigits: "n < 2 ^ 64 \<Longrightarrow> digitsFrom 0 (ndigits n) = Inr (int n)"
proof (induction n rule: ndigits.induct)
  case (1 n)
  show ?case
  proof (cases "n < 10")
    case True
    then show ?thesis by (simp add: ndigits.simps [of n] of_char_digit)
  next
    case False
    have "digitsFrom 0 (ndigits (n div 10)) = Inr (int (n div 10))" using 1 False by simp
    moreover have "int (n div 10) * 10 + int (n mod 10) = int n"
      by (metis div_mult_mod_eq of_nat_add of_nat_mult of_nat_numeral)
    moreover have n: "n < 18446744073709551616" using 1(2) by simp
    then have "n div 10 < 1844674407370955162" by presburger
    then have "int (n div 10) < 1844674407370955162" by linarith
    moreover have "int n < 2 ^ 64" using n by simp
    ultimately show ?thesis
      using False by (simp add: ndigits.simps [of n] digitsFrom_snoc of_char_digit Let_def)
  qed
qed

lemma ndigits_Cons: "\<exists>c cs. ndigits n = c # cs \<and> c \<noteq> CHR ''-'' \<and> c \<noteq> CHR ''+''"
proof (cases "ndigits n")
  case Nil
  then show ?thesis by (simp add: ndigits.simps [of n] split: if_splits)
next
  case (Cons c cs)
  have "CHR ''-'' \<notin> set (ndigits n)" "CHR ''+'' \<notin> set (ndigits n)" by (rule not_in_ndigits; simp)+
  with Cons show ?thesis by auto
qed

text \<open>
  Identifiers survive the trip through a path: the decimal form of every \<open>int64\<close> is parsed back to the same number, so
  the identifier of any instance, step or dead letter addresses it.
\<close>

theorem ParseInt_itoa:
  assumes "- (2 ^ 63) \<le> i" "i < 2 ^ 63"
  shows "ParseInt (itoa i) = Inr i"
proof (cases "i < 0")
  case True
  have "digitsFrom 0 (ndigits (nat (- i))) = Inr (- i)"
    using digitsFrom_ndigits [of "nat (- i)"] True assms(1) by simp
  with True assms show ?thesis
    using ndigits_Cons [of "nat (- i)"] by (auto simp: ParseInt_def itoa_def Let_def)
next
  case False
  have "digitsFrom 0 (ndigits (nat i)) = Inr i"
    using digitsFrom_ndigits [of "nat i"] False assms(2) by simp
  with False assms show ?thesis
    using ndigits_Cons [of "nat i"] by (auto simp: ParseInt_def itoa_def Let_def)
qed

theorem ParseInt_itoa_witness: "ParseInt (itoa (- 9223372036854775808)) = Inr (- 9223372036854775808)"
  using ParseInt_itoa [of "- 9223372036854775808"] by simp

section \<open>The core routes\<close>

interpretation unchanged: go_preorder "\<lambda>s t. t = s"
  by unfold_locales simp_all

lemmas keeps_control = unchanged.rel_bind unchanged.rel_try unchanged.rel_sum unchanged.rel_if unchanged.rel_pure unchanged.rel_option

lemma store_reads_keep:
  "go_rel (\<lambda>s t. t = s) GetWorkflowDefinitions" "go_rel (\<lambda>s t. t = s) (GetWorkflowDefinition i)"
  "go_rel (\<lambda>s t. t = s) (GetWorkflowInstancesPaginated i offset limit)"
  "go_rel (\<lambda>s t. t = s) (GetAllWorkflowInstancesPaginated offset limit)" "go_rel (\<lambda>s t. t = s) (GetInstance k)"
  "go_rel (\<lambda>s t. t = s) (GetWorkflowSteps k)" "go_rel (\<lambda>s t. t = s) (GetWorkflowEvents k)"
  "go_rel (\<lambda>s t. t = s) GetWorkflowStats" "go_rel (\<lambda>s t. t = s) GetSummaryStats" "go_rel (\<lambda>s t. t = s) GetActiveInstances"
  by (simp_all add: go_rel_def GetWorkflowDefinitions_def GetWorkflowDefinition_def GetWorkflowInstancesPaginated_def
      GetAllWorkflowInstancesPaginated_def GetInstance_def GetWorkflowSteps_def GetStepsByInstance_def GetWorkflowEvents_def
      GetWorkflowStats_def GetSummaryStats_def GetActiveInstances_def split: option.split)

lemma handler_parts_keep:
  "go_rel (\<lambda>s t. t = s) (WriteErrorResponse e c)" "go_rel (\<lambda>s t. t = s) (respond p)"
  "go_rel (\<lambda>s t. t = s) call \<Longrightarrow> go_rel (\<lambda>s t. t = s) (listing call msg f)"
  "go_rel (\<lambda>s t. t = s) call \<Longrightarrow> (\<And>x. go_rel (\<lambda>s t. t = s) (k x)) \<Longrightarrow> go_rel (\<lambda>s t. t = s) (fetch call nf msg k)"
  "(\<And>i. go_rel (\<lambda>s t. t = s) (g i)) \<Longrightarrow> go_rel (\<lambda>s t. t = s) (withInstanceID r g)"
  unfolding WriteErrorResponse_def respond_def listing_def fetch_def withInstanceID_def by (intro keeps_control; simp)+

lemma core_handlers_keep: "(pat, h) \<in> set coreRoutes \<Longrightarrow> go_rel (\<lambda>s t. t = s) (h r)"
  unfolding coreRoutes_def
  by (auto simp: HandleGetWorkflowDefinitions_def HandleGetWorkflowDefinition_def HandleGetWorkflowInstances_def
      HandleGetAllInstances_def HandleGetWorkflowInstance_def HandleGetWorkflowSteps_def HandleGetWorkflowEvents_def
      HandleGetStats_def HandleGetSummaryStats_def HandleGetActiveInstances_def theInstance_def
      intro!: handler_parts_keep store_reads_keep)

lemma dispatch_keep:
  "(\<And>pat h r. (pat, h) \<in> set rs \<Longrightarrow> go_rel (\<lambda>s t. t = s) (h r)) \<Longrightarrow> go_rel (\<lambda>s t. t = s) (dispatch rs path r)"
  by (induction rs path r rule: dispatch.induct) (auto split: option.split intro: keeps_control)

text \<open>
  The read-only routes are read-only: no request to a core route, known or unknown, changes the store.
\<close>

theorem serveCore_read_only: "snd (serveCore path r s) = s"
proof -
  have "go_rel (\<lambda>s t. t = s) (serveCore path r)"
    unfolding serveCore_def by (rule dispatch_keep) (rule core_handlers_keep)
  then show ?thesis by (simp add: go_rel_def)
qed

lemma pageSizeOf_bounds: "1 \<le> pageSizeOf r" "pageSizeOf r \<le> 1000"
  by (auto simp: pageSizeOf_def split: sum.split)

lemma pageOf_pos: "1 \<le> pageOf r"
  by (auto simp: pageOf_def split: sum.split)

lemma paginate_outcome:
  assumes "0 < limit"
  shows "paginate offset limit xs = (if offset < 0 then Panic ''slice bounds out of range''
     else Ok (take (nat limit) (drop (nat offset) xs), int (length xs)))"
proof -
  have "take (nat (int (length xs) - offset)) (drop (nat offset) xs) = take (nat limit) (drop (nat offset) xs)"
    if "0 \<le> offset" "offset + limit > int (length xs)"
    using that by simp
  then show ?thesis using assms by (auto simp: paginate_def sliceOf_def Let_def)
qed

text \<open>
  C32. Paging. The offset is computed in 64-bit arithmetic: as long as the product fits, the answer is the requested section
  of the instances, newest first, with their total number; when it wraps around to a negative number the handler panics,
  for every content of the store. The first page number that does so with the default page size is
  922337203685477581.
\<close>

theorem HandleGetAllInstances_spec:
  "HandleGetAllInstances r s =
     (if wrap64 ((pageOf r - 1) * pageSizeOf r) < 0 then (Panic ''slice bounds out of range'', s)
      else (Ok (200, Instances \<lparr>
          pr_Items = take (nat (pageSizeOf r)) (drop (nat (wrap64 ((pageOf r - 1) * pageSizeOf r))) (instancesDesc (\<lambda>_. True) s)),
          pr_Page = pageOf r, pr_PageSize = pageSizeOf r, pr_Total = int (length (ms_instances s))\<rparr>), s)) \<and>
   (pageOf r \<le> 9223372036854775 \<longrightarrow> wrap64 ((pageOf r - 1) * pageSizeOf r) = (pageOf r - 1) * pageSizeOf r)"
proof
  have n: "length (instancesDesc (\<lambda>_. True) s) = length (ms_instances s)" by (simp add: instancesDesc_def)
  show "HandleGetAllInstances r s =
     (if wrap64 ((pageOf r - 1) * pageSizeOf r) < 0 then (Panic ''slice bounds out of range'', s)
      else (Ok (200, Instances \<lparr>
          pr_Items = take (nat (pageSizeOf r)) (drop (nat (wrap64 ((pageOf r - 1) * pageSizeOf r))) (instancesDesc (\<lambda>_. True) s)),
          pr_Page = pageOf r, pr_PageSize = pageSizeOf r, pr_Total = int (length (ms_instances s))\<rparr>), s))"
    using pageSizeOf_bounds(1) [of r] paginate_outcome [of "pageSizeOf r" "offsetOf r" "instancesDesc (\<lambda>_. True) s"]
    by (simp add: HandleGetAllInstances_def listing_def GetAllWorkflowInstancesPaginated_def offsetOf_def gbind_def gtry_def
        respond_def pageResponse_def n)
  show "pageOf r \<le> 9223372036854775 \<longrightarrow> wrap64 ((pageOf r - 1) * pageSizeOf r) = (pageOf r - 1) * pageSizeOf r"
  proof
    assume "pageOf r \<le> 9223372036854775"
    then have "(pageOf r - 1) * pageSizeOf r \<le> 9223372036854774 * 1000"
      using pageOf_pos [of r] pageSizeOf_bounds [of r] by (intro mult_mono) simp_all
    moreover have "0 \<le> (pageOf r - 1) * pageSizeOf r" using pageOf_pos [of r] pageSizeOf_bounds [of r] by simp
    ultimately show "wrap64 ((pageOf r - 1) * pageSizeOf r) = (pageOf r - 1) * pageSizeOf r" by (intro wrap64_id) simp_all
  qed
qed

definition pageRequest :: "string \<Rightarrow> request" where
  "pageRequest p = \<lparr>rq_id = '''', rq_page = p, rq_pageSize = '''', rq_body = RawNil\<rparr>"

lemma pageRequest_fields:
  "pageOf (pageRequest ''922337203685477581'') = 922337203685477581" "pageSizeOf (pageRequest ''922337203685477581'') = 20"
  "pageOf (pageRequest ''2'') = 2" "pageSizeOf (pageRequest ''2'') = 20"
  by code_simp+

theorem HandleGetAllInstances_spec_witness:
  "HandleGetAllInstances (pageRequest ''922337203685477581'') NewMemoryStore = (Panic ''slice bounds out of range'', NewMemoryStore) \<and>
   wrap64 ((pageOf (pageRequest ''2'') - 1) * pageSizeOf (pageRequest ''2'')) = 20"
  using HandleGetAllInstances_spec [of "pageRequest ''922337203685477581''" NewMemoryStore]
    HandleGetAllInstances_spec [of "pageRequest ''2''" NewMemoryStore]
  by (simp add: pageRequest_fields wrap64_def)

section \<open>Requests to stop an instance\<close>

lemma contains_middle: "contains (xs @ sub @ ys) sub"
proof (induction xs)
  case Nil
  show ?case by (simp add: contains.simps [of "sub @ ys"])
next
  case (Cons x xs)
  then show ?case by (simp add: contains.simps [of "x # xs @ sub @ ys"])
qed

lemma requestStop_outcome:
  "map_of (ms_instances (en_store w)) i = None \<Longrightarrow>
     requestStop E kind ev i who why w = (Fail (Wrap ''get instance: '' EntityNotFound), w)"
  "map_of (ms_instances (en_store w)) i = Some inst \<Longrightarrow> terminalForCancel (wi_Status inst) \<Longrightarrow>
     requestStop E kind ev i who why w =
       (Fail (Err (''workflow '' @ itoa i @ '' is already in terminal state: '' @ workflowStatusStr (wi_Status inst))), w)"
  "map_of (ms_instances (en_store w)) i = Some inst \<Longrightarrow> \<not> terminalForCancel (wi_Status inst) \<Longrightarrow>
     \<exists>w'. requestStop E kind ev i who why w = (Ok (), w')"
  by (simp_all add: requestStop_def GetInstance_missing GetInstance_run)
    (simp add: onStore_def gzoom_def CreateCancelRequest_def gseq_def gbind_def gwrap_def split: option.split)

text \<open>
  Status codes of a cancellation. A path that is no 64-bit number and an empty reason are answered with 400, an unknown
  instance with 404, one in a terminal state with 409, all without any change; every other well-formed request by a
  known user is answered with 204, after exactly what \<open>CancelWorkflow\<close> does.
\<close>

theorem HandleCancelWorkflow_spec:
  assumes user: "extractUserFn r = Inr user" and reason: "decodeString ''cancel.CancelRequest'' ''reason'' (rq_body r) = Inr reason"
  shows "case ParseInt (rq_id r) of
     Inl err \<Rightarrow> HandleCancelWorkflow E extractUserFn r w = (Ok (400, ErrorResponse (errStr err)), w)
   | Inr i \<Rightarrow>
       if reason = '''' then HandleCancelWorkflow E extractUserFn r w = (Ok (400, ErrorResponse ''reason is required''), w)
       else case map_of (ms_instances (en_store w)) i of
         None \<Rightarrow> HandleCancelWorkflow E extractUserFn r w = (Ok (404, ErrorResponse ''get instance: entity not found''), w)
       | Some inst \<Rightarrow>
           if wi_Status inst \<in> {StatusCompleted, StatusFailed, StatusCancelled, StatusAborted}
           then \<exists>msg. HandleCancelWorkflow E extractUserFn r w = (Ok (409, ErrorResponse msg), w)
           else \<exists>w'. CancelWorkflow E i user reason w = (Ok (), w') \<and>
                  HandleCancelWorkflow E extractUserFn r w = (Ok (204, NoContent), w')"
proof (cases "ParseInt (rq_id r)")
  case (Inl err)
  then show ?thesis by (simp add: HandleCancelWorkflow_def stopHandler_def withID_def WriteErrorResponse_def)
next
  case (Inr i)
  note run = HandleCancelWorkflow_def stopHandler_def withID_def withUser_def WriteErrorResponse_def Inr user reason CancelWorkflow_def
  show ?thesis
  proof (cases "reason = ''''")
    case True
    with Inr show ?thesis by (simp add: run)
  next
    case ne: False
    show ?thesis
    proof (cases "map_of (ms_instances (en_store w)) i")
      case None
      with Inr ne show ?thesis by (simp add: run requestStop_outcome(1) split del: if_split)
    next
      case (Some inst)
      show ?thesis
      proof (cases "terminalForCancel (wi_Status inst)")
        case True
        note out = requestStop_outcome(2) [OF Some True, of E CancelTypeCancel "''cancellation_started''" user reason]
        have "contains (''workflow '' @ itoa i @ '' is already in terminal state: '' @ workflowStatusStr (wi_Status inst))
            ''already in terminal state''"
          using contains_middle [of "''workflow '' @ itoa i @ '' is ''" "''already in terminal state''"
              "'': '' @ workflowStatusStr (wi_Status inst)"] by simp
        with Inr ne Some True out show ?thesis by (simp add: run terminalForCancel_def)
      next
        case False
        from requestStop_outcome(3) [OF Some False] obtain w' where
          "requestStop E CancelTypeCancel ''cancellation_started'' i user reason w = (Ok (), w')" by blast
        with Inr ne Some False show ?thesis by (simp add: run terminalForCancel_def)
      qed
    qed
  qed
qed

definition cancelRequest0 :: request where
  "cancelRequest0 = \<lparr>rq_id = ''1'', rq_page = '''', rq_pageSize = '''', rq_body = RawJson (JObj [(''reason'', JStr ''test'')])\<rparr>"

lemma cancelRequest0_parsed:
  "ParseInt (rq_id cancelRequest0) = Inr 1" "decodeString ''cancel.CancelRequest'' ''reason'' (rq_body cancelRequest0) = Inr ''test''"
  "case map_of (ms_instances (en_store started0)) 1 of None \<Rightarrow> False | Some i \<Rightarrow> wi_Status i = StatusRunning"
  by code_simp+

theorem HandleCancelWorkflow_spec_witness:
  "\<exists>w'. HandleCancelWorkflow env0 (\<lambda>_. Inr ''ann'') cancelRequest0 started0 = (Ok (204, NoContent), w')"
  using HandleCancelWorkflow_spec [of "\<lambda>_. Inr ''ann''" cancelRequest0 "''ann''" "''test''" env0 started0] cancelRequest0_parsed
  by (auto split: option.splits)

end
