(* ===== verification/Join_Refinement.thy ===== *)
theory Join_Refinement
  imports Join_Props
begin

text \<open>
  What a join state is for, as an abstract machine: for every join that has been set up, the awaited names, the strategy, and
  the last result of every step that has reported. The store keeps two lists of names without duplicates and moves a name from
  one to the other; this theory shows that it implements the machine, call by call and for every sequence of calls.
\<close>

section \<open>The abstract machine\<close>

type_synonym ajoin = "string list \<times> JoinStrategy \<times> (string \<rightharpoonup> bool)"

definition aReady :: "ajoin \<Rightarrow> bool" where
  "aReady = (\<lambda>(waiting, strategy, results).
     if strategy = JoinStrategyAny then dom results \<noteq> {} else length waiting \<le> card (dom results))"

datatype joinOp = SetUp int string wref JoinStrategy | Report int string string bool

datatype joinAnswer = Done | Ready bool | Unknown

fun astep :: "(wref \<Rightarrow> string list) \<Rightarrow> joinOp \<Rightarrow> (string \<rightharpoonup> ajoin) \<Rightarrow> joinAnswer \<times> (string \<rightharpoonup> ajoin)" where
  "astep deref (SetUp i jn ws strategy) A =
     (Done, case A (joinStateKey i jn) of Some _ \<Rightarrow> A
      | None \<Rightarrow> A(joinStateKey i jn \<mapsto>
          (deref ws, if strategy = JoinStrategyOther '''' then JoinStrategyAll else strategy, Map.empty)))"
| "astep deref (Report i jn x ok) A =
     (case A (joinStateKey i jn) of None \<Rightarrow> (Unknown, A)
      | Some (ws, strategy, results) \<Rightarrow>
          let j = (ws, strategy, results(x \<mapsto> ok)) in (Ready (aReady j), A(joinStateKey i jn \<mapsto> j)))"

section \<open>The store\<close>

fun cstep :: "env \<Rightarrow> joinOp \<Rightarrow> MemoryStore \<Rightarrow> joinAnswer \<times> MemoryStore" where
  "cstep E (SetUp i jn ws strategy) s = (Done, snd (CreateJoinState E i jn ws strategy s))"
| "cstep E (Report i jn x ok) s =
     (case UpdateJoinState E i jn x ok s of (Ok r, s') \<Rightarrow> (Ready r, s') | (_, s') \<Rightarrow> (Unknown, s'))"

fun run :: "('op \<Rightarrow> 's \<Rightarrow> 'a \<times> 's) \<Rightarrow> 'op list \<Rightarrow> 's \<Rightarrow> 'a list \<times> 's" where
  "run step [] s = ([], s)"
| "run step (op # ops) s = (case step op s of (a, s') \<Rightarrow> case run step ops s' of (as, s'') \<Rightarrow> (a # as, s''))"

section \<open>The abstraction\<close>

definition absResults :: "JoinState \<Rightarrow> string \<rightharpoonup> bool" where
  "absResults j = (\<lambda>x. if x \<in> set (js_Completed j) then Some True else if x \<in> set (js_Failed j) then Some False else None)"

definition absJoin :: "MemoryStore \<Rightarrow> JoinState \<Rightarrow> ajoin" where
  "absJoin s j = (derefW s (js_WaitingFor j), js_JoinStrategy j, absResults j)"

definition absJoins :: "MemoryStore \<Rightarrow> string \<rightharpoonup> ajoin" where
  "absJoins s = (\<lambda>key. map_option (absJoin s) (map_of (ms_joinStates s) key))"

lemma dom_absResults: "dom (absResults j) = set (js_Completed j) \<union> set (js_Failed j)"
  by (auto simp: absResults_def split: if_splits)

lemma aReady_abs: "joinOK j \<Longrightarrow> aReady (absJoin s j) = checkJoinReady (derefW s (js_WaitingFor j)) (js_Completed j) (js_Failed j) (js_JoinStrategy j)"
  by (simp add: aReady_def absJoin_def dom_absResults checkJoinReady_def joinOK_length Un_empty)

lemma absResults_record: "joinOK j \<Longrightarrow> absResults (recordResult ok x j) = (absResults j)(x \<mapsto> ok)"
  using recordResult_sets [of j ok x] by (auto simp: absResults_def joinOK_def fun_eq_iff)

lemma absResults_upd [simp]: "absResults (j\<lparr>js_IsReady := r, js_UpdatedAt := t\<rparr>) = absResults j"
  by (simp add: absResults_def cong: if_cong)

lemma derefW_frame: "ms_defheap s' = ms_defheap s \<Longrightarrow> derefW s' = derefW s"
  by (rule ext, rule derefW.induct) (simp_all cong: option.case_cong)

lemma absJoin_frame: "ms_defheap s' = ms_defheap s \<Longrightarrow> absJoin s' = absJoin s"
  by (rule ext) (simp add: absJoin_def derefW_frame [of s' s])

lemma absJoins_frame:
  "ms_defheap s' = ms_defheap s \<Longrightarrow> ms_joinStates s' = AList.update key j (ms_joinStates s) \<Longrightarrow> absJoins s' = (absJoins s)(key \<mapsto> absJoin s j)"
  by (auto simp: absJoins_def fun_eq_iff absJoin_frame [of s' s])

lemma setUp_refines:
  assumes "store_wf s" "cstep E (SetUp i jn ws strategy) s = (a, s')"
  shows "astep (derefW s) (SetUp i jn ws strategy) (absJoins s) = (a, absJoins s') \<and> store_wf s' \<and> derefW s' = derefW s"
proof -
  have "store_wf s'"
    using go_rel_snd [OF evolves_joinOps(1)] assms unfolding store_evolves_def by auto
  note wf = this
  show ?thesis
  proof (cases "map_of (ms_joinStates s) (joinStateKey i jn)")
    case None
    define j where "j = \<lparr>js_InstanceID = i, js_JoinStepName = jn, js_WaitingFor = ws, js_Completed = [], js_Failed = [],
      js_JoinStrategy = (if strategy = JoinStrategyOther '''' then JoinStrategyAll else strategy), js_IsReady = False,
      js_CreatedAt = clk E (ms_cursor s), js_UpdatedAt = clk E (ms_cursor s)\<rparr>"
    have s': "s' = s\<lparr>ms_joinStates := AList.update (joinStateKey i jn) j (ms_joinStates s), ms_cursor := Suc (ms_cursor s)\<rparr>"
      "a = Done" using assms(2) None unfolding j_def by (simp_all add: CreateJoinState_def Let_def)
    have "absJoins s' = (absJoins s)(joinStateKey i jn \<mapsto> absJoin s j)" by (rule absJoins_frame) (simp_all add: s')
    moreover have "absJoin s j = (derefW s ws, if strategy = JoinStrategyOther '''' then JoinStrategyAll else strategy, Map.empty)"
      by (simp add: absJoin_def absResults_def j_def)
    moreover have "absJoins s (joinStateKey i jn) = None" by (simp add: absJoins_def None)
    moreover have "derefW s' = derefW s" by (rule derefW_frame) (simp add: s')
    ultimately show ?thesis using wf by (simp add: s'(2))
  next
    case (Some j)
    then show ?thesis using assms wf by (simp add: CreateJoinState_def absJoins_def)
  qed
qed

lemma report_refines:
  assumes "store_wf s" "cstep E (Report i jn x ok) s = (a, s')"
  shows "astep (derefW s) (Report i jn x ok) (absJoins s) = (a, absJoins s') \<and> store_wf s' \<and> derefW s' = derefW s"
proof -
  show ?thesis
  proof (cases "map_of (ms_joinStates s) (joinStateKey i jn)")
    case None
    then show ?thesis using assms by (auto simp: UpdateJoinState_def absJoins_def)
  next
    case (Some j)
    have jok: "joinOK j" using joinsOK_D [OF store_wfD(6) [OF assms(1)] Some] by blast
    define rdy where "rdy = aReady (absJoin s (recordResult ok x j))"
    define j' where "j' = (recordResult ok x j)\<lparr>js_IsReady := rdy, js_UpdatedAt := clk E (ms_cursor s)\<rparr>"
    have abs: "absJoin s j' = (derefW s (js_WaitingFor j), js_JoinStrategy j, (absResults j)(x \<mapsto> ok))"
      using absResults_record [OF jok, of ok x] by (simp add: j'_def absJoin_def)
    have ready: "aReady (absJoin s j') = rdy" by (simp add: j'_def absJoin_def rdy_def)
    have check: "checkJoinReady (derefW s (js_WaitingFor j)) (js_Completed (recordResult ok x j)) (js_Failed (recordResult ok x j))
        (js_JoinStrategy j) = rdy"
      using aReady_abs [OF joinOK_record [OF jok], of s ok x] by (simp add: rdy_def)
    have u: "UpdateJoinState E i jn x ok s = (Ok rdy,
        s\<lparr>ms_joinStates := AList.update (joinStateKey i jn) j' (ms_joinStates s), ms_cursor := Suc (ms_cursor s)\<rparr>)"
      by (simp add: UpdateJoinState_def Some Let_def check j'_def)
    then have s': "a = Ready (aReady (absJoin s j'))"
      "s' = s\<lparr>ms_joinStates := AList.update (joinStateKey i jn) j' (ms_joinStates s), ms_cursor := Suc (ms_cursor s)\<rparr>"
      using assms(2) unfolding ready by simp_all
    have "absJoins s' = (absJoins s)(joinStateKey i jn \<mapsto> absJoin s j')" by (rule absJoins_frame) (simp_all add: s')
    moreover have "absJoins s (joinStateKey i jn) = Some (derefW s (js_WaitingFor j), js_JoinStrategy j, absResults j)"
      by (simp add: absJoins_def absJoin_def Some)
    moreover have "store_wf s'"
      using go_rel_snd [OF evolves_joinOps(2), where s = s] assms(1) unfolding s'(2) store_evolves_def by (metis snd_conv u)
    moreover have "derefW s' = derefW s" by (rule derefW_frame) (simp add: s')
    ultimately show ?thesis by (simp add: abs s'(1) Let_def)
  qed
qed

lemma cstep_refines:
  assumes "store_wf s" "cstep E op s = (a, s')"
  shows "astep (derefW s) op (absJoins s) = (a, absJoins s') \<and> store_wf s' \<and> derefW s' = derefW s"
  using assms setUp_refines report_refines by (cases op) blast+

text \<open>
  C10. The store implements the machine. For every sequence of set-ups and reports, in any order and over any number of
  joins, the answers of \<open>CreateJoinState\<close> and \<open>UpdateJoinState\<close> are those of the abstract machine, which only remembers the
  last result of each step, and the state reached represents the machine's.
\<close>

theorem joins_refine:
  assumes "store_wf s"
  shows "run (astep (derefW s)) ops (absJoins s) =
    (fst (run (cstep E) ops s), absJoins (snd (run (cstep E) ops s)))"
  using assms
proof (induction ops arbitrary: s)
  case (Cons op ops)
  obtain a s1 where c: "cstep E op s = (a, s1)" by (cases "cstep E op s")
  note r = cstep_refines [OF Cons.prems c]
  from Cons.IH [of s1] r have "run (astep (derefW s)) ops (absJoins s1) =
      (fst (run (cstep E) ops s1), absJoins (snd (run (cstep E) ops s1)))" by simp
  with r c show ?case by (simp split: prod.split)
qed simp

definition ops0 :: "joinOp list" where
  "ops0 = [SetUp 1 ''j'' (WOwn [''a'', ''b'']) JoinStrategyAll, Report 1 ''j'' ''a'' True, Report 1 ''j'' ''a'' False,
     Report 1 ''j'' ''b'' True, Report 2 ''j'' ''a'' True]"

theorem joins_refine_witness:
  "fst (run (cstep env0) ops0 NewMemoryStore) = [Done, Ready False, Ready False, Ready True, Unknown] \<and>
   fst (run (astep (derefW NewMemoryStore)) ops0 (absJoins NewMemoryStore)) = [Done, Ready False, Ready False, Ready True, Unknown]"
proof -
  have "fst (run (cstep env0) ops0 NewMemoryStore) = [Done, Ready False, Ready False, Ready True, Unknown]" by code_simp
  with joins_refine [OF NewMemoryStore_wf, of ops0 env0] show ?thesis by (metis fst_conv)
qed

end
