(* ===== verification/Graph_Search.thy ===== *)
theory Graph_Search
  imports Graph
begin

text \<open>
  The recursive searches through a workflow graph that share a \<open>visited\<close> map between their calls:
  \<open>isStepReachableFrom\<close> and \<open>findForkStepForStepInBranch\<close> (\<open>engine.go\<close>). A call enters the successors of its step before
  its caller goes on to the next one, and answers as soon as one of them does; with the successors put in
  front of the names still to try, the recursion is one loop.
\<close>

definition reachSuccs :: "StepDefinition \<Rightarrow> string list" where
  "reachSuccs sd = sd_Next sd @ (if sd_Else sd \<noteq> '''' then [sd_Else sd] else []) @ sd_Parallel sd"

function reachLoop :: "(string \<times> StepDefinition) list \<Rightarrow> string \<Rightarrow> string list \<Rightarrow> string list \<Rightarrow> bool" where
  "reachLoop steps targetStep [] visited = False"
| "reachLoop steps targetStep (startStep # todo) visited =
     (if startStep = targetStep then True
      else if startStep \<in> set visited then reachLoop steps targetStep todo visited
      else case map_of steps startStep of
        None \<Rightarrow> reachLoop steps targetStep todo (startStep # visited)
      | Some stepDef \<Rightarrow> reachLoop steps targetStep (reachSuccs stepDef @ todo) (startStep # visited))"
  by pat_completeness auto
termination
proof (relation "inv_image (finite_psubset <*lex*> less_than)
    (\<lambda>(steps, targetStep, todo, visited). (set (map fst steps) - set visited, length todo))", goal_cases)
  case 1
  then show ?case by (auto intro: wf_lex_prod)
next
  case 2
  then show ?case by simp
next
  case (3 steps t n todo visited)
  have "n \<notin> set (map fst steps)" using 3(3) by (auto simp: map_of_eq_None_iff)
  then have "set (map fst steps) - set (n # visited) = set (map fst steps) - set visited" by auto
  then show ?case by simp
next
  case (4 steps t n todo visited sd)
  have "n \<in> set (map fst steps)" using 4(3) by (auto dest!: map_of_SomeD intro: rev_image_eqI)
  then have "set (map fst steps) - set (n # visited) \<subset> set (map fst steps) - set visited" using 4(2) by auto
  then show ?case by (simp add: finite_psubset_def)
qed

definition isStepReachableFrom :: "string \<Rightarrow> string \<Rightarrow> WorkflowDefinition \<Rightarrow> bool" where
  "isStepReachableFrom targetStep startStep def = reachLoop (stepsOf def) targetStep [startStep] []"

definition findForkStepForStepInBranch :: "string \<Rightarrow> WorkflowDefinition \<Rightarrow> string" where
  "findForkStepForStepInBranch stepName def =
     (if atTop stepName then ''''
      else case find (\<lambda>(n, sd). isForkType (sd_Type sd) \<and> stepName \<in> set (sd_Parallel sd)) (stepsOf def) of
        Some (forkName, _) \<Rightarrow> forkName
      | None \<Rightarrow>
          (case prevWalk (stepsOf def) atTop (\<lambda>current currentDef.
              if \<not> atTop (sd_Prev currentDef) \<and>
                 (case stepDefOf def (sd_Prev currentDef) of None \<Rightarrow> False
                  | Some prevDef \<Rightarrow> isForkType (sd_Type prevDef) \<and>
                      list_ex (\<lambda>parallelStep. isStepReachableFrom current parallelStep def) (sd_Parallel prevDef))
              then Inl (sd_Prev currentDef) else Inr (sd_Prev currentDef)) [] stepName of
             None \<Rightarrow> '''' | Some f \<Rightarrow> f))"

section \<open>The search decides reachability\<close>

definition flows :: "(string \<times> StepDefinition) list \<Rightarrow> (string \<times> string) set" where
  "flows steps = {(a, b). \<exists>sd. map_of steps a = Some sd \<and> b \<in> set (reachSuccs sd)}"

lemma reachLoop_sound:
  "reachLoop steps t todo visited \<Longrightarrow> \<exists>n \<in> set todo. (n, t) \<in> (flows steps)\<^sup>*"
proof (induction steps t todo visited rule: reachLoop.induct)
  case (2 steps t n todo visited)
  show ?case
  proof (cases "n = t")
    case False
    show ?thesis
    proof (cases "n \<in> set visited")
      case True
      with 2 False show ?thesis by auto
    next
      case new: False
      show ?thesis
      proof (cases "map_of steps n")
        case None
        with 2 False new show ?thesis by auto
      next
        case (Some sd)
        with 2 False new obtain m where m: "m \<in> set (reachSuccs sd @ todo)" "(m, t) \<in> (flows steps)\<^sup>*" by auto
        then show ?thesis
        proof (cases "m \<in> set todo")
          case m': False
          with m(1) Some have "(n, m) \<in> flows steps" by (auto simp: flows_def)
          with m(2) show ?thesis by (auto intro: converse_rtrancl_into_rtrancl)
        qed auto
      qed
    qed
  qed auto
qed simp

lemma reachLoop_complete:
  "\<not> reachLoop steps t todo visited \<Longrightarrow> t \<notin> set visited \<Longrightarrow> flows steps `` set visited \<subseteq> set visited \<union> set todo \<Longrightarrow>
   \<exists>V. set todo \<union> set visited \<subseteq> V \<and> t \<notin> V \<and> flows steps `` V \<subseteq> V"
proof (induction steps t todo visited rule: reachLoop.induct)
  case (1 steps t visited)
  then show ?case by (intro exI [of _ "set visited"]) auto
next
  case (2 steps t n todo visited)
  have n: "n \<noteq> t" using 2(4) by auto
  consider (old) "n \<in> set visited" | (none) "n \<notin> set visited" "map_of steps n = None"
    | (some) sd where "n \<notin> set visited" "map_of steps n = Some sd" by (cases "map_of steps n") auto
  then show ?case
  proof cases
    case old
    with 2 n show ?thesis by (auto simp: insert_absorb)
  next
    case none
    then have "flows steps `` {n} = {}" by (auto simp: flows_def)
    with 2(5,6) have "flows steps `` set (n # visited) \<subseteq> set (n # visited) \<union> set todo" by auto
    from 2(2) [OF n none _ _ this] 2(4,5) none n show ?thesis by auto
  next
    case some
    then have "flows steps `` {n} \<subseteq> set (reachSuccs sd)" by (auto simp: flows_def)
    with 2(5,6) have "flows steps `` set (n # visited) \<subseteq> set (n # visited) \<union> set (reachSuccs sd @ todo)" by auto
    from 2(3) [OF n some _ _ this] 2(4,5) some n show ?thesis by auto
  qed
qed

text \<open>
  Reachability. \<open>isStepReachableFrom\<close> answers exactly whether the target can be reached from the start step along
  \<open>Next\<close>, \<open>Else\<close> and \<open>Parallel\<close> links of defined steps, for every graph, cyclic ones included; in particular it
  returns.
\<close>

theorem isStepReachableFrom_iff:
  "isStepReachableFrom t s def \<longleftrightarrow>
   (s, t) \<in> {(a, b). \<exists>sd. stepDefOf def a = Some sd \<and>
      (b \<in> set (sd_Next sd) \<or> b = sd_Else sd \<and> b \<noteq> '''' \<or> b \<in> set (sd_Parallel sd))}\<^sup>*"
proof -
  let ?E = "flows (stepsOf def)"
  have E: "?E = {(a, b). \<exists>sd. stepDefOf def a = Some sd \<and>
      (b \<in> set (sd_Next sd) \<or> b = sd_Else sd \<and> b \<noteq> '''' \<or> b \<in> set (sd_Parallel sd))}"
    unfolding flows_def reachSuccs_def stepDefOf_def by (auto split: if_splits)
  have "(s, t) \<in> ?E\<^sup>*" if "isStepReachableFrom t s def"
    using reachLoop_sound [of "stepsOf def" t "[s]" "[]"] that by (simp add: isStepReachableFrom_def)
  moreover have "(s, t) \<notin> ?E\<^sup>*" if no: "\<not> isStepReachableFrom t s def"
  proof
    obtain V where V: "s \<in> V" "t \<notin> V" "?E `` V \<subseteq> V"
      using reachLoop_complete [OF no [unfolded isStepReachableFrom_def]] by auto
    assume "(s, t) \<in> ?E\<^sup>*"
    then have "t \<in> V" using V(1,3) by (induction rule: rtrancl_induct) auto
    with V(2) show False by blast
  qed
  ultimately show ?thesis unfolding E by blast
qed

end
