(* ===== verification/Visualizer.thy ===== *)
theory Visualizer
  imports Graph_Search "HOL-Library.Multiset"
begin

text \<open>
  Text diagrams of workflows and instances (\<open>visualizer.go\<close>). Strings are bytes, so the symbols are their UTF-8
  encodings. \<open>renderStep\<close> shares its \<open>visited\<close> map between all calls and appends what a call returns where it is made; as in
  \<open>Graph_Search\<close> the recursion is a loop over the pieces still to be rendered. \<open>renderLines\<close> gives the pieces of the
  diagram, \<open>lineStr\<close> their text.
\<close>

section \<open>Symbols\<close>

definition symAgain :: string where
  "symAgain = [CHR 0xE2, CHR 0x86, CHR 0xBB]"

definition symWarn :: string where
  "symWarn = [CHR 0xE2, CHR 0x9A, CHR 0xA0]"

definition symHuman :: string where
  "symHuman = [CHR 0xF0, CHR 0x9F, CHR 0x91, CHR 0xA4]"

definition symTask :: string where
  "symTask = [CHR 0xE2, CHR 0x9A, CHR 0x99]"

definition symFork :: string where
  "symFork = [CHR 0xF0, CHR 0x9F, CHR 0x94, CHR 0x80]"

definition symJoin :: string where
  "symJoin = [CHR 0xF0, CHR 0x9F, CHR 0x94, CHR 0x97]"

definition symQuestion :: string where
  "symQuestion = [CHR 0xE2, CHR 0x9D, CHR 0x93]"

definition symDisk :: string where
  "symDisk = [CHR 0xF0, CHR 0x9F, CHR 0x92, CHR 0xBE]"

definition symParallel :: string where
  "symParallel = [CHR 0xE2, CHR 0x88, CHR 0xA5]"

definition symArrow :: string where
  "symArrow = [CHR 0xE2, CHR 0x86, CHR 0x92]"

definition symPeople :: string where
  "symPeople = [CHR 0xF0, CHR 0x9F, CHR 0x91, CHR 0xA5]"

definition symFlash :: string where
  "symFlash = [CHR 0xE2, CHR 0x9A, CHR 0xA1]"

definition symCycle :: string where
  "symCycle = [CHR 0xF0, CHR 0x9F, CHR 0x94, CHR 0x84]"

definition symElse :: string where
  "symElse = [CHR 0xE2, CHR 0x86, CHR 0xB3]"

definition symHourglass :: string where
  "symHourglass = [CHR 0xE2, CHR 0x8F, CHR 0xB3]"

definition symCheck :: string where
  "symCheck = [CHR 0xE2, CHR 0x9C, CHR 0x85]"

definition symCross :: string where
  "symCross = [CHR 0xE2, CHR 0x9D, CHR 0x8C]"

definition symPause :: string where
  "symPause = [CHR 0xE2, CHR 0x8F, CHR 0xB8]"

definition symSkip :: string where
  "symSkip = [CHR 0xE2, CHR 0x8F, CHR 0xAD]"

definition symBack :: string where
  "symBack = [CHR 0xE2, CHR 0x86, CHR 0xA9]"

definition nl :: string where
  "nl = [CHR 10]"

fun getStepSymbol :: "StepType \<Rightarrow> string" where
  "getStepSymbol StepTypeHuman = symHuman"
| "getStepSymbol StepTypeTask = symTask"
| "getStepSymbol StepTypeFork = symFork"
| "getStepSymbol StepTypeJoin = symJoin"
| "getStepSymbol StepTypeCondition = symQuestion"
| "getStepSymbol StepTypeSavePoint = symDisk"
| "getStepSymbol StepTypeParallel = symParallel"
| "getStepSymbol (StepTypeOther _) = symArrow"

fun getStatusSymbol :: "StepStatus \<Rightarrow> string" where
  "getStatusSymbol StepStatusCompleted = symCheck"
| "getStatusSymbol StepStatusConfirmed = symCheck"
| "getStatusSymbol StepStatusRunning = symCycle"
| "getStatusSymbol StepStatusWaitingDecision = symHourglass"
| "getStatusSymbol StepStatusPending = symPause"
| "getStatusSymbol StepStatusFailed = symCross"
| "getStatusSymbol StepStatusRejected = symCross"
| "getStatusSymbol StepStatusSkipped = symSkip"
| "getStatusSymbol StepStatusRolledBack = symBack"
| "getStatusSymbol StepStatusCompensation = symCycle"
| "getStatusSymbol _ = symQuestion"

definition indent :: "nat \<Rightarrow> string" where
  "indent level = concat (replicate level ''  '')"

section \<open>Graphs\<close>

text \<open>The lines written for a step, up to its parallel branches.\<close>

definition stepLines :: "nat \<Rightarrow> string \<Rightarrow> StepDefinition \<Rightarrow> string" where
  "stepLines lv stepName step =
     indent lv @ getStepSymbol (sd_Type step) @ '' '' @ stepName @ '' ['' @ stepTypeStr (sd_Type step) @ '']'' @ nl @
     (if sd_Handler step \<noteq> '''' then indent lv @ ''  handler: '' @ sd_Handler step @ nl else '''') @
     (if sd_Type step = StepTypeHuman then indent lv @ ''  '' @ symPeople @ '' requires human confirmation'' @ nl else '''') @
     (if sd_OnFailure step \<noteq> '''' then indent lv @ ''  '' @ symFlash @ '' on failure: '' @ sd_OnFailure step @ nl else '''') @
     (if sd_MaxRetries step > 0 then indent lv @ ''  '' @ symCycle @ '' max retries: '' @ itoa (sd_MaxRetries step) @ nl else '''')"

datatype piece = Again nat string | NotFound nat string | TheStep nat string StepDefinition | ParallelHead nat | ElseHead nat string

fun lineStr :: "piece \<Rightarrow> string" where
  "lineStr (Again lv n) = indent lv @ symAgain @ '' '' @ n @ '' (already visited)'' @ nl"
| "lineStr (NotFound lv n) = indent lv @ symWarn @ '' '' @ n @ '' (not found)'' @ nl"
| "lineStr (TheStep lv n sd) = stepLines lv n sd"
| "lineStr (ParallelHead lv) = indent lv @ ''  '' @ symParallel @ '' parallel:'' @ nl"
| "lineStr (ElseHead lv n) = indent lv @ ''  '' @ symElse @ '' else: '' @ n @ nl"

datatype todo = Visit string nat | Write piece

definition inside :: "nat \<Rightarrow> StepDefinition \<Rightarrow> todo list" where
  "inside lv step =
     (if length (sd_Parallel step) > 0
      then Write (ParallelHead lv) # map (\<lambda>p. Visit p (lv + 2)) (sd_Parallel step) else []) @
     map (\<lambda>n. Visit n (lv + 1)) (sd_Next step) @
     (if sd_Else step \<noteq> '''' then [Write (ElseHead lv (sd_Else step)), Visit (sd_Else step) (lv + 2)] else [])"

function renderLines :: "(string \<times> StepDefinition) list \<Rightarrow> todo list \<Rightarrow> string list \<Rightarrow> piece list" where
  "renderLines steps [] visited = []"
| "renderLines steps (Write p # todo) visited = p # renderLines steps todo visited"
| "renderLines steps (Visit stepName lv # todo) visited =
     (if stepName \<in> set visited then Again lv stepName # renderLines steps todo visited
      else case map_of steps stepName of
        None \<Rightarrow> NotFound lv stepName # renderLines steps todo visited
      | Some step \<Rightarrow> TheStep lv stepName step # renderLines steps (inside lv step @ todo) (stepName # visited))"
  by pat_completeness auto
termination
proof (relation "inv_image (finite_psubset <*lex*> less_than)
    (\<lambda>(steps, todo, visited). (set (map fst steps) - set visited, length todo))", goal_cases)
  case 1
  then show ?case by (auto intro: wf_lex_prod)
next
  case (5 steps n lv todo visited sd)
  have "n \<in> set (map fst steps)" using 5(2) by (auto dest!: map_of_SomeD intro: rev_image_eqI)
  then have "set (map fst steps) - set (n # visited) \<subset> set (map fst steps) - set visited" using 5(1) by auto
  then show ?case by (simp add: finite_psubset_def)
qed simp_all

definition renderStep :: "(string \<times> StepDefinition) list \<Rightarrow> string \<Rightarrow> piece list" where
  "renderStep steps start = renderLines steps [Visit start 0] []"

definition RenderGraph :: "WorkflowDefinition \<Rightarrow> string" where
  "RenderGraph def =
     ''Workflow: '' @ wd_Name def @ '' (v'' @ itoa (wd_Version def) @ '')'' @ nl @ replicate 38 CHR ''='' @ nl @ nl @
     concat (map lineStr (renderStep (stepsOf def) (gd_Start (wd_Definition def))))"

section \<open>Instances\<close>

definition statusOrder :: "StepStatus list" where
  "statusOrder = [StepStatusCompleted, StepStatusConfirmed, StepStatusRunning, StepStatusWaitingDecision, StepStatusPending,
     StepStatusFailed, StepStatusRejected, StepStatusSkipped, StepStatusRolledBack, StepStatusCompensation]"

text \<open>The groups that exist, in order.\<close>

definition statusGroups :: "WorkflowStep list \<Rightarrow> (StepStatus \<times> WorkflowStep list) list" where
  "statusGroups steps = filter (\<lambda>(_, g). g \<noteq> []) (map (\<lambda>st. (st, filter (\<lambda>s. ws_Status s = st) steps)) statusOrder)"

definition instanceStepStr :: "WorkflowStep \<Rightarrow> string" where
  "instanceStepStr step =
     ''  '' @ getStepSymbol (ws_StepType step) @ '' '' @ ws_StepName step @
     (if ws_StepType step = StepTypeHuman then
        (case ws_Status step of
           StepStatusWaitingDecision \<Rightarrow> '' '' @ symHourglass @ '' waiting for human decision''
         | StepStatusConfirmed \<Rightarrow> '' '' @ symCheck @ '' confirmed by human''
         | StepStatusRejected \<Rightarrow> '' '' @ symCross @ '' rejected by human''
         | _ \<Rightarrow> '''')
      else '''') @ nl"

definition RenderInstanceStatus :: "WorkflowInstance \<Rightarrow> WorkflowStep list \<Rightarrow> string" where
  "RenderInstanceStatus instance steps =
     ''Workflow Instance: '' @ itoa (wi_ID instance) @ nl @ ''Status: '' @ workflowStatusStr (wi_Status instance) @ nl @
     ''Workflow: '' @ wi_WorkflowID instance @ nl @ replicate 38 CHR ''='' @ nl @ nl @
     concat (map (\<lambda>(st, g). getStatusSymbol st @ '' '' @ stepStatusStr st @ '' ('' @ itoa (int (length g)) @ '' steps):'' @ nl @
       concat (map instanceStepStr g) @ nl) (statusGroups steps))"

section \<open>What the diagrams show\<close>

definition drawn :: "piece list \<Rightarrow> string list" where
  "drawn ps = List.map_filter (\<lambda>p. case p of TheStep lv n sd \<Rightarrow> Some n | _ \<Rightarrow> None) ps"

definition visits :: "todo list \<Rightarrow> string set" where
  "visits todo = {n. \<exists>lv. Visit n lv \<in> set todo}"

lemma drawn_simps [simp]:
  "drawn [] = []" "drawn (TheStep lv n sd # ps) = n # drawn ps" "drawn (Again lv n # ps) = drawn ps"
  "drawn (NotFound lv n # ps) = drawn ps" "drawn (ParallelHead lv # ps) = drawn ps" "drawn (ElseHead lv n # ps) = drawn ps"
  by (simp_all add: drawn_def map_filter_def)

lemma visits_simps [simp]:
  "visits [] = {}" "visits (Visit n lv # todo) = insert n (visits todo)" "visits (Write p # todo) = visits todo"
  "visits (xs @ ys) = visits xs \<union> visits ys" "visits (inside lv sd) = set (reachSuccs sd)"
  by (auto simp: visits_def inside_def reachSuccs_def)

text \<open>Items that \<open>Write\<close> never carry a step.\<close>

fun noStep :: "piece \<Rightarrow> bool" where
  "noStep (TheStep lv n sd) = False"
| "noStep _ = True"

definition plain :: "todo list \<Rightarrow> bool" where
  "plain todo \<longleftrightarrow> (\<forall>p. Write p \<in> set todo \<longrightarrow> noStep p)"

lemma plain_simps [simp]:
  "plain []" "plain (Visit n lv # todo) = plain todo" "plain (Write p # todo) = (noStep p \<and> plain todo)"
  "plain (xs @ ys) = (plain xs \<and> plain ys)" "plain (inside lv sd)"
  by (auto simp: plain_def inside_def)

lemma drawn_Cons: "noStep p \<Longrightarrow> drawn (p # ps) = drawn ps"
  by (cases p) simp_all

lemma renderLines_distinct:
  "plain todo \<Longrightarrow> distinct (drawn (renderLines steps todo visited)) \<and> set (drawn (renderLines steps todo visited)) \<inter> set visited = {}"
  by (induction steps todo visited rule: renderLines.induct) (auto simp: drawn_Cons split: option.split)

lemma renderLines_sound:
  "plain todo \<Longrightarrow> n \<in> set (drawn (renderLines steps todo visited)) \<Longrightarrow>
   map_of steps n \<noteq> None \<and> (\<exists>m \<in> visits todo. (m, n) \<in> (flows steps)\<^sup>*)"
proof (induction steps todo visited rule: renderLines.induct)
  case (3 steps m lv todo visited)
  show ?case
  proof (cases "m \<notin> set visited \<and> map_of steps m \<noteq> None \<and> n \<noteq> m")
    case True
    then obtain sd where sd: "map_of steps m = Some sd" by auto
    with 3 True have "map_of steps n \<noteq> None \<and> (\<exists>k \<in> set (reachSuccs sd) \<union> visits todo. (k, n) \<in> (flows steps)\<^sup>*)" by auto
    moreover have "(m, k) \<in> flows steps" if "k \<in> set (reachSuccs sd)" for k using that sd by (auto simp: flows_def)
    ultimately show ?thesis by (auto intro: converse_rtrancl_into_rtrancl)
  next
    case False
    with 3 show ?thesis by (auto split: if_splits option.splits)
  qed
qed (auto simp: drawn_Cons)

lemma renderLines_complete:
  "plain todo \<Longrightarrow> set visited \<subseteq> dom (map_of steps) \<Longrightarrow>
   visits todo \<inter> dom (map_of steps) \<subseteq> set visited \<union> set (drawn (renderLines steps todo visited)) \<and>
   (\<forall>n sd. n \<in> set (drawn (renderLines steps todo visited)) \<longrightarrow> map_of steps n = Some sd \<longrightarrow>
      set (reachSuccs sd) \<inter> dom (map_of steps) \<subseteq> set visited \<union> set (drawn (renderLines steps todo visited)))"
proof (induction steps todo visited rule: renderLines.induct)
  case (3 steps m lv todo visited)
  consider (old) "m \<in> set visited" | (none) "m \<notin> set visited" "map_of steps m = None"
    | (some) sd where "m \<notin> set visited" "map_of steps m = Some sd" by (cases "map_of steps m") auto
  then show ?case
  proof cases
    case old
    with 3 show ?thesis by auto
  next
    case none
    with 3 show ?thesis by auto
  next
    case some
    with 3(3) [OF some] 3(4,5) show ?thesis by (simp add: domIff) blast
  qed
qed (simp_all add: drawn_Cons)

text \<open>
  The diagram of a workflow is complete and does not repeat itself, for every graph, also a cyclic one: each
  defined step that can be reached from the start step is drawn exactly once, and no other step is drawn.
\<close>

theorem renderStep_complete:
  "distinct (drawn (renderStep steps start)) \<and>
   set (drawn (renderStep steps start)) = {n. map_of steps n \<noteq> None \<and> (start, n) \<in> (flows steps)\<^sup>*}"
proof
  let ?N = "set (drawn (renderStep steps start))"
  have p: "plain [Visit start 0]" by simp
  show "distinct (drawn (renderStep steps start))"
    unfolding renderStep_def using renderLines_distinct [OF p] by blast
  have c: "{start} \<inter> dom (map_of steps) \<subseteq> ?N"
    "\<And>n sd. n \<in> ?N \<Longrightarrow> map_of steps n = Some sd \<Longrightarrow> set (reachSuccs sd) \<inter> dom (map_of steps) \<subseteq> ?N"
    using renderLines_complete [OF p, of "[]" steps] by (auto simp: renderStep_def)
  have "n \<in> ?N" if "(start, n) \<in> (flows steps)\<^sup>*" "map_of steps n \<noteq> None" for n
    using that
  proof (induction rule: rtrancl_induct)
    case base
    then show ?case using c(1) by auto
  next
    case (step m n)
    then obtain sd where sd: "map_of steps m = Some sd" "n \<in> set (reachSuccs sd)" by (auto simp: flows_def)
    with step c(2) [OF _ sd(1)] show ?case by auto
  qed
  moreover have "map_of steps n \<noteq> None \<and> (start, n) \<in> (flows steps)\<^sup>*" if "n \<in> ?N" for n
    using renderLines_sound [OF p, of n steps "[]"] that by (auto simp: renderStep_def)
  ultimately show "?N = {n. map_of steps n \<noteq> None \<and> (start, n) \<in> (flows steps)\<^sup>*}" by blast
qed

text \<open>The status report lists every step once, except paused ones (and those without a status).\<close>

lemma statusGroups_listed:
  "mset (concat (map snd (statusGroups steps))) =
   mset (filter (\<lambda>s. ws_Status s \<notin> {StepStatusPaused, StepStatusEmpty}) steps)"
proof -
  have ne: "mset (concat (map snd (filter (\<lambda>(_, g). g \<noteq> []) gs))) = mset (concat (map snd gs))" for gs :: "(StepStatus \<times> WorkflowStep list) list"
    by (induction gs) auto
  have "mset (concat (map (\<lambda>st. filter (\<lambda>s. ws_Status s = st) steps) statusOrder)) =
      mset (filter (\<lambda>s. ws_Status s \<notin> {StepStatusPaused, StepStatusEmpty}) steps)"
  proof (induction steps)
    case (Cons x xs)
    then show ?case by (cases "ws_Status x") (simp_all add: statusOrder_def)
  qed (simp add: statusOrder_def)
  then show ?thesis by (simp add: statusGroups_def ne comp_def)
qed

end
