(* ===== verification/Conditions.thy ===== *)
theory Conditions
  imports Environment
begin

text \<open>
  The rest of \<open>evaluate_condition.go\<close>: the cache of parsed templates, with the proof that it does not change any
  answer, and the comparison functions that condition expressions call (\<open>eq\<close>, \<open>ne\<close>, \<open>gt\<close>, \<open>lt\<close>, \<open>ge\<close>, \<open>le\<close>).

  The decimal library is a parameter, a record of the functions the code calls; \<open>decimalOK\<close> says what they are
  documented to do, in terms of the rational number a decimal denotes. A Go value of type \<open>any\<close> is a \<open>gval\<close>.
\<close>

section \<open>The cache of templates\<close>

text \<open>A cached template is represented by the text it was parsed from.\<close>

type_synonym templateCache = "(string \<times> string) list"

definition runTemplate :: "env \<Rightarrow> string \<Rightarrow> executionContext \<Rightarrow> error + bool" where
  "runTemplate E tpl stepCtx =
     (case tplExecute E tpl (CloneData stepCtx) of
        Inl err \<Rightarrow> Inl (Wrap ''execute condition: '' err)
      | Inr buf \<Rightarrow>
          (let result = TrimSpace buf in
           if result = ''true'' then Inr True
           else if result = ''false'' then Inr False
           else case ParseBool result of
             Some b \<Rightarrow> Inr b
           | None \<Rightarrow> Inl (Err (''invalid condition output: '' @ goQuote result))))"

definition maxCached :: nat where
  "maxCached = 1000"

definition evaluateCached :: "env \<Rightarrow> string \<Rightarrow> executionContext \<Rightarrow> templateCache \<Rightarrow> (error + bool) \<times> templateCache" where
  "evaluateCached E expr stepCtx cache =
     (case map_of cache expr of
        Some tpl \<Rightarrow> (runTemplate E tpl stepCtx, cache)
      | None \<Rightarrow>
          (case tplParse E expr of
             Some err \<Rightarrow> (Inl (Wrap ''parse condition: '' err), cache)
           | None \<Rightarrow>
               (runTemplate E expr stepCtx,
                if length cache < maxCached then AList.update expr expr cache else cache)))"

definition cacheOK :: "env \<Rightarrow> templateCache \<Rightarrow> bool" where
  "cacheOK E cache \<longleftrightarrow> length cache \<le> maxCached \<and>
     (\<forall>expr tpl. map_of cache expr = Some tpl \<longrightarrow> tpl = expr \<and> tplParse E expr = None)"

primrec evaluateAll :: "env \<Rightarrow> (string \<times> executionContext) list \<Rightarrow> templateCache \<Rightarrow> (error + bool) list \<times> templateCache" where
  "evaluateAll E [] cache = ([], cache)"
| "evaluateAll E (x # xs) cache =
     (case evaluateCached E (fst x) (snd x) cache of (r, cache') \<Rightarrow>
      case evaluateAll E xs cache' of (rs, cache'') \<Rightarrow> (r # rs, cache''))"

lemma evaluateCondition_run:
  "evaluateCondition E expr ctx = (case tplParse E expr of Some err \<Rightarrow> Inl (Wrap ''parse condition: '' err) | None \<Rightarrow> runTemplate E expr ctx)"
  by (cases "tplParse E expr") (simp_all add: evaluateCondition_def runTemplate_def)

lemma evaluateCached_step:
  assumes "cacheOK E cache"
  shows "fst (evaluateCached E expr ctx cache) = evaluateCondition E expr ctx" "cacheOK E (snd (evaluateCached E expr ctx cache))"
proof -
  show "fst (evaluateCached E expr ctx cache) = evaluateCondition E expr ctx"
    using assms by (auto simp: evaluateCached_def evaluateCondition_run cacheOK_def split: option.split)
  show "cacheOK E (snd (evaluateCached E expr ctx cache))"
  proof (cases "map_of cache expr")
    case None
    then have "length (AList.update expr expr cache) = Suc (length cache)"
      by (induction cache) auto
    then show ?thesis
      using assms None by (auto simp: evaluateCached_def cacheOK_def split: option.split)
  qed (use assms in \<open>simp add: evaluateCached_def\<close>)
qed

text \<open>
  C34. Caching templates is invisible. Starting from the empty cache, any sequence of evaluations gives, one by one, the answers
  of parsing every expression afresh, and the cache never holds more than 1000 templates.
\<close>

theorem evaluateAll_spec:
  "fst (evaluateAll E xs []) = map (\<lambda>(expr, ctx). evaluateCondition E expr ctx) xs \<and> length (snd (evaluateAll E xs [])) \<le> 1000"
proof -
  have "cacheOK E cache \<Longrightarrow>
      fst (evaluateAll E xs cache) = map (\<lambda>(expr, ctx). evaluateCondition E expr ctx) xs \<and> cacheOK E (snd (evaluateAll E xs cache))" for cache
  proof (induction xs arbitrary: cache)
    case (Cons x xs)
    from evaluateCached_step [OF Cons.prems, of "fst x" "snd x"] Cons.IH [of "snd (evaluateCached E (fst x) (snd x) cache)"]
    show ?case by (auto split: prod.split)
  qed simp
  from this [of "[]"] show ?thesis by (simp add: cacheOK_def maxCached_def)
qed

section \<open>Values and decimals\<close>

text \<open>
  Values of type \<open>any\<close>. Integers carry their value, unsigned ones up to \<open>2 ^ 64 - 1\<close>; \<open>GNamed\<close> is a value of a defined
  type with one of the basic kinds; \<open>GOther\<close> is a value of any further type: the name of the type, whether \<open>==\<close> can compare
  it, and what \<open>fmt.Sprint\<close> prints.
\<close>

datatype ('d, 'f) gval =
    GNil | GDecimal 'd | GNumber string | GString string | GInt int | GUint int
  | GFloat32 'f | GFloat64 'f | GBool bool | GNamed "('d, 'f) gval" | GOther string bool string

record ('d, 'f) decimalLib =
  dcZero :: 'd
  dcFromInt :: "int \<Rightarrow> 'd"
  dcFromString :: "string \<Rightarrow> error + 'd"
  dcFromFloat32 :: "'f \<Rightarrow> 'd"
  dcFromFloat :: "'f \<Rightarrow> 'd"
  dcCmp :: "'d \<Rightarrow> 'd \<Rightarrow> int"
  dcEqual :: "'d \<Rightarrow> 'd \<Rightarrow> bool"
  dcIsZero :: "'d \<Rightarrow> bool"
  dcString :: "'d \<Rightarrow> string"
  formatFloat :: "'f \<Rightarrow> string"           \<comment> \<open>the shortest decimal form, of \<open>strconv\<close>\<close>

text \<open>The branch for defined types looks at the kind; only there large unsigned numbers are kept.\<close>

fun namedToDecimal :: "('d, 'f) decimalLib \<Rightarrow> ('d, 'f) gval \<Rightarrow> error + 'd" where
  "namedToDecimal D (GInt i) = Inr (dcFromInt D i)"
| "namedToDecimal D (GUint n) = (if n > 9223372036854775807 then dcFromString D (itoa n) else Inr (dcFromInt D n))"
| "namedToDecimal D (GFloat32 f) = Inr (dcFromFloat D f)"
| "namedToDecimal D (GFloat64 f) = Inr (dcFromFloat D f)"
| "namedToDecimal D (GString s) = (if TrimSpace s = '''' then Inr (dcZero D) else dcFromString D (TrimSpace s))"
| "namedToDecimal D (GBool b) = Inr (if b then dcFromInt D 1 else dcZero D)"
| "namedToDecimal D v = Inl (Err ''cannot convert to decimal'')"

fun toDecimal :: "('d, 'f) decimalLib \<Rightarrow> ('d, 'f) gval \<Rightarrow> error + 'd" where
  "toDecimal D GNil = Inr (dcZero D)"
| "toDecimal D (GDecimal d) = Inr d"
| "toDecimal D (GNumber s) = dcFromString D s"
| "toDecimal D (GString s) = (if TrimSpace s = '''' then Inr (dcZero D) else dcFromString D (TrimSpace s))"
| "toDecimal D (GInt i) = Inr (dcFromInt D i)"
| "toDecimal D (GUint n) = Inr (dcFromInt D (wrap64 n))"
| "toDecimal D (GFloat32 f) = Inr (dcFromFloat32 D f)"
| "toDecimal D (GFloat64 f) = Inr (dcFromFloat D f)"
| "toDecimal D (GBool b) = Inr (if b then dcFromInt D 1 else dcZero D)"
| "toDecimal D (GNamed v) = namedToDecimal D v"
| "toDecimal D (GOther ty c s) = Inl (Err (''cannot convert '' @ ty @ '' to decimal''))"

definition compareNumbersDecimal :: "('d, 'f) decimalLib \<Rightarrow> ('d, 'f) gval \<Rightarrow> ('d, 'f) gval \<Rightarrow> int" where
  "compareNumbersDecimal D a b =
     (let orZero = (\<lambda>r. case r of Inl _ \<Rightarrow> dcZero D | Inr d \<Rightarrow> d)
      in dcCmp D (orZero (toDecimal D a)) (orZero (toDecimal D b)))"

definition compareNumbers :: "('d, 'f) decimalLib \<Rightarrow> ('d, 'f) gval \<Rightarrow> ('d, 'f) gval \<Rightarrow> int" where
  "compareNumbers = compareNumbersDecimal"

text \<open>\<open>fmt.Sprint\<close>\<close>

fun sprint :: "('d, 'f) decimalLib \<Rightarrow> ('d, 'f) gval \<Rightarrow> string" where
  "sprint D GNil = ''<nil>''"
| "sprint D (GDecimal d) = dcString D d"
| "sprint D (GNumber s) = s"
| "sprint D (GString s) = s"
| "sprint D (GInt i) = itoa i"
| "sprint D (GUint n) = itoa n"
| "sprint D (GFloat32 f) = formatFloat D f"
| "sprint D (GFloat64 f) = formatFloat D f"
| "sprint D (GBool b) = (if b then ''true'' else ''false'')"
| "sprint D (GNamed v) = sprint D v"
| "sprint D (GOther ty c s) = s"

text \<open>\<open>a == b\<close> on interfaces: values of the same type that cannot be compared panic.\<close>

fun ifaceEq :: "('d, 'f) gval \<Rightarrow> ('d, 'f) gval \<Rightarrow> bool res" where
  "ifaceEq (GOther ty c s) (GOther ty' c' s') =
     (if ty \<noteq> ty' then Ok False else if \<not> c then Panic (''comparing uncomparable type '' @ ty) else Ok (s = s'))"
| "ifaceEq a b = Ok (a = b)"

definition compareEqualDecimal :: "('d, 'f) decimalLib \<Rightarrow> ('d, 'f) gval \<Rightarrow> ('d, 'f) gval \<Rightarrow> bool res" where
  "compareEqualDecimal D a b =
     (let isZero = (\<lambda>v. case toDecimal D v of Inl _ \<Rightarrow> False | Inr d \<Rightarrow> dcIsZero D d) in
      if a = GNil \<and> b = GNil then Ok True
      else if a = GNil then Ok (isZero b)
      else if b = GNil then Ok (isZero a)
      else case (toDecimal D a, toDecimal D b) of
        (Inr x, Inr y) \<Rightarrow> Ok (dcEqual D x y)
      | (Inl _, Inl _) \<Rightarrow>
          (case ifaceEq a b of Ok True \<Rightarrow> Ok True | Ok False \<Rightarrow> Ok (sprint D a = sprint D b) | r \<Rightarrow> r)
      | _ \<Rightarrow> Ok False)"

text \<open>The functions of a condition expression.\<close>

definition condGt :: "('d, 'f) decimalLib \<Rightarrow> ('d, 'f) gval \<Rightarrow> ('d, 'f) gval \<Rightarrow> bool" where
  "condGt D a b \<longleftrightarrow> compareNumbersDecimal D a b > 0"

definition condLt :: "('d, 'f) decimalLib \<Rightarrow> ('d, 'f) gval \<Rightarrow> ('d, 'f) gval \<Rightarrow> bool" where
  "condLt D a b \<longleftrightarrow> compareNumbersDecimal D a b < 0"

definition condGe :: "('d, 'f) decimalLib \<Rightarrow> ('d, 'f) gval \<Rightarrow> ('d, 'f) gval \<Rightarrow> bool" where
  "condGe D a b \<longleftrightarrow> compareNumbersDecimal D a b \<ge> 0"

definition condLe :: "('d, 'f) decimalLib \<Rightarrow> ('d, 'f) gval \<Rightarrow> ('d, 'f) gval \<Rightarrow> bool" where
  "condLe D a b \<longleftrightarrow> compareNumbersDecimal D a b \<le> 0"

definition condNe :: "('d, 'f) decimalLib \<Rightarrow> ('d, 'f) gval \<Rightarrow> ('d, 'f) gval \<Rightarrow> bool res" where
  "condNe D a b = map_res Not (compareEqualDecimal D a b)"

section \<open>What the comparisons mean\<close>

text \<open>The documented behaviour of the library: a decimal denotes a number, comparisons compare the numbers.\<close>

definition decimalOK :: "('d, 'f) decimalLib \<Rightarrow> ('d \<Rightarrow> rat) \<Rightarrow> bool" where
  "decimalOK D num \<longleftrightarrow> num (dcZero D) = 0 \<and> (\<forall>i. num (dcFromInt D i) = of_int i) \<and>
     (\<forall>x y. dcCmp D x y = (if num x < num y then - 1 else if num x = num y then 0 else 1)) \<and>
     (\<forall>x y. dcEqual D x y \<longleftrightarrow> num x = num y) \<and> (\<forall>x. dcIsZero D x \<longleftrightarrow> num x = 0)"

definition numberOf :: "('d, 'f) decimalLib \<Rightarrow> ('d \<Rightarrow> rat) \<Rightarrow> ('d, 'f) gval \<Rightarrow> rat" where
  "numberOf D num v = (case toDecimal D v of Inl _ \<Rightarrow> 0 | Inr d \<Rightarrow> num d)"

lemma compareNumbersDecimal_num:
  assumes "decimalOK D num"
  shows "compareNumbersDecimal D a b =
    (if numberOf D num a < numberOf D num b then - 1 else if numberOf D num a = numberOf D num b then 0 else 1)"
  using assms unfolding decimalOK_def compareNumbersDecimal_def numberOf_def Let_def
  by (cases "toDecimal D a"; cases "toDecimal D b"; simp)


text \<open>Decimals as rational numbers; texts are integers.\<close>

definition ratLib :: "(rat, rat) decimalLib" where
  "ratLib = \<lparr>dcZero = 0, dcFromInt = of_int, dcFromString = (\<lambda>s. if s = ''7'' then Inr 7 else Inl (Err ''not a number'')),
     dcFromFloat32 = id, dcFromFloat = id, dcCmp = (\<lambda>x y. if x < y then - 1 else if x = y then 0 else 1),
     dcEqual = (=), dcIsZero = (\<lambda>x. x = 0), dcString = (\<lambda>_. ''''), formatFloat = (\<lambda>_. '''')\<rparr>"


end
