(* ===== verification/Engine_Plugins.thy ===== *)
theory Engine_Plugins
  imports Plugins
begin

text \<open>
  Plugins shipped with the engine that keep state or decide (\<open>plugins/engine\<close>): the rate limiter, the recorder of
  rollback depths, and the validation of step inputs. Each is a record with one operation per method; the mutex makes
  every method one step, and a tick of the refill goroutine is an operation of its own.
\<close>

section \<open>Rate limiter\<close>

record RateLimiterPlugin =
  rl_tokens :: "(string \<times> int) list"
  rl_maxTokens :: int

definition NewRateLimiter :: "int \<Rightarrow> RateLimiterPlugin" where
  "NewRateLimiter maxTokens = \<lparr>rl_tokens = [], rl_maxTokens = maxTokens\<rparr>"

definition rateKey :: "WorkflowInstance \<Rightarrow> WorkflowStep \<Rightarrow> string" where
  "rateKey instance step = wi_WorkflowID instance @ CHR '':'' # ws_StepName step"

definition takeToken :: "string \<Rightarrow> (RateLimiterPlugin, unit) go" where
  "takeToken key p =
     (let tokens = (case map_of (rl_tokens p) key of None \<Rightarrow> AList.update key (rl_maxTokens p) (rl_tokens p) | Some _ \<Rightarrow> rl_tokens p);
          n = (case map_of tokens key of None \<Rightarrow> 0 | Some n \<Rightarrow> n)
      in if n \<le> 0 then (Fail (Err (''rate limit exceeded for '' @ key)), p\<lparr>rl_tokens := tokens\<rparr>)
         else (Ok (), p\<lparr>rl_tokens := AList.update key (n - 1) tokens\<rparr>))"

definition rateOnStepStart :: "WorkflowInstance \<Rightarrow> WorkflowStep \<Rightarrow> (RateLimiterPlugin, unit) go" where
  "rateOnStepStart instance step = takeToken (rateKey instance step)"

definition refillTokens :: "RateLimiterPlugin \<Rightarrow> RateLimiterPlugin" where
  "refillTokens p = p\<lparr>rl_tokens := map (\<lambda>(key, n). (key, if n < rl_maxTokens p then n + 1 else n)) (rl_tokens p)\<rparr>"

text \<open>A history of the plugin: starts of steps, by key, and ticks. The result says which starts were let through.\<close>

datatype rlEvent = StepStart string | Tick

fun rlRun :: "rlEvent list \<Rightarrow> RateLimiterPlugin \<Rightarrow> (string \<times> bool) list \<times> RateLimiterPlugin" where
  "rlRun [] p = ([], p)"
| "rlRun (Tick # es) p = rlRun es (refillTokens p)"
| "rlRun (StepStart key # es) p =
     (case takeToken key p of (r, p') \<Rightarrow>
      case rlRun es p' of (log, p'') \<Rightarrow> ((key, r = Ok ()) # log, p''))"

definition admitted :: "string \<Rightarrow> (string \<times> bool) list \<Rightarrow> nat" where
  "admitted key log = length (filter (\<lambda>x. x = (key, True)) log)"

definition tokensLeft :: "string \<Rightarrow> RateLimiterPlugin \<Rightarrow> int" where
  "tokensLeft key p = (case map_of (rl_tokens p) key of None \<Rightarrow> rl_maxTokens p | Some n \<Rightarrow> n)"

lemma takeToken_spec:
  "takeToken key p =
     (if tokensLeft key p \<le> 0 then Fail (Err (''rate limit exceeded for '' @ key)) else Ok (), snd (takeToken key p))"
  "tokensLeft k (snd (takeToken key p)) = (if k = key \<and> tokensLeft key p > 0 then tokensLeft k p - 1 else tokensLeft k p)"
  "rl_maxTokens (snd (takeToken key p)) = rl_maxTokens p"
  by (auto simp: takeToken_def tokensLeft_def Let_def split: option.splits)

lemma map_of_refill: "map_of (map (\<lambda>(key, n). (key, f n)) al) k = map_option f (map_of al k)"
  by (induction al) auto

lemma refill_spec:
  "tokensLeft k (refillTokens p) = (if map_of (rl_tokens p) k \<noteq> None \<and> tokensLeft k p < rl_maxTokens p
     then tokensLeft k p + 1 else tokensLeft k p)"
  "rl_maxTokens (refillTokens p) = rl_maxTokens p"
  using map_of_refill [of "\<lambda>n. if n < rl_maxTokens p then n + 1 else n" "rl_tokens p" k]
  by (auto simp: refillTokens_def tokensLeft_def split: option.splits)

text \<open>The bucket of a key: never below zero, never above the maximum, and every start let through costs a token.\<close>

lemma rlRun_conserves:
  assumes "0 \<le> tokensLeft key p" "tokensLeft key p \<le> rl_maxTokens p" "rlRun es p = (log, p')"
  shows "0 \<le> tokensLeft key p' \<and> tokensLeft key p' \<le> rl_maxTokens p' \<and> rl_maxTokens p' = rl_maxTokens p \<and>
    int (admitted key log) + tokensLeft key p' \<le> tokensLeft key p + int (length (filter (\<lambda>e. e = Tick) es))"
  using assms
proof (induction es p arbitrary: log p' rule: rlRun.induct)
  case (1 p)
  then show ?case by (simp add: admitted_def)
next
  case (2 es p)
  have "0 \<le> tokensLeft key (refillTokens p)" "tokensLeft key (refillTokens p) \<le> rl_maxTokens (refillTokens p)"
    using 2(2,3) by (auto simp: refill_spec)
  from 2(1) [OF this] 2(4) show ?case by (auto simp: refill_spec split: if_splits)
next
  case (3 k es p)
  obtain r p1 where r: "takeToken k p = (r, p1)" by (cases "takeToken k p")
  obtain log' p2 where l: "rlRun es p1 = (log', p2)" by (cases "rlRun es p1")
  have log: "log = (k, r = Ok ()) # log'" "p' = p2" using 3(4) by (simp_all add: r l)
  note t = takeToken_spec(1,3) [where key = k and p = p, unfolded r snd_conv]
    takeToken_spec(2) [where k = key and key = k and p = p, unfolded r snd_conv]
  have "0 \<le> tokensLeft key p1" "tokensLeft key p1 \<le> rl_maxTokens p1" using 3(2,3) t by auto
  from 3(1) [OF r [symmetric] this l] t show ?case by (auto simp: log admitted_def split: if_splits)
qed

text \<open>
  C35. The rate limit holds. In every history of a limiter created with a bucket size of at least 0, the number of starts
  let through for a key is at most the bucket size plus the number of refills, the bucket of a key stays between
  0 and its size, and with a positive size a start directly after a refill is let through.
\<close>

theorem rate_limit:
  assumes "0 \<le> maxTokens" "rlRun es (NewRateLimiter maxTokens) = (log, p)"
  shows "int (admitted key log) \<le> maxTokens + int (length (filter (\<lambda>e. e = Tick) es)) \<and>
    0 \<le> tokensLeft key p \<and> tokensLeft key p \<le> maxTokens \<and>
    (0 < maxTokens \<longrightarrow> fst (takeToken key (refillTokens p)) = Ok ())"
proof -
  have n: "tokensLeft key (NewRateLimiter maxTokens) = maxTokens" "rl_maxTokens (NewRateLimiter maxTokens) = maxTokens"
    by (simp_all add: tokensLeft_def NewRateLimiter_def)
  have c: "0 \<le> tokensLeft key p" "tokensLeft key p \<le> rl_maxTokens p" "rl_maxTokens p = maxTokens"
    "int (admitted key log) + tokensLeft key p \<le> maxTokens + int (length (filter (\<lambda>e. e = Tick) es))"
    using rlRun_conserves [OF _ _ assms(2), of key] assms(1) by (simp_all add: n)
  have "tokensLeft key (refillTokens p) > 0" if "0 < maxTokens"
    unfolding refill_spec(1) using that c by (cases "map_of (rl_tokens p) key") (auto simp: tokensLeft_def)
  then have "0 < maxTokens \<longrightarrow> fst (takeToken key (refillTokens p)) = Ok ()"
    by (subst takeToken_spec(1)) auto
  with c show ?thesis by linarith
qed

theorem rate_limit_witness:
  "\<exists>log p. rlRun [StepStart ''w:s'', StepStart ''w:s'', StepStart ''w:s'', Tick, StepStart ''w:s''] (NewRateLimiter 2) = (log, p) \<and>
     log = [(''w:s'', True), (''w:s'', True), (''w:s'', False), (''w:s'', True)] \<and> int (admitted ''w:s'' log) \<le> 3"
proof -
  obtain log p where l: "rlRun [StepStart ''w:s'', StepStart ''w:s'', StepStart ''w:s'', Tick, StepStart ''w:s''] (NewRateLimiter 2) = (log, p)"
    by (cases "rlRun [StepStart ''w:s'', StepStart ''w:s'', StepStart ''w:s'', Tick, StepStart ''w:s''] (NewRateLimiter 2)")
  have "fst (rlRun [StepStart ''w:s'', StepStart ''w:s'', StepStart ''w:s'', Tick, StepStart ''w:s''] (NewRateLimiter 2)) =
      [(''w:s'', True), (''w:s'', True), (''w:s'', False), (''w:s'', True)]" by code_simp
  with rate_limit [OF _ l, of "''w:s''"] l show ?thesis by simp
qed

section \<open>Rollback depth\<close>

type_synonym depths = "(int \<times> int) list"

definition depthOnRollbackStepChain :: "int \<Rightarrow> int \<Rightarrow> depths \<Rightarrow> depths" where
  "depthOnRollbackStepChain instanceID depth m =
     (case map_of m instanceID of
        None \<Rightarrow> AList.update instanceID depth m
      | Some currentMax \<Rightarrow> if depth > currentMax then AList.update instanceID depth m else m)"

definition GetMaxDepth :: "depths \<Rightarrow> int \<Rightarrow> int" where
  "GetMaxDepth m instanceID = (case map_of m instanceID of None \<Rightarrow> 0 | Some d \<Rightarrow> d)"

definition ResetMaxDepth :: "int \<Rightarrow> depths \<Rightarrow> depths" where
  "ResetMaxDepth instanceID m = AList.delete instanceID m"

definition GetAllMaxDepths :: "depths \<Rightarrow> depths" where
  "GetAllMaxDepths m = foldr (\<lambda>(k, v) r. AList.update k v r) m []"

lemma GetAllMaxDepths_same: "map_of (GetAllMaxDepths m) = map_of m"
  by (induction m) (auto simp: GetAllMaxDepths_def)

text \<open>The recorded depth is the greatest one reported since the last reset.\<close>

lemma GetMaxDepth_spec:
  "ds \<noteq> [] \<Longrightarrow> GetMaxDepth (fold (depthOnRollbackStepChain i) ds (ResetMaxDepth i m)) i = Max (set ds)"
proof -
  have d: "map_of (depthOnRollbackStepChain i d m') i = Some (case map_of m' i of None \<Rightarrow> d | Some c \<Rightarrow> max c d)" for d m'
    by (simp add: depthOnRollbackStepChain_def max_def split: option.split)
  have "map_of (fold (depthOnRollbackStepChain i) ds m') i =
      (if ds = [] then map_of m' i else Some (case map_of m' i of None \<Rightarrow> Max (set ds) | Some d \<Rightarrow> max d (Max (set ds))))" for m'
  proof (induction ds arbitrary: m')
    case (Cons d ds)
    show ?case
    proof (cases "ds = []")
      case False
      then show ?thesis
        using Cons.IH [of "depthOnRollbackStepChain i d m'"] by (simp add: d max.assoc split: option.split)
    qed (simp add: d split: option.split)
  qed simp
  then show "ds \<noteq> [] \<Longrightarrow> GetMaxDepth (fold (depthOnRollbackStepChain i) ds (ResetMaxDepth i m)) i = Max (set ds)"
    by (simp add: GetMaxDepth_def ResetMaxDepth_def delete_conv)
qed

section \<open>Validation of inputs\<close>

type_synonym ValidationRule = "raw \<Rightarrow> error option"
type_synonym rules = "(string \<times> ValidationRule list) list"

definition AddRule :: "string \<Rightarrow> ValidationRule \<Rightarrow> rules \<Rightarrow> rules" where
  "AddRule stepName rule rs =
     AList.update stepName ((case map_of rs stepName of None \<Rightarrow> [] | Some xs \<Rightarrow> xs) @ [rule]) rs"

fun checkRules :: "string \<Rightarrow> nat \<Rightarrow> ValidationRule list \<Rightarrow> raw \<Rightarrow> error option" where
  "checkRules stepName i [] input = None"
| "checkRules stepName i (rule # rules) input =
     (case rule input of
        Some err \<Rightarrow> Some (Wrap (''validation rule '' @ itoa (int i) @ '' failed for step '' @ goQuote stepName @ '': '') err)
      | None \<Rightarrow> checkRules stepName (Suc i) rules input)"

definition validateOnStepStart :: "rules \<Rightarrow> WorkflowStep \<Rightarrow> error option" where
  "validateOnStepStart rs step =
     (case map_of rs (ws_StepName step) of None \<Rightarrow> None
      | Some rules \<Rightarrow> checkRules (ws_StepName step) 0 rules (ws_Input step))"

lemma checkRules_None: "checkRules n i rules input = None \<longleftrightarrow> (\<forall>r \<in> set rules. r input = None)"
  by (induction n i rules input rule: checkRules.induct) (auto split: option.split)

text \<open>A step is let through exactly if no rule added for its name objects.\<close>

lemma validateOnStepStart_spec:
  "validateOnStepStart (fold (\<lambda>(n, r). AddRule n r) xs []) step = None \<longleftrightarrow>
   (\<forall>(n, r) \<in> set xs. n = ws_StepName step \<longrightarrow> r (ws_Input step) = None)"
proof -
  define rulesFor :: "rules \<Rightarrow> ValidationRule list" where
    "rulesFor = (\<lambda>rs. case map_of rs (ws_StepName step) of None \<Rightarrow> [] | Some rules \<Rightarrow> rules)"
  have add: "rulesFor (AddRule n r rs) = rulesFor rs @ (if n = ws_StepName step then [r] else [])" for n r rs
    by (simp add: rulesFor_def AddRule_def split: option.split)
  have "set (rulesFor (fold (\<lambda>(n, r). AddRule n r) xs rs)) = set (rulesFor rs) \<union> {r. (ws_StepName step, r) \<in> set xs}" for rs
    by (induction xs arbitrary: rs) (auto simp: add split: prod.splits if_splits)
  moreover have "validateOnStepStart rs step = checkRules (ws_StepName step) 0 (rulesFor rs) (ws_Input step)" for rs
    by (simp add: validateOnStepStart_def rulesFor_def split: option.split)
  ultimately show ?thesis by (auto simp: checkRules_None) (simp_all add: rulesFor_def)
qed

end
