(* ===== verification/Handlers.thy ===== *)
theory Handlers
  imports Environment
begin

text \<open>
  The adapters of \<open>helpers.go\<close> that turn a Go function into a step handler: \<open>JSONHandler\<close> for functions on
  \<open>map[string]any\<close>, \<open>TypedHandler\<close> for functions on types of the client. The function is the client's code and
  answers, fails or panics; for client types so are the decoding and the encoding.
\<close>

datatype 'a fres = FOk 'a | FErr error | FPanic string

text \<open>A map may be nil, which is what decoding \<open>null\<close> leaves; a nil map is encoded as \<open>null\<close>.\<close>

type_synonym gomap = "(string \<times> jval) list option"

definition marshalMap :: "gomap \<Rightarrow> raw" where
  "marshalMap m = RawJson (case m of None \<Rightarrow> JNull | Some kvs \<Rightarrow> JObj kvs)"

fun jsonErr :: "raw \<Rightarrow> error" where
  "jsonErr (RawBad msg) = Err msg"
| "jsonErr _ = Err ''json: cannot unmarshal into Go value of type map[string]interface {}''"

definition JSONHandlerExecute ::
    "(executionContext \<Rightarrow> gomap \<Rightarrow> gomap fres) \<Rightarrow> executionContext \<Rightarrow> raw \<Rightarrow> hres" where
  "JSONHandlerExecute fn stepCtx input =
     (let call = (\<lambda>data. case fn stepCtx data of
            FErr err \<Rightarrow> HErr err | FPanic p \<Rightarrow> HPanic p | FOk result \<Rightarrow> HOk (marshalMap result))
      in if input = RawNil then call (Some [])
         else case unmarshalMap input of
           None \<Rightarrow> HErr (Wrap ''unmarshal input: '' (jsonErr input))
         | Some data \<Rightarrow> call data)"

definition NewJSONHandler :: "string \<Rightarrow> (nat \<Rightarrow> executionContext \<Rightarrow> gomap \<Rightarrow> gomap fres) \<Rightarrow> handler" where
  "NewJSONHandler name fn = \<lparr>hn_Name = name, hn_Execute = (\<lambda>n. JSONHandlerExecute (fn n))\<rparr>"

definition TypedHandlerExecute ::
    "(raw \<Rightarrow> error + 'i) \<Rightarrow> ('o \<Rightarrow> error + raw) \<Rightarrow> (executionContext \<Rightarrow> 'i \<Rightarrow> 'o fres) \<Rightarrow> executionContext \<Rightarrow> raw \<Rightarrow> hres" where
  "TypedHandlerExecute decode encode fn stepCtx input =
     (case decode input of
        Inl err \<Rightarrow> HErr (Wrap ''unmarshal input: '' err)
      | Inr data \<Rightarrow>
          (case fn stepCtx data of
             FErr err \<Rightarrow> HErr err | FPanic p \<Rightarrow> HPanic p
           | FOk result \<Rightarrow> (case encode result of Inl err \<Rightarrow> HErr err | Inr out \<Rightarrow> HOk out)))"

definition NewTypedHandler ::
    "string \<Rightarrow> (raw \<Rightarrow> error + 'i) \<Rightarrow> ('o \<Rightarrow> error + raw) \<Rightarrow> (nat \<Rightarrow> executionContext \<Rightarrow> 'i \<Rightarrow> 'o fres) \<Rightarrow> handler" where
  "NewTypedHandler name decode encode fn = \<lparr>hn_Name = name, hn_Execute = (\<lambda>n. TypedHandlerExecute decode encode (fn n))\<rparr>"

text \<open>
  Data pass through unchanged: with the function that returns its argument, an object and \<open>null\<close> come out as they went in, and an
  absent input as the empty object; every other input is refused before the function is called.
\<close>

lemma JSONHandler_identity:
  "noPanicExecute (NewJSONHandler name (\<lambda>_ _ data. FOk data)) n ctx input =
     (case input of
        RawNil \<Rightarrow> Inr (RawJson (JObj []))
      | RawJson (JObj kvs) \<Rightarrow> Inr input
      | RawJson JNull \<Rightarrow> Inr input
      | _ \<Rightarrow> Inl (Wrap ''unmarshal input: '' (jsonErr input)))"
proof (cases input)
  case (RawJson v)
  then show ?thesis by (cases v) (simp_all add: noPanicExecute_def NewJSONHandler_def JSONHandlerExecute_def marshalMap_def)
qed (simp_all add: noPanicExecute_def NewJSONHandler_def JSONHandlerExecute_def marshalMap_def)

text \<open>The typed adapter is the JSON one at the client's types: decoding what encoding produced is all it needs.\<close>

lemma TypedHandler_roundtrip:
  assumes "\<And>x. \<exists>r. encode x = Inr r \<and> decode r = Inr x"
  shows "\<exists>r. noPanicExecute (NewTypedHandler name decode encode (\<lambda>_ _ x. FOk (f x))) n ctx (projr (encode x)) = Inr r \<and>
    decode r = Inr (f x)"
proof -
  obtain r r' where "encode x = Inr r" "decode r = Inr x" "encode (f x) = Inr r'" "decode r' = Inr (f x)"
    using assms by metis
  then show ?thesis by (simp add: noPanicExecute_def NewTypedHandler_def TypedHandlerExecute_def)
qed

end
