(* ===== verification/Pool.thy ===== *)
theory Pool
  imports Worker_Props
begin

text \<open>
  What runs around the engine: its options (\<open>engine_opts.go\<close>), waiting for an instance (\<open>StartAwait\<close>,
  \<open>awaitCompletion\<close>), and the workers that call \<open>ExecuteNext\<close> (\<open>worker.go\<close>). A goroutine that loops over a \<open>select\<close> is a step
  relation: one step per case of the \<open>select\<close>, in any order, since Go chooses among the ready ones at random. Intervals
  of tickers only decide when a step happens.
\<close>

section \<open>Options\<close>

datatype EngineOption =
    WithEngineStore MemoryStore | WithEnginePluginManager PluginManager
  | WithMissingHandlerCooldown int | WithMissingHandlerLogThrottle int | WithMissingHandlerJitterPct rat
  | WithQueueAgingEnabled bool | WithQueueAgingRate rat

fun applyEngineOption :: "EngineOption \<Rightarrow> Engine \<Rightarrow> Engine" where
  "applyEngineOption (WithEngineStore store) w = w\<lparr>en_store := store\<rparr>"
| "applyEngineOption (WithEnginePluginManager pm) w = w\<lparr>en_pluginManager := Some pm\<rparr>"
| "applyEngineOption (WithMissingHandlerCooldown d) w = w\<lparr>en_missingHandlerCooldown := d\<rparr>"
| "applyEngineOption (WithMissingHandlerLogThrottle d) w = w\<lparr>en_missingHandlerLogThrottle := d\<rparr>"
| "applyEngineOption (WithMissingHandlerJitterPct pct) w = w\<lparr>en_missingHandlerJitterPct := (if pct < 0 then 0 else pct)\<rparr>"
| "applyEngineOption (WithQueueAgingEnabled enabled) w = snd (onStore (SetAgingEnabled enabled) w)"
| "applyEngineOption (WithQueueAgingRate rate) w = snd (onStore (SetAgingRate (if rate < 0 then 0 else rate)) w)"

definition NewEngineWith :: "MemoryStore \<Rightarrow> EngineOption list \<Rightarrow> Engine" where
  "NewEngineWith store opts = foldl (\<lambda>w opt. applyEngineOption opt w) (NewEngine store) opts"

text \<open>Settings of the queue are written to the store the engine has at that moment: those given before the store are lost.\<close>

lemma options_before_store_lost:
  "en_store (NewEngineWith store (opts @ [WithEngineStore s] @ map WithMissingHandlerCooldown ds)) = s"
proof -
  have "en_store (foldl (\<lambda>w opt. applyEngineOption opt w) w (map WithMissingHandlerCooldown ds)) = en_store w" for w
    by (induction ds arbitrary: w) simp_all
  then show ?thesis by (simp add: NewEngineWith_def)
qed

section \<open>Waiting for an instance\<close>

datatype awaitEvent = CtxDone error | ShutdownClosed | TickerFired

text \<open>The loop on a sequence of events, each with the engine's state when it is seen; \<open>None\<close>: the loop is still waiting.\<close>

fun awaitCompletion :: "int \<Rightarrow> (awaitEvent \<times> Engine) list \<Rightarrow> StartAwaitResult res option" where
  "awaitCompletion instanceID [] = None"
| "awaitCompletion instanceID ((CtxDone err, w) # es) = Some (Fail err)"
| "awaitCompletion instanceID ((ShutdownClosed, w) # es) = Some (Fail (Err ''engine shutdown''))"
| "awaitCompletion instanceID ((TickerFired, w) # es) =
     (case fst (awaitTick instanceID w) of
        Ok (Some result) \<Rightarrow> Some (Ok result)
      | Ok None \<Rightarrow> awaitCompletion instanceID es
      | Fail err \<Rightarrow> Some (Fail err) | Panic p \<Rightarrow> Some (Panic p) | Deadlock \<Rightarrow> Some Deadlock | OutOfFuel \<Rightarrow> Some OutOfFuel)"

definition StartAwait :: "env \<Rightarrow> string \<Rightarrow> raw \<Rightarrow> (int \<Rightarrow> (awaitEvent \<times> Engine) list) \<Rightarrow> Engine \<Rightarrow>
    StartAwaitResult res option \<times> Engine" where
  "StartAwait E workflowID input events w =
     (case gwrap ''start workflow: '' (Start E workflowID input) w of
        (Ok instanceID, w') \<Rightarrow> (awaitCompletion instanceID (events instanceID), w')
      | (Fail err, w') \<Rightarrow> (Some (Fail err), w') | (Panic p, w') \<Rightarrow> (Some (Panic p), w')
      | (Deadlock, w') \<Rightarrow> (Some Deadlock, w') | (OutOfFuel, w') \<Rightarrow> (Some OutOfFuel, w'))"

lemma awaitTick_run:
  "awaitTick i w = (case map_of (ms_instances (en_store w)) i of
     None \<Rightarrow> (Fail (Wrap ''get instance: '' EntityNotFound), w)
   | Some inst \<Rightarrow> (Ok (if isTerminalStatus (wi_Status inst)
        then Some \<lparr>sa_InstanceID = wi_ID inst, sa_Status = wi_Status inst, sa_Output = wi_Output inst, sa_Error = wi_Error inst\<rparr>
        else None), w))"
  by (simp add: awaitTick_def GetInstance_run GetInstance_missing split: option.split)

text \<open>
  Waiting reports the outcome. As long as the instance exists and neither the context ends nor the engine shuts down,
  \<open>awaitCompletion\<close> returns at the first tick that finds the instance in a terminal state, with its identifier, status,
  output and error at that moment, and goes on waiting at every earlier one; it never reports a status that is not terminal.
\<close>

lemma awaitCompletion_spec:
  assumes "\<forall>(e, w) \<in> set es. e = TickerFired \<and> map_of (ms_instances (en_store w)) i \<noteq> None"
  shows "awaitCompletion i es =
    (case find (\<lambda>(e, w). isTerminalStatus (wi_Status (the (map_of (ms_instances (en_store w)) i)))) es of
       None \<Rightarrow> None
     | Some (e, w) \<Rightarrow> (let inst = the (map_of (ms_instances (en_store w)) i) in
         Some (Ok \<lparr>sa_InstanceID = wi_ID inst, sa_Status = wi_Status inst, sa_Output = wi_Output inst, sa_Error = wi_Error inst\<rparr>)))"
  using assms
proof (induction i es rule: awaitCompletion.induct)
  case (4 i w es)
  then obtain inst where "map_of (ms_instances (en_store w)) i = Some inst" by auto
  with 4 show ?case by (auto simp: awaitTick_run)
qed simp_all

section \<open>Workers\<close>

record Worker =
  wk_workerID :: string
  wk_stopCh :: bool      \<comment> \<open>closed\<close>
  wk_left :: bool        \<comment> \<open>the loop has returned\<close>

definition NewWorker :: "string \<Rightarrow> Worker" where
  "NewWorker workerID = \<lparr>wk_workerID = workerID, wk_stopCh = False, wk_left = False\<rparr>"

text \<open>\<open>stopOnce\<close> makes a second call harmless.\<close>

definition StopWorker :: "Worker \<Rightarrow> Worker" where
  "StopWorker w = w\<lparr>wk_stopCh := True\<rparr>"

record WorkerPool =
  wp_workers :: "Worker list"
  wp_engine :: Engine
  wp_ctxDone :: bool

definition NewWorkerPool :: "env \<Rightarrow> Engine \<Rightarrow> nat \<Rightarrow> WorkerPool" where
  "NewWorkerPool E engine n = \<lparr>wp_workers = map (\<lambda>i. NewWorker (uuid E i)) [0..<n], wp_engine = engine, wp_ctxDone = False\<rparr>"

definition processNext :: "env \<Rightarrow> nat \<Rightarrow> WorkerPool \<Rightarrow> WorkerPool" where
  "processNext E i p = p\<lparr>wp_engine := snd (ExecuteNext E (wk_workerID (wp_workers p ! i)) (wp_engine p))\<rparr>"

definition StopPool :: "WorkerPool \<Rightarrow> WorkerPool" where
  "StopPool p = p\<lparr>wp_workers := map StopWorker (wp_workers p)\<rparr>"

definition ShutdownPool :: "WorkerPool \<Rightarrow> WorkerPool" where
  "ShutdownPool p = (let p' = StopPool p in p'\<lparr>wp_engine := snd (Shutdown (wp_engine p'))\<rparr>)"

definition SizePool :: "WorkerPool \<Rightarrow> nat" where
  "SizePool p = length (wp_workers p)"

text \<open>The loops of the workers; other calls of the engine go on meanwhile.\<close>

inductive pstep :: "env \<Rightarrow> WorkerPool \<Rightarrow> WorkerPool \<Rightarrow> bool" for E where
  ticked: "i < length (wp_workers p) \<Longrightarrow> \<not> wk_left (wp_workers p ! i) \<Longrightarrow> pstep E p (processNext E i p)"
| stops: "i < length (wp_workers p) \<Longrightarrow> wk_stopCh (wp_workers p ! i) \<or> wp_ctxDone p \<Longrightarrow>
    pstep E p (p\<lparr>wp_workers := (wp_workers p)[i := (wp_workers p ! i)\<lparr>wk_left := True\<rparr>]\<rparr>)"
| ctx: "pstep E p (p\<lparr>wp_ctxDone := True\<rparr>)"
| stop: "pstep E p (StopPool p)"
| shutdown: "pstep E p (ShutdownPool p)"

inductive_cases pstepE: "pstep E p p'"

inductive psteps :: "env \<Rightarrow> WorkerPool \<Rightarrow> WorkerPool \<Rightarrow> bool" for E where
  refl: "psteps E p p"
| trans: "psteps E p q \<Longrightarrow> pstep E q r \<Longrightarrow> psteps E p r"

lemma pstep_down: "pstep E p p' \<Longrightarrow> en_isShuttingDown (wp_engine p) \<Longrightarrow> wp_engine p' = wp_engine p"
proof -
  have up: "w\<lparr>en_isShuttingDown := True\<rparr> = w" if "en_isShuttingDown w" for w :: Engine using that by simp
  assume "pstep E p p'" "en_isShuttingDown (wp_engine p)"
  then show ?thesis
    by cases (auto simp: processNext_def ExecuteNext_idle StopPool_def ShutdownPool_def Shutdown_def up)
qed

lemma pstep_reachable:
  assumes "pstep E p p'" "reachable E (wp_engine p)"
  shows "reachable E (wp_engine p')"
  using assms(1)
  by cases (use assms(2) in \<open>auto simp: processNext_def StopPool_def ShutdownPool_def intro: reachable.step estep.intros\<close>)

text \<open>
  Shutting a pool down is final. A pool on a reachable engine stays on reachable engines, whatever its workers do and in
  whatever order; and once \<open>Shutdown\<close> was called, no further step of any worker, not even of one whose loop has not noticed yet,
  changes the engine or its store.
\<close>

theorem pool_shutdown_final:
  assumes "reachable E (wp_engine p0)" "psteps E p0 p" "psteps E (ShutdownPool p) p'"
  shows "reachable E (wp_engine p') \<and> wp_engine p' = wp_engine (ShutdownPool p) \<and> en_store (wp_engine p') = en_store (wp_engine p)"
proof -
  have p: "reachable E (wp_engine p)"
    using assms(2,1) by (induction rule: psteps.induct) (auto intro: pstep_reachable)
  have d: "en_isShuttingDown (wp_engine (ShutdownPool p))" "en_store (wp_engine (ShutdownPool p)) = en_store (wp_engine p)"
    "reachable E (wp_engine (ShutdownPool p))"
    using pstep_reachable [OF pstep.shutdown p] by (simp_all add: ShutdownPool_def Shutdown_def StopPool_def Let_def)
  have "wp_engine p' = wp_engine (ShutdownPool p)"
    using assms(3) d(1) by (induction rule: psteps.induct) (auto dest: pstep_down)
  with d show ?thesis by simp
qed

theorem pool_shutdown_final_witness:
  "\<exists>p. p = ShutdownPool (NewWorkerPool env0 started0 2) \<and> reachable env0 (wp_engine (processNext env0 1 p)) \<and>
     en_store (wp_engine (processNext env0 1 p)) = en_store started0"
proof -
  define p where "p = NewWorkerPool env0 started0 2"
  have e: "wp_engine p = started0" by (simp add: p_def NewWorkerPool_def)
  have "1 < length (wp_workers (ShutdownPool p))" "\<not> wk_left (wp_workers (ShutdownPool p) ! 1)"
    by (simp_all add: p_def ShutdownPool_def StopPool_def NewWorkerPool_def StopWorker_def NewWorker_def Let_def)
  then have "psteps env0 (ShutdownPool p) (processNext env0 1 (ShutdownPool p))"
    by (intro psteps.trans [OF psteps.refl] pstep.ticked)
  from pool_shutdown_final [OF _ psteps.refl this] e started0_reachable show ?thesis unfolding p_def by metis
qed

end
