(* ===== verification/SqliteStore.thy ===== *)
theory SqliteStore
  imports Store_Reads
begin

text \<open>
  The second implementation of the \<open>Store\<close> interface, on a SQLite database (\<open>sqlite_store.go\<close>). A table is the list of its
  rows in the order of their row identifiers, a statement is the list operation it says, and \<open>AUTOINCREMENT\<close> hands out
  the successor of the last identifier of the table. The schema is that of \<open>migrations_sqlite\<close>: a violated key is an error of
  the statement. Other failures of the database (disk, locks) do not occur here.

  Parameters (\<open>sqldrv\<close>) are the driver's text for a time, by which SQLite compares and sorts times, what \<open>strftime\<close> makes of
  that text, and \<open>json.Unmarshal\<close> of a text that the code puts together by hand. Where texts come from \<open>json.Marshal\<close>, the
  table holds the value. A nil slice of bytes is stored as \<open>NULL\<close>, which \<open>Scan\<close> gives back as nil for a \<open>[]byte\<close> and
  refuses for a \<open>json.RawMessage\<close>.

  Unlike the memory store, most methods hold no lock: each statement is atomic, but a method of several
  statements is not. \<open>UpdateJoinState\<close> is therefore split into its query and its update. Names carry the suffix \<open>_sql\<close>.
\<close>

record sqldrv =
  dv_text :: "int \<Rightarrow> string"                  \<comment> \<open>how a time is stored\<close>
  dv_unix :: "string \<Rightarrow> int option"           \<comment> \<open>\<open>strftime ('%s', t)\<close> as a number, or \<open>NULL\<close>\<close>
  dv_strings :: "string \<Rightarrow> string list"      \<comment> \<open>\<open>json.Unmarshal\<close> into a \<open>[]string\<close>, its error ignored\<close>

record joinRow =
  jr_instance_id :: int
  jr_join_step_name :: string
  jr_waiting_for :: "string list"
  jr_completed :: "string list"
  jr_failed :: "string list"
  jr_join_strategy :: JoinStrategy
  jr_is_ready :: int
  jr_created_at :: int
  jr_updated_at :: int

record SQLiteStore =
  sq_definitions :: "WorkflowDefinition list"
  sq_instances :: "WorkflowInstance list"
  sq_steps :: "WorkflowStep list"
  sq_queue :: "QueueItem list"
  sq_events :: "WorkflowEvent list"
  sq_joins :: "joinRow list"
  sq_cancels :: "WorkflowCancelRequest list"
  sq_decisions :: "HumanDecisionRecord list"
  sq_dlq :: "DeadLetterRecord list"
  sq_seqInstances :: int    \<comment> \<open>\<open>sqlite_sequence\<close>: the last identifier given in each table\<close>
  sq_seqSteps :: int
  sq_seqQueue :: int
  sq_seqEvents :: int
  sq_seqDecisions :: int
  sq_seqDlq :: int
  sq_agingEnabled :: bool
  sq_agingRate :: rat
  sq_cursor :: nat

type_synonym 'a qgo = "(SQLiteStore, 'a) go"

section \<open>Statements\<close>

text \<open>\<open>UPDATE ... WHERE\<close>, and \<open>ORDER BY ... DESC\<close> of rows whose keys compare as texts.\<close>

definition updateRows :: "('r \<Rightarrow> bool) \<Rightarrow> ('r \<Rightarrow> 'r) \<Rightarrow> 'r list \<Rightarrow> 'r list" where
  "updateRows p f rows = map (\<lambda>r. if p r then f r else r) rows"

definition orderDesc :: "('r \<Rightarrow> 'k::linorder) \<Rightarrow> 'r list \<Rightarrow> 'r list" where
  "orderDesc key rows = rev (sort_key key (rev rows))"

text \<open>\<open>LIMIT l OFFSET o\<close>: a negative limit is none, a negative offset is 0.\<close>

definition limitOffset :: "int \<Rightarrow> int \<Rightarrow> 'r list \<Rightarrow> 'r list" where
  "limitOffset limit offset rows =
     (let rest = drop (nat offset) rows in if limit < 0 then rest else take (nat limit) rest)"

text \<open>\<open>QueryRow ... Scan\<close> with \<open>sql.ErrNoRows\<close> turned into \<open>ErrEntityNotFound\<close>.\<close>

definition firstRow :: "('r \<Rightarrow> bool) \<Rightarrow> 'r list \<Rightarrow> 'r res" where
  "firstRow p rows = (case find p rows of None \<Rightarrow> Fail EntityNotFound | Some r \<Rightarrow> Ok r)"

definition scanNull :: "nat \<Rightarrow> string \<Rightarrow> error" where
  "scanNull column name = Wrap (''sql: Scan error on column index '' @ itoa (int column) @ '', name '' @ goQuote name @ '': '')
     (Err ''unsupported Scan, storing driver.Value type <nil> into type *json.RawMessage'')"

definition noRows :: error where
  "noRows = Err ''sql: no rows in result set''"

definition now_sql :: "env \<Rightarrow> SQLiteStore \<Rightarrow> int" where
  "now_sql E s = clk E (sq_cursor s)"

definition tick_sql :: "SQLiteStore \<Rightarrow> SQLiteStore" where
  "tick_sql s = s\<lparr>sq_cursor := Suc (sq_cursor s)\<rparr>"

section \<open>Construction and settings\<close>

definition newSQLiteStore :: SQLiteStore where
  "newSQLiteStore = \<lparr>sq_definitions = [], sq_instances = [], sq_steps = [], sq_queue = [], sq_events = [], sq_joins = [],
     sq_cancels = [], sq_decisions = [], sq_dlq = [], sq_seqInstances = 0, sq_seqSteps = 0, sq_seqQueue = 0,
     sq_seqEvents = 0, sq_seqDecisions = 0, sq_seqDlq = 0, sq_agingEnabled = True, sq_agingRate = 1 / 2, sq_cursor = 0\<rparr>"

text \<open>Opening a database and creating the tables; a file that exists already would bring its rows.\<close>

definition NewSQLiteStore :: "string \<Rightarrow> SQLiteStore res" where
  "NewSQLiteStore filepath = (if filepath = '''' then Fail (Err ''filepath cannot be empty'') else Ok newSQLiteStore)"

definition SetAgingEnabled_sql :: "bool \<Rightarrow> unit qgo" where
  "SetAgingEnabled_sql enabled = gmodify (\<lambda>s. s\<lparr>sq_agingEnabled := enabled\<rparr>)"

datatype float64 = Finite rat | NaN | Inf bool

definition MinAgingRate :: rat where "MinAgingRate = 0"
definition MaxAgingRate :: rat where "MaxAgingRate = 100"

fun clampAgingRate :: "float64 \<Rightarrow> rat" where
  "clampAgingRate NaN = MinAgingRate"
| "clampAgingRate (Inf negative) = MinAgingRate"
| "clampAgingRate (Finite rate) =
     (if rate < MinAgingRate then MinAgingRate else if rate > MaxAgingRate then MaxAgingRate else rate)"

definition SetAgingRate_sql :: "float64 \<Rightarrow> unit qgo" where
  "SetAgingRate_sql rate = gmodify (\<lambda>s. s\<lparr>sq_agingRate := clampAgingRate rate\<rparr>)"

section \<open>Definitions\<close>

text \<open>
  The clause \<open>ON CONFLICT (name, version)\<close> is tried first; otherwise a second row of the same identifier violates the
  primary key.
\<close>

definition SaveWorkflowDefinition_sql :: "env \<Rightarrow> WorkflowDefinition \<Rightarrow> unit qgo" where
  "SaveWorkflowDefinition_sql E def s =
     (let same = (\<lambda>d. wd_Name d = wd_Name def \<and> wd_Version d = wd_Version def); s1 = tick_sql s in
      if \<exists>d\<in>set (sq_definitions s). same d
      then (Ok (), s1\<lparr>sq_definitions := updateRows same (\<lambda>d. d\<lparr>wd_Definition := wd_Definition def\<rparr>) (sq_definitions s)\<rparr>)
      else if \<exists>d\<in>set (sq_definitions s). wd_ID d = wd_ID def
      then (Fail (Err ''UNIQUE constraint failed: workflow_definitions.id''), s1)
      else (Ok (), s1\<lparr>sq_definitions := sq_definitions s @ [def\<lparr>wd_CreatedAt := now_sql E s\<rparr>]\<rparr>))"

definition GetWorkflowDefinition_sql :: "string \<Rightarrow> WorkflowDefinition qgo" where
  "GetWorkflowDefinition_sql i s = (firstRow (\<lambda>d. wd_ID d = i) (sq_definitions s), s)"

section \<open>Instances\<close>

definition GetInstance_sql :: "int \<Rightarrow> WorkflowInstance qgo" where
  "GetInstance_sql instanceID s = (firstRow (\<lambda>i. wi_ID i = instanceID) (sq_instances s), s)"

definition CreateInstance_sql :: "env \<Rightarrow> string \<Rightarrow> raw \<Rightarrow> WorkflowInstance qgo" where
  "CreateInstance_sql E workflowID input s =
     (let now = now_sql E s; i = sq_seqInstances s + 1;
          row = \<lparr>wi_ID = i, wi_WorkflowID = workflowID, wi_Status = StatusPending, wi_Input = input, wi_Output = RawNil,
            wi_Error = None, wi_StartedAt = None, wi_CompletedAt = None, wi_CreatedAt = now, wi_UpdatedAt = now\<rparr>
      in GetInstance_sql i ((tick_sql s)\<lparr>sq_instances := sq_instances s @ [row], sq_seqInstances := i\<rparr>))"

definition UpdateInstanceStatus_sql :: "env \<Rightarrow> int \<Rightarrow> WorkflowStatus \<Rightarrow> raw \<Rightarrow> string option \<Rightarrow> unit qgo" where
  "UpdateInstanceStatus_sql E instanceID status output errMsg s =
     (let now = now_sql E s in
      (Ok (), (tick_sql s)\<lparr>sq_instances := updateRows (\<lambda>i. wi_ID i = instanceID)
         (\<lambda>i. i\<lparr>wi_Status := status, wi_Output := output, wi_Error := errMsg, wi_UpdatedAt := now,
            wi_CompletedAt := (if status \<in> {StatusCompleted, StatusFailed, StatusCancelled} then Some now else wi_CompletedAt i),
            wi_StartedAt := (if wi_StartedAt i = None \<and> status = StatusRunning then Some now else wi_StartedAt i)\<rparr>)
         (sq_instances s)\<rparr>))"

section \<open>Steps\<close>

definition CreateStep_sql :: "env \<Rightarrow> WorkflowStep \<Rightarrow> WorkflowStep qgo" where
  "CreateStep_sql E step s =
     (let row = step\<lparr>ws_ID := sq_seqSteps s + 1, ws_CreatedAt := now_sql E s\<rparr>
      in (Ok row, (tick_sql s)\<lparr>sq_steps := sq_steps s @ [row], sq_seqSteps := ws_ID row\<rparr>))"

definition UpdateStep_sql :: "env \<Rightarrow> int \<Rightarrow> StepStatus \<Rightarrow> raw \<Rightarrow> string option \<Rightarrow> unit qgo" where
  "UpdateStep_sql E stepID status output errMsg s =
     (let now = now_sql E s in
      (Ok (), (tick_sql s)\<lparr>sq_steps := updateRows (\<lambda>st. ws_ID st = stepID)
         (\<lambda>st. st\<lparr>ws_Status := status, ws_Output := output, ws_Error := errMsg,
            ws_CompletedAt := (if status \<in> {StepStatusCompleted, StepStatusFailed, StepStatusSkipped, StepStatusRolledBack}
                               then Some now else ws_CompletedAt st),
            ws_StartedAt := (if ws_StartedAt st = None \<and> status = StepStatusRunning then Some now else ws_StartedAt st),
            ws_RetryCount := (if status = StepStatusFailed then ws_RetryCount st + 1 else ws_RetryCount st)\<rparr>)
         (sq_steps s)\<rparr>))"

definition GetStepsByInstance_sql :: "int \<Rightarrow> WorkflowStep list qgo" where
  "GetStepsByInstance_sql instanceID s =
     (Ok (sort_key ws_ID (filter (\<lambda>st. ws_InstanceID st = instanceID) (sq_steps s))), s)"

definition UpdateStepCompensationRetry_sql :: "int \<Rightarrow> int \<Rightarrow> StepStatus \<Rightarrow> unit qgo" where
  "UpdateStepCompensationRetry_sql stepID retryCount status = gmodify (\<lambda>s. s\<lparr>sq_steps :=
     updateRows (\<lambda>st. ws_ID st = stepID) (\<lambda>st. st\<lparr>ws_CompensationRetryCount := retryCount, ws_Status := status\<rparr>) (sq_steps s)\<rparr>)"

definition UpdateStepStatus_sql :: "int \<Rightarrow> StepStatus \<Rightarrow> unit qgo" where
  "UpdateStepStatus_sql stepID status = gmodify (\<lambda>s. s\<lparr>sq_steps :=
     updateRows (\<lambda>st. ws_ID st = stepID) (\<lambda>st. st\<lparr>ws_Status := status\<rparr>) (sq_steps s)\<rparr>)"

definition GetStepByID_sql :: "int \<Rightarrow> WorkflowStep qgo" where
  "GetStepByID_sql stepID s = (firstRow (\<lambda>st. ws_ID st = stepID) (sq_steps s), s)"

text \<open>\<open>Input\<close> and \<open>Output\<close> are scanned straight into the fields of type \<open>json.RawMessage\<close>.\<close>

definition scanStep :: "WorkflowStep \<Rightarrow> error + WorkflowStep" where
  "scanStep st = (if ws_Input st = RawNil then Inl (scanNull 5 ''input'')
     else if ws_Output st = RawNil then Inl (scanNull 6 ''output'') else Inr st)"

fun scanAll :: "('r \<Rightarrow> error + 'b) \<Rightarrow> 'r list \<Rightarrow> 'b list res" where
  "scanAll scan [] = Ok []"
| "scanAll scan (r # rows) =
     (case scan r of Inl e \<Rightarrow> Fail e
      | Inr x \<Rightarrow> (case scanAll scan rows of Ok xs \<Rightarrow> Ok (x # xs) | other \<Rightarrow> other))"

definition GetActiveStepsForUpdate_sql :: "sqldrv \<Rightarrow> int \<Rightarrow> WorkflowStep list qgo" where
  "GetActiveStepsForUpdate_sql D instanceID s =
     (scanAll scanStep (orderDesc (\<lambda>st. dv_text D (ws_CreatedAt st))
        (filter (\<lambda>st. ws_InstanceID st = instanceID \<and>
             ws_Status st \<in> {StepStatusPending, StepStatusRunning, StepStatusWaitingDecision}) (sq_steps s))), s)"

definition GetHumanDecisionStepByInstanceID_sql :: "sqldrv \<Rightarrow> int \<Rightarrow> WorkflowStep qgo" where
  "GetHumanDecisionStepByInstanceID_sql D instanceID s =
     (case orderDesc (\<lambda>st. dv_text D (ws_CreatedAt st))
             (filter (\<lambda>st. ws_InstanceID st = instanceID \<and> ws_StepType st = StepTypeHuman) (sq_steps s)) of
        [] \<Rightarrow> (Fail EntityNotFound, s) | step # _ \<Rightarrow> (Ok step, s))"

section \<open>Queue\<close>

definition EnqueueStep_sql :: "env \<Rightarrow> int \<Rightarrow> int option \<Rightarrow> int \<Rightarrow> int \<Rightarrow> unit qgo" where
  "EnqueueStep_sql E instanceID stepID priority delay s =
     (let row = \<lparr>qi_ID = sq_seqQueue s + 1, qi_InstanceID = instanceID, qi_StepID = stepID,
            qi_ScheduledAt = now_sql E s + delay, qi_AttemptedAt = None, qi_AttemptedBy = None, qi_Priority = priority\<rparr>
      in (Ok (), (tick_sql s)\<lparr>sq_queue := sq_queue s @ [row], sq_seqQueue := qi_ID row\<rparr>))"

text \<open>\<open>%.6f\<close> rounds to six decimals, ties to the even digit.\<close>

definition sixDecimals :: "rat \<Rightarrow> rat" where
  "sixDecimals x =
     (let y = x * 1000000; n = \<lfloor>y\<rfloor>; d = y - of_int n in
      of_int (if d < 1 / 2 \<or> (d = 1 / 2 \<and> even n) then n else n + 1) / 1000000)"

text \<open>
  The sort expression: \<open>priority\<close>, or with ageing the formula of the query, which is \<open>NULL\<close> when \<open>strftime\<close> cannot read the
  text of \<open>scheduled_at\<close>. SQLite sorts \<open>NULL\<close> as the smallest value; \<open>CAST ... AS INTEGER\<close> truncates.
\<close>

definition orderExpr :: "sqldrv \<Rightarrow> bool \<Rightarrow> rat \<Rightarrow> int \<Rightarrow> QueueItem \<Rightarrow> int option" where
  "orderExpr D agingEnabled agingRate nowUnix q =
     (if agingEnabled
      then (case dv_unix D (dv_text D (qi_ScheduledAt q)) of None \<Rightarrow> None
            | Some t \<Rightarrow> Some (min 100 (qi_Priority q +
                truncRat (of_int (nowUnix - t) * sixDecimals (clampAgingRate (Finite agingRate))))))
      else Some (qi_Priority q))"

definition dequeueKey :: "sqldrv \<Rightarrow> bool \<Rightarrow> rat \<Rightarrow> int \<Rightarrow> QueueItem \<Rightarrow> (nat \<times> int) \<times> string \<times> int" where
  "dequeueKey D agingEnabled agingRate nowUnix q =
     ((case orderExpr D agingEnabled agingRate nowUnix q of None \<Rightarrow> (1, 0) | Some p \<Rightarrow> (0, - p)),
      dv_text D (qi_ScheduledAt q), qi_ID q)"

text \<open>
  One transaction under the mutex. The clock is read for the bound on \<open>scheduled_at\<close>, by the database for
  \<open>strftime ('%s', 'now')\<close>, and for \<open>attempted_at\<close>.
\<close>

definition DequeueStep_sql :: "sqldrv \<Rightarrow> env \<Rightarrow> string \<Rightarrow> QueueItem option qgo" where
  "DequeueStep_sql D E workerID s =
     (let bound = now_sql E s; s1 = tick_sql s; nowUnix = now_sql E s1 div 1000000000; s2 = tick_sql s1;
          now = now_sql E s2; s3 = tick_sql s2;
          due = filter (\<lambda>q. dv_text D (qi_ScheduledAt q) \<le> dv_text D bound \<and> qi_AttemptedBy q = None) (sq_queue s)
      in case sort_key (dequeueKey D (sq_agingEnabled s) (sq_agingRate s) nowUnix) due of
           [] \<Rightarrow> (Ok None, s2)
         | q # _ \<Rightarrow>
             let mine = (\<lambda>r. qi_ID r = qi_ID q \<and> qi_AttemptedBy r = None);
                 claim = (\<lambda>r. r\<lparr>qi_AttemptedAt := Some now, qi_AttemptedBy := Some workerID\<rparr>)
             in if filter mine (sq_queue s) = [] then (Ok None, s3)
                else (Ok (Some (claim q)), s3\<lparr>sq_queue := updateRows mine claim (sq_queue s)\<rparr>))"

definition RemoveFromQueue_sql :: "int \<Rightarrow> unit qgo" where
  "RemoveFromQueue_sql queueID = gmodify (\<lambda>s. s\<lparr>sq_queue := filter (\<lambda>q. qi_ID q \<noteq> queueID) (sq_queue s)\<rparr>)"

definition ReleaseQueueItem_sql :: "int \<Rightarrow> unit qgo" where
  "ReleaseQueueItem_sql queueID = gmodify (\<lambda>s. s\<lparr>sq_queue :=
     updateRows (\<lambda>q. qi_ID q = queueID) (\<lambda>q. q\<lparr>qi_AttemptedAt := None, qi_AttemptedBy := None\<rparr>) (sq_queue s)\<rparr>)"

definition RescheduleAndReleaseQueueItem_sql :: "env \<Rightarrow> int \<Rightarrow> int \<Rightarrow> unit qgo" where
  "RescheduleAndReleaseQueueItem_sql E queueID delay s =
     (Ok (), (tick_sql s)\<lparr>sq_queue := updateRows (\<lambda>q. qi_ID q = queueID)
        (\<lambda>q. q\<lparr>qi_ScheduledAt := now_sql E s + delay, qi_AttemptedAt := None, qi_AttemptedBy := None\<rparr>) (sq_queue s)\<rparr>)"

section \<open>Events\<close>

definition LogEvent_sql :: "env \<Rightarrow> int \<Rightarrow> int option \<Rightarrow> string \<Rightarrow> jval option \<Rightarrow> unit qgo" where
  "LogEvent_sql E instanceID stepID eventType payload s =
     (case payload of
        None \<Rightarrow> (Fail (Err ''json: error calling MarshalJSON''), s)
      | Some pv \<Rightarrow>
          (let row = \<lparr>ev_ID = sq_seqEvents s + 1, ev_InstanceID = instanceID, ev_StepID = stepID,
                 ev_EventType = eventType, ev_Payload = pv, ev_CreatedAt = now_sql E s\<rparr>
           in (Ok (), (tick_sql s)\<lparr>sq_events := sq_events s @ [row], sq_seqEvents := ev_ID row\<rparr>)))"

definition GetWorkflowEvents_sql :: "int \<Rightarrow> WorkflowEvent list qgo" where
  "GetWorkflowEvents_sql instanceID s =
     (Ok (sort_key ev_ID (filter (\<lambda>e. ev_InstanceID e = instanceID) (sq_events s))), s)"

section \<open>Join states\<close>

definition joinKey_sql :: "int \<Rightarrow> string \<Rightarrow> joinRow \<Rightarrow> bool" where
  "joinKey_sql instanceID joinStepName r \<longleftrightarrow> jr_instance_id r = instanceID \<and> jr_join_step_name r = joinStepName"

definition CreateJoinState_sql :: "env \<Rightarrow> int \<Rightarrow> string \<Rightarrow> string list \<Rightarrow> JoinStrategy \<Rightarrow> unit qgo" where
  "CreateJoinState_sql E instanceID joinStepName waitingFor strategy s =
     (if \<exists>r\<in>set (sq_joins s). joinKey_sql instanceID joinStepName r
      then (Fail (Err ''UNIQUE constraint failed: join_states.instance_id, join_states.join_step_name''), tick_sql s)
      else (Ok (), (tick_sql s)\<lparr>sq_joins := sq_joins s @ [\<lparr>jr_instance_id = instanceID, jr_join_step_name = joinStepName,
         jr_waiting_for = waitingFor, jr_completed = [], jr_failed = [], jr_join_strategy = strategy, jr_is_ready = 0,
         jr_created_at = now_sql E s, jr_updated_at = now_sql E s\<rparr>]\<rparr>))"

text \<open>What \<open>UpdateJoinState\<close> works with after its query: \<open>(waitingFor, completed, failed, strategy)\<close>.\<close>

type_synonym joinView = "string list \<times> string list \<times> string list \<times> JoinStrategy"

definition joinQuery_sql :: "int \<Rightarrow> string \<Rightarrow> SQLiteStore \<Rightarrow> joinView option" where
  "joinQuery_sql instanceID joinStepName s =
     map_option (\<lambda>r. (jr_waiting_for r, jr_completed r, jr_failed r, jr_join_strategy r))
       (find (joinKey_sql instanceID joinStepName) (sq_joins s))"

definition joinRead_sql :: "sqldrv \<Rightarrow> env \<Rightarrow> int \<Rightarrow> string \<Rightarrow> string \<Rightarrow> joinView qgo" where
  "joinRead_sql D E instanceID joinStepName completedStep s =
     (case joinQuery_sql instanceID joinStepName s of
        Some v \<Rightarrow> (Ok v, s)
      | None \<Rightarrow> gseq (gignore (CreateJoinState_sql E instanceID joinStepName [completedStep] JoinStrategyAll))
          (gret (dv_strings D (CHR ''['' # CHR 0x22 # completedStep @ [CHR 0x22, CHR '']'']), [], [], JoinStrategyAll)) s)"

definition joinWrite_sql :: "env \<Rightarrow> int \<Rightarrow> string \<Rightarrow> string \<Rightarrow> bool \<Rightarrow> joinView \<Rightarrow> bool qgo" where
  "joinWrite_sql E instanceID joinStepName completedStep success v s =
     (let (waitingFor, completed0, failed0, strategy) = v;
          completed = (if success then addOnce completedStep completed0 else completed0);
          failed = (if success then failed0 else addOnce completedStep failed0);
          isReady = (if strategy = JoinStrategyAny then length completed > 0 \<or> length failed > 0
                     else length completed + length failed \<ge> length waitingFor)
      in (Ok isReady, (tick_sql s)\<lparr>sq_joins := updateRows (joinKey_sql instanceID joinStepName)
           (\<lambda>r. r\<lparr>jr_completed := completed, jr_failed := failed, jr_is_ready := (if isReady then 1 else 0),
              jr_updated_at := now_sql E s\<rparr>) (sq_joins s)\<rparr>))"

definition UpdateJoinState_sql :: "sqldrv \<Rightarrow> env \<Rightarrow> int \<Rightarrow> string \<Rightarrow> string \<Rightarrow> bool \<Rightarrow> bool qgo" where
  "UpdateJoinState_sql D E instanceID joinStepName completedStep success =
     gbind (joinRead_sql D E instanceID joinStepName completedStep)
       (joinWrite_sql E instanceID joinStepName completedStep success)"

definition GetJoinState_sql :: "int \<Rightarrow> string \<Rightarrow> JoinState qgo" where
  "GetJoinState_sql instanceID joinStepName s =
     (case find (joinKey_sql instanceID joinStepName) (sq_joins s) of
        None \<Rightarrow> (Fail EntityNotFound, s)
      | Some r \<Rightarrow> (Ok \<lparr>js_InstanceID = instanceID, js_JoinStepName = joinStepName, js_WaitingFor = WOwn (jr_waiting_for r),
          js_Completed = jr_completed r, js_Failed = jr_failed r, js_JoinStrategy = jr_join_strategy r,
          js_IsReady = (jr_is_ready r = 1), js_CreatedAt = jr_created_at r, js_UpdatedAt = jr_updated_at r\<rparr>, s))"

text \<open>The update both methods end with.\<close>

definition setWaiting_sql :: "env \<Rightarrow> int \<Rightarrow> string \<Rightarrow> string list \<Rightarrow> joinView \<Rightarrow> unit qgo" where
  "setWaiting_sql E instanceID joinStepName waitingFor v s =
     (let (_, completed, failed, strategy) = v;
          isReady = checkJoinReady waitingFor completed failed strategy
      in (Ok (), (tick_sql s)\<lparr>sq_joins := updateRows (joinKey_sql instanceID joinStepName)
           (\<lambda>r. r\<lparr>jr_waiting_for := waitingFor, jr_is_ready := (if isReady then 1 else 0), jr_updated_at := now_sql E s\<rparr>)
           (sq_joins s)\<rparr>))"

text \<open>Without a row the strategy scanned by \<open>AddToJoinWaitFor\<close> is still the empty string.\<close>

definition AddToJoinWaitFor_sql :: "env \<Rightarrow> int \<Rightarrow> string \<Rightarrow> string \<Rightarrow> unit qgo" where
  "AddToJoinWaitFor_sql E instanceID joinStepName stepToAdd s =
     (case joinQuery_sql instanceID joinStepName s of
        None \<Rightarrow> CreateJoinState_sql E instanceID joinStepName [stepToAdd] (JoinStrategyOther '''') s
      | Some v \<Rightarrow> setWaiting_sql E instanceID joinStepName (fst v @ [stepToAdd]) v s)"

definition ReplaceInJoinWaitFor_sql :: "env \<Rightarrow> int \<Rightarrow> string \<Rightarrow> string \<Rightarrow> string \<Rightarrow> unit qgo" where
  "ReplaceInJoinWaitFor_sql E instanceID joinStepName virtualStep realStep s =
     (case joinQuery_sql instanceID joinStepName s of
        None \<Rightarrow> CreateJoinState_sql E instanceID joinStepName [realStep] JoinStrategyAll s
      | Some v \<Rightarrow> setWaiting_sql E instanceID joinStepName
          (if virtualStep \<in> set (fst v) then replaceFirst virtualStep realStep (fst v) else fst v @ [realStep]) v s)"

section \<open>Cancel requests, human decisions\<close>

text \<open>\<open>INSERT OR REPLACE\<close>: the row of the same key is dropped first. The table has no column for \<open>ID\<close>.\<close>

definition CreateCancelRequest_sql :: "env \<Rightarrow> WorkflowCancelRequest \<Rightarrow> unit qgo" where
  "CreateCancelRequest_sql E req s =
     (Ok (), (tick_sql s)\<lparr>sq_cancels := filter (\<lambda>r. cr_InstanceID r \<noteq> cr_InstanceID req) (sq_cancels s) @
        [req\<lparr>cr_ID := 0, cr_CreatedAt := now_sql E s\<rparr>]\<rparr>)"

definition GetCancelRequest_sql :: "int \<Rightarrow> WorkflowCancelRequest qgo" where
  "GetCancelRequest_sql instanceID s = (firstRow (\<lambda>r. cr_InstanceID r = instanceID) (sq_cancels s), s)"

definition DeleteCancelRequest_sql :: "int \<Rightarrow> unit qgo" where
  "DeleteCancelRequest_sql instanceID =
     gmodify (\<lambda>s. s\<lparr>sq_cancels := filter (\<lambda>r. cr_InstanceID r \<noteq> instanceID) (sq_cancels s)\<rparr>)"

definition CreateHumanDecision_sql :: "env \<Rightarrow> HumanDecisionRecord \<Rightarrow> HumanDecisionRecord qgo" where
  "CreateHumanDecision_sql E decision s =
     (let row = decision\<lparr>hd_ID := sq_seqDecisions s + 1, hd_CreatedAt := now_sql E s\<rparr>
      in (Ok row, (tick_sql s)\<lparr>sq_decisions := sq_decisions s @ [row], sq_seqDecisions := hd_ID row\<rparr>))"

definition GetHumanDecision_sql :: "int \<Rightarrow> HumanDecisionRecord qgo" where
  "GetHumanDecision_sql stepID s = (firstRow (\<lambda>d. hd_StepID d = stepID) (sq_decisions s), s)"

section \<open>Dead letters\<close>

definition CreateDeadLetterRecord_sql :: "env \<Rightarrow> DeadLetterRecord \<Rightarrow> unit qgo" where
  "CreateDeadLetterRecord_sql E rec s =
     (let row = rec\<lparr>dl_ID := sq_seqDlq s + 1, dl_CreatedAt := now_sql E s\<rparr>
      in (Ok (), (tick_sql s)\<lparr>sq_dlq := sq_dlq s @ [row], sq_seqDlq := dl_ID row\<rparr>))"

text \<open>
  One transaction under the mutex. A missing record is reported as \<open>sql.ErrNoRows\<close>. Without a new input the step gets the
  input of the record.
\<close>

definition RequeueDeadLetter_sql :: "env \<Rightarrow> int \<Rightarrow> raw option \<Rightarrow> unit qgo" where
  "RequeueDeadLetter_sql E dlqID newInput s =
     (case find (\<lambda>r. dl_ID r = dlqID) (sq_dlq s) of
        None \<Rightarrow> (Fail noRows, s)
      | Some rec \<Rightarrow>
          (let setInput = (case newInput of None \<Rightarrow> dl_Input rec | Some i \<Rightarrow> i);
               steps = updateRows (\<lambda>st. ws_ID st = dl_StepID rec)
                 (\<lambda>st. st\<lparr>ws_Status := StepStatusPending, ws_Input := setInput, ws_Error := None, ws_RetryCount := 0,
                    ws_CompensationRetryCount := 0, ws_StartedAt := None, ws_CompletedAt := None\<rparr>) (sq_steps s);
               item = \<lparr>qi_ID = sq_seqQueue s + 1, qi_InstanceID = dl_InstanceID rec, qi_StepID = Some (dl_StepID rec),
                 qi_ScheduledAt = now_sql E s, qi_AttemptedAt = None, qi_AttemptedBy = None, qi_Priority = PriorityNormal\<rparr>;
               instances = updateRows (\<lambda>i. wi_ID i = dl_InstanceID rec \<and> wi_Status i \<in> {StatusFailed, StatusDLQ})
                 (\<lambda>i. i\<lparr>wi_Status := StatusRunning, wi_Error := None\<rparr>) (sq_instances s)
           in (Ok (), (tick_sql s)\<lparr>sq_steps := steps, sq_queue := sq_queue s @ [item], sq_seqQueue := qi_ID item,
                 sq_instances := instances, sq_dlq := filter (\<lambda>r. dl_ID r \<noteq> dlqID) (sq_dlq s)\<rparr>)))"

definition scanDeadLetter :: "DeadLetterRecord \<Rightarrow> error + DeadLetterRecord" where
  "scanDeadLetter r = (if dl_Input r = RawNil then Inl (scanNull 6 ''input'') else Inr r)"

definition ListDeadLetters_sql :: "sqldrv \<Rightarrow> int \<Rightarrow> int \<Rightarrow> (DeadLetterRecord list \<times> int) qgo" where
  "ListDeadLetters_sql D offset limit s =
     (case scanAll scanDeadLetter (limitOffset limit offset (orderDesc (\<lambda>r. dv_text D (dl_CreatedAt r)) (sq_dlq s))) of
        Ok page \<Rightarrow> (Ok (page, int (length (sq_dlq s))), s)
      | Fail e \<Rightarrow> (Fail e, s) | Panic p \<Rightarrow> (Panic p, s) | Deadlock \<Rightarrow> (Deadlock, s) | OutOfFuel \<Rightarrow> (OutOfFuel, s))"

definition GetDeadLetterByID_sql :: "int \<Rightarrow> DeadLetterRecord qgo" where
  "GetDeadLetterByID_sql i s =
     (case find (\<lambda>r. dl_ID r = i) (sq_dlq s) of
        None \<Rightarrow> (Fail EntityNotFound, s)
      | Some r \<Rightarrow> (case scanDeadLetter r of Inl e \<Rightarrow> (Fail e, s) | Inr x \<Rightarrow> (Ok x, s)))"

definition PauseActiveStepsAndClearQueue_sql :: "int \<Rightarrow> unit qgo" where
  "PauseActiveStepsAndClearQueue_sql instanceID =
     gseq (gmodify (\<lambda>s. s\<lparr>sq_steps := updateRows
             (\<lambda>st. ws_InstanceID st = instanceID \<and>
                ws_Status st \<in> {StepStatusRunning, StepStatusPending, StepStatusCompensation})
             (\<lambda>st. st\<lparr>ws_Status := StepStatusPaused\<rparr>) (sq_steps s)\<rparr>))
          (gmodify (\<lambda>s. s\<lparr>sq_queue := filter (\<lambda>q. qi_InstanceID q \<noteq> instanceID) (sq_queue s)\<rparr>))"

section \<open>Listing and statistics\<close>

definition GetWorkflowDefinitions_sql :: "sqldrv \<Rightarrow> WorkflowDefinition list qgo" where
  "GetWorkflowDefinitions_sql D s = (Ok (orderDesc (\<lambda>d. dv_text D (wd_CreatedAt d)) (sq_definitions s)), s)"

definition GetWorkflowInstances_sql :: "string \<Rightarrow> WorkflowInstance list qgo" where
  "GetWorkflowInstances_sql workflowID s =
     (Ok (sort_key wi_ID (filter (\<lambda>i. wi_WorkflowID i = workflowID) (sq_instances s))), s)"

definition GetAllWorkflowInstances_sql :: "WorkflowInstance list qgo" where
  "GetAllWorkflowInstances_sql s = (Ok (sort_key wi_ID (sq_instances s)), s)"

definition GetWorkflowInstancesPaginated_sql ::
    "sqldrv \<Rightarrow> string \<Rightarrow> int \<Rightarrow> int \<Rightarrow> (WorkflowInstance list \<times> int) qgo" where
  "GetWorkflowInstancesPaginated_sql D workflowID offset limit s =
     (let rows = filter (\<lambda>i. wi_WorkflowID i = workflowID) (sq_instances s)
      in (Ok (limitOffset limit offset (orderDesc (\<lambda>i. dv_text D (wi_CreatedAt i)) rows), int (length rows)), s))"

definition GetAllWorkflowInstancesPaginated_sql :: "sqldrv \<Rightarrow> int \<Rightarrow> int \<Rightarrow> (WorkflowInstance list \<times> int) qgo" where
  "GetAllWorkflowInstancesPaginated_sql D offset limit s =
     (Ok (limitOffset limit offset (orderDesc (\<lambda>i. dv_text D (wi_CreatedAt i)) (sq_instances s)),
          int (length (sq_instances s))), s)"

definition GetWorkflowSteps_sql :: "int \<Rightarrow> WorkflowStep list qgo" where
  "GetWorkflowSteps_sql = GetStepsByInstance_sql"

definition countWhere :: "('r \<Rightarrow> bool) \<Rightarrow> 'r list \<Rightarrow> nat" where
  "countWhere p rows = length (filter p rows)"

text \<open>\<open>SUM\<close> over no rows is \<open>NULL\<close>, which cannot be scanned into an unsigned number.\<close>

definition GetSummaryStats_sql :: "SummaryStats qgo" where
  "GetSummaryStats_sql s =
     (let rows = sq_instances s; count = (\<lambda>st. countWhere (\<lambda>i. wi_Status i = st) rows) in
      if rows = [] then (Fail (Wrap ''sql: Scan error on column index 1: '' (Err ''converting NULL to uint is unsupported'')), s)
      else (Ok \<lparr>ss_TotalWorkflows = length rows, ss_CompletedWorkflows = count StatusCompleted,
             ss_FailedWorkflows = count StatusFailed, ss_RunningWorkflows = count StatusRunning,
             ss_PendingWorkflows = count StatusPending,
             ss_ActiveWorkflows = count StatusRunning + count StatusPending\<rparr>, s))"

definition activeInstance_sql :: "SQLiteStore \<Rightarrow> WorkflowInstance \<Rightarrow> ActiveWorkflowInstance" where
  "activeInstance_sql s i =
     (let mine = filter (\<lambda>st. ws_InstanceID st = wi_ID i) (sq_steps s) in
      \<lparr>aw_ID = wi_ID i, aw_WorkflowID = wi_WorkflowID i,
       aw_WorkflowName = (case find (\<lambda>d. wd_ID d = wi_WorkflowID i) (sq_definitions s) of None \<Rightarrow> '''' | Some d \<Rightarrow> wd_Name d),
       aw_Status = workflowStatusStr (wi_Status i), aw_StartedAt = wi_CreatedAt i, aw_UpdatedAt = wi_UpdatedAt i,
       aw_CurrentStep = (case find (\<lambda>st. ws_Status st = StepStatusRunning) mine of None \<Rightarrow> '''' | Some st \<Rightarrow> ws_StepName st),
       aw_TotalSteps = length mine,
       aw_CompletedSteps = countWhere (\<lambda>st. ws_Status st = StepStatusCompleted) mine,
       aw_RolledBackSteps = countWhere (\<lambda>st. ws_Status st = StepStatusRolledBack) mine\<rparr>)"

definition GetActiveInstances_sql :: "sqldrv \<Rightarrow> ActiveWorkflowInstance list qgo" where
  "GetActiveInstances_sql D s =
     (Ok (map (activeInstance_sql s) (orderDesc (\<lambda>i. dv_text D (wi_CreatedAt i))
        (filter (\<lambda>i. wi_Status i \<in> {StatusRunning, StatusPending, StatusDLQ}) (sq_instances s)))), s)"

definition GetWorkflowStats_sql :: "WorkflowStats list qgo" where
  "GetWorkflowStats_sql s =
     (Ok (map (\<lambda>d. let mine = filter (\<lambda>i. wi_WorkflowID i = wd_ID d) (sq_instances s);
                       count = (\<lambda>st. countWhere (\<lambda>i. wi_Status i = st) mine) in
            \<lparr>wst_WorkflowName = wd_Name d, wst_Version = wd_Version d, wst_TotalInstances = length mine,
             wst_CompletedInstances = count StatusCompleted, wst_FailedInstances = count StatusFailed,
             wst_RunningInstances = count StatusRunning, wst_AverageDuration = 0\<rparr>) (sq_definitions s)), s)"

section \<open>Cleanup\<close>

text \<open>\<open>time.Now ().AddDate (0, 0, -30)\<close>: thirty days, in nanoseconds. \<open>updated_at < ?\<close> compares the texts.\<close>

definition CleanupOldWorkflows_sql :: "sqldrv \<Rightarrow> env \<Rightarrow> unit qgo" where
  "CleanupOldWorkflows_sql D E s =
     (let cutoff = now_sql E s - 30 * 86400 * 1000000000;
          old = (\<lambda>i. dv_text D (wi_UpdatedAt i) < dv_text D cutoff);
          ids = map wi_ID (filter old (sq_instances s))
      in (Ok (), (tick_sql s)\<lparr>sq_events := filter (\<lambda>e. ev_InstanceID e \<notin> set ids) (sq_events s),
            sq_steps := filter (\<lambda>st. ws_InstanceID st \<notin> set ids) (sq_steps s),
            sq_instances := filter (\<lambda>i. \<not> old i) (sq_instances s)\<rparr>))"

end
