(* ===== verification/Store_Refinement.thy ===== *)
theory Store_Refinement
  imports Store_Laws SqliteStore
begin

text \<open>
  What the engine may expect of any store, whichever implementation it is given: an abstract store without times, the calls
  of the interface \<open>Store\<close> on it, and the calls for which the implementations agree (\<open>admissible\<close>). The
  locale \<open>store_impl\<close> is the contract of an implementation, which may restrict the calls by what its tables
  take (\<open>allowed\<close>); the memory store and the SQLite store are interpretations here, PostgreSQL in \<open>Pg_Refinement\<close>. Outside of the admissible calls they differ: an update of an unknown row is an error of the
  memory store only, the memory store fills in a missing idempotency key, and of two cancel requests the
  memory store keeps the first and SQLite the last.
\<close>

section \<open>The abstract store\<close>

text \<open>Rows without their times.\<close>

definition bareI :: "WorkflowInstance \<Rightarrow> WorkflowInstance" where
  "bareI i = i\<lparr>wi_StartedAt := None, wi_CompletedAt := None, wi_CreatedAt := 0, wi_UpdatedAt := 0\<rparr>"

definition bareS :: "WorkflowStep \<Rightarrow> WorkflowStep" where
  "bareS st = st\<lparr>ws_StartedAt := None, ws_CompletedAt := None, ws_CreatedAt := 0\<rparr>"

definition bareQ :: "QueueItem \<Rightarrow> QueueItem" where
  "bareQ q = q\<lparr>qi_ScheduledAt := 0, qi_AttemptedAt := None\<rparr>"

definition bareE :: "WorkflowEvent \<Rightarrow> WorkflowEvent" where
  "bareE e = e\<lparr>ev_CreatedAt := 0\<rparr>"

definition bareH :: "HumanDecisionRecord \<Rightarrow> HumanDecisionRecord" where
  "bareH d = d\<lparr>hd_CreatedAt := 0\<rparr>"

definition bareC :: "WorkflowCancelRequest \<Rightarrow> WorkflowCancelRequest" where
  "bareC r = r\<lparr>cr_ID := 0, cr_CreatedAt := 0\<rparr>"

lemmas bare_defs = bareI_def bareS_def bareQ_def bareE_def bareH_def bareC_def

lemma bare_fields [simp]:
  "wi_ID (bareI i) = wi_ID i" "ws_ID (bareS st) = ws_ID st" "ws_InstanceID (bareS st) = ws_InstanceID st"
  "qi_ID (bareQ q) = qi_ID q" "hd_StepID (bareH d) = hd_StepID d" "cr_InstanceID (bareC r) = cr_InstanceID r"
  by (simp_all add: bare_defs)

record astore =
  as_instances :: "int \<rightharpoonup> WorkflowInstance"
  as_steps :: "int \<rightharpoonup> WorkflowStep"
  as_queue :: "int \<rightharpoonup> QueueItem"
  as_events :: "WorkflowEvent list"
  as_decisions :: "int \<rightharpoonup> HumanDecisionRecord"
  as_cancels :: "int \<rightharpoonup> WorkflowCancelRequest"
  as_nextInstance :: int
  as_nextStep :: int
  as_nextItem :: int
  as_nextEvent :: int
  as_nextDecision :: int

definition aEmpty :: astore where
  "aEmpty = \<lparr>as_instances = Map.empty, as_steps = Map.empty, as_queue = Map.empty, as_events = [],
     as_decisions = Map.empty, as_cancels = Map.empty, as_nextInstance = 1, as_nextStep = 1, as_nextItem = 1,
     as_nextEvent = 1, as_nextDecision = 1\<rparr>"

datatype storeOp =
    DoCreateInstance string raw
  | DoUpdateInstance int WorkflowStatus raw "string option"
  | DoGetInstance int
  | DoCreateStep WorkflowStep
  | DoUpdateStep int StepStatus raw "string option"
  | DoUpdateStepStatus int StepStatus
  | DoCompensationRetry int int StepStatus
  | DoGetStep int
  | DoGetSteps int
  | DoEnqueue int "int option" int int
  | DoRemove int
  | DoRelease int
  | DoLog int "int option" string "jval option"
  | DoDecide HumanDecisionRecord
  | DoGetDecision int
  | DoRequest WorkflowCancelRequest
  | DoGetRequest int
  | DoDeleteRequest int

datatype answer =
    Unit | Failed error | AnInstance WorkflowInstance | AStep WorkflowStep | TheSteps "WorkflowStep set"
  | ADecision HumanDecisionRecord | ARequest WorkflowCancelRequest | Crashed

definition got :: "('a \<Rightarrow> answer) \<Rightarrow> 'a option \<Rightarrow> answer" where
  "got f x = (case x of None \<Rightarrow> Failed EntityNotFound | Some y \<Rightarrow> f y)"

definition upd :: "('k \<rightharpoonup> 'v) \<Rightarrow> 'k \<Rightarrow> ('v \<Rightarrow> 'v) \<Rightarrow> 'k \<rightharpoonup> 'v" where
  "upd m k f = m(k := map_option f (m k))"

definition newInstance :: "int \<Rightarrow> string \<Rightarrow> raw \<Rightarrow> WorkflowInstance" where
  "newInstance k workflowID input = \<lparr>wi_ID = k, wi_WorkflowID = workflowID, wi_Status = StatusPending, wi_Input = input,
     wi_Output = RawNil, wi_Error = None, wi_StartedAt = None, wi_CompletedAt = None, wi_CreatedAt = 0, wi_UpdatedAt = 0\<rparr>"

definition newItem :: "int \<Rightarrow> int \<Rightarrow> int option \<Rightarrow> int \<Rightarrow> QueueItem" where
  "newItem k instanceID stepID priority = \<lparr>qi_ID = k, qi_InstanceID = instanceID, qi_StepID = stepID, qi_ScheduledAt = 0,
     qi_AttemptedAt = None, qi_AttemptedBy = None, qi_Priority = priority\<rparr>"

fun aop :: "storeOp \<Rightarrow> astore \<Rightarrow> answer \<times> astore" where
  "aop (DoCreateInstance workflowID input) A =
     (let i = newInstance (as_nextInstance A) workflowID input
      in (AnInstance i, A\<lparr>as_instances := (as_instances A)(wi_ID i \<mapsto> i), as_nextInstance := as_nextInstance A + 1\<rparr>))"
| "aop (DoUpdateInstance k status output errMsg) A =
     (Unit, A\<lparr>as_instances := upd (as_instances A) k (\<lambda>i. i\<lparr>wi_Status := status, wi_Output := output, wi_Error := errMsg\<rparr>)\<rparr>)"
| "aop (DoGetInstance k) A = (got AnInstance (as_instances A k), A)"
| "aop (DoCreateStep step) A =
     (let st = bareS (step\<lparr>ws_ID := as_nextStep A\<rparr>)
      in (AStep st, A\<lparr>as_steps := (as_steps A)(ws_ID st \<mapsto> st), as_nextStep := as_nextStep A + 1\<rparr>))"
| "aop (DoUpdateStep k status output errMsg) A =
     (Unit, A\<lparr>as_steps := upd (as_steps A) k (\<lambda>st. st\<lparr>ws_Status := status, ws_Output := output, ws_Error := errMsg,
        ws_RetryCount := (if status = StepStatusFailed then ws_RetryCount st + 1 else ws_RetryCount st)\<rparr>)\<rparr>)"
| "aop (DoUpdateStepStatus k status) A = (Unit, A\<lparr>as_steps := upd (as_steps A) k (\<lambda>st. st\<lparr>ws_Status := status\<rparr>)\<rparr>)"
| "aop (DoCompensationRetry k n status) A =
     (Unit, A\<lparr>as_steps := upd (as_steps A) k (\<lambda>st. st\<lparr>ws_CompensationRetryCount := n, ws_Status := status\<rparr>)\<rparr>)"
| "aop (DoGetStep k) A = (got AStep (as_steps A k), A)"
| "aop (DoGetSteps i) A = (TheSteps {st \<in> ran (as_steps A). ws_InstanceID st = i}, A)"
| "aop (DoEnqueue instanceID stepID priority delay) A =
     (Unit, A\<lparr>as_queue := (as_queue A)(as_nextItem A \<mapsto> newItem (as_nextItem A) instanceID stepID priority),
        as_nextItem := as_nextItem A + 1\<rparr>)"
| "aop (DoRemove k) A = (Unit, A\<lparr>as_queue := (as_queue A)(k := None)\<rparr>)"
| "aop (DoRelease k) A = (Unit, A\<lparr>as_queue := upd (as_queue A) k (\<lambda>q. q\<lparr>qi_AttemptedBy := None\<rparr>)\<rparr>)"
| "aop (DoLog instanceID stepID eventType payload) A =
     (case payload of None \<Rightarrow> (Failed (Err ''json: error calling MarshalJSON''), A)
      | Some pv \<Rightarrow> (Unit, A\<lparr>as_events := as_events A @ [\<lparr>ev_ID = as_nextEvent A, ev_InstanceID = instanceID,
          ev_StepID = stepID, ev_EventType = eventType, ev_Payload = pv, ev_CreatedAt = 0\<rparr>],
          as_nextEvent := as_nextEvent A + 1\<rparr>))"
| "aop (DoDecide d) A =
     (Unit, A\<lparr>as_decisions := (as_decisions A)(hd_StepID d \<mapsto> bareH (d\<lparr>hd_ID := as_nextDecision A\<rparr>)),
        as_nextDecision := as_nextDecision A + 1\<rparr>)"
| "aop (DoGetDecision k) A = (got ADecision (as_decisions A k), A)"
| "aop (DoRequest r) A = (Unit, A\<lparr>as_cancels := (as_cancels A)(cr_InstanceID r \<mapsto> bareC r)\<rparr>)"
| "aop (DoGetRequest k) A = (got ARequest (as_cancels A k), A)"
| "aop (DoDeleteRequest k) A = (Unit, A\<lparr>as_cancels := (as_cancels A)(k := None)\<rparr>)"

fun admissible :: "storeOp \<Rightarrow> astore \<Rightarrow> bool" where
  "admissible (DoUpdateInstance k status output errMsg) A = (as_instances A k \<noteq> None)"
| "admissible (DoCreateStep step) A = (ws_IdempotencyKey step \<noteq> '''')"
| "admissible (DoUpdateStep k status output errMsg) A = (as_steps A k \<noteq> None)"
| "admissible (DoUpdateStepStatus k status) A = (as_steps A k \<noteq> None)"
| "admissible (DoCompensationRetry k n status) A = (as_steps A k \<noteq> None)"
| "admissible (DoRelease k) A = (as_queue A k \<noteq> None)"
| "admissible (DoDecide d) A = (as_decisions A (hd_StepID d) = None)"
| "admissible (DoRequest r) A = (as_cancels A (cr_InstanceID r) = None)"
| "admissible _ A = True"

fun admissibles :: "storeOp list \<Rightarrow> astore \<Rightarrow> bool" where
  "admissibles [] A = True"
| "admissibles (op # ops) A = (admissible op A \<and> admissibles ops (snd (aop op A)))"

fun runStore :: "(storeOp \<Rightarrow> 's \<Rightarrow> answer \<times> 's) \<Rightarrow> storeOp list \<Rightarrow> 's \<Rightarrow> answer list \<times> 's" where
  "runStore exec [] s = ([], s)"
| "runStore exec (op # ops) s =
     (case exec op s of (a, s') \<Rightarrow> case runStore exec ops s' of (answers, s'') \<Rightarrow> (a # answers, s''))"

section \<open>The contract of an implementation\<close>

locale store_impl =
  fixes absOf :: "'s \<Rightarrow> astore" and inv :: "'s \<Rightarrow> bool" and start :: 's and exec :: "storeOp \<Rightarrow> 's \<Rightarrow> answer \<times> 's"
    and allowed :: "storeOp \<Rightarrow> bool"
  assumes start_inv: "inv start" and start_abs: "absOf start = aEmpty"
    and exec_inv: "inv s \<Longrightarrow> allowed op \<Longrightarrow> inv (snd (exec op s))"
    and exec_abs: "inv s \<Longrightarrow> allowed op \<Longrightarrow> admissible op (absOf s) \<Longrightarrow>
      aop op (absOf s) = (fst (exec op s), absOf (snd (exec op s)))"
begin

lemma run_refines:
  "inv s \<Longrightarrow> list_all allowed ops \<Longrightarrow> admissibles ops (absOf s) \<Longrightarrow>
    runStore aop ops (absOf s) = (fst (runStore exec ops s), absOf (snd (runStore exec ops s))) \<and> inv (snd (runStore exec ops s))"
proof (induction ops arbitrary: s)
  case (Cons op ops)
  obtain a s' where e: "exec op s = (a, s')" by (cases "exec op s")
  have op: "allowed op" "admissible op (absOf s)" using Cons.prems by auto
  have s': "aop op (absOf s) = (a, absOf s')" "inv s'"
    using exec_abs [OF Cons.prems(1) op] exec_inv [OF Cons.prems(1) op(1)] e by auto
  obtain answers s'' where r: "runStore exec ops s' = (answers, s'')" by (cases "runStore exec ops s'")
  show ?case using Cons.IH [OF s'(2)] Cons.prems s' r e by simp
qed simp

lemma run_from_start:
  assumes "list_all allowed ops" "admissibles ops aEmpty"
  shows "runStore aop ops aEmpty = (fst (runStore exec ops start), absOf (snd (runStore exec ops start)))"
  using run_refines [OF start_inv assms(1)] assms(2) by (simp add: start_abs)

end

section \<open>The memory store\<close>

text \<open>The answer of a call; anything but a value or an error would be \<open>Crashed\<close>.\<close>

fun answerOf :: "('a \<Rightarrow> answer) \<Rightarrow> 'a res \<times> 's \<Rightarrow> answer \<times> 's" where
  "answerOf f (Ok x, s) = (f x, s)"
| "answerOf f (Fail e, s) = (Failed e, s)"
| "answerOf f (_, s) = (Crashed, s)"

fun memOp :: "env \<Rightarrow> storeOp \<Rightarrow> MemoryStore \<Rightarrow> answer \<times> MemoryStore" where
  "memOp E (DoCreateInstance workflowID input) s = answerOf (\<lambda>i. AnInstance (bareI i)) (CreateInstance E workflowID input s)"
| "memOp E (DoUpdateInstance k status output errMsg) s = answerOf (\<lambda>_. Unit) (UpdateInstanceStatus E k status output errMsg s)"
| "memOp E (DoGetInstance k) s = answerOf (\<lambda>i. AnInstance (bareI i)) (GetInstance k s)"
| "memOp E (DoCreateStep step) s = answerOf (\<lambda>st. AStep (bareS st)) (CreateStep E step s)"
| "memOp E (DoUpdateStep k status output errMsg) s = answerOf (\<lambda>_. Unit) (UpdateStep E k status output errMsg s)"
| "memOp E (DoUpdateStepStatus k status) s = answerOf (\<lambda>_. Unit) (UpdateStepStatus k status s)"
| "memOp E (DoCompensationRetry k n status) s = answerOf (\<lambda>_. Unit) (UpdateStepCompensationRetry k n status s)"
| "memOp E (DoGetStep k) s = answerOf (\<lambda>st. AStep (bareS st)) (GetStepByID k s)"
| "memOp E (DoGetSteps i) s = answerOf (\<lambda>xs. TheSteps (bareS ` set xs)) (GetStepsByInstance i s)"
| "memOp E (DoEnqueue i st priority delay) s = answerOf (\<lambda>_. Unit) (EnqueueStep E i st priority delay s)"
| "memOp E (DoRemove k) s = answerOf (\<lambda>_. Unit) (RemoveFromQueue k s)"
| "memOp E (DoRelease k) s = answerOf (\<lambda>_. Unit) (ReleaseQueueItem k s)"
| "memOp E (DoLog i st eventType payload) s = answerOf (\<lambda>_. Unit) (LogEvent E i st eventType payload s)"
| "memOp E (DoDecide d) s = answerOf (\<lambda>_. Unit) (CreateHumanDecision E d s)"
| "memOp E (DoGetDecision k) s = answerOf (\<lambda>d. ADecision (bareH d)) (GetHumanDecision k s)"
| "memOp E (DoRequest r) s = answerOf (\<lambda>_. Unit) (CreateCancelRequest E r s)"
| "memOp E (DoGetRequest k) s = answerOf (\<lambda>r. ARequest (bareC r)) (GetCancelRequest k s)"
| "memOp E (DoDeleteRequest k) s = answerOf (\<lambda>_. Unit) (DeleteCancelRequest k s)"

definition viewT :: "('e \<Rightarrow> 'e) \<Rightarrow> ('k \<times> 'e) list \<Rightarrow> 'k \<rightharpoonup> 'e" where
  "viewT bare t = (\<lambda>k. map_option bare (map_of t k))"

definition absM :: "MemoryStore \<Rightarrow> astore" where
  "absM s = \<lparr>as_instances = viewT bareI (ms_instances s), as_steps = viewT bareS (ms_steps s),
     as_queue = viewT bareQ (ms_queue s), as_events = map bareE (ms_events s),
     as_decisions = viewT bareH (ms_humanDecisions s), as_cancels = viewT bareC (ms_cancelRequests s),
     as_nextInstance = ms_nextInstanceID s, as_nextStep = ms_nextStepID s, as_nextItem = ms_nextQueueID s,
     as_nextEvent = ms_nextEventID s, as_nextDecision = ms_nextHumanDecisionID s\<rparr>"

named_theorems view_rules \<open>how the abstraction of a table follows its updates\<close>

lemma viewT_insert [view_rules]: "viewT bare (AList.update k e t) = (viewT bare t)(k \<mapsto> bare e)"
  by (auto simp: viewT_def)

lemma viewT_delete [view_rules]: "viewT bare (AList.delete k t) = (viewT bare t)(k := None)"
  by (auto simp: viewT_def delete_conv)

lemma upd_viewT: "map_of t k = Some e \<Longrightarrow> upd (viewT bare t) k g = (viewT bare t)(k \<mapsto> g (bare e))"
  by (simp add: viewT_def upd_def)

lemma viewT_Some: "viewT bare t k = Some y \<longleftrightarrow> (\<exists>e. map_of t k = Some e \<and> y = bare e)"
  by (auto simp: viewT_def)

lemma got_viewT: "got f (viewT bare t k) = (case map_of t k of None \<Rightarrow> Failed EntityNotFound | Some e \<Rightarrow> f (bare e))"
  by (simp add: got_def viewT_def split: option.split)

lemma memOp_inv: "store_wf s \<Longrightarrow> store_wf (snd (memOp E op s))"
proof -
  have step: "store_wf s \<Longrightarrow> go_rel store_evolves m \<Longrightarrow> store_wf (snd (answerOf f (m s)))" for f :: "'b \<Rightarrow> answer" and m
    using go_rel_snd [of store_evolves m s] by (cases "m s"; cases "fst (m s)") (auto simp: store_evolves_def)
  show "store_wf s \<Longrightarrow> store_wf (snd (memOp E op s))"
    by (cases op) (simp_all add: step wf.rel_ops)
qed

lemma steps_viewT:
  assumes wf: "store_wf s"
  shows "{st \<in> ran (viewT bareS (ms_steps s)). ws_InstanceID st = i} = bareS ` set (stepsOfInstance s i)"
proof (intro set_eqI iffI)
  fix st assume "st \<in> {st \<in> ran (viewT bareS (ms_steps s)). ws_InstanceID st = i}"
  then obtain k r where r: "map_of (ms_steps s) k = Some r" "st = bareS r" "ws_InstanceID r = i"
    by (auto simp: ran_def viewT_def)
  then have "r \<in> set (stepsOfInstance s i)"
    using set_stepsOfInstance [OF wf] tableOK_id [OF store_wfD(2) [OF wf] r(1)] by simp
  then show "st \<in> bareS ` set (stepsOfInstance s i)" using r(2) by simp
next
  fix st assume "st \<in> bareS ` set (stepsOfInstance s i)"
  then obtain r where "st = bareS r" "map_of (ms_steps s) (ws_ID r) = Some r" "ws_InstanceID r = i"
    using set_stepsOfInstance [OF wf] by auto
  then show "st \<in> {st \<in> ran (viewT bareS (ms_steps s)). ws_InstanceID st = i}"
    by (auto simp: ran_def viewT_def intro!: exI [of _ "ws_ID r"])
qed

lemma bare_after:
  "bareI (instanceAfter a b status output errMsg i) = (bareI i)\<lparr>wi_Status := status, wi_Output := output, wi_Error := errMsg\<rparr>"
  "bareS (stepAfter a sst output errMsg st) = (bareS st)\<lparr>ws_Status := sst, ws_Output := output, ws_Error := errMsg,
     ws_RetryCount := (if sst = StepStatusFailed then ws_RetryCount (bareS st) + 1 else ws_RetryCount (bareS st))\<rparr>"
  by (simp_all add: bareI_def bareS_def instanceAfter_def stepAfter_def Let_def)

lemma bare_writes:
  "bareS (st\<lparr>ws_Status := v\<rparr>) = (bareS st)\<lparr>ws_Status := v\<rparr>"
  "bareS (st\<lparr>ws_CompensationRetryCount := n\<rparr>) = (bareS st)\<lparr>ws_CompensationRetryCount := n\<rparr>"
  "bareQ (q\<lparr>qi_AttemptedAt := None, qi_AttemptedBy := None\<rparr>) = (bareQ q)\<lparr>qi_AttemptedBy := None\<rparr>"
  by (simp_all add: bareS_def bareQ_def)

lemma memOp_update:
  assumes "admissible op (absM s)"
    and "op \<in> {DoUpdateInstance k status output errMsg, DoUpdateStep k sst output errMsg, DoUpdateStepStatus k sst,
           DoCompensationRetry k n sst, DoRelease k}"
  shows "aop op (absM s) = (fst (memOp E op s), absM (snd (memOp E op s)))"
  using assms
  by (elim insertE emptyE)
    (auto simp: viewT_Some absM_def UpdateInstanceStatus_def UpdateStep_def UpdateStepStatus_def
      UpdateStepCompensationRetry_def ReleaseQueueItem_def view_rules bare_after bare_writes upd_viewT Let_def)

lemma memOp_abs:
  assumes wf: "store_wf s" and adm: "admissible op (absM s)"
  shows "aop op (absM s) = (fst (memOp E op s), absM (snd (memOp E op s)))"
proof (cases op)
  case (DoLog i st ty pl)
  show ?thesis by (cases pl) (simp_all add: DoLog absM_def LogEvent_def Let_def bareE_def)
next
  case (DoRequest r)
  then have "map_of (ms_cancelRequests s) (cr_InstanceID r) = None"
    using adm by (simp add: absM_def viewT_def)
  then show ?thesis by (simp add: DoRequest absM_def CreateCancelRequest_def view_rules bareC_def)
next
  case (DoGetSteps i)
  show ?thesis using steps_viewT [OF wf, of i] by (simp add: DoGetSteps absM_def GetStepsByInstance_def)
next
  case DoUpdateInstance with adm show ?thesis by (intro memOp_update) auto
next
  case DoUpdateStep with adm show ?thesis by (intro memOp_update) auto
next
  case DoUpdateStepStatus with adm show ?thesis by (intro memOp_update) auto
next
  case DoCompensationRetry with adm show ?thesis by (intro memOp_update) auto
next
  case DoRelease with adm show ?thesis by (intro memOp_update) auto
qed (use adm in \<open>auto simp: absM_def CreateInstance_def CreateStep_def GetInstance_def GetStepByID_def
    EnqueueStep_def RemoveFromQueue_def CreateHumanDecision_def GetHumanDecision_def
    GetCancelRequest_def DeleteCancelRequest_def Let_def view_rules got_viewT newInstance_def newItem_def
    bareI_def bareS_def bareQ_def bareH_def split: option.split\<close>)

lemma absM_start: "absM NewMemoryStore = aEmpty"
  by (simp add: absM_def aEmpty_def NewMemoryStore_def viewT_def)

interpretation mem: store_impl absM store_wf NewMemoryStore "memOp E" "\<lambda>_. True" for E
  by unfold_locales (simp_all add: NewMemoryStore_wf absM_start memOp_inv memOp_abs)

section \<open>The SQLite store\<close>

fun sqlOp :: "env \<Rightarrow> storeOp \<Rightarrow> SQLiteStore \<Rightarrow> answer \<times> SQLiteStore" where
  "sqlOp E (DoCreateInstance workflowID input) s = answerOf (\<lambda>i. AnInstance (bareI i)) (CreateInstance_sql E workflowID input s)"
| "sqlOp E (DoUpdateInstance k status output errMsg) s = answerOf (\<lambda>_. Unit) (UpdateInstanceStatus_sql E k status output errMsg s)"
| "sqlOp E (DoGetInstance k) s = answerOf (\<lambda>i. AnInstance (bareI i)) (GetInstance_sql k s)"
| "sqlOp E (DoCreateStep step) s = answerOf (\<lambda>st. AStep (bareS st)) (CreateStep_sql E step s)"
| "sqlOp E (DoUpdateStep k status output errMsg) s = answerOf (\<lambda>_. Unit) (UpdateStep_sql E k status output errMsg s)"
| "sqlOp E (DoUpdateStepStatus k status) s = answerOf (\<lambda>_. Unit) (UpdateStepStatus_sql k status s)"
| "sqlOp E (DoCompensationRetry k n status) s = answerOf (\<lambda>_. Unit) (UpdateStepCompensationRetry_sql k n status s)"
| "sqlOp E (DoGetStep k) s = answerOf (\<lambda>st. AStep (bareS st)) (GetStepByID_sql k s)"
| "sqlOp E (DoGetSteps i) s = answerOf (\<lambda>xs. TheSteps (bareS ` set xs)) (GetStepsByInstance_sql i s)"
| "sqlOp E (DoEnqueue i st priority delay) s = answerOf (\<lambda>_. Unit) (EnqueueStep_sql E i st priority delay s)"
| "sqlOp E (DoRemove k) s = answerOf (\<lambda>_. Unit) (RemoveFromQueue_sql k s)"
| "sqlOp E (DoRelease k) s = answerOf (\<lambda>_. Unit) (ReleaseQueueItem_sql k s)"
| "sqlOp E (DoLog i st eventType payload) s = answerOf (\<lambda>_. Unit) (LogEvent_sql E i st eventType payload s)"
| "sqlOp E (DoDecide d) s = answerOf (\<lambda>_. Unit) (CreateHumanDecision_sql E d s)"
| "sqlOp E (DoGetDecision k) s = answerOf (\<lambda>d. ADecision (bareH d)) (GetHumanDecision_sql k s)"
| "sqlOp E (DoRequest r) s = answerOf (\<lambda>_. Unit) (CreateCancelRequest_sql E r s)"
| "sqlOp E (DoGetRequest k) s = answerOf (\<lambda>r. ARequest (bareC r)) (GetCancelRequest_sql k s)"
| "sqlOp E (DoDeleteRequest k) s = answerOf (\<lambda>_. Unit) (DeleteCancelRequest_sql k s)"

definition viewR :: "('r \<Rightarrow> 'r) \<Rightarrow> ('r \<Rightarrow> int) \<Rightarrow> 'r list \<Rightarrow> int \<rightharpoonup> 'r" where
  "viewR bare key rows = (\<lambda>k. map_option bare (find (\<lambda>r. key r = k) rows))"

definition absQ :: "SQLiteStore \<Rightarrow> astore" where
  "absQ s = \<lparr>as_instances = viewR bareI wi_ID (sq_instances s), as_steps = viewR bareS ws_ID (sq_steps s),
     as_queue = viewR bareQ qi_ID (sq_queue s), as_events = map bareE (sq_events s),
     as_decisions = viewR bareH hd_StepID (sq_decisions s), as_cancels = viewR bareC cr_InstanceID (sq_cancels s),
     as_nextInstance = sq_seqInstances s + 1, as_nextStep = sq_seqSteps s + 1, as_nextItem = sq_seqQueue s + 1,
     as_nextEvent = sq_seqEvents s + 1, as_nextDecision = sq_seqDecisions s + 1\<rparr>"

text \<open>Identifiers are unique and not beyond the sequence of their table.\<close>

definition rowsOK :: "('r \<Rightarrow> int) \<Rightarrow> int \<Rightarrow> 'r list \<Rightarrow> bool" where
  "rowsOK key n rows \<longleftrightarrow> distinct (map key rows) \<and> (\<forall>r\<in>set rows. key r \<le> n)"

definition sql_wf :: "SQLiteStore \<Rightarrow> bool" where
  "sql_wf s \<longleftrightarrow> rowsOK wi_ID (sq_seqInstances s) (sq_instances s) \<and> rowsOK ws_ID (sq_seqSteps s) (sq_steps s) \<and>
     rowsOK qi_ID (sq_seqQueue s) (sq_queue s)"

named_theorems row_rules \<open>what keeps the identifiers of a table in order\<close>

lemma rowsOK_Nil [row_rules]: "rowsOK key n []"
  by (simp add: rowsOK_def)

lemma rowsOK_append [row_rules]: "rowsOK key n rows \<Longrightarrow> key r = n + 1 \<Longrightarrow> rowsOK key (n + 1) (rows @ [r])"
  by (auto simp: rowsOK_def)

lemma rowsOK_update [row_rules]: "rowsOK key n rows \<Longrightarrow> (\<And>r. key (f r) = key r) \<Longrightarrow> rowsOK key n (updateRows p f rows)"
  unfolding rowsOK_def updateRows_def by (auto simp: comp_def if_distrib [of key] cong: if_cong)

lemma rowsOK_filter [row_rules]: "rowsOK key n rows \<Longrightarrow> rowsOK key n (filter p rows)"
  unfolding rowsOK_def by (auto simp: distinct_map_filter)

lemma rowsOK_fresh: "rowsOK key n rows \<Longrightarrow> find (\<lambda>r. key r = n + 1) rows = None"
  unfolding rowsOK_def find_None_iff by fastforce

lemma find_append: "find p (xs @ ys) = (case find p xs of None \<Rightarrow> find p ys | Some x \<Rightarrow> Some x)"
  by (induction xs) auto

lemma find_update:
  "(\<And>r. key (f r) = key r) \<Longrightarrow> find (\<lambda>r. key r = j) (updateRows (\<lambda>r. key r = k) f rows) =
     (if j = k then map_option f (find (\<lambda>r. key r = j) rows) else find (\<lambda>r. key r = j) rows)"
  by (induction rows) (auto simp: updateRows_def)

lemma find_filter_key:
  "find (\<lambda>r. key r = j) (filter (\<lambda>r. key r \<noteq> k) rows) = (if j = k then None else find (\<lambda>r. key r = j) rows)"
  by (induction rows) auto

lemma viewR_append:
  "find (\<lambda>x. key x = key r) rows = None \<Longrightarrow> viewR bare key (rows @ [r]) = (viewR bare key rows)(key r \<mapsto> bare r)"
  by (auto simp: viewR_def find_append fun_eq_iff split: option.split)

lemma viewR_update:
  "(\<And>r. key (f r) = key r) \<Longrightarrow> (\<And>r. bare (f r) = g (bare r)) \<Longrightarrow>
     viewR bare key (updateRows (\<lambda>r. key r = k) f rows) = upd (viewR bare key rows) k g"
  by (auto simp: viewR_def upd_def find_update option.map_comp comp_def fun_eq_iff)

lemma viewR_remove [view_rules]: "viewR bare key (filter (\<lambda>r. key r \<noteq> k) rows) = (viewR bare key rows)(k := None)"
  by (auto simp: viewR_def find_filter_key fun_eq_iff)

lemma find_row:
  assumes "rowsOK key n rows" "r \<in> set rows"
  shows "find (\<lambda>x. key x = key r) rows = Some r"
  using assms by (induction rows) (auto simp: rowsOK_def)

lemma steps_viewR:
  assumes "rowsOK ws_ID n rows"
  shows "{st \<in> ran (viewR bareS ws_ID rows). ws_InstanceID st = i} = bareS ` set (filter (\<lambda>st. ws_InstanceID st = i) rows)"
proof -
  have "ran (viewR bareS ws_ID rows) = bareS ` set rows"
  proof (intro set_eqI iffI)
    fix st assume "st \<in> ran (viewR bareS ws_ID rows)"
    then obtain k r where "find (\<lambda>r. ws_ID r = k) rows = Some r" "st = bareS r" by (auto simp: ran_def viewR_def)
    then show "st \<in> bareS ` set rows" by (auto simp: find_Some_iff)
  next
    fix st assume "st \<in> bareS ` set rows"
    then obtain r where "r \<in> set rows" "st = bareS r" by blast
    then show "st \<in> ran (viewR bareS ws_ID rows)"
      using find_row [OF assms] by (auto simp: ran_def viewR_def intro!: exI [of _ "ws_ID r"])
  qed
  then show ?thesis by auto
qed

lemmas sql_writes = CreateInstance_sql_def GetInstance_sql_def UpdateInstanceStatus_sql_def CreateStep_sql_def
  UpdateStep_sql_def UpdateStepStatus_sql_def UpdateStepCompensationRetry_sql_def GetStepByID_sql_def
  GetStepsByInstance_sql_def EnqueueStep_sql_def RemoveFromQueue_sql_def ReleaseQueueItem_sql_def LogEvent_sql_def
  CreateHumanDecision_sql_def GetHumanDecision_sql_def CreateCancelRequest_sql_def GetCancelRequest_sql_def
  DeleteCancelRequest_sql_def

lemma answerOf_state [simp]: "snd (answerOf f p) = snd p"
  by (cases "(f, p)" rule: answerOf.cases) simp_all

lemma answerOf_first: "answerOf f (firstRow p rows, s) = (got f (find p rows), s)"
  by (simp add: firstRow_def got_def split: option.split)

lemma got_map: "got f (map_option g x) = got (\<lambda>y. f (g y)) x"
  by (simp add: got_def split: option.split)

lemma sqlOp_inv: "sql_wf s \<Longrightarrow> sql_wf (snd (sqlOp E op s))"
  by (cases op) (auto simp: sql_writes sql_wf_def tick_sql_def Let_def intro!: row_rules split: option.split)

lemma sqlOp_update:
  assumes "op \<in> {DoUpdateInstance k status output errMsg, DoUpdateStep k sst output errMsg, DoUpdateStepStatus k sst,
           DoCompensationRetry k n sst, DoRelease k}"
  shows "aop op (absQ s) = (fst (sqlOp E op s), absQ (snd (sqlOp E op s)))"
  using assms
  by (elim insertE emptyE)
    (simp_all add: absQ_def sql_writes tick_sql_def Let_def, (rule sym, rule viewR_update; simp add: bare_defs)+)

lemma sqlOp_create:
  assumes "sql_wf s" "op \<in> {DoCreateInstance w input, DoCreateStep step, DoEnqueue i st p d}"
  shows "aop op (absQ s) = (fst (sqlOp E op s), absQ (snd (sqlOp E op s)))"
proof -
  have fresh: "find (\<lambda>r. wi_ID r = sq_seqInstances s + 1) (sq_instances s) = None"
    "find (\<lambda>r. ws_ID r = sq_seqSteps s + 1) (sq_steps s) = None"
    "find (\<lambda>r. qi_ID r = sq_seqQueue s + 1) (sq_queue s) = None"
    using assms(1) rowsOK_fresh unfolding sql_wf_def by blast+
  show ?thesis using assms(2)
    by (elim insertE emptyE)
      (simp_all add: absQ_def sql_writes tick_sql_def now_sql_def Let_def answerOf_first find_append fresh viewR_append
        got_def newInstance_def newItem_def bareI_def bareQ_def bareS_def)
qed

lemma sqlOp_abs:
  assumes wf: "sql_wf s" and adm: "admissible op (absQ s)"
  shows "aop op (absQ s) = (fst (sqlOp E op s), absQ (snd (sqlOp E op s)))"
proof (cases op)
  case (DoLog i st ty pl)
  show ?thesis by (cases pl) (simp_all add: DoLog absQ_def LogEvent_sql_def tick_sql_def Let_def bareE_def)
next
  case (DoRequest r)
  then have "find (\<lambda>x. cr_InstanceID x = cr_InstanceID r) (sq_cancels s) = None"
    using adm by (simp add: absQ_def viewR_def)
  then show ?thesis
    by (simp add: DoRequest absQ_def CreateCancelRequest_sql_def tick_sql_def viewR_append find_filter_key view_rules bareC_def)
next
  case (DoDecide d)
  then have "find (\<lambda>x. hd_StepID x = hd_StepID d) (sq_decisions s) = None"
    using adm by (simp add: absQ_def viewR_def)
  then show ?thesis
    by (simp add: DoDecide absQ_def CreateHumanDecision_sql_def tick_sql_def Let_def viewR_append bareH_def)
next
  case (DoGetSteps i)
  have "rowsOK ws_ID (sq_seqSteps s) (sq_steps s)" using wf by (simp add: sql_wf_def)
  from steps_viewR [OF this, of i] show ?thesis by (simp add: DoGetSteps absQ_def GetStepsByInstance_sql_def)
next
  case DoCreateInstance with wf show ?thesis by (intro sqlOp_create) auto
next
  case DoCreateStep with wf show ?thesis by (intro sqlOp_create) auto
next
  case DoEnqueue with wf show ?thesis by (intro sqlOp_create) auto
next
  case DoUpdateInstance then show ?thesis by (intro sqlOp_update) auto
next
  case DoUpdateStep then show ?thesis by (intro sqlOp_update) auto
next
  case DoUpdateStepStatus then show ?thesis by (intro sqlOp_update) auto
next
  case DoCompensationRetry then show ?thesis by (intro sqlOp_update) auto
next
  case DoRelease then show ?thesis by (intro sqlOp_update) auto
qed (simp_all add: absQ_def sql_writes answerOf_first viewR_def got_map find_filter_key fun_eq_iff)

lemma sql_start: "sql_wf newSQLiteStore" "absQ newSQLiteStore = aEmpty"
  by (simp_all add: sql_wf_def absQ_def aEmpty_def newSQLiteStore_def viewR_def rowsOK_Nil)

interpretation sql: store_impl absQ sql_wf newSQLiteStore "sqlOp E" "\<lambda>_. True" for E
  by unfold_locales (simp_all add: sql_start sqlOp_inv sqlOp_abs)

section \<open>The two stores agree\<close>

text \<open>C11.
  The two stores are interchangeable for the calls both define: starting from empty stores, every sequence of admissible calls
  gets the same answers from the memory store and from the SQLite store, whatever their clocks show, and leaves stores that
  stand for the same abstract store. The answers are those of the abstract store.
\<close>

theorem stores_agree:
  assumes "admissibles ops aEmpty"
  shows "fst (runStore (memOp E) ops NewMemoryStore) = fst (runStore aop ops aEmpty) \<and>
    fst (runStore (sqlOp E') ops newSQLiteStore) = fst (runStore aop ops aEmpty) \<and>
    absM (snd (runStore (memOp E) ops NewMemoryStore)) = absQ (snd (runStore (sqlOp E') ops newSQLiteStore))"
  using mem.run_from_start [OF _ assms, of E] sql.run_from_start [OF _ assms, of E'] by (simp add: list_all_iff)

definition opsExample :: "storeOp list" where
  "opsExample = [DoCreateInstance ''w-v1'' RawNil,
     DoCreateStep \<lparr>ws_ID = 0, ws_InstanceID = 1, ws_StepName = ''a'', ws_StepType = StepTypeTask,
       ws_Status = StepStatusPending, ws_Input = RawNil, ws_Output = RawNil, ws_Error = None, ws_RetryCount = 0,
       ws_MaxRetries = 3, ws_CompensationRetryCount = 0, ws_IdempotencyKey = ''k'', ws_StartedAt = None,
       ws_CompletedAt = None, ws_CreatedAt = 0\<rparr>,
     DoEnqueue 1 (Some 1) 50 0, DoUpdateStep 1 StepStatusFailed RawNil (Some ''boom''), DoRelease 1, DoGetStep 1, DoGetSteps 1]"

theorem stores_agree_witness:
  "admissibles opsExample aEmpty \<and>
   fst (runStore (memOp env0) opsExample NewMemoryStore) = fst (runStore (sqlOp env0) opsExample newSQLiteStore)"
proof -
  have "admissibles opsExample aEmpty"
    by (simp add: opsExample_def aEmpty_def upd_def newInstance_def bareS_def Let_def)
  then show ?thesis using stores_agree [of opsExample env0 env0] by simp
qed

end
