(* ===== verification/Sqlite_Props.thy ===== *)
theory Sqlite_Props
  imports Store_Refinement
begin

text \<open>
  What the SQLite store does where it differs from the memory store: its queue, join states that two workers report to at the
  same time, and queries that fail on rows with \<open>NULL\<close>.
\<close>

section \<open>Sorting\<close>

lemma orderDesc_set [simp]: "set (orderDesc key rows) = set rows"
  by (simp add: orderDesc_def)

lemma sort_key_hd:
  assumes "sort_key key rows = q # rest"
  shows "q \<in> set rows" "\<And>r. r \<in> set rows \<Longrightarrow> key q \<le> key r"
proof -
  have set: "set (q # rest) = set rows" unfolding assms [symmetric] by simp
  then show "q \<in> set rows" by auto
  fix r assume "r \<in> set rows"
  then have "r = q \<or> r \<in> set rest" using set by auto
  moreover have "sorted (map key (q # rest))" unfolding assms [symmetric] by simp
  ultimately show "key q \<le> key r" by auto
qed

lemma scanAll_fails:
  "r \<in> set rows \<Longrightarrow> scan r = Inl e \<Longrightarrow> \<exists>e'. scanAll scan rows = Fail e'"
proof (induction rows)
  case (Cons x rows)
  then show ?case by (cases "scan x") auto
qed simp

section \<open>Queue\<close>

definition due_sql :: "sqldrv \<Rightarrow> int \<Rightarrow> QueueItem \<Rightarrow> bool" where
  "due_sql D bound q \<longleftrightarrow> dv_text D (qi_ScheduledAt q) \<le> dv_text D bound \<and> qi_AttemptedBy q = None"

text \<open>
  \<open>DequeueStep\<close> of the SQLite store: without an item that is due and unclaimed it answers nothing and leaves the queue as it is;
  otherwise it hands out such an item that comes first in the order of the query, claims that row for the
  worker and changes no other.
\<close>

theorem DequeueStep_sql_spec:
  assumes wf: "sql_wf s" and run: "DequeueStep_sql D E worker s = (r, s')"
  shows "(r = Ok None \<and> sq_queue s' = sq_queue s \<and> (\<forall>q\<in>set (sq_queue s). \<not> due_sql D (clk E (sq_cursor s)) q)) \<or>
    (\<exists>q\<in>set (sq_queue s). due_sql D (clk E (sq_cursor s)) q \<and>
       (\<forall>p\<in>set (sq_queue s). due_sql D (clk E (sq_cursor s)) p \<longrightarrow>
          dequeueKey D (sq_agingEnabled s) (sq_agingRate s) (clk E (Suc (sq_cursor s)) div 1000000000) q \<le>
          dequeueKey D (sq_agingEnabled s) (sq_agingRate s) (clk E (Suc (sq_cursor s)) div 1000000000) p) \<and>
       (let claimed = q\<lparr>qi_AttemptedAt := Some (clk E (Suc (Suc (sq_cursor s)))), qi_AttemptedBy := Some worker\<rparr>
        in r = Ok (Some claimed) \<and> sq_queue s' = map (\<lambda>p. if p = q then claimed else p) (sq_queue s)))"
proof -
  let ?due = "filter (due_sql D (clk E (sq_cursor s))) (sq_queue s)"
  let ?key = "dequeueKey D (sq_agingEnabled s) (sq_agingRate s) (clk E (Suc (sq_cursor s)) div 1000000000)"
  have due: "(\<lambda>q. dv_text D (qi_ScheduledAt q) \<le> dv_text D (clk E (sq_cursor s)) \<and> qi_AttemptedBy q = None) =
    due_sql D (clk E (sq_cursor s))" by (simp add: due_sql_def fun_eq_iff)
  note unfold = run [unfolded DequeueStep_sql_def Let_def now_sql_def tick_sql_def, simplified due, simplified]
  show ?thesis
  proof (cases "sort_key ?key ?due")
    case Nil
    then have "?due = []" by (metis length_0_conv length_sort)
    then show ?thesis using unfold Nil by (auto simp: filter_empty_conv)
  next
    case (Cons q rest)
    have q: "q \<in> set (sq_queue s)" "due_sql D (clk E (sq_cursor s)) q"
      using sort_key_hd(1) [OF Cons] by auto
    have same: "p = q" if "p \<in> set (sq_queue s)" "qi_ID p = qi_ID q" for p
      using wf q(1) that unfolding sql_wf_def rowsOK_def by (auto simp: distinct_map dest: inj_onD)
    have claim: "updateRows (\<lambda>r. qi_ID r = qi_ID q \<and> qi_AttemptedBy r = None) f (sq_queue s) =
      map (\<lambda>p. if p = q then f q else p) (sq_queue s)" for f
      unfolding updateRows_def using same q(2) by (intro map_cong) (auto simp: due_sql_def)
    have "filter (\<lambda>r. qi_ID r = qi_ID q \<and> qi_AttemptedBy r = None) (sq_queue s) \<noteq> []"
      using q unfolding filter_empty_conv due_sql_def by blast
    then have "r = Ok (Some (q\<lparr>qi_AttemptedAt := Some (clk E (Suc (Suc (sq_cursor s)))), qi_AttemptedBy := Some worker\<rparr>))"
      "sq_queue s' = map (\<lambda>p. if p = q then q\<lparr>qi_AttemptedAt := Some (clk E (Suc (Suc (sq_cursor s)))),
         qi_AttemptedBy := Some worker\<rparr> else p) (sq_queue s)"
      using unfold Cons by (auto simp: claim split: if_splits)
    then show ?thesis using q sort_key_hd(2) [OF Cons] by (intro disjI2 bexI [of _ q]) auto
  qed
qed

text \<open>
  With ageing on and times that \<open>strftime\<close> cannot read, the sort expression is \<open>NULL\<close> for every row and the priority has no
  say: items come in the order of their times.
\<close>

lemma unreadable_times_ignore_priority:
  assumes "\<And>t. dv_unix D (dv_text D t) = None"
  shows "dequeueKey D True rate now q \<le> dequeueKey D True rate now p \<longleftrightarrow>
    (dv_text D (qi_ScheduledAt q), qi_ID q) \<le> (dv_text D (qi_ScheduledAt p), qi_ID p)"
  by (simp add: dequeueKey_def orderExpr_def assms)

definition drv0 :: sqldrv where
  "drv0 = \<lparr>dv_text = (\<lambda>t. replicate (nat t) CHR ''x''), dv_unix = (\<lambda>x. Some (int (length x))), dv_strings = (\<lambda>_. [])\<rparr>"

definition itemAt :: "int \<Rightarrow> int \<Rightarrow> QueueItem" where
  "itemAt k priority = \<lparr>qi_ID = k, qi_InstanceID = 1, qi_StepID = Some 1, qi_ScheduledAt = 0, qi_AttemptedAt = None,
     qi_AttemptedBy = None, qi_Priority = priority\<rparr>"

definition twoItems :: SQLiteStore where
  "twoItems = newSQLiteStore\<lparr>sq_queue := [itemAt 1 50, itemAt 2 75], sq_seqQueue := 2, sq_agingEnabled := False\<rparr>"

lemma twoItems_wf: "sql_wf twoItems"
  by (simp add: twoItems_def newSQLiteStore_def sql_wf_def rowsOK_def itemAt_def)

text \<open>Two items are due at the first reading of the clock, and the one of the higher priority is handed out.\<close>

theorem DequeueStep_sql_spec_witness:
  "\<exists>q\<in>set (sq_queue twoItems). due_sql drv0 0 q \<and> qi_ID q = 2 \<and>
     fst (DequeueStep_sql drv0 env0 ''w'' twoItems) = Ok (Some (q\<lparr>qi_AttemptedAt := Some 2000000000, qi_AttemptedBy := Some ''w''\<rparr>))"
proof -
  obtain r s' where run: "DequeueStep_sql drv0 env0 ''w'' twoItems = (r, s')" by (cases "DequeueStep_sql drv0 env0 ''w'' twoItems")
  have queue: "sq_queue twoItems = [itemAt 1 50, itemAt 2 75]" "sq_cursor twoItems = 0" "\<not> sq_agingEnabled twoItems"
    by (simp_all add: twoItems_def newSQLiteStore_def)
  have due: "due_sql drv0 0 (itemAt k p)" for k p by (simp add: due_sql_def drv0_def itemAt_def)
  have key: "\<not> dequeueKey drv0 False rate now (itemAt 1 50) \<le> dequeueKey drv0 False rate now (itemAt 2 75)" for rate now
    by (simp add: dequeueKey_def orderExpr_def itemAt_def)
  have clk: "clk env0 0 = 0" "clk env0 (Suc (Suc 0)) = 2000000000" by (simp_all add: env0_def)
  show ?thesis
    using DequeueStep_sql_spec [OF twoItems_wf run] due [of 1 50] due [of 2 75] key
    by (auto simp: run queue clk Let_def itemAt_def)
qed

section \<open>Join states\<close>

lemma joinKey_fields [simp]:
  "joinKey_sql i jn (r\<lparr>jr_completed := c, jr_failed := f, jr_is_ready := b, jr_updated_at := t\<rparr>) = joinKey_sql i jn r"
  by (simp add: joinKey_sql_def)

lemma find_updateRows:
  "(\<And>r. p (f r) = p r) \<Longrightarrow> find p (updateRows p f rows) = map_option f (find p rows)"
  by (induction rows) (auto simp: updateRows_def)

lemma joinWrite_run:
  assumes "joinQuery_sql i jn s = Some (ws, cs0, fs0, strategy)"
  defines "c \<equiv> (\<lambda>ok x cs. if ok then addOnce x cs else cs)" and "f \<equiv> (\<lambda>ok x fs. if ok then fs else addOnce x fs)"
  shows "\<exists>s'. joinWrite_sql E i jn x ok (ws, cs, fs, JoinStrategyAll) s =
      (Ok (length (c ok x cs) + length (f ok x fs) \<ge> length ws), s') \<and>
    joinQuery_sql i jn s' = Some (ws, c ok x cs, f ok x fs, strategy)"
  using assms(1) unfolding c_def f_def
  by (auto simp: joinWrite_sql_def joinQuery_sql_def Let_def tick_sql_def find_updateRows)

lemma joinRead_query: "joinQuery_sql i jn s = Some v \<Longrightarrow> joinRead_sql D E i jn x s = (Ok v, s)"
  by (simp add: joinRead_sql_def)

lemma update_run:
  assumes "joinQuery_sql i jn s = Some (ws, cs, fs, JoinStrategyAll)"
  shows "\<exists>s'. UpdateJoinState_sql D E i jn x ok s =
      (Ok (length (if ok then addOnce x cs else cs) + length (if ok then fs else addOnce x fs) \<ge> length ws), s') \<and>
    joinQuery_sql i jn s' = Some (ws, if ok then addOnce x cs else cs, if ok then fs else addOnce x fs, JoinStrategyAll)"
  using joinWrite_run [OF assms, of E x ok cs fs] by (simp add: UpdateJoinState_sql_def joinRead_query [OF assms])

text \<open>C36.
  Two workers report the last two awaited steps of a join. One after the other, the second report answers that the
  join is ready. But the query and the update of \<open>UpdateJoinState\<close> are separate statements without a lock or a transaction: when
  both workers query before either updates, the second update overwrites the first, both calls answer \<open>false\<close>, the first
  report is gone, and nothing continues the join.
\<close>

theorem join_report_lost:
  assumes join: "joinQuery_sql i jn s = Some (ws, cs, fs, JoinStrategyAll)"
    and last: "length ws = length cs + length fs + 2" and ab: "a \<noteq> b" "a \<notin> set cs" "b \<notin> set cs"
  shows "(\<exists>s1 s2. UpdateJoinState_sql D E i jn a True s = (Ok False, s1) \<and> UpdateJoinState_sql D E i jn b True s1 = (Ok True, s2)) \<and>
    (\<exists>va vb t1 t2. joinRead_sql D E i jn a s = (Ok va, s) \<and> joinRead_sql D E i jn b s = (Ok vb, s) \<and>
       joinWrite_sql E i jn a True va s = (Ok False, t1) \<and> joinWrite_sql E i jn b True vb t1 = (Ok False, t2) \<and>
       joinQuery_sql i jn t2 = Some (ws, cs @ [b], fs, JoinStrategyAll))"
proof
  obtain s1 where s1: "UpdateJoinState_sql D E i jn a True s = (Ok False, s1)"
    "joinQuery_sql i jn s1 = Some (ws, cs @ [a], fs, JoinStrategyAll)"
    using update_run [OF join, of D E a True] last ab by (auto simp: addOnce_def)
  obtain s2 where "UpdateJoinState_sql D E i jn b True s1 = (Ok True, s2)"
    using update_run [OF s1(2), of D E b True] last ab by (auto simp: addOnce_def)
  with s1(1) show "\<exists>s1 s2. UpdateJoinState_sql D E i jn a True s = (Ok False, s1) \<and> UpdateJoinState_sql D E i jn b True s1 = (Ok True, s2)"
    by blast
next
  let ?v = "(ws, cs, fs, JoinStrategyAll)"
  obtain t1 where t1: "joinWrite_sql E i jn a True ?v s = (Ok False, t1)"
    "joinQuery_sql i jn t1 = Some (ws, cs @ [a], fs, JoinStrategyAll)"
    using joinWrite_run [OF join, of E a True cs fs] last ab by (auto simp: addOnce_def)
  obtain t2 where "joinWrite_sql E i jn b True ?v t1 = (Ok False, t2)"
    "joinQuery_sql i jn t2 = Some (ws, cs @ [b], fs, JoinStrategyAll)"
    using joinWrite_run [OF t1(2), of E b True cs fs] last ab by (auto simp: addOnce_def)
  with t1(1) joinRead_query [OF join]
  show "\<exists>va vb t1 t2. joinRead_sql D E i jn a s = (Ok va, s) \<and> joinRead_sql D E i jn b s = (Ok vb, s) \<and>
       joinWrite_sql E i jn a True va s = (Ok False, t1) \<and> joinWrite_sql E i jn b True vb t1 = (Ok False, t2) \<and>
       joinQuery_sql i jn t2 = Some (ws, cs @ [b], fs, JoinStrategyAll)" by blast
qed

definition joined :: SQLiteStore where
  "joined = snd (CreateJoinState_sql env0 1 ''j'' [''a'', ''b''] JoinStrategyAll newSQLiteStore)"

lemma joined_query: "joinQuery_sql 1 ''j'' joined = Some ([''a'', ''b''], [], [], JoinStrategyAll)"
  by (simp add: joined_def CreateJoinState_sql_def newSQLiteStore_def joinQuery_sql_def joinKey_sql_def tick_sql_def)

theorem join_report_lost_witness:
  "\<exists>va vb t1 t2. joinRead_sql drv0 env0 1 ''j'' ''a'' joined = (Ok va, joined) \<and>
     joinRead_sql drv0 env0 1 ''j'' ''b'' joined = (Ok vb, joined) \<and>
     joinWrite_sql env0 1 ''j'' ''a'' True va joined = (Ok False, t1) \<and> joinWrite_sql env0 1 ''j'' ''b'' True vb t1 = (Ok False, t2)"
  using join_report_lost [OF joined_query, of "''a''" "''b''" drv0 env0] by auto

text \<open>
  The two implementations differ on a step that first fails and then succeeds, as a requeued dead letter does. The memory
  store moves its name from the failed to the completed steps. The SQLite store keeps both entries and counts them: a
  join that waits for one more step is reported ready.
\<close>

theorem join_counts_twice:
  assumes join: "joinQuery_sql i jn s = Some (ws, cs, fs, JoinStrategyAll)"
    and last: "length ws = length cs + length fs + 2" and x: "x \<notin> set cs" "x \<notin> set fs"
    and mem: "map_of (ms_joinStates m) (joinStateKey i jn) = Some j" "derefW m (js_WaitingFor j) = ws"
      "js_Completed j = cs" "js_Failed j = fs" "js_JoinStrategy j = JoinStrategyAll"
  shows "(\<exists>s1 s2. UpdateJoinState_sql D E i jn x False s = (Ok False, s1) \<and> UpdateJoinState_sql D E i jn x True s1 = (Ok True, s2)) \<and>
    (\<exists>m1 m2. UpdateJoinState E i jn x False m = (Ok False, m1) \<and> UpdateJoinState E i jn x True m1 = (Ok False, m2))"
proof
  obtain s1 where s1: "UpdateJoinState_sql D E i jn x False s = (Ok False, s1)"
    "joinQuery_sql i jn s1 = Some (ws, cs, fs @ [x], JoinStrategyAll)"
    using update_run [OF join, of D E x False] last x by (auto simp: addOnce_def)
  then show "\<exists>s1 s2. UpdateJoinState_sql D E i jn x False s = (Ok False, s1) \<and> UpdateJoinState_sql D E i jn x True s1 = (Ok True, s2)"
    using update_run [OF s1(2), of D E x True] last x by (auto simp: addOnce_def)
next
  have frame: "derefW (m\<lparr>ms_joinStates := js, ms_cursor := n\<rparr>) w = derefW m w" for js n w
    by (cases w) (simp_all cong: option.case_cong)
  show "\<exists>m1 m2. UpdateJoinState E i jn x False m = (Ok False, m1) \<and> UpdateJoinState E i jn x True m1 = (Ok False, m2)"
    using mem last x
    by (simp add: UpdateJoinState_def Let_def recordResult_def addOnce_def checkJoinReady_def frame remove1_idem remove1_append)
qed

definition joinedM :: MemoryStore where
  "joinedM = snd (CreateJoinState env0 1 ''j'' (WOwn [''a'', ''b'']) JoinStrategyAll NewMemoryStore)"

theorem join_counts_twice_witness:
  "(\<exists>s1 s2. UpdateJoinState_sql drv0 env0 1 ''j'' ''a'' False joined = (Ok False, s1) \<and>
      UpdateJoinState_sql drv0 env0 1 ''j'' ''a'' True s1 = (Ok True, s2)) \<and>
   (\<exists>m1 m2. UpdateJoinState env0 1 ''j'' ''a'' False joinedM = (Ok False, m1) \<and>
      UpdateJoinState env0 1 ''j'' ''a'' True m1 = (Ok False, m2))"
proof -
  obtain j where "map_of (ms_joinStates joinedM) (joinStateKey 1 ''j'') = Some j" "derefW joinedM (js_WaitingFor j) = [''a'', ''b'']"
    "js_Completed j = []" "js_Failed j = []" "js_JoinStrategy j = JoinStrategyAll"
    by (simp add: joinedM_def CreateJoinState_def NewMemoryStore_def Let_def)
  then show ?thesis by (intro join_counts_twice [OF joined_query]) auto
qed

section \<open>Queries on rows with \<open>NULL\<close>\<close>

text \<open>C36.
  Steps are created without an output, so the table has \<open>NULL\<close> there, and \<open>GetActiveStepsForUpdate\<close> scans the column straight into a
  \<open>json.RawMessage\<close>: while an instance has an active step that has not stored an output, the query fails, and with it every
  cancellation and abort of the instance. \<open>GetSummaryStats\<close> fails as long as there is no instance at all.
\<close>

theorem null_columns_fail:
  assumes "CreateStep_sql E step s = (Ok st, s')" "ws_Output step = RawNil"
    and "ws_Status step \<in> {StepStatusPending, StepStatusRunning, StepStatusWaitingDecision}"
  shows "(\<exists>e. GetActiveStepsForUpdate_sql D (ws_InstanceID step) s' = (Fail e, s')) \<and>
    (sq_instances s = [] \<longrightarrow> (\<exists>e. GetSummaryStats_sql s' = (Fail e, s')))"
proof -
  have st: "st \<in> set (sq_steps s')" "ws_InstanceID st = ws_InstanceID step" "ws_Status st = ws_Status step" "ws_Output st = RawNil"
    "sq_instances s' = sq_instances s"
    using assms by (auto simp: CreateStep_sql_def Let_def tick_sql_def)
  moreover obtain e where "scanStep st = Inl e" using st(4) by (cases "ws_Input st = RawNil") (simp_all add: scanStep_def)
  ultimately show ?thesis
    using assms(3) scanAll_fails [of st _ scanStep e]
    by (auto simp: GetActiveStepsForUpdate_sql_def GetSummaryStats_sql_def)
qed

definition plainStep :: WorkflowStep where
  "plainStep = \<lparr>ws_ID = 0, ws_InstanceID = 1, ws_StepName = ''a'', ws_StepType = StepTypeTask, ws_Status = StepStatusPending,
     ws_Input = RawJson JNull, ws_Output = RawNil, ws_Error = None, ws_RetryCount = 0, ws_MaxRetries = 3,
     ws_CompensationRetryCount = 0, ws_IdempotencyKey = ''k'', ws_StartedAt = None, ws_CompletedAt = None, ws_CreatedAt = 0\<rparr>"

theorem null_columns_fail_witness:
  "\<exists>e. fst (GetActiveStepsForUpdate_sql drv0 1 (snd (CreateStep_sql env0 plainStep newSQLiteStore))) = Fail e"
proof -
  obtain st s' where c: "CreateStep_sql env0 plainStep newSQLiteStore = (Ok st, s')" by (simp add: CreateStep_sql_def Let_def)
  have "ws_Output plainStep = RawNil" "ws_Status plainStep = StepStatusPending" "ws_InstanceID plainStep = 1"
    by (simp_all add: plainStep_def)
  with null_columns_fail [OF c, of drv0] c show ?thesis by auto
qed

section \<open>Settings\<close>

lemma clampAgingRate_bounds: "0 \<le> clampAgingRate x \<and> clampAgingRate x \<le> 100"
  by (cases x) (auto simp: MinAgingRate_def MaxAgingRate_def)

lemma clampAgingRate_idem: "clampAgingRate (Finite (clampAgingRate x)) = clampAgingRate x"
  using clampAgingRate_bounds [of x] by (auto simp: MinAgingRate_def MaxAgingRate_def)

section \<open>Dead letters\<close>

text \<open>
  Unlike the memory store, \<open>RequeueDeadLetter\<close> puts the step back into the queue: one unclaimed item of normal priority.
\<close>

lemma RequeueDeadLetter_sql_spec:
  assumes "find (\<lambda>r. dl_ID r = k) (sq_dlq s) = Some rec"
  shows "\<exists>s'. RequeueDeadLetter_sql E k newInput s = (Ok (), s') \<and> find (\<lambda>r. dl_ID r = k) (sq_dlq s') = None \<and>
    (\<exists>q. sq_queue s' = sq_queue s @ [q] \<and> qi_StepID q = Some (dl_StepID rec) \<and> qi_AttemptedBy q = None \<and>
       qi_Priority q = PriorityNormal) \<and>
    (\<forall>st\<in>set (sq_steps s'). ws_ID st = dl_StepID rec \<longrightarrow> ws_Status st = StepStatusPending \<and> ws_RetryCount st = 0 \<and>
       ws_Input st = (case newInput of None \<Rightarrow> dl_Input rec | Some i \<Rightarrow> i))"
  using assms by (auto simp: RequeueDeadLetter_sql_def Let_def tick_sql_def updateRows_def find_filter_key)

end
