(* ===== verification/PgStore.thy ===== *)
theory PgStore
  imports SqliteStore "HOL-Library.Word"
begin

unbundle bit_operations_syntax

text \<open>
  The PostgreSQL implementation of the \<open>Store\<close> interface (\<open>store.go\<close>) and its transactions (\<open>tx_manager.go\<close>), on the schema
  of \<open>migrations_pro\<close>. As for SQLite a table is the list of its rows and a statement the list operation it says; violated
  checks, keys and references are errors of the statement, other failures of the server do not occur. The store itself keeps
  a cache of definitions. Names carry the suffix \<open>_pg\<close>.

  \<^item> Identifiers come from sequences, which a rolled back transaction does not give back.
  \<^item> The server keeps times to the microsecond (\<open>micro\<close>), keys of type \<open>uuid\<close> in canonical form and documents of type \<open>jsonb\<close>
    normalised; the last two are parameters (\<open>pgdrv\<close>). The driver stores a nil \<open>json.RawMessage\<close> as \<open>NULL\<close> and reads it back as nil.
  \<^item> Row locks and advisory locks order the transactions of several callers; a method here runs on its own. What is
    left of them is the key of the advisory lock.
\<close>

section \<open>Tables\<close>

record pgdrv =
  pg_uuid :: "string \<Rightarrow> string option"   \<comment> \<open>canonical text, \<open>None\<close> if the server rejects it\<close>
  pg_jsonb :: "jval \<Rightarrow> jval"             \<comment> \<open>normal form of a document\<close>

record PgDb =
  pd_definitions :: "WorkflowDefinition list"
  pd_instances :: "WorkflowInstance list"
  pd_steps :: "WorkflowStep list"
  pd_queue :: "QueueItem list"
  pd_events :: "WorkflowEvent list"
  pd_joins :: "joinRow list"
  pd_cancels :: "WorkflowCancelRequest list"
  pd_decisions :: "HumanDecisionRecord list"
  pd_dlq :: "DeadLetterRecord list"

record StoreImpl =
  st_db :: PgDb
  st_seqInstances :: int
  st_seqSteps :: int
  st_seqQueue :: int
  st_seqEvents :: int
  st_seqCancels :: int
  st_seqDecisions :: int
  st_seqDlq :: int
  st_agingEnabled :: bool
  st_agingRate :: rat
  st_defCache :: "(string \<times> WorkflowDefinition \<times> int) list"   \<comment> \<open>definition and expiry\<close>
  st_defCacheTTL :: int
  st_cursor :: nat

type_synonym 'a pgo = "(StoreImpl, 'a) go"

definition micro :: "int \<Rightarrow> int" where
  "micro t = t div 1000 * 1000"

definition read_pg :: "env \<Rightarrow> int pgo" where
  "read_pg E s = (Ok (clk E (st_cursor s)), s\<lparr>st_cursor := Suc (st_cursor s)\<rparr>)"

text \<open>A time as the server keeps it.\<close>

definition now_pg :: "env \<Rightarrow> int pgo" where
  "now_pg E = gbind (read_pg E) (\<lambda>t. gret (micro t))"

definition onDb :: "(PgDb \<Rightarrow> PgDb) \<Rightarrow> unit pgo" where
  "onDb f = gmodify (\<lambda>s. s\<lparr>st_db := f (st_db s)\<rparr>)"

definition queryDb :: "(PgDb \<Rightarrow> 'a res) \<Rightarrow> 'a pgo" where
  "queryDb f s = (f (st_db s), s)"

definition noRows_pg :: error where
  "noRows_pg = Err ''no rows in result set''"

definition checkViolated :: "string \<Rightarrow> error" where
  "checkViolated name = Err (''ERROR: new row violates check constraint '' @ goQuote name)"

fun jsonb :: "pgdrv \<Rightarrow> raw \<Rightarrow> raw pgo" where
  "jsonb D RawNil = gret RawNil"
| "jsonb D (RawJson v) = gret (RawJson (pg_jsonb D v))"
| "jsonb D (RawBad b) = gfail (Err ''ERROR: invalid input syntax for type json'')"

fun stepTypeCheck :: "StepType \<Rightarrow> bool" where
  "stepTypeCheck (StepTypeOther t) = (t \<in> {''task'', ''parallel'', ''condition'', ''fork'', ''join'', ''save_point'', ''human''})"
| "stepTypeCheck _ = True"

definition stepStatusCheck :: "StepStatus \<Rightarrow> bool" where
  "stepStatusCheck status \<longleftrightarrow> status \<noteq> StepStatusEmpty"

text \<open>\<open>UPDATE ... WHERE\<close>: a check can only fail on a row that is updated.\<close>

definition updateSteps :: "(WorkflowStep \<Rightarrow> bool) \<Rightarrow> (WorkflowStep \<Rightarrow> WorkflowStep) \<Rightarrow> unit pgo" where
  "updateSteps p f s =
     (if \<exists>st\<in>set (pd_steps (st_db s)). p st \<and> \<not> stepStatusCheck (ws_Status (f st))
      then (Fail (checkViolated ''workflow_steps_status_check''), s)
      else onDb (\<lambda>d. d\<lparr>pd_steps := updateRows p f (pd_steps d)\<rparr>) s)"

section \<open>Construction and settings\<close>

definition emptyDb :: PgDb where
  "emptyDb = \<lparr>pd_definitions = [], pd_instances = [], pd_steps = [], pd_queue = [], pd_events = [], pd_joins = [],
     pd_cancels = [], pd_decisions = [], pd_dlq = []\<rparr>"

text \<open>\<open>time.Hour\<close> in nanoseconds. The pool leads to a database that has just been set up.\<close>

definition NewStore :: StoreImpl where
  "NewStore = \<lparr>st_db = emptyDb, st_seqInstances = 0, st_seqSteps = 0, st_seqQueue = 0, st_seqEvents = 0,
     st_seqCancels = 0, st_seqDecisions = 0, st_seqDlq = 0, st_agingEnabled = True, st_agingRate = 1 / 2,
     st_defCache = [], st_defCacheTTL = 3600 * 1000000000, st_cursor = 0\<rparr>"

definition SetAgingEnabled_pg :: "bool \<Rightarrow> unit pgo" where
  "SetAgingEnabled_pg enabled = gmodify (\<lambda>s. s\<lparr>st_agingEnabled := enabled\<rparr>)"

definition SetAgingRate_pg :: "rat \<Rightarrow> unit pgo" where
  "SetAgingRate_pg rate = gmodify (\<lambda>s. s\<lparr>st_agingRate := rate\<rparr>)"

definition ClearDefinitionCache :: "unit pgo" where
  "ClearDefinitionCache = gmodify (\<lambda>s. s\<lparr>st_defCache := []\<rparr>)"

definition InvalidateDefinitionCache :: "string \<Rightarrow> unit pgo" where
  "InvalidateDefinitionCache i = gmodify (\<lambda>s. s\<lparr>st_defCache := AList.delete i (st_defCache s)\<rparr>)"

definition SetDefinitionCacheTTL :: "int \<Rightarrow> unit pgo" where
  "SetDefinitionCacheTTL ttl =
     gseq (gmodify (\<lambda>s. s\<lparr>st_defCacheTTL := ttl\<rparr>)) (if ttl = 0 then ClearDefinitionCache else gret ())"

section \<open>Transactions\<close>

text \<open>
  \<open>TxManagerImpl.run\<close>: inside a transaction (\<open>opened\<close>) the function joins it; otherwise its effect on the
  database is undone unless it returns without an error. Sequences and the cache are not part of it.
\<close>

definition runTx :: "bool \<Rightarrow> 'a pgo \<Rightarrow> 'a pgo" where
  "runTx opened m s =
     (if opened then m s
      else case m s of (r, s') \<Rightarrow> (case r of Ok x \<Rightarrow> (Ok x, s') | _ \<Rightarrow> (r, s'\<lparr>st_db := st_db s\<rparr>)))"

section \<open>Definitions\<close>

text \<open>The answer is the caller's struct, whose identifier and time are those of the row.\<close>

definition SaveWorkflowDefinition_pg :: "env \<Rightarrow> WorkflowDefinition \<Rightarrow> WorkflowDefinition pgo" where
  "SaveWorkflowDefinition_pg E def =
     gbind (now_pg E) (\<lambda>now s.
       let same = (\<lambda>d. wd_Name d = wd_Name def \<and> wd_Version d = wd_Version def); rows = pd_definitions (st_db s) in
       case find same rows of
         Some d \<Rightarrow>
           gseq (onDb (\<lambda>t. t\<lparr>pd_definitions := updateRows same (\<lambda>d. d\<lparr>wd_Definition := wd_Definition def\<rparr>) rows\<rparr>))
             (gseq (InvalidateDefinitionCache (wd_ID d)) (gret (def\<lparr>wd_ID := wd_ID d, wd_CreatedAt := wd_CreatedAt d\<rparr>))) s
       | None \<Rightarrow>
           if \<exists>d\<in>set rows. wd_ID d = wd_ID def
           then (Fail (Err ''ERROR: duplicate key value violates unique constraint \"workflow_definitions_pkey\"''), s)
           else gseq (onDb (\<lambda>t. t\<lparr>pd_definitions := rows @ [def\<lparr>wd_CreatedAt := now\<rparr>]\<rparr>))
             (gseq (InvalidateDefinitionCache (wd_ID def)) (gret (def\<lparr>wd_CreatedAt := now\<rparr>))) s)"

definition selectDefinition :: "env \<Rightarrow> string \<Rightarrow> WorkflowDefinition pgo" where
  "selectDefinition E i =
     gbind (queryDb (\<lambda>d. firstRow (\<lambda>r. wd_ID r = i) (pd_definitions d))) (\<lambda>def s.
       if st_defCacheTTL s > 0
       then gbind (read_pg E) (\<lambda>now. gseq (gmodify (\<lambda>s. s\<lparr>st_defCache :=
              AList.update i (def, now + st_defCacheTTL s) (st_defCache s)\<rparr>)) (gret def)) s
       else (Ok def, s))"

definition GetWorkflowDefinition_pg :: "env \<Rightarrow> string \<Rightarrow> WorkflowDefinition pgo" where
  "GetWorkflowDefinition_pg E i s =
     (case (if st_defCacheTTL s > 0 then map_of (st_defCache s) i else None) of
        None \<Rightarrow> selectDefinition E i s
      | Some (def, expiresAt) \<Rightarrow>
          gbind (read_pg E) (\<lambda>now.
            if now < expiresAt then gret def
            else gseq (InvalidateDefinitionCache i) (selectDefinition E i)) s)"

section \<open>Instances\<close>

definition CreateInstance_pg :: "pgdrv \<Rightarrow> env \<Rightarrow> string \<Rightarrow> raw \<Rightarrow> WorkflowInstance pgo" where
  "CreateInstance_pg D E workflowID input =
     gbind (now_pg E) (\<lambda>now. gbind (jsonb D input) (\<lambda>input' s.
       let i = st_seqInstances s + 1; s1 = s\<lparr>st_seqInstances := i\<rparr>;
           row = \<lparr>wi_ID = i, wi_WorkflowID = workflowID, wi_Status = StatusPending, wi_Input = input', wi_Output = RawNil,
             wi_Error = None, wi_StartedAt = None, wi_CompletedAt = None, wi_CreatedAt = now, wi_UpdatedAt = now\<rparr>
       in if \<exists>d\<in>set (pd_definitions (st_db s)). wd_ID d = workflowID
          then gseq (onDb (\<lambda>d. d\<lparr>pd_instances := pd_instances d @ [row]\<rparr>)) (gret row) s1
          else (Fail (Err ''ERROR: insert on table \"workflow_instances\" violates foreign key constraint''), s1)))"

definition UpdateInstanceStatus_pg :: "pgdrv \<Rightarrow> env \<Rightarrow> int \<Rightarrow> WorkflowStatus \<Rightarrow> raw \<Rightarrow> string option \<Rightarrow> unit pgo" where
  "UpdateInstanceStatus_pg D E instanceID status output errMsg =
     gbind (now_pg E) (\<lambda>now. gbind (jsonb D output) (\<lambda>output'.
       onDb (\<lambda>d. d\<lparr>pd_instances := updateRows (\<lambda>i. wi_ID i = instanceID)
         (\<lambda>i. i\<lparr>wi_Status := status, wi_Output := output', wi_Error := errMsg, wi_UpdatedAt := now,
            wi_CompletedAt := (if status \<in> {StatusCompleted, StatusFailed, StatusCancelled} then Some now else wi_CompletedAt i),
            wi_StartedAt := (if wi_StartedAt i = None \<and> status = StatusRunning then Some now else wi_StartedAt i)\<rparr>)
         (pd_instances d)\<rparr>)))"

definition GetInstance_pg :: "int \<Rightarrow> WorkflowInstance pgo" where
  "GetInstance_pg instanceID = queryDb (\<lambda>d. firstRow (\<lambda>i. wi_ID i = instanceID) (pd_instances d))"

section \<open>Steps\<close>

text \<open>
  Only some columns are given: output, error and the counters are those of an empty row whatever the caller's struct has.
  The answer is the caller's struct.
\<close>

definition CreateStep_pg :: "pgdrv \<Rightarrow> env \<Rightarrow> WorkflowStep \<Rightarrow> WorkflowStep pgo" where
  "CreateStep_pg D E step =
     gbind (if ws_IdempotencyKey step = '''' then (\<lambda>s. (Ok (uuid E (st_cursor s)), s\<lparr>st_cursor := Suc (st_cursor s)\<rparr>))
            else gret (ws_IdempotencyKey step)) (\<lambda>key.
     gbind (now_pg E) (\<lambda>now. gbind (jsonb D (ws_Input step)) (\<lambda>input s.
       let k = st_seqSteps s + 1; s1 = s\<lparr>st_seqSteps := k\<rparr> in
       case pg_uuid D key of
         None \<Rightarrow> (Fail (Err ''ERROR: invalid input syntax for type uuid''), s)
       | Some key' \<Rightarrow>
           if \<not> stepTypeCheck (ws_StepType step) then (Fail (checkViolated ''workflow_steps_step_type_check''), s1)
           else if \<not> stepStatusCheck (ws_Status step) then (Fail (checkViolated ''workflow_steps_status_check''), s1)
           else gseq (onDb (\<lambda>d. d\<lparr>pd_steps := pd_steps d @ [\<lparr>ws_ID = k, ws_InstanceID = ws_InstanceID step,
                    ws_StepName = ws_StepName step, ws_StepType = ws_StepType step, ws_Status = ws_Status step,
                    ws_Input = input, ws_Output = RawNil, ws_Error = None, ws_RetryCount = 0,
                    ws_MaxRetries = ws_MaxRetries step, ws_CompensationRetryCount = 0, ws_IdempotencyKey = key',
                    ws_StartedAt = None, ws_CompletedAt = None, ws_CreatedAt = now\<rparr>]\<rparr>))
                  (gret (step\<lparr>ws_IdempotencyKey := key, ws_ID := k, ws_CreatedAt := now\<rparr>)) s1)))"

definition UpdateStep_pg :: "pgdrv \<Rightarrow> env \<Rightarrow> int \<Rightarrow> StepStatus \<Rightarrow> raw \<Rightarrow> string option \<Rightarrow> unit pgo" where
  "UpdateStep_pg D E stepID status output errMsg =
     gbind (now_pg E) (\<lambda>now. gbind (jsonb D output) (\<lambda>output'.
       updateSteps (\<lambda>st. ws_ID st = stepID)
         (\<lambda>st. st\<lparr>ws_Status := status, ws_Output := output', ws_Error := errMsg,
            ws_CompletedAt := (if status \<in> {StepStatusCompleted, StepStatusFailed, StepStatusSkipped} then Some now
                               else ws_CompletedAt st),
            ws_StartedAt := (if ws_StartedAt st = None \<and> status = StepStatusRunning then Some now else ws_StartedAt st),
            ws_RetryCount := (if status = StepStatusFailed then ws_RetryCount st + 1 else ws_RetryCount st)\<rparr>)))"

text \<open>
  The queries select different columns: a field that is not selected has its zero value. \<open>GetStepsByInstance\<close> leaves out
  \<open>compensation_retry_count\<close> and \<open>GetWorkflowSteps\<close> the idempotency key.
\<close>

definition GetStepsByInstance_pg :: "int \<Rightarrow> WorkflowStep list pgo" where
  "GetStepsByInstance_pg instanceID = queryDb (\<lambda>d. Ok (map (\<lambda>st. st\<lparr>ws_CompensationRetryCount := 0\<rparr>)
     (sort_key ws_CreatedAt (filter (\<lambda>st. ws_InstanceID st = instanceID) (pd_steps d)))))"

definition GetWorkflowSteps_pg :: "int \<Rightarrow> WorkflowStep list pgo" where
  "GetWorkflowSteps_pg instanceID = queryDb (\<lambda>d. Ok (map (\<lambda>st. st\<lparr>ws_IdempotencyKey := ''''\<rparr>)
     (sort_key ws_CreatedAt (filter (\<lambda>st. ws_InstanceID st = instanceID) (pd_steps d)))))"

definition GetActiveStepsForUpdate_pg :: "int \<Rightarrow> WorkflowStep list pgo" where
  "GetActiveStepsForUpdate_pg instanceID = queryDb (\<lambda>d. Ok (orderDesc ws_CreatedAt
     (filter (\<lambda>st. ws_InstanceID st = instanceID \<and>
        ws_Status st \<in> {StepStatusPending, StepStatusRunning, StepStatusWaitingDecision}) (pd_steps d))))"

definition UpdateStepCompensationRetry_pg :: "int \<Rightarrow> int \<Rightarrow> StepStatus \<Rightarrow> unit pgo" where
  "UpdateStepCompensationRetry_pg stepID retryCount status =
     updateSteps (\<lambda>st. ws_ID st = stepID) (\<lambda>st. st\<lparr>ws_CompensationRetryCount := retryCount, ws_Status := status\<rparr>)"

definition UpdateStepStatus_pg :: "int \<Rightarrow> StepStatus \<Rightarrow> unit pgo" where
  "UpdateStepStatus_pg stepID status = updateSteps (\<lambda>st. ws_ID st = stepID) (\<lambda>st. st\<lparr>ws_Status := status\<rparr>)"

definition GetStepByID_pg :: "int \<Rightarrow> WorkflowStep pgo" where
  "GetStepByID_pg stepID = queryDb (\<lambda>d. firstRow (\<lambda>st. ws_ID st = stepID) (pd_steps d))"

definition GetHumanDecisionStepByInstanceID_pg :: "int \<Rightarrow> WorkflowStep pgo" where
  "GetHumanDecisionStepByInstanceID_pg instanceID = queryDb (\<lambda>d.
     case orderDesc ws_CreatedAt (filter (\<lambda>st. ws_InstanceID st = instanceID \<and> ws_StepType st = StepTypeHuman) (pd_steps d)) of
       [] \<Rightarrow> Fail EntityNotFound | step # _ \<Rightarrow> Ok step)"

section \<open>Queue\<close>

definition EnqueueStep_pg :: "env \<Rightarrow> int \<Rightarrow> int option \<Rightarrow> int \<Rightarrow> int \<Rightarrow> unit pgo" where
  "EnqueueStep_pg E instanceID stepID priority delay =
     gbind (read_pg E) (\<lambda>now s.
       let k = st_seqQueue s + 1; s1 = s\<lparr>st_seqQueue := k\<rparr> in
       if stepID = None
       then (Fail (Err ''ERROR: null value in column \"step_id\" of relation \"workflow_queue\" violates not-null constraint''), s1)
       else onDb (\<lambda>d. d\<lparr>pd_queue := pd_queue d @ [\<lparr>qi_ID = k, qi_InstanceID = instanceID, qi_StepID = stepID,
              qi_ScheduledAt = micro (now + delay), qi_AttemptedAt = None, qi_AttemptedBy = None, qi_Priority = priority\<rparr>]\<rparr>) s1)"

text \<open>\<open>LEAST (100, priority + FLOOR (EXTRACT (EPOCH FROM ($1 - scheduled_at)) * $2))\<close>\<close>

definition agedPriority_pg :: "bool \<Rightarrow> rat \<Rightarrow> int \<Rightarrow> QueueItem \<Rightarrow> int" where
  "agedPriority_pg agingEnabled agingRate now q =
     (if agingEnabled \<and> agingRate > 0
      then min 100 (qi_Priority q + \<lfloor>of_int (now - qi_ScheduledAt q) / 1000000000 * agingRate\<rfloor>)
      else qi_Priority q)"

definition DequeueStep_pg :: "env \<Rightarrow> string \<Rightarrow> QueueItem option pgo" where
  "DequeueStep_pg E workerID =
     gbind (now_pg E) (\<lambda>now s.
       let due = filter (\<lambda>q. qi_ScheduledAt q \<le> now \<and> qi_AttemptedAt q = None) (pd_queue (st_db s));
           claim = (\<lambda>q. q\<lparr>qi_AttemptedAt := Some now, qi_AttemptedBy := Some workerID\<rparr>) in
       case sort_key (\<lambda>q. (- agedPriority_pg (st_agingEnabled s) (st_agingRate s) now q, qi_ScheduledAt q)) due of
         [] \<Rightarrow> (Ok None, s)
       | q # _ \<Rightarrow> gseq (onDb (\<lambda>d. d\<lparr>pd_queue := updateRows (\<lambda>r. qi_ID r = qi_ID q) claim (pd_queue d)\<rparr>)) (gret (Some (claim q))) s)"

definition RemoveFromQueue_pg :: "int \<Rightarrow> unit pgo" where
  "RemoveFromQueue_pg queueID = onDb (\<lambda>d. d\<lparr>pd_queue := filter (\<lambda>q. qi_ID q \<noteq> queueID) (pd_queue d)\<rparr>)"

definition ReleaseQueueItem_pg :: "int \<Rightarrow> unit pgo" where
  "ReleaseQueueItem_pg queueID = onDb (\<lambda>d. d\<lparr>pd_queue :=
     updateRows (\<lambda>q. qi_ID q = queueID) (\<lambda>q. q\<lparr>qi_AttemptedAt := None, qi_AttemptedBy := None\<rparr>) (pd_queue d)\<rparr>)"

definition RescheduleAndReleaseQueueItem_pg :: "env \<Rightarrow> int \<Rightarrow> int \<Rightarrow> unit pgo" where
  "RescheduleAndReleaseQueueItem_pg E queueID delay =
     gbind (read_pg E) (\<lambda>now. onDb (\<lambda>d. d\<lparr>pd_queue := updateRows (\<lambda>q. qi_ID q = queueID)
        (\<lambda>q. q\<lparr>qi_ScheduledAt := max (qi_ScheduledAt q) (micro (now + delay)), qi_AttemptedAt := None, qi_AttemptedBy := None\<rparr>)
        (pd_queue d)\<rparr>))"

section \<open>Events\<close>

definition LogEvent_pg :: "pgdrv \<Rightarrow> env \<Rightarrow> int \<Rightarrow> int option \<Rightarrow> string \<Rightarrow> jval option \<Rightarrow> unit pgo" where
  "LogEvent_pg D E instanceID stepID eventType payload =
     (case payload of
        None \<Rightarrow> gfail (Err ''json: error calling MarshalJSON'')
      | Some pv \<Rightarrow> gbind (now_pg E) (\<lambda>now s.
          let k = st_seqEvents s + 1 in
          onDb (\<lambda>d. d\<lparr>pd_events := pd_events d @ [\<lparr>ev_ID = k, ev_InstanceID = instanceID, ev_StepID = stepID,
            ev_EventType = eventType, ev_Payload = pg_jsonb D pv, ev_CreatedAt = now\<rparr>]\<rparr>) (s\<lparr>st_seqEvents := k\<rparr>)))"

definition GetWorkflowEvents_pg :: "int \<Rightarrow> WorkflowEvent list pgo" where
  "GetWorkflowEvents_pg instanceID = queryDb (\<lambda>d.
     Ok (sort_key ev_CreatedAt (filter (\<lambda>e. ev_InstanceID e = instanceID) (pd_events d))))"

section \<open>Join states\<close>

text \<open>\<open>for _, c := range s\<close> runs over the code points of a string; a byte that starts none counts as U+FFFD.\<close>

definition contByte :: "nat \<Rightarrow> nat \<Rightarrow> nat \<Rightarrow> bool" where
  "contByte lo hi c \<longleftrightarrow> lo \<le> c \<and> c \<le> hi"

definition rune2 :: "nat \<Rightarrow> nat \<Rightarrow> nat option" where
  "rune2 b c = (if 0xC2 \<le> b \<and> b \<le> 0xDF \<and> contByte 0x80 0xBF c then Some ((b - 0xC0) * 64 + (c - 0x80)) else None)"

definition rune3 :: "nat \<Rightarrow> nat \<Rightarrow> nat \<Rightarrow> nat option" where
  "rune3 b c d =
     (if 0xE0 \<le> b \<and> b \<le> 0xEF \<and> contByte (if b = 0xE0 then 0xA0 else 0x80) (if b = 0xED then 0x9F else 0xBF) c \<and>
         contByte 0x80 0xBF d
      then Some ((b - 0xE0) * 4096 + (c - 0x80) * 64 + (d - 0x80)) else None)"

definition rune4 :: "nat \<Rightarrow> nat \<Rightarrow> nat \<Rightarrow> nat \<Rightarrow> nat option" where
  "rune4 b c d e =
     (if 0xF0 \<le> b \<and> b \<le> 0xF4 \<and> contByte (if b = 0xF0 then 0x90 else 0x80) (if b = 0xF4 then 0x8F else 0xBF) c \<and>
         contByte 0x80 0xBF d \<and> contByte 0x80 0xBF e
      then Some ((b - 0xF0) * 262144 + (c - 0x80) * 4096 + (d - 0x80) * 64 + (e - 0x80)) else None)"

text \<open>The first code point and the number of bytes after the first that it takes.\<close>

definition firstRune :: "nat \<Rightarrow> nat list \<Rightarrow> nat \<times> nat" where
  "firstRune b bs =
     (if b < 0x80 then (b, 0)
      else case (case bs of c # _ \<Rightarrow> rune2 b c | _ \<Rightarrow> None) of Some r \<Rightarrow> (r, 1)
      | None \<Rightarrow> (case (case bs of c # d # _ \<Rightarrow> rune3 b c d | _ \<Rightarrow> None) of Some r \<Rightarrow> (r, 2)
      | None \<Rightarrow> (case (case bs of c # d # e # _ \<Rightarrow> rune4 b c d e | _ \<Rightarrow> None) of Some r \<Rightarrow> (r, 3)
      | None \<Rightarrow> (0xFFFD, 0))))"

function runes :: "nat list \<Rightarrow> nat list" where
  "runes [] = []"
| "runes (b # bs) = fst (firstRune b bs) # runes (drop (snd (firstRune b bs)) bs)"
  by pat_completeness auto
termination by (relation "measure length") auto

definition runesOf :: "string \<Rightarrow> nat list" where
  "runesOf s = runes (map of_char s)"

definition fnvStep :: "64 word \<Rightarrow> nat \<Rightarrow> 64 word" where
  "fnvStep hash c = (hash XOR of_nat c) * 16777619"

definition generateAdvisoryLockKey :: "int \<Rightarrow> string \<Rightarrow> int" where
  "generateAdvisoryLockKey instanceID joinStepName =
     (let hash = foldl fnvStep 2166136261 (runesOf joinStepName);
          result = word_of_int instanceID * 1000000007 + hash
      in sint result)"

definition CreateJoinState_pg :: "env \<Rightarrow> int \<Rightarrow> string \<Rightarrow> string list \<Rightarrow> JoinStrategy \<Rightarrow> unit pgo" where
  "CreateJoinState_pg E instanceID joinStepName waitingFor strategy s =
     (if \<exists>r\<in>set (pd_joins (st_db s)). joinKey_sql instanceID joinStepName r then (Ok (), s)
      else gbind (now_pg E) (\<lambda>now. onDb (\<lambda>d. d\<lparr>pd_joins := pd_joins d @ [\<lparr>jr_instance_id = instanceID,
             jr_join_step_name = joinStepName, jr_waiting_for = waitingFor, jr_completed = [], jr_failed = [],
             jr_join_strategy = (if strategy = JoinStrategyOther '''' then JoinStrategyAll else strategy), jr_is_ready = 0,
             jr_created_at = now, jr_updated_at = now\<rparr>]\<rparr>)) s)"

definition joinOf :: "int \<Rightarrow> string \<Rightarrow> StoreImpl \<Rightarrow> joinRow option" where
  "joinOf instanceID joinStepName s = find (joinKey_sql instanceID joinStepName) (pd_joins (st_db s))"

text \<open>The last statement of the three methods; \<open>assign\<close> is what a method sets besides.\<close>

definition writeJoin_pg :: "env \<Rightarrow> int \<Rightarrow> string \<Rightarrow> (joinRow \<Rightarrow> joinRow) \<Rightarrow> bool \<Rightarrow> unit pgo" where
  "writeJoin_pg E instanceID joinStepName assign isReady =
     gbind (now_pg E) (\<lambda>now. onDb (\<lambda>d. d\<lparr>pd_joins := updateRows (joinKey_sql instanceID joinStepName)
       (\<lambda>r. (assign r)\<lparr>jr_is_ready := (if isReady then 1 else 0), jr_updated_at := now\<rparr>) (pd_joins d)\<rparr>))"

definition UpdateJoinState_pg :: "env \<Rightarrow> int \<Rightarrow> string \<Rightarrow> string \<Rightarrow> bool \<Rightarrow> bool pgo" where
  "UpdateJoinState_pg E instanceID joinStepName completedStep success s =
     (case joinOf instanceID joinStepName s of
        None \<Rightarrow> (Fail noRows_pg, s)
      | Some r \<Rightarrow>
          let completed = (if success then addOnce completedStep (jr_completed r) else remove1 completedStep (jr_completed r));
              failed = (if success then remove1 completedStep (jr_failed r) else addOnce completedStep (jr_failed r));
              isReady = checkJoinReady (jr_waiting_for r) completed failed (jr_join_strategy r)
          in gseq (writeJoin_pg E instanceID joinStepName (\<lambda>r. r\<lparr>jr_completed := completed, jr_failed := failed\<rparr>) isReady)
               (gret isReady) s)"

definition GetJoinState_pg :: "int \<Rightarrow> string \<Rightarrow> JoinState pgo" where
  "GetJoinState_pg instanceID joinStepName s =
     (case joinOf instanceID joinStepName s of
        None \<Rightarrow> (Fail EntityNotFound, s)
      | Some r \<Rightarrow> (Ok \<lparr>js_InstanceID = jr_instance_id r, js_JoinStepName = jr_join_step_name r,
          js_WaitingFor = WOwn (jr_waiting_for r), js_Completed = jr_completed r, js_Failed = jr_failed r,
          js_JoinStrategy = jr_join_strategy r, js_IsReady = (jr_is_ready r = 1), js_CreatedAt = jr_created_at r,
          js_UpdatedAt = jr_updated_at r\<rparr>, s))"

definition AddToJoinWaitFor_pg :: "env \<Rightarrow> int \<Rightarrow> string \<Rightarrow> string \<Rightarrow> unit pgo" where
  "AddToJoinWaitFor_pg E instanceID joinStepName stepToAdd s =
     (case joinOf instanceID joinStepName s of
        None \<Rightarrow> CreateJoinState_pg E instanceID joinStepName [stepToAdd] JoinStrategyAll s
      | Some r \<Rightarrow>
          if stepToAdd \<in> set (jr_waiting_for r) then (Ok (), s)
          else let waitingFor = jr_waiting_for r @ [stepToAdd]
               in writeJoin_pg E instanceID joinStepName (\<lambda>r. r\<lparr>jr_waiting_for := waitingFor\<rparr>)
                    (checkJoinReady waitingFor (jr_completed r) (jr_failed r) (jr_join_strategy r)) s)"

text \<open>The catch-up with the newest step of that name.\<close>

definition syncLists :: "WorkflowStep list \<Rightarrow> string \<Rightarrow> string list \<Rightarrow> string list \<Rightarrow> string list \<times> string list" where
  "syncLists steps realStep completed failed =
     (case orderDesc ws_CreatedAt (filter (\<lambda>st. ws_StepName st = realStep) steps) of
        [] \<Rightarrow> (completed, failed)
      | step # _ \<Rightarrow>
          if realStep \<notin> set completed \<and> realStep \<notin> set failed then
            (if ws_Status step = StepStatusCompleted then (completed @ [realStep], failed)
             else if ws_Status step = StepStatusFailed \<or> ws_Status step = StepStatusRolledBack then (completed, failed @ [realStep])
             else (completed, failed))
          else (completed, failed))"

definition ReplaceInJoinWaitFor_pg :: "env \<Rightarrow> int \<Rightarrow> string \<Rightarrow> string \<Rightarrow> string \<Rightarrow> unit pgo" where
  "ReplaceInJoinWaitFor_pg E instanceID joinStepName virtualStep realStep s =
     (case joinOf instanceID joinStepName s of
        None \<Rightarrow> CreateJoinState_pg E instanceID joinStepName [realStep] JoinStrategyAll s
      | Some r \<Rightarrow>
          let waitingFor = (if virtualStep \<in> set (jr_waiting_for r) then replaceFirst virtualStep realStep (jr_waiting_for r)
                            else jr_waiting_for r @ [realStep]);
              (completed, failed) = syncLists (filter (\<lambda>st. ws_InstanceID st = instanceID) (pd_steps (st_db s))) realStep
                (jr_completed r) (jr_failed r)
          in writeJoin_pg E instanceID joinStepName
               (\<lambda>r. r\<lparr>jr_waiting_for := waitingFor, jr_completed := completed, jr_failed := failed\<rparr>)
               (checkJoinReady waitingFor completed failed (jr_join_strategy r)) s)"

section \<open>Cancel requests, human decisions\<close>

text \<open>\<open>ON CONFLICT DO NOTHING\<close> with \<open>RETURNING\<close>: when there is a request already, no row comes back and \<open>Scan\<close> fails.\<close>

definition CreateCancelRequest_pg :: "env \<Rightarrow> WorkflowCancelRequest \<Rightarrow> WorkflowCancelRequest pgo" where
  "CreateCancelRequest_pg E req =
     gbind (now_pg E) (\<lambda>now s.
       let k = st_seqCancels s + 1; s1 = s\<lparr>st_seqCancels := k\<rparr>; row = req\<lparr>cr_ID := k, cr_CreatedAt := now\<rparr> in
       if \<exists>r\<in>set (pd_cancels (st_db s)). cr_InstanceID r = cr_InstanceID req then (Fail noRows_pg, s1)
       else gseq (onDb (\<lambda>d. d\<lparr>pd_cancels := pd_cancels d @ [row]\<rparr>)) (gret row) s1)"

definition GetCancelRequest_pg :: "int \<Rightarrow> WorkflowCancelRequest pgo" where
  "GetCancelRequest_pg instanceID = queryDb (\<lambda>d. firstRow (\<lambda>r. cr_InstanceID r = instanceID) (pd_cancels d))"

definition DeleteCancelRequest_pg :: "int \<Rightarrow> unit pgo" where
  "DeleteCancelRequest_pg instanceID =
     onDb (\<lambda>d. d\<lparr>pd_cancels := filter (\<lambda>r. cr_InstanceID r \<noteq> instanceID) (pd_cancels d)\<rparr>)"

text \<open>The table takes the two decisions only, and one decision per step and person.\<close>

definition CreateHumanDecision_pg :: "env \<Rightarrow> HumanDecisionRecord \<Rightarrow> HumanDecisionRecord pgo" where
  "CreateHumanDecision_pg E decision =
     gbind (now_pg E) (\<lambda>now s.
       let k = st_seqDecisions s + 1; s1 = s\<lparr>st_seqDecisions := k\<rparr>;
           row = decision\<lparr>hd_ID := k, hd_DecidedAt := micro (hd_DecidedAt decision), hd_CreatedAt := now\<rparr> in
       if humanDecisionStr (hd_Decision decision) \<notin> {''confirmed'', ''rejected''}
       then (Fail (checkViolated ''workflow_human_decisions_decision_check''), s1)
       else if \<exists>r\<in>set (pd_decisions (st_db s)). hd_StepID r = hd_StepID decision \<and> hd_DecidedBy r = hd_DecidedBy decision
       then (Fail (Err ''ERROR: duplicate key value violates unique constraint \"workflow_human_decisions_step_id_decided_by_key\"''), s1)
       else gseq (onDb (\<lambda>d. d\<lparr>pd_decisions := pd_decisions d @ [row]\<rparr>))
              (gret (decision\<lparr>hd_ID := k, hd_CreatedAt := now\<rparr>)) s1)"

definition GetHumanDecision_pg :: "int \<Rightarrow> HumanDecisionRecord pgo" where
  "GetHumanDecision_pg stepID = queryDb (\<lambda>d. firstRow (\<lambda>r. hd_StepID r = stepID) (pd_decisions d))"

section \<open>Dead letters\<close>

text \<open>\<open>created_at\<close> is the server's \<open>now ()\<close>.\<close>

definition CreateDeadLetterRecord_pg :: "pgdrv \<Rightarrow> env \<Rightarrow> DeadLetterRecord \<Rightarrow> unit pgo" where
  "CreateDeadLetterRecord_pg D E rec =
     gbind (jsonb D (dl_Input rec)) (\<lambda>input. gbind (now_pg E) (\<lambda>now s.
       let k = st_seqDlq s + 1 in
       onDb (\<lambda>d. d\<lparr>pd_dlq := pd_dlq d @ [rec\<lparr>dl_ID := k, dl_Input := input, dl_CreatedAt := now\<rparr>]\<rparr>) (s\<lparr>st_seqDlq := k\<rparr>)))"

text \<open>
  One statement whose parts see the tables as they were: the step is reset, enqueued with the column's
  default priority 0, the instance resumed, paused joins woken, the record deleted. Everything but the deletion hangs on the
  step being there; without a record nothing happens and no error is returned.
\<close>

definition resetStep_pg :: "raw option \<Rightarrow> raw \<Rightarrow> WorkflowStep \<Rightarrow> WorkflowStep" where
  "resetStep_pg newInput dlqInput st =
     st\<lparr>ws_Status := StepStatusPending,
        ws_Input := (case newInput of Some i \<Rightarrow> if i = RawNil then (if dlqInput = RawNil then ws_Input st else dlqInput) else i
                     | None \<Rightarrow> if dlqInput = RawNil then ws_Input st else dlqInput),
        ws_Error := None, ws_RetryCount := 0, ws_CompensationRetryCount := 0, ws_StartedAt := None, ws_CompletedAt := None\<rparr>"

definition wakeJoin_pg :: "int \<Rightarrow> WorkflowStep \<Rightarrow> WorkflowStep" where
  "wakeJoin_pg instanceID st =
     (if ws_InstanceID st = instanceID \<and> ws_StepType st = StepTypeJoin \<and> ws_Status st = StepStatusPaused
      then st\<lparr>ws_Status := StepStatusPending\<rparr> else st)"

definition RequeueDeadLetter_pg :: "pgdrv \<Rightarrow> env \<Rightarrow> int \<Rightarrow> raw option \<Rightarrow> unit pgo" where
  "RequeueDeadLetter_pg D E dlqID newInput =
     gbind (case newInput of None \<Rightarrow> gret None | Some i \<Rightarrow> gbind (jsonb D i) (\<lambda>j. gret (Some j))) (\<lambda>input.
     gbind (now_pg E) (\<lambda>now s.
       case find (\<lambda>r. dl_ID r = dlqID) (pd_dlq (st_db s)) of None \<Rightarrow> (Ok (), s)
       | Some rec \<Rightarrow>
           (let remove = (\<lambda>d. d\<lparr>pd_dlq := filter (\<lambda>r. dl_ID r \<noteq> dlqID) (pd_dlq d)\<rparr>) in
            case find (\<lambda>st. ws_ID st = dl_StepID rec) (pd_steps (st_db s)) of None \<Rightarrow> onDb remove s
            | Some step \<Rightarrow>
                let i = ws_InstanceID step; k = st_seqQueue s + 1;
                    item = \<lparr>qi_ID = k, qi_InstanceID = i, qi_StepID = Some (dl_StepID rec), qi_ScheduledAt = now,
                      qi_AttemptedAt = None, qi_AttemptedBy = None, qi_Priority = 0\<rparr>
                in onDb (\<lambda>d. remove (d\<lparr>
                     pd_steps := map (\<lambda>st. if ws_ID st = dl_StepID rec then resetStep_pg input (dl_Input rec) st else wakeJoin_pg i st)
                       (pd_steps d),
                     pd_queue := pd_queue d @ [item],
                     pd_instances := updateRows (\<lambda>w. wi_ID w = i \<and> wi_Status w \<in> {StatusFailed, StatusDLQ})
                       (\<lambda>w. w\<lparr>wi_Status := StatusRunning, wi_Error := None\<rparr>) (pd_instances d)\<rparr>)) (s\<lparr>st_seqQueue := k\<rparr>))))"

text \<open>A negative \<open>LIMIT\<close> or \<open>OFFSET\<close> is an error of the server.\<close>

definition page_pg :: "int \<Rightarrow> int \<Rightarrow> 'r list \<Rightarrow> ('r list \<times> int) res" where
  "page_pg offset limit rows =
     (if limit < 0 then Fail (Err ''ERROR: LIMIT must not be negative'')
      else if offset < 0 then Fail (Err ''ERROR: OFFSET must not be negative'')
      else Ok (take (nat limit) (drop (nat offset) rows), int (length rows)))"

definition ListDeadLetters_pg :: "int \<Rightarrow> int \<Rightarrow> (DeadLetterRecord list \<times> int) pgo" where
  "ListDeadLetters_pg offset limit = queryDb (\<lambda>d. page_pg offset limit (orderDesc dl_CreatedAt (pd_dlq d)))"

definition GetDeadLetterByID_pg :: "int \<Rightarrow> DeadLetterRecord pgo" where
  "GetDeadLetterByID_pg i = queryDb (\<lambda>d. firstRow (\<lambda>r. dl_ID r = i) (pd_dlq d))"

definition PauseActiveStepsAndClearQueue_pg :: "int \<Rightarrow> unit pgo" where
  "PauseActiveStepsAndClearQueue_pg instanceID =
     gseq (updateSteps (\<lambda>st. ws_InstanceID st = instanceID \<and> ws_Status st = StepStatusRunning)
             (\<lambda>st. st\<lparr>ws_Status := StepStatusPaused\<rparr>))
          (onDb (\<lambda>d. d\<lparr>pd_queue := filter (\<lambda>q. qi_InstanceID q \<noteq> instanceID) (pd_queue d)\<rparr>))"

section \<open>Listing and statistics\<close>

definition GetWorkflowDefinitions_pg :: "WorkflowDefinition list pgo" where
  "GetWorkflowDefinitions_pg = queryDb (\<lambda>d. Ok (sort_key (\<lambda>r. (wd_Name r, - wd_Version r)) (pd_definitions d)))"

definition GetWorkflowInstances_pg :: "string \<Rightarrow> WorkflowInstance list pgo" where
  "GetWorkflowInstances_pg workflowID = queryDb (\<lambda>d.
     Ok (orderDesc wi_CreatedAt (filter (\<lambda>i. wi_WorkflowID i = workflowID) (pd_instances d))))"

definition GetAllWorkflowInstances_pg :: "WorkflowInstance list pgo" where
  "GetAllWorkflowInstances_pg = queryDb (\<lambda>d. Ok (orderDesc wi_CreatedAt (pd_instances d)))"

definition GetWorkflowInstancesPaginated_pg :: "string \<Rightarrow> int \<Rightarrow> int \<Rightarrow> (WorkflowInstance list \<times> int) pgo" where
  "GetWorkflowInstancesPaginated_pg workflowID offset limit = queryDb (\<lambda>d.
     page_pg offset limit (orderDesc wi_CreatedAt (filter (\<lambda>i. wi_WorkflowID i = workflowID) (pd_instances d))))"

definition GetAllWorkflowInstancesPaginated_pg :: "int \<Rightarrow> int \<Rightarrow> (WorkflowInstance list \<times> int) pgo" where
  "GetAllWorkflowInstancesPaginated_pg offset limit = queryDb (\<lambda>d.
     page_pg offset limit (orderDesc wi_CreatedAt (pd_instances d)))"

text \<open>The view \<open>active_workflows\<close> counts instances in the dead letter queue too.\<close>

definition GetSummaryStats_pg :: "SummaryStats pgo" where
  "GetSummaryStats_pg = queryDb (\<lambda>d.
     let count = (\<lambda>S. countWhere (\<lambda>i. wi_Status i \<in> S) (pd_instances d)) in
     Ok \<lparr>ss_TotalWorkflows = length (pd_instances d), ss_CompletedWorkflows = count {StatusCompleted},
       ss_FailedWorkflows = count {StatusFailed}, ss_RunningWorkflows = count {StatusRunning},
       ss_PendingWorkflows = count {StatusPending},
       ss_ActiveWorkflows = count {StatusPending, StatusRunning, StatusDLQ}\<rparr>)"

text \<open>An inner join: an instance without its definition is left out.\<close>

definition activeInstance_pg :: "PgDb \<Rightarrow> WorkflowInstance \<Rightarrow> ActiveWorkflowInstance option" where
  "activeInstance_pg d i =
     map_option (\<lambda>w. let mine = filter (\<lambda>st. ws_InstanceID st = wi_ID i) (pd_steps d) in
       \<lparr>aw_ID = wi_ID i, aw_WorkflowID = wi_WorkflowID i, aw_WorkflowName = wd_Name w,
        aw_Status = workflowStatusStr (wi_Status i), aw_StartedAt = wi_CreatedAt i, aw_UpdatedAt = wi_UpdatedAt i,
        aw_CurrentStep = (case find (\<lambda>st. ws_Status st = StepStatusRunning) mine of None \<Rightarrow> '''' | Some st \<Rightarrow> ws_StepName st),
        aw_TotalSteps = length mine,
        aw_CompletedSteps = countWhere (\<lambda>st. ws_Status st = StepStatusCompleted) mine,
        aw_RolledBackSteps = countWhere (\<lambda>st. ws_Status st = StepStatusRolledBack) mine\<rparr>)
       (find (\<lambda>w. wd_ID w = wi_WorkflowID i) (pd_definitions d))"

definition GetActiveInstances_pg :: "ActiveWorkflowInstance list pgo" where
  "GetActiveInstances_pg = queryDb (\<lambda>d. Ok (List.map_filter (activeInstance_pg d) (orderDesc wi_CreatedAt
     (filter (\<lambda>i. wi_Status i \<in> {StatusRunning, StatusPending, StatusDLQ}) (pd_instances d)))))"

text \<open>The view \<open>workflow_stats\<close>; the average, exact here, is the one of the completed instances, \<open>NULL\<close> if there is none.\<close>

definition avgSeconds :: "WorkflowInstance list \<Rightarrow> rat option" where
  "avgSeconds rows =
     (let durations = List.map_filter (\<lambda>i. map_option (\<lambda>t. of_int (t - wi_CreatedAt i) / 1000000000) (wi_CompletedAt i))
            (filter (\<lambda>i. wi_Status i = StatusCompleted) rows)
      in if durations = [] then None else Some (sum_list durations / of_nat (length durations)))"

definition GetWorkflowStats_pg :: "WorkflowStats list pgo" where
  "GetWorkflowStats_pg = queryDb (\<lambda>d.
     Ok (map (\<lambda>w. let mine = filter (\<lambda>i. wi_WorkflowID i = wd_ID w) (pd_instances d);
                     count = (\<lambda>st. countWhere (\<lambda>i. wi_Status i = st) mine) in
       \<lparr>wst_WorkflowName = wd_Name w, wst_Version = wd_Version w, wst_TotalInstances = length mine,
        wst_CompletedInstances = count StatusCompleted, wst_FailedInstances = count StatusFailed,
        wst_RunningInstances = count StatusRunning,
        wst_AverageDuration = (case avgSeconds mine of None \<Rightarrow> 0 | Some a \<Rightarrow> truncRat (a * 1000000000))\<rparr>)
       (pd_definitions d)))"

text \<open>The procedure is the maintenance of \<open>pg_partman\<close>, a parameter that says which old rows it drops or why it fails.\<close>

definition CleanupOldWorkflows_pg :: "(PgDb \<Rightarrow> error + PgDb) \<Rightarrow> unit pgo" where
  "CleanupOldWorkflows_pg maintenance s =
     (case maintenance (st_db s) of
        Inl e \<Rightarrow> (Fail (Wrap ''failed to cleanup old partitions: '' e), s) | Inr d \<Rightarrow> (Ok (), s\<lparr>st_db := d\<rparr>))"

end
