(* ===== verification/Pg_Refinement.thy ===== *)
theory Pg_Refinement
  imports Store_Refinement PgStore
begin

text \<open>
  The PostgreSQL store as a third implementation of the abstract store. Its tables take less than the others: documents have to
  be JSON (and come back in normal form), keys have to be of type \<open>uuid\<close>, statuses and types those of the schema, an
  instance needs a registered definition, a new step starts with empty counters, a queue item needs a step.
  The listing of steps is left out, since it forgets a counter (\<open>Pg_Props\<close>).
\<close>

fun pgOp :: "pgdrv \<Rightarrow> env \<Rightarrow> storeOp \<Rightarrow> StoreImpl \<Rightarrow> answer \<times> StoreImpl" where
  "pgOp D E (DoCreateInstance workflowID input) s = answerOf (\<lambda>i. AnInstance (bareI i)) (CreateInstance_pg D E workflowID input s)"
| "pgOp D E (DoUpdateInstance k status output errMsg) s = answerOf (\<lambda>_. Unit) (UpdateInstanceStatus_pg D E k status output errMsg s)"
| "pgOp D E (DoGetInstance k) s = answerOf (\<lambda>i. AnInstance (bareI i)) (GetInstance_pg k s)"
| "pgOp D E (DoCreateStep step) s = answerOf (\<lambda>st. AStep (bareS st)) (CreateStep_pg D E step s)"
| "pgOp D E (DoUpdateStep k status output errMsg) s = answerOf (\<lambda>_. Unit) (UpdateStep_pg D E k status output errMsg s)"
| "pgOp D E (DoUpdateStepStatus k status) s = answerOf (\<lambda>_. Unit) (UpdateStepStatus_pg k status s)"
| "pgOp D E (DoCompensationRetry k n status) s = answerOf (\<lambda>_. Unit) (UpdateStepCompensationRetry_pg k n status s)"
| "pgOp D E (DoGetStep k) s = answerOf (\<lambda>st. AStep (bareS st)) (GetStepByID_pg k s)"
| "pgOp D E (DoGetSteps i) s = answerOf (\<lambda>xs. TheSteps (bareS ` set xs)) (GetStepsByInstance_pg i s)"
| "pgOp D E (DoEnqueue i st priority delay) s = answerOf (\<lambda>_. Unit) (EnqueueStep_pg E i st priority delay s)"
| "pgOp D E (DoRemove k) s = answerOf (\<lambda>_. Unit) (RemoveFromQueue_pg k s)"
| "pgOp D E (DoRelease k) s = answerOf (\<lambda>_. Unit) (ReleaseQueueItem_pg k s)"
| "pgOp D E (DoLog i st eventType payload) s = answerOf (\<lambda>_. Unit) (LogEvent_pg D E i st eventType payload s)"
| "pgOp D E (DoDecide d) s = answerOf (\<lambda>_. Unit) (CreateHumanDecision_pg E d s)"
| "pgOp D E (DoGetDecision k) s = answerOf (\<lambda>d. ADecision (bareH d)) (GetHumanDecision_pg k s)"
| "pgOp D E (DoRequest r) s = answerOf (\<lambda>_. Unit) (CreateCancelRequest_pg E r s)"
| "pgOp D E (DoGetRequest k) s = answerOf (\<lambda>r. ARequest (bareC r)) (GetCancelRequest_pg k s)"
| "pgOp D E (DoDeleteRequest k) s = answerOf (\<lambda>_. Unit) (DeleteCancelRequest_pg k s)"

definition plainJson :: "pgdrv \<Rightarrow> raw \<Rightarrow> bool" where
  "plainJson D r = (case r of RawNil \<Rightarrow> True | RawJson v \<Rightarrow> pg_jsonb D v = v | RawBad b \<Rightarrow> False)"

definition freshStep :: "WorkflowStep \<Rightarrow> bool" where
  "freshStep st \<longleftrightarrow> ws_Output st = RawNil \<and> ws_Error st = None \<and> ws_RetryCount st = 0 \<and> ws_CompensationRetryCount st = 0"

fun allowed_pg :: "pgdrv \<Rightarrow> WorkflowDefinition list \<Rightarrow> storeOp \<Rightarrow> bool" where
  "allowed_pg D defs (DoCreateInstance w input) = (w \<in> wd_ID ` set defs \<and> plainJson D input)"
| "allowed_pg D defs (DoUpdateInstance k status output errMsg) = plainJson D output"
| "allowed_pg D defs (DoCreateStep st) = (freshStep st \<and> plainJson D (ws_Input st) \<and>
     pg_uuid D (ws_IdempotencyKey st) = Some (ws_IdempotencyKey st) \<and> stepTypeCheck (ws_StepType st) \<and> stepStatusCheck (ws_Status st))"
| "allowed_pg D defs (DoUpdateStep k status output errMsg) = (plainJson D output \<and> stepStatusCheck status)"
| "allowed_pg D defs (DoUpdateStepStatus k status) = stepStatusCheck status"
| "allowed_pg D defs (DoCompensationRetry k n status) = stepStatusCheck status"
| "allowed_pg D defs (DoGetSteps i) = False"
| "allowed_pg D defs (DoEnqueue i st priority delay) = (st \<noteq> None)"
| "allowed_pg D defs (DoLog i st eventType payload) = (case payload of None \<Rightarrow> True | Some v \<Rightarrow> pg_jsonb D v = v)"
| "allowed_pg D defs (DoDecide d) = (hd_Decision d \<in> {HumanDecisionConfirmed, HumanDecisionRejected} \<and>
     micro (hd_DecidedAt d) = hd_DecidedAt d)"
| "allowed_pg D defs _ = True"

definition absP :: "StoreImpl \<Rightarrow> astore" where
  "absP s = \<lparr>as_instances = viewR bareI wi_ID (pd_instances (st_db s)), as_steps = viewR bareS ws_ID (pd_steps (st_db s)),
     as_queue = viewR bareQ qi_ID (pd_queue (st_db s)), as_events = map bareE (pd_events (st_db s)),
     as_decisions = viewR bareH hd_StepID (pd_decisions (st_db s)), as_cancels = viewR bareC cr_InstanceID (pd_cancels (st_db s)),
     as_nextInstance = st_seqInstances s + 1, as_nextStep = st_seqSteps s + 1, as_nextItem = st_seqQueue s + 1,
     as_nextEvent = st_seqEvents s + 1, as_nextDecision = st_seqDecisions s + 1\<rparr>"

definition pg_wf :: "WorkflowDefinition list \<Rightarrow> StoreImpl \<Rightarrow> bool" where
  "pg_wf defs s \<longleftrightarrow> rowsOK wi_ID (st_seqInstances s) (pd_instances (st_db s)) \<and> rowsOK ws_ID (st_seqSteps s) (pd_steps (st_db s)) \<and>
     rowsOK qi_ID (st_seqQueue s) (pd_queue (st_db s)) \<and> pd_definitions (st_db s) = defs"

definition withDefinitions :: "WorkflowDefinition list \<Rightarrow> StoreImpl" where
  "withDefinitions defs = NewStore\<lparr>st_db := emptyDb\<lparr>pd_definitions := defs\<rparr>\<rparr>"

lemmas pg_run = now_pg_def read_pg_def onDb_def queryDb_def gbind_def gseq_def gret_def gmodify_def gfail_def

lemmas pg_ops = CreateInstance_pg_def UpdateInstanceStatus_pg_def GetInstance_pg_def CreateStep_pg_def UpdateStep_pg_def
  UpdateStepStatus_pg_def UpdateStepCompensationRetry_pg_def GetStepByID_pg_def GetStepsByInstance_pg_def EnqueueStep_pg_def
  RemoveFromQueue_pg_def ReleaseQueueItem_pg_def LogEvent_pg_def CreateHumanDecision_pg_def GetHumanDecision_pg_def
  CreateCancelRequest_pg_def GetCancelRequest_pg_def DeleteCancelRequest_pg_def

lemma jsonb_plain: "plainJson D r \<Longrightarrow> jsonb D r s = (Ok r, s)"
  by (cases r) (simp_all add: plainJson_def)

lemma updateSteps_run:
  "(\<And>st. stepStatusCheck (ws_Status (f st))) \<Longrightarrow>
     updateSteps p f s = (Ok (), s\<lparr>st_db := (st_db s)\<lparr>pd_steps := updateRows p f (pd_steps (st_db s))\<rparr>\<rparr>)"
  by (simp add: updateSteps_def onDb_def gmodify_def)

lemma pgOp_inv:
  assumes "pg_wf defs s" "allowed_pg D defs op"
  shows "pg_wf defs (snd (pgOp D E op s))"
  using assms
  by (cases op) (auto simp: pg_ops pg_run pg_wf_def Let_def jsonb_plain updateSteps_run intro!: row_rules split: option.split)

lemma pgOp_update:
  assumes "allowed_pg D defs op"
    and "op \<in> {DoUpdateInstance k status output errMsg, DoUpdateStep k sst output errMsg, DoUpdateStepStatus k sst,
           DoCompensationRetry k n sst, DoRelease k}"
  shows "aop op (absP s) = (fst (pgOp D E op s), absP (snd (pgOp D E op s)))"
  using assms(2,1)
  by (elim insertE emptyE)
    (simp_all add: absP_def pg_ops pg_run jsonb_plain updateSteps_run, (rule sym, rule viewR_update; simp add: bare_defs)+)

lemma pgOp_create:
  assumes "pg_wf defs s" "allowed_pg D defs op" "admissible op (absP s)"
    and "op \<in> {DoCreateInstance w input, DoCreateStep step, DoEnqueue i st p d}"
  shows "aop op (absP s) = (fst (pgOp D E op s), absP (snd (pgOp D E op s)))"
proof -
  have fresh: "find (\<lambda>r. wi_ID r = st_seqInstances s + 1) (pd_instances (st_db s)) = None"
    "find (\<lambda>r. ws_ID r = st_seqSteps s + 1) (pd_steps (st_db s)) = None"
    "find (\<lambda>r. qi_ID r = st_seqQueue s + 1) (pd_queue (st_db s)) = None"
    using assms(1) rowsOK_fresh unfolding pg_wf_def by blast+
  have defs: "pd_definitions (st_db s) = defs" using assms(1) by (simp add: pg_wf_def)
  show ?thesis using assms(4,2,3)
    by (elim insertE emptyE)
      (auto simp: absP_def pg_ops pg_run Let_def jsonb_plain fresh viewR_append defs newInstance_def newItem_def
        bareI_def bareQ_def bareS_def freshStep_def)
qed

lemma pgOp_abs:
  assumes wf: "pg_wf defs s" and ok: "allowed_pg D defs op" and adm: "admissible op (absP s)"
  shows "aop op (absP s) = (fst (pgOp D E op s), absP (snd (pgOp D E op s)))"
proof (cases op)
  case (DoLog i st ty pl)
  then show ?thesis using ok by (cases pl) (simp_all add: absP_def LogEvent_pg_def pg_run Let_def bareE_def)
next
  case (DoRequest r)
  then have none: "find (\<lambda>x. cr_InstanceID x = cr_InstanceID r) (pd_cancels (st_db s)) = None"
    using adm by (simp add: absP_def viewR_def)
  then have "\<forall>x\<in>set (pd_cancels (st_db s)). cr_InstanceID x \<noteq> cr_InstanceID r" by (simp add: find_None_iff)
  then show ?thesis
    by (simp add: DoRequest absP_def CreateCancelRequest_pg_def pg_run Let_def viewR_append none bareC_def)
next
  case (DoDecide d)
  then have none: "find (\<lambda>x. hd_StepID x = hd_StepID d) (pd_decisions (st_db s)) = None"
    using adm by (simp add: absP_def viewR_def)
  then have "\<forall>x\<in>set (pd_decisions (st_db s)). hd_StepID x \<noteq> hd_StepID d" by (simp add: find_None_iff)
  moreover have "humanDecisionStr (hd_Decision d) \<in> {''confirmed'', ''rejected''}" "micro (hd_DecidedAt d) = hd_DecidedAt d"
    using ok by (auto simp: DoDecide)
  ultimately show ?thesis
    by (simp add: DoDecide absP_def CreateHumanDecision_pg_def pg_run Let_def viewR_append none bareH_def)
next
  case DoCreateInstance with wf ok adm show ?thesis by (intro pgOp_create) auto
next
  case DoCreateStep with wf ok adm show ?thesis by (intro pgOp_create) auto
next
  case DoEnqueue with wf ok adm show ?thesis by (intro pgOp_create) auto
next
  case DoUpdateInstance with ok show ?thesis by (intro pgOp_update) auto
next
  case DoUpdateStep with ok show ?thesis by (intro pgOp_update) auto
next
  case DoUpdateStepStatus with ok show ?thesis by (intro pgOp_update) auto
next
  case DoCompensationRetry with ok show ?thesis by (intro pgOp_update) auto
next
  case DoRelease with ok show ?thesis by (intro pgOp_update) auto
qed (use ok in \<open>simp_all add: absP_def pg_ops pg_run answerOf_first viewR_def got_map find_filter_key fun_eq_iff\<close>)

interpretation pg: store_impl absP "pg_wf defs" "withDefinitions defs" "pgOp D E" "allowed_pg D defs" for defs D E
proof unfold_locales
  show "pg_wf defs (withDefinitions defs)"
    by (simp add: pg_wf_def withDefinitions_def NewStore_def emptyDb_def rowsOK_Nil)
  show "absP (withDefinitions defs) = aEmpty"
    by (simp add: absP_def withDefinitions_def NewStore_def emptyDb_def aEmpty_def viewR_def)
qed (simp_all add: pgOp_inv pgOp_abs)


definition pgdrv0 :: pgdrv where
  "pgdrv0 = \<lparr>pg_uuid = (\<lambda>k. if k = '''' then None else Some k), pg_jsonb = (\<lambda>v. v)\<rparr>"

definition pgExample :: "storeOp list" where
  "pgExample = butlast opsExample"


end
