(* ===== verification/Pg_Props.thy ===== *)
theory Pg_Props
  imports Pg_Refinement Sqlite_Props Engine_Rollback
begin

text \<open>
  Properties of the PostgreSQL store: the cache of definitions shows what the table has, the queue follows the policy of the
  memory store, transactions undo their changes, the advisory lock separates instances, and what becomes of the
  compensation counter that the listing of steps forgets.
\<close>

section \<open>The cache of definitions\<close>

text \<open>The keys of the table, and entries that agree with it.\<close>

definition defsOK :: "WorkflowDefinition list \<Rightarrow> bool" where
  "defsOK rows \<longleftrightarrow> (\<forall>d\<in>set rows. \<forall>e\<in>set rows.
     wd_ID d = wd_ID e \<or> (wd_Name d = wd_Name e \<and> wd_Version d = wd_Version e) \<longrightarrow> d = e)"

abbreviation rowOf :: "StoreImpl \<Rightarrow> string \<Rightarrow> WorkflowDefinition option" where
  "rowOf s i \<equiv> find (\<lambda>d. wd_ID d = i) (pd_definitions (st_db s))"

definition cacheOK :: "StoreImpl \<Rightarrow> bool" where
  "cacheOK s \<longleftrightarrow> defsOK (pd_definitions (st_db s)) \<and>
     (\<forall>i def t. map_of (st_defCache s) i = Some (def, t) \<longrightarrow> rowOf s i = Some def)"

text \<open>
  One process on its database: the calls that concern definitions, with any clock, and calls that leave both
  the table and the cache alone.
\<close>

inductive cached :: "StoreImpl \<Rightarrow> bool" where
  start: "cached NewStore"
| save: "cached s \<Longrightarrow> cached (snd (SaveWorkflowDefinition_pg E def s))"
| get: "cached s \<Longrightarrow> cached (snd (GetWorkflowDefinition_pg E i s))"
| ttl: "cached s \<Longrightarrow> cached (snd (SetDefinitionCacheTTL t s))"
| drop: "cached s \<Longrightarrow> cached (snd (InvalidateDefinitionCache i s))"
| clear: "cached s \<Longrightarrow> cached (snd (ClearDefinitionCache s))"
| other: "cached s \<Longrightarrow> pd_definitions (st_db t) = pd_definitions (st_db s) \<Longrightarrow> st_defCache t = st_defCache s \<Longrightarrow> cached t"

lemma cacheOK_D: "cacheOK s \<Longrightarrow> map_of (st_defCache s) i = Some (def, t) \<Longrightarrow> rowOf s i = Some def"
  unfolding cacheOK_def by blast

lemma cacheOK_less:
  "cacheOK s \<Longrightarrow> pd_definitions (st_db t) = pd_definitions (st_db s) \<Longrightarrow>
    (\<And>i e. map_of (st_defCache t) i = Some e \<Longrightarrow> map_of (st_defCache s) i = Some e) \<Longrightarrow> cacheOK t"
  unfolding cacheOK_def by auto

lemma cacheOK_delete: "cacheOK s \<Longrightarrow> cacheOK (s\<lparr>st_defCache := AList.delete i (st_defCache s)\<rparr>)"
  by (erule cacheOK_less) (auto simp: delete_conv split: if_splits)

lemma cacheOK_cursor: "cacheOK s \<Longrightarrow> cacheOK (s\<lparr>st_cursor := n\<rparr>)"
  by (erule cacheOK_less) auto

text \<open>A lookup in the table answers from the row and keeps the cache in step with it.\<close>

lemma select_spec:
  assumes "cacheOK s"
  shows "fst (selectDefinition E i s) = firstRow (\<lambda>d. wd_ID d = i) (pd_definitions (st_db s)) \<and>
    st_db (snd (selectDefinition E i s)) = st_db s \<and> cacheOK (snd (selectDefinition E i s))"
  using assms
  by (auto simp: selectDefinition_def queryDb_def gbind_def firstRow_def gseq_def gmodify_def gret_def read_pg_def cacheOK_def
      split: option.split)

lemma get_spec:
  assumes "cacheOK s"
  shows "fst (GetWorkflowDefinition_pg E i s) = firstRow (\<lambda>d. wd_ID d = i) (pd_definitions (st_db s)) \<and>
    st_db (snd (GetWorkflowDefinition_pg E i s)) = st_db s \<and> cacheOK (snd (GetWorkflowDefinition_pg E i s))"
proof (cases "if st_defCacheTTL s > 0 then map_of (st_defCache s) i else None")
  case None
  then show ?thesis using select_spec [OF assms] by (simp add: GetWorkflowDefinition_pg_def)
next
  case (Some e)
  obtain def t where e: "e = (def, t)" by (cases e)
  have row: "rowOf s i = Some def" using Some cacheOK_D [OF assms] by (auto simp: e split: if_splits)
  let ?s = "s\<lparr>st_cursor := Suc (st_cursor s)\<rparr>"
  let ?d = "?s\<lparr>st_defCache := AList.delete i (st_defCache s)\<rparr>"
  have ok: "cacheOK ?s" "cacheOK ?d" using cacheOK_cursor [OF assms] cacheOK_delete [of ?s i] by simp_all
  show ?thesis
    using Some row ok select_spec [OF ok(2), of E i]
    by (simp add: GetWorkflowDefinition_pg_def e gbind_def read_pg_def gret_def gseq_def InvalidateDefinitionCache_def
        gmodify_def firstRow_def)
qed

lemma find_updateRows_other: "(\<And>x. x \<in> set xs \<Longrightarrow> q x \<Longrightarrow> \<not> p x \<and> \<not> p (f x)) \<Longrightarrow> find p (updateRows q f xs) = find p xs"
  by (induction xs) (auto simp: updateRows_def)

lemma defsOK_update:
  "defsOK rows \<Longrightarrow> defsOK (updateRows p (\<lambda>d. d\<lparr>wd_Definition := g\<rparr>) rows)"
  unfolding defsOK_def updateRows_def by (auto 0 3 split: if_splits)

lemma defsOK_append:
  "defsOK rows \<Longrightarrow> \<forall>d\<in>set rows. \<not> (wd_Name d = wd_Name e \<and> wd_Version d = wd_Version e) \<Longrightarrow>
    \<forall>d\<in>set rows. wd_ID d \<noteq> wd_ID e \<Longrightarrow> defsOK (rows @ [e])"
  unfolding defsOK_def by auto

lemma save_keeps_cache:
  assumes "cacheOK s"
  shows "cacheOK (snd (SaveWorkflowDefinition_pg E def s))"
proof -
  let ?same = "\<lambda>d. wd_Name d = wd_Name def \<and> wd_Version d = wd_Version def"
  let ?rows = "pd_definitions (st_db s)"
  let ?now = "micro (clk E (st_cursor s))" and ?c = "Suc (st_cursor s)"
  have rows: "defsOK ?rows" using assms by (simp add: cacheOK_def)
  note run = SaveWorkflowDefinition_pg_def now_pg_def read_pg_def gbind_def gseq_def gret_def onDb_def gmodify_def
    InvalidateDefinitionCache_def Let_def
  show ?thesis
  proof (cases "find ?same ?rows")
    case None
    then have new: "\<forall>d\<in>set ?rows. \<not> ?same d" by (simp add: find_None_iff)
    show ?thesis
    proof (cases "\<exists>d\<in>set ?rows. wd_ID d = wd_ID def")
      case True
      then show ?thesis using None cacheOK_cursor [OF assms] by (simp add: run)
    next
      case False
      then have "defsOK (?rows @ [def\<lparr>wd_CreatedAt := ?now\<rparr>])" using rows new by (intro defsOK_append) auto
      then show ?thesis
        using None False assms
        by (auto simp: run cacheOK_def find_append delete_conv split: if_splits option.split)
    qed
  next
    case (Some d)
    then have d: "d \<in> set ?rows" "?same d" by (auto simp: find_Some_iff)
    then have only: "e = d" if "e \<in> set ?rows" "?same e" for e
      using rows that unfolding defsOK_def by metis
    have "find (\<lambda>r. wd_ID r = j) (updateRows ?same (\<lambda>d. d\<lparr>wd_Definition := wd_Definition def\<rparr>) ?rows) = rowOf s j"
      if "j \<noteq> wd_ID d" for j
      using only that by (intro find_updateRows_other) auto
    then show ?thesis
      using Some assms defsOK_update [OF rows]
      by (auto simp: run cacheOK_def delete_conv split: if_splits)
  qed
qed

lemma cached_ok: "cached s \<Longrightarrow> cacheOK s"
proof (induction rule: cached.induct)
  case start
  show ?case by (simp add: cacheOK_def NewStore_def emptyDb_def defsOK_def)
next
  case (ttl s t)
  then show ?case
    by (auto simp: SetDefinitionCacheTTL_def ClearDefinitionCache_def gseq_def gbind_def gmodify_def gret_def elim!: cacheOK_less)
next
  case (other s t)
  then show ?case by (auto elim: cacheOK_less)
qed (auto simp: save_keeps_cache get_spec InvalidateDefinitionCache_def ClearDefinitionCache_def gmodify_def
    elim!: cacheOK_less split: if_splits)

text \<open>C37.
  The cache of definitions cannot be seen: after any sequence of saves, lookups, expiries, invalidations and changes of the
  time to live, with any clock, \<open>GetWorkflowDefinition\<close> answers what a query of the table would, and changes no table.
\<close>

theorem cache_transparent:
  assumes "cached s"
  shows "fst (GetWorkflowDefinition_pg E i s) = firstRow (\<lambda>d. wd_ID d = i) (pd_definitions (st_db s)) \<and>
    st_db (snd (GetWorkflowDefinition_pg E i s)) = st_db s"
  using get_spec [OF cached_ok [OF assms]] by simp

definition defW :: WorkflowDefinition where
  "defW = \<lparr>wd_ID = ''w-v1'', wd_Name = ''w'', wd_Version = 1,
     wd_Definition = \<lparr>gd_Steps = [], gd_Start = '''', gd_DLQEnabled = False\<rparr>, wd_CreatedAt = 0\<rparr>"

theorem cache_transparent_witness:
  "fst (GetWorkflowDefinition_pg env0 ''w-v1'' (snd (GetWorkflowDefinition_pg env0 ''w-v1''
     (snd (SaveWorkflowDefinition_pg env0 defW NewStore))))) = Ok defW"
proof -
  have "cached (snd (GetWorkflowDefinition_pg env0 ''w-v1'' (snd (SaveWorkflowDefinition_pg env0 defW NewStore))))"
    by (intro cached.intros)
  moreover have "pd_definitions (st_db (snd (GetWorkflowDefinition_pg env0 ''w-v1'' (snd (SaveWorkflowDefinition_pg env0 defW NewStore)))))
      = [defW]"
    using get_spec [OF cached_ok [OF cached.save [OF cached.start]], of env0 "''w-v1''" env0 defW]
    by (simp add: SaveWorkflowDefinition_pg_def now_pg_def read_pg_def gbind_def gseq_def gret_def onDb_def gmodify_def
        InvalidateDefinitionCache_def Let_def NewStore_def emptyDb_def micro_def env0_def defW_def)
  ultimately show ?thesis
    using cache_transparent [of "snd (GetWorkflowDefinition_pg env0 ''w-v1'' (snd (SaveWorkflowDefinition_pg env0 defW NewStore)))"]
    by (simp add: firstRow_def) (simp add: defW_def)
qed

section \<open>Queue\<close>

text \<open>For items that are due, the formula of the query is the ageing of the memory store.\<close>

lemma agedPriority_is_effective:
  assumes "qi_ScheduledAt q \<le> now" "0 \<le> qi_Priority q"
  shows "agedPriority_pg enabled rate now q = effectivePriority enabled rate now q"
proof -
  let ?w = "of_int (now - qi_ScheduledAt q) / 1000000000 * rate"
  have "0 \<le> ?w" if "rate > 0" using assms(1) that by simp
  then have "0 \<le> of_int (qi_Priority q) + ?w" if "rate > 0" using assms(2) that by simp
  then show ?thesis by (auto simp: agedPriority_pg_def effectivePriority_def truncRat_def)
qed

text \<open>
  \<open>DequeueStep\<close> of the PostgreSQL store follows the policy of the memory store: for priorities that are not negative it hands out
  a due, unclaimed item of the highest effective priority, the earliest scheduled among those, claims it for the worker and
  changes no other row; it answers nothing only if no item is due.
\<close>

theorem DequeueStep_pg_spec:
  assumes wf: "rowsOK qi_ID n (pd_queue (st_db s))" and prio: "\<forall>q\<in>set (pd_queue (st_db s)). 0 \<le> qi_Priority q"
    and run: "DequeueStep_pg E worker s = (r, s')"
  defines "now \<equiv> micro (clk E (st_cursor s))"
  shows "(r = Ok None \<and> st_db s' = st_db s \<and> (\<forall>q\<in>set (pd_queue (st_db s)). \<not> eligible now q)) \<or>
    (\<exists>q\<in>set (pd_queue (st_db s)). eligible now q \<and>
       (\<forall>p\<in>set (pd_queue (st_db s)). eligible now p \<longrightarrow>
          effectivePriority (st_agingEnabled s) (st_agingRate s) now p < effectivePriority (st_agingEnabled s) (st_agingRate s) now q \<or>
          effectivePriority (st_agingEnabled s) (st_agingRate s) now p = effectivePriority (st_agingEnabled s) (st_agingRate s) now q \<and>
            qi_ScheduledAt q \<le> qi_ScheduledAt p) \<and>
       (let claimed = q\<lparr>qi_AttemptedAt := Some now, qi_AttemptedBy := Some worker\<rparr>
        in r = Ok (Some claimed) \<and> pd_queue (st_db s') = map (\<lambda>p. if p = q then claimed else p) (pd_queue (st_db s))))"
proof -
  let ?queue = "pd_queue (st_db s)" and ?eff = "effectivePriority (st_agingEnabled s) (st_agingRate s) now"
  let ?key = "\<lambda>q. (- agedPriority_pg (st_agingEnabled s) (st_agingRate s) now q, qi_ScheduledAt q)"
  have due: "filter (\<lambda>q. qi_ScheduledAt q \<le> now \<and> qi_AttemptedAt q = None) ?queue = filter (eligible now) ?queue"
    by (rule filter_cong) (auto simp: eligible_def)
  note run' = run [unfolded DequeueStep_pg_def Let_def pg_run, simplified, folded now_def, unfolded due]
  show ?thesis
  proof (cases "sort_key ?key (filter (eligible now) ?queue)")
    case Nil
    then have "filter (eligible now) ?queue = []" by (metis length_0_conv length_sort)
    then show ?thesis using run' Nil by (auto simp: filter_empty_conv)
  next
    case (Cons q rest)
    have q: "q \<in> set ?queue" "eligible now q" using sort_key_hd(1) [OF Cons] by auto
    have eff: "agedPriority_pg (st_agingEnabled s) (st_agingRate s) now p = ?eff p" if "p \<in> set ?queue" "eligible now p" for p
      using prio that by (intro agedPriority_is_effective) (auto simp: eligible_def)
    have best: "?eff p < ?eff q \<or> ?eff p = ?eff q \<and> qi_ScheduledAt q \<le> qi_ScheduledAt p" if "p \<in> set ?queue" "eligible now p" for p
      using sort_key_hd(2) [OF Cons, of p] eff [OF that] eff [OF q] that by auto
    have same: "p = q" if "p \<in> set ?queue" "qi_ID p = qi_ID q" for p
      using wf q(1) that unfolding rowsOK_def by (auto simp: distinct_map dest: inj_onD)
    have claim: "updateRows (\<lambda>p. qi_ID p = qi_ID q) f ?queue = map (\<lambda>p. if p = q then f q else p) ?queue" for f
      unfolding updateRows_def using same by (intro map_cong) auto
    show ?thesis using run' Cons q best by (intro disjI2 bexI [of _ q]) (auto simp: claim)
  qed
qed

definition queued :: StoreImpl where
  "queued = NewStore\<lparr>st_db := emptyDb\<lparr>pd_queue := [itemAt 1 50, itemAt 2 75]\<rparr>, st_seqQueue := 2\<rparr>"

theorem DequeueStep_pg_spec_witness:
  "fst (DequeueStep_pg env0 ''w'' queued) = Ok (Some ((itemAt 2 75)\<lparr>qi_AttemptedAt := Some 0, qi_AttemptedBy := Some ''w''\<rparr>))"
proof -
  obtain r s' where run: "DequeueStep_pg env0 ''w'' queued = (r, s')" by (cases "DequeueStep_pg env0 ''w'' queued")
  have queue: "pd_queue (st_db queued) = [itemAt 1 50, itemAt 2 75]" "micro (clk env0 (st_cursor queued)) = 0"
    by (simp_all add: queued_def NewStore_def emptyDb_def env0_def micro_def)
  have rows: "rowsOK qi_ID 2 (pd_queue (st_db queued))" "\<forall>q\<in>set (pd_queue (st_db queued)). 0 \<le> qi_Priority q"
    by (simp_all add: queue rowsOK_def itemAt_def)
  have el: "eligible 0 (itemAt k p)" for k p by (simp add: eligible_def itemAt_def)
  have eff: "effectivePriority en rate 0 (itemAt k p) = (if en \<and> rate > 0 then min 100 p else p)" if "0 \<le> p" for en rate k p
    using that by (simp add: effectivePriority_def itemAt_def truncRat_def)
  show ?thesis
    using DequeueStep_pg_spec [OF rows run] run by (auto simp: queue el eff Let_def split: if_splits)
qed

section \<open>Compensation\<close>

text \<open>
  A round of a compensation whose handler fails, on this store: \<open>ExecuteNext\<close> finds the step in the listing of the
  instance's steps and \<open>executeCompensationStep\<close> decides by its counter.
\<close>

definition failedCompensation_pg :: "pgdrv \<Rightarrow> env \<Rightarrow> int \<Rightarrow> int \<Rightarrow> StepDefinition \<Rightarrow> error \<Rightarrow> unit pgo" where
  "failedCompensation_pg D E instanceID stepID onFailureStep compensationErr =
     gbind (GetStepsByInstance_pg instanceID) (\<lambda>steps.
       case find (\<lambda>st. ws_ID st = stepID) steps of
         None \<Rightarrow> gfail (Err (''step not found: '' @ itoa stepID))
       | Some step \<Rightarrow>
           if ws_CompensationRetryCount step < sd_MaxRetries onFailureStep then
             let newRetryCount = ws_CompensationRetryCount step + 1 in
             gseq (gwrap ''update compensation retry: '' (UpdateStepCompensationRetry_pg (ws_ID step) newRetryCount StepStatusCompensation))
             (gseq (gwrap ''enqueue compensation retry: '' (EnqueueStep_pg E (ws_InstanceID step) (Some (ws_ID step)) PriorityHigh
                 (retryDelayOf E onFailureStep newRetryCount)))
             (gignore (LogEvent_pg D E (ws_InstanceID step) (Some (ws_ID step)) ''step_failed''
               (Some (JObj [(''step_name'', JStr (ws_StepName step)), (''step_type'', JStr (stepTypeStr (ws_StepType step))),
                  (''error'', JStr (errStr compensationErr)), (''retry_count'', jnum newRetryCount),
                  (''reason'', JStr ''compensation_retry'')])))))
           else
             gseq (gwrap ''update step status: '' (UpdateStep_pg D E (ws_ID step) StepStatusFailed (ws_Input step)
               (Some (errStr compensationErr))))
             (gignore (LogEvent_pg D E (ws_InstanceID step) (Some (ws_ID step)) ''step_failed''
               (Some (JObj [(''step_name'', JStr (ws_StepName step)), (''step_type'', JStr (stepTypeStr (ws_StepType step))),
                  (''error'', JStr ''compensation max retries exceeded'')])))))"

lemma find_by_key: "x \<in> set xs \<Longrightarrow> (\<And>y. y \<in> set xs \<Longrightarrow> key y = key x \<Longrightarrow> y = x) \<Longrightarrow> find (\<lambda>y. key y = key x) xs = Some x"
  by (induction xs) auto

lemma find_image: "find p (map f xs) = map_option f (find (\<lambda>x. p (f x)) xs)"
  by (induction xs) auto

lemma listing_forgets_counter:
  assumes wf: "rowsOK ws_ID n (pd_steps (st_db s))" and st: "st \<in> set (pd_steps (st_db s))"
  shows "\<exists>steps. GetStepsByInstance_pg (ws_InstanceID st) s = (Ok steps, s) \<and>
    find (\<lambda>x. ws_ID x = ws_ID st) steps = Some (st\<lparr>ws_CompensationRetryCount := 0\<rparr>)"
proof -
  let ?mine = "sort_key ws_CreatedAt (filter (\<lambda>x. ws_InstanceID x = ws_InstanceID st) (pd_steps (st_db s)))"
  have "find (\<lambda>x. ws_ID x = ws_ID st) ?mine = Some st"
    using wf st by (intro find_by_key) (auto simp: rowsOK_def distinct_map dest: inj_onD)
  then have "find (\<lambda>x. ws_ID x = ws_ID st) (map (\<lambda>x. x\<lparr>ws_CompensationRetryCount := 0\<rparr>) ?mine) =
      Some (st\<lparr>ws_CompensationRetryCount := 0\<rparr>)"
    by (simp add: find_image)
  then show ?thesis by (simp add: GetStepsByInstance_pg_def queryDb_def)
qed

lemma failedCompensation_round:
  assumes wf: "rowsOK ws_ID n (pd_steps (st_db s))" and st: "st \<in> set (pd_steps (st_db s))" and retries: "0 < sd_MaxRetries onf"
  shows "\<exists>s' q. failedCompensation_pg D E (ws_InstanceID st) (ws_ID st) onf e s = (Ok (), s') \<and>
    st\<lparr>ws_CompensationRetryCount := 1, ws_Status := StepStatusCompensation\<rparr> \<in> set (pd_steps (st_db s')) \<and>
    rowsOK ws_ID n (pd_steps (st_db s')) \<and> pd_queue (st_db s') = pd_queue (st_db s) @ [q] \<and> qi_StepID q = Some (ws_ID st)"
proof -
  obtain steps where steps: "GetStepsByInstance_pg (ws_InstanceID st) s = (Ok steps, s)"
    "find (\<lambda>x. ws_ID x = ws_ID st) steps = Some (st\<lparr>ws_CompensationRetryCount := 0\<rparr>)"
    using listing_forgets_counter [OF wf st] by blast
  let ?f = "\<lambda>x. x\<lparr>ws_CompensationRetryCount := 1, ws_Status := StepStatusCompensation\<rparr>"
  have upd: "UpdateStepCompensationRetry_pg (ws_ID st) 1 StepStatusCompensation s =
    (Ok (), s\<lparr>st_db := (st_db s)\<lparr>pd_steps := updateRows (\<lambda>x. ws_ID x = ws_ID st) ?f (pd_steps (st_db s))\<rparr>\<rparr>)"
    unfolding UpdateStepCompensationRetry_pg_def by (rule updateSteps_run) (simp add: stepStatusCheck_def)
  have "?f st \<in> set (updateRows (\<lambda>x. ws_ID x = ws_ID st) ?f (pd_steps (st_db s)))"
    using st by (force simp: updateRows_def)
  moreover have "rowsOK ws_ID n (updateRows (\<lambda>x. ws_ID x = ws_ID st) ?f (pd_steps (st_db s)))"
    using wf by (rule rowsOK_update) simp
  ultimately show ?thesis
    using retries
    by (auto simp: failedCompensation_pg_def steps upd gwrap_def EnqueueStep_pg_def LogEvent_pg_def gignore_def gtry_def
        read_pg_def now_pg_def onDb_def gbind_def gseq_def gret_def gmodify_def Let_def)
qed

text \<open>C38.
  With the PostgreSQL store a compensation that keeps failing is never given up, however small its limit, if it may be retried at
  all: after any number of failing rounds the step is in compensation with a stored counter of 1, and every round has put
  another item into the queue.
\<close>

theorem compensation_never_given_up:
  assumes wf: "rowsOK ws_ID n (pd_steps (st_db s))" and st: "st \<in> set (pd_steps (st_db s))" and retries: "0 < sd_MaxRetries onf"
  shows "\<exists>s'. gforeach (\<lambda>_. failedCompensation_pg D E (ws_InstanceID st) (ws_ID st) onf e) (replicate (Suc k) ()) s = (Ok (), s') \<and>
    st\<lparr>ws_CompensationRetryCount := 1, ws_Status := StepStatusCompensation\<rparr> \<in> set (pd_steps (st_db s')) \<and>
    length (pd_queue (st_db s')) = length (pd_queue (st_db s)) + Suc k"
  using wf st
proof (induction k arbitrary: s st)
  case 0
  then show ?case using failedCompensation_round [OF 0 retries, of D E e] by (auto simp: gseq_def gbind_def gret_def)
next
  case (Suc k)
  let ?st = "st\<lparr>ws_CompensationRetryCount := 1, ws_Status := StepStatusCompensation\<rparr>"
  obtain t q where t: "failedCompensation_pg D E (ws_InstanceID st) (ws_ID st) onf e s = (Ok (), t)"
    "?st \<in> set (pd_steps (st_db t))" "rowsOK ws_ID n (pd_steps (st_db t))" "pd_queue (st_db t) = pd_queue (st_db s) @ [q]"
    using failedCompensation_round [OF Suc.prems retries, of D E e] by blast
  from Suc.IH [OF t(3,2)] obtain s' where
    "gforeach (\<lambda>_. failedCompensation_pg D E (ws_InstanceID st) (ws_ID st) onf e) (replicate (Suc k) ()) t = (Ok (), s')"
    "?st \<in> set (pd_steps (st_db s'))" "length (pd_queue (st_db s')) = length (pd_queue (st_db t)) + Suc k"
    by auto
  then show ?case using t by (auto simp: gseq_def gbind_def)
qed

definition compensating :: StoreImpl where
  "compensating = NewStore\<lparr>st_db := emptyDb\<lparr>pd_steps := [plainStep\<lparr>ws_ID := 1, ws_Status := StepStatusCompensation\<rparr>]\<rparr>, st_seqSteps := 1\<rparr>"

text \<open>A hundred rounds of a compensation that may be retried once.\<close>

theorem compensation_never_given_up_witness:
  "\<exists>s'. gforeach (\<lambda>_. failedCompensation_pg pgdrv0 env0 1 1 (emptyStepDefinition\<lparr>sd_MaxRetries := 1\<rparr>) (Err ''boom''))
      (replicate 100 ()) compensating = (Ok (), s') \<and> length (pd_queue (st_db s')) = 100"
proof -
  let ?st = "plainStep\<lparr>ws_ID := 1, ws_Status := StepStatusCompensation\<rparr>"
  have steps: "pd_steps (st_db compensating) = [?st]" "pd_queue (st_db compensating) = []"
    by (simp_all add: compensating_def NewStore_def emptyDb_def)
  have "rowsOK ws_ID 1 (pd_steps (st_db compensating))" "?st \<in> set (pd_steps (st_db compensating))"
    "0 < sd_MaxRetries (emptyStepDefinition\<lparr>sd_MaxRetries := 1\<rparr>)" "ws_InstanceID ?st = 1" "ws_ID ?st = 1"
    by (simp_all add: steps rowsOK_def) (simp_all add: plainStep_def)
  from compensation_never_given_up [OF this(1-3), of pgdrv0 env0 "Err ''boom''" 99] this(4,5) show ?thesis
    by (auto simp: steps)
qed

section \<open>Transactions\<close>

text \<open>What fails in a transaction of its own leaves no trace in the database; inside another transaction it is up to that one.\<close>

lemma runTx_atomic:
  "runTx False m s = (r, s') \<Longrightarrow> \<not> (\<exists>x. r = Ok x) \<Longrightarrow> st_db s' = st_db s"
  by (auto simp: runTx_def split: prod.splits res.splits)

lemma runTx_nested: "runTx False (runTx True m) = runTx False m"
  by (simp add: runTx_def fun_eq_iff)

lemma runTx_ok: "runTx False m s = (Ok x, s') \<longleftrightarrow> m s = (Ok x, s')"
  by (auto simp: runTx_def split: prod.splits res.splits)

text \<open>The cache is outside of transactions: a definition that is saved, read and then rolled back is still answered.\<close>

lemma rolled_back_definition_cached:
  "fst (GetWorkflowDefinition_pg env0 ''w-v1'' (snd (runTx False
     (gseq (SaveWorkflowDefinition_pg env0 defW) (gseq (GetWorkflowDefinition_pg env0 ''w-v1'') (gfail (Err ''later'')))) NewStore)))
   = Ok defW"
  by (simp add: runTx_def SaveWorkflowDefinition_pg_def GetWorkflowDefinition_pg_def selectDefinition_def now_pg_def read_pg_def
      queryDb_def onDb_def InvalidateDefinitionCache_def go_run Let_def firstRow_def NewStore_def emptyDb_def micro_def env0_def defW_def)

section \<open>The advisory lock\<close>

lemma mult_prime_inject: "(a :: 64 word) * 1000000007 = b * 1000000007 \<Longrightarrow> a = b"
proof -
  assume eq: "a * 1000000007 = b * 1000000007"
  have inv: "(1000000007 :: 64 word) * 13499267949257065399 = 1" by simp
  have "a = a * 1000000007 * 13499267949257065399" by (simp only: mult.assoc inv mult_1_right)
  also have "\<dots> = b" unfolding eq by (simp only: mult.assoc inv mult_1_right)
  finally show "a = b" .
qed

text \<open>
  The key of the advisory lock is a 64-bit number, and for one join it tells all instances apart: two instances with identifiers of
  type \<open>int64\<close> never wait for each other because of joins of the same name, whatever the name. For different names the
  keys are not unique: every name has an identifier whose key is that of a given instance and name.
\<close>

theorem advisory_key:
  shows "- (2 ^ 63) \<le> generateAdvisoryLockKey i name \<and> generateAdvisoryLockKey i name < 2 ^ 63 \<and>
    (- (2 ^ 63) \<le> i \<and> i < 2 ^ 63 \<and> - (2 ^ 63) \<le> j \<and> j < 2 ^ 63 \<and>
       generateAdvisoryLockKey i name = generateAdvisoryLockKey j name \<longrightarrow> i = j) \<and>
    (\<exists>j. - (2 ^ 63) \<le> j \<and> j < 2 ^ 63 \<and> generateAdvisoryLockKey j other = generateAdvisoryLockKey i name)"
proof (intro conjI impI)
  let ?hash = "\<lambda>name. foldl fnvStep 2166136261 (runesOf name)"
  have key: "generateAdvisoryLockKey i name = sint (word_of_int i * 1000000007 + ?hash name)" for i name
    by (simp add: generateAdvisoryLockKey_def)
  show "- (2 ^ 63) \<le> generateAdvisoryLockKey i name" "generateAdvisoryLockKey i name < 2 ^ 63"
    unfolding key using sint_ge [of "word_of_int i * 1000000007 + ?hash name"] sint_less [of "word_of_int i * 1000000007 + ?hash name"]
    by simp_all
  assume h: "- (2 ^ 63) \<le> i \<and> i < 2 ^ 63 \<and> - (2 ^ 63) \<le> j \<and> j < 2 ^ 63 \<and>
    generateAdvisoryLockKey i name = generateAdvisoryLockKey j name"
  then have "(word_of_int i :: 64 word) * 1000000007 = word_of_int j * 1000000007"
    unfolding key by (metis add_right_cancel signed_word_eqI)
  then have "(word_of_int i :: 64 word) = word_of_int j" by (rule mult_prime_inject)
  then have "sint (word_of_int i :: 64 word) = sint (word_of_int j :: 64 word)" by simp
  moreover have "sint (word_of_int k :: 64 word) = k" if "- (2 ^ 63) \<le> k" "k < 2 ^ 63" for k
    using that by (simp add: sint_sbintrunc' signed_take_bit_int_eq_self)
  ultimately show "i = j" using h by simp
next
  let ?hash = "\<lambda>name. foldl fnvStep 2166136261 (runesOf name)"
  define w :: "64 word" where "w = word_of_int i + (?hash name - ?hash other) * 13499267949257065399"
  have inv: "(13499267949257065399 :: 64 word) * 1000000007 = 1" by simp
  have "w * 1000000007 = word_of_int i * 1000000007 + (?hash name - ?hash other) * (13499267949257065399 * 1000000007)"
    unfolding w_def by (simp only: distrib_right mult.assoc)
  then have "word_of_int (sint w) * 1000000007 + ?hash other = word_of_int i * 1000000007 + ?hash name"
    unfolding inv by simp
  then show "\<exists>j. - (2 ^ 63) \<le> j \<and> j < 2 ^ 63 \<and> generateAdvisoryLockKey j other = generateAdvisoryLockKey i name"
    using sint_ge [of w] sint_less [of w] by (intro exI [of _ "sint w"]) (simp add: generateAdvisoryLockKey_def)
qed

theorem advisory_key_witness: "generateAdvisoryLockKey 1 ''join'' \<noteq> generateAdvisoryLockKey 2 ''join''"
  using advisory_key [of 1 "''join''" 2 "''join''"] by auto

end
