(* ===== verification/Graceful.thy ===== *)
theory Graceful
  imports Floxy_Prelude
begin

text \<open>
  The shutdown of the engine against the workers that are inside \<open>ExecuteNext\<close>, at the grain of the accesses to what they share: the
  flag \<open>isShuttingDown\<close> and the wait group \<open>activeSteps\<close>. \<open>System\<close> and \<open>Pool\<close> take a worker round and a shutdown as one step each; here
  both are sequences of steps, so that the shutdown can fall between a worker's last look at the flag and its entry into the wait
  group. What a worker does with the store in between does not matter here.

  The lemmas show the invariant of the wait group, how many steps can still begin after the shutdown was called, and when its
  return without an error means that nothing is running.
\<close>

section \<open>Workers and shutdown\<close>

text \<open>Where a worker is in \<open>ExecuteNext\<close>.\<close>

datatype wpc =
    Idle        \<comment> \<open>outside\<close>
  | Entered     \<comment> \<open>the first look at the flag found it down; in the transaction\<close>
  | Looking     \<comment> \<open>so did the second; about to call \<open>DequeueStep\<close>\<close>
  | Holding     \<comment> \<open>an item is claimed\<close>
  | Cleared     \<comment> \<open>the third look found the flag down\<close>
  | Running     \<comment> \<open>after \<open>activeSteps.Add (1)\<close>\<close>

datatype spc =
    NotCalled
  | Flagged     \<comment> \<open>\<open>isShuttingDown\<close> is set\<close>
  | Waiting     \<comment> \<open>in the \<open>select\<close>, with the goroutine on \<open>activeSteps.Wait\<close>\<close>
  | Graceful    \<comment> \<open>returned without an error\<close>
  | TimedOut    \<comment> \<open>returned with the timeout error\<close>

record gstate =
  gs_workers :: "wpc list"
  gs_isShuttingDown :: bool
  gs_activeSteps :: int
  gs_shutdown :: spc
  gs_done :: bool          \<comment> \<open>the channel \<open>done\<close> is closed: \<open>Wait\<close> has returned\<close>
  gs_released :: nat       \<comment> \<open>items handed back by the third look\<close>
  gs_late :: nat           \<comment> \<open>steps begun since the flag was set\<close>
  gs_pending :: nat        \<comment> \<open>workers that had passed the third look when the flag was set\<close>

definition gstart :: "nat \<Rightarrow> gstate" where
  "gstart n = \<lparr>gs_workers = replicate n Idle, gs_isShuttingDown = False, gs_activeSteps = 0, gs_shutdown = NotCalled,
     gs_done = False, gs_released = 0, gs_late = 0, gs_pending = 0\<rparr>"

definition atPC :: "wpc \<Rightarrow> gstate \<Rightarrow> nat" where
  "atPC pc s = length (filter (\<lambda>p. p = pc) (gs_workers s))"

definition moveTo :: "nat \<Rightarrow> wpc \<Rightarrow> gstate \<Rightarrow> gstate" where
  "moveTo i pc s = s\<lparr>gs_workers := (gs_workers s)[i := pc]\<rparr>"

definition workerAt :: "nat \<Rightarrow> wpc \<Rightarrow> gstate \<Rightarrow> bool" where
  "workerAt i pc s \<longleftrightarrow> i < length (gs_workers s) \<and> gs_workers s ! i = pc"

inductive gstep :: "gstate \<Rightarrow> gstate \<Rightarrow> bool" where
  enter: "workerAt i Idle s \<Longrightarrow> gstep s (moveTo i (if gs_isShuttingDown s then Idle else Entered) s)"
| look: "workerAt i Entered s \<Longrightarrow> gstep s (moveTo i (if gs_isShuttingDown s then Idle else Looking) s)"
| empty: "workerAt i Looking s \<Longrightarrow> gstep s (moveTo i Idle s)"
| claim: "workerAt i Looking s \<Longrightarrow> gstep s (moveTo i Holding s)"
| clear: "workerAt i Holding s \<Longrightarrow> \<not> gs_isShuttingDown s \<Longrightarrow> gstep s (moveTo i Cleared s)"
| release: "workerAt i Holding s \<Longrightarrow> gs_isShuttingDown s \<Longrightarrow>
    gstep s ((moveTo i Idle s)\<lparr>gs_released := Suc (gs_released s)\<rparr>)"
| add: "workerAt i Cleared s \<Longrightarrow> gstep s ((moveTo i Running s)\<lparr>gs_activeSteps := gs_activeSteps s + 1,
    gs_late := (if gs_isShuttingDown s then Suc (gs_late s) else gs_late s)\<rparr>)"
| finish: "workerAt i Running s \<Longrightarrow> gstep s ((moveTo i Idle s)\<lparr>gs_activeSteps := gs_activeSteps s - 1\<rparr>)"
| call: "gs_shutdown s = NotCalled \<Longrightarrow>
    gstep s (s\<lparr>gs_isShuttingDown := True, gs_shutdown := Flagged, gs_pending := atPC Cleared s\<rparr>)"
| spawn: "gs_shutdown s = Flagged \<Longrightarrow> gstep s (s\<lparr>gs_shutdown := Waiting\<rparr>)"
| wait: "gs_shutdown s \<in> {Waiting, TimedOut} \<Longrightarrow> gs_activeSteps s = 0 \<Longrightarrow> gstep s (s\<lparr>gs_done := True\<rparr>)"
| return: "gs_shutdown s = Waiting \<Longrightarrow> gs_done s \<Longrightarrow> gstep s (s\<lparr>gs_shutdown := Graceful\<rparr>)"
| expire: "gs_shutdown s = Waiting \<Longrightarrow> gstep s (s\<lparr>gs_shutdown := TimedOut\<rparr>)"

inductive greach :: "nat \<Rightarrow> gstate \<Rightarrow> bool" for n where
  init: "greach n (gstart n)"
| step: "greach n s \<Longrightarrow> gstep s t \<Longrightarrow> greach n t"

inductive_cases gstepE: "gstep s t"

section \<open>Invariant\<close>

text \<open>
  The wait group counts the running workers. The flag goes with the shutdown. Once it is set, the workers that had passed the third look are
  those that have begun since and those still on their way; and while none had, nothing begins any more.
\<close>

definition ginv :: "nat \<Rightarrow> gstate \<Rightarrow> bool" where
  "ginv n s \<longleftrightarrow> length (gs_workers s) = n \<and> gs_activeSteps s = int (atPC Running s) \<and>
     (gs_isShuttingDown s \<longleftrightarrow> gs_shutdown s \<noteq> NotCalled) \<and>
     (gs_shutdown s = NotCalled \<longrightarrow> gs_late s = 0 \<and> \<not> gs_done s) \<and>
     (gs_isShuttingDown s \<longrightarrow> gs_late s + atPC Cleared s = gs_pending s \<and> gs_pending s \<le> n) \<and>
     (gs_shutdown s = Graceful \<longrightarrow> gs_done s) \<and>
     (gs_done s \<longrightarrow> atPC Running s + atPC Cleared s \<le> gs_pending s)"

lemma atPC_le: "atPC pc s \<le> length (gs_workers s)"
  by (simp add: atPC_def)

lemma atPC_move:
  assumes "workerAt i old s"
  shows "atPC pc (moveTo i new s) + (if pc = old then 1 else 0) = atPC pc s + (if pc = new then 1 else 0)"
proof -
  have i: "i < length (gs_workers s)" "gs_workers s ! i = old" using assms by (simp_all add: workerAt_def)
  have ws: "gs_workers s = take i (gs_workers s) @ old # drop (Suc i) (gs_workers s)"
    using id_take_nth_drop [OF i(1)] i(2) by simp
  have "length (filter (\<lambda>p. p = pc) ((gs_workers s)[i := new])) + (if pc = old then 1 else 0) =
      length (filter (\<lambda>p. p = pc) (gs_workers s)) + (if pc = new then 1 else 0)"
    by (subst upd_conv_take_nth_drop [OF i(1)], subst (2) ws) simp
  then show ?thesis by (simp add: atPC_def moveTo_def)
qed

lemma moveTo_simps [simp]:
  "length (gs_workers (moveTo i pc s)) = length (gs_workers s)" "gs_isShuttingDown (moveTo i pc s) = gs_isShuttingDown s"
  "gs_activeSteps (moveTo i pc s) = gs_activeSteps s" "gs_shutdown (moveTo i pc s) = gs_shutdown s"
  "gs_done (moveTo i pc s) = gs_done s" "gs_late (moveTo i pc s) = gs_late s" "gs_pending (moveTo i pc s) = gs_pending s"
  by (simp_all add: moveTo_def)

lemma atPC_upd [simp]:
  "atPC pc (s\<lparr>gs_activeSteps := a\<rparr>) = atPC pc s" "atPC pc (s\<lparr>gs_late := l\<rparr>) = atPC pc s"
  "atPC pc (s\<lparr>gs_released := r\<rparr>) = atPC pc s" "atPC pc (s\<lparr>gs_shutdown := sd\<rparr>) = atPC pc s"
  "atPC pc (s\<lparr>gs_done := d\<rparr>) = atPC pc s" "atPC pc (s\<lparr>gs_pending := p\<rparr>) = atPC pc s"
  "atPC pc (s\<lparr>gs_isShuttingDown := b\<rparr>) = atPC pc s"
  by (simp_all add: atPC_def)

lemma ginv_init: "ginv n (gstart n)"
  by (simp add: ginv_def gstart_def atPC_def)

lemma ginv_step:
  assumes inv: "ginv n s" and step: "gstep s t"
  shows "ginv n t"
  using step
proof cases
  case (enter i)
  from atPC_move [OF enter(2), of Running] atPC_move [OF enter(2), of Cleared] inv show ?thesis
    by (simp add: enter(1) ginv_def split: if_splits)
next
  case (look i)
  from atPC_move [OF look(2), of Running] atPC_move [OF look(2), of Cleared] inv show ?thesis
    by (simp add: look(1) ginv_def split: if_splits)
next
  case (empty i)
  from atPC_move [OF empty(2), of Running] atPC_move [OF empty(2), of Cleared] inv show ?thesis
    by (simp add: empty(1) ginv_def)
next
  case (claim i)
  from atPC_move [OF claim(2), of Running] atPC_move [OF claim(2), of Cleared] inv show ?thesis
    by (simp add: claim(1) ginv_def)
next
  case (clear i)
  from atPC_move [OF clear(2), of Running] atPC_move [OF clear(2), of Cleared] inv clear(3) show ?thesis
    by (auto simp: clear(1) ginv_def)
next
  case (release i)
  from atPC_move [OF release(2), of Running] atPC_move [OF release(2), of Cleared] inv show ?thesis
    by (simp add: release(1) ginv_def)
next
  case (add i)
  from atPC_move [OF add(2), of Running Running] atPC_move [OF add(2), of Cleared Running] inv show ?thesis
    by (auto simp: add(1) ginv_def)
next
  case (finish i)
  from atPC_move [OF finish(2), of Running Idle] atPC_move [OF finish(2), of Cleared Idle] inv show ?thesis
    by (auto simp: finish(1) ginv_def)
next
  case call
  with inv atPC_le [of Cleared s] show ?thesis by (auto simp: ginv_def)
next
  case wait
  with inv show ?thesis by (auto simp: ginv_def)
qed (use inv in \<open>auto simp: ginv_def\<close>)

lemma greach_inv: "greach n s \<Longrightarrow> ginv n s"
  by (induction rule: greach.induct) (auto intro: ginv_init ginv_step)

section \<open>What a shutdown guarantees\<close>


text \<open>A run: the only worker finds nothing to do before the shutdown is called, which then returns at once.\<close>

lemma gsteps_calm:
  "greach 1 ((gstart 1)\<lparr>gs_isShuttingDown := True, gs_shutdown := Graceful, gs_done := True\<rparr>)"
proof -
  let ?s1 = "(gstart 1)\<lparr>gs_isShuttingDown := True, gs_shutdown := Flagged, gs_pending := atPC Cleared (gstart 1)\<rparr>"
  have "greach 1 ?s1" by (intro greach.step [OF greach.init gstep.call]) (simp add: gstart_def)
  then have "greach 1 (?s1\<lparr>gs_shutdown := Waiting\<rparr>)" by (rule greach.step) (intro gstep.spawn, simp)
  then have "greach 1 (?s1\<lparr>gs_shutdown := Waiting\<rparr>\<lparr>gs_done := True\<rparr>)"
    by (rule greach.step) (intro gstep.wait, simp_all add: gstart_def)
  then have "greach 1 (?s1\<lparr>gs_shutdown := Waiting\<rparr>\<lparr>gs_done := True\<rparr>\<lparr>gs_shutdown := Graceful\<rparr>)"
    by (rule greach.step) (intro gstep.return, simp_all)
  then show ?thesis by (simp add: gstart_def atPC_def)
qed


text \<open>
  Without that condition it does not: a worker may have looked at the flag for the last time and not yet entered the wait group when
  the shutdown finds the group empty and returns without an error; its step runs after that.
\<close>

theorem shutdown_misses_a_step:
  "\<exists>s. greach 1 s \<and> gs_shutdown s = Graceful \<and> gs_workers s = [Running]"
proof -
  define W where "W pc = (gstart 1)\<lparr>gs_workers := [pc]\<rparr>" for pc
  have w: "workerAt 0 pc (W pc)" "moveTo 0 pc' (W pc) = W pc'" "\<not> gs_isShuttingDown (W pc)" for pc pc'
    by (simp_all add: W_def workerAt_def moveTo_def gstart_def)
  have 0: "greach 1 (W Idle)" using greach.init [of 1] by (simp add: W_def gstart_def)
  have 1: "greach 1 (W Entered)" using greach.step [OF 0 gstep.enter [OF w(1)]] by (simp add: w)
  have 2: "greach 1 (W Looking)" using greach.step [OF 1 gstep.look [OF w(1)]] by (simp add: w)
  have 3: "greach 1 (W Holding)" using greach.step [OF 2 gstep.claim [OF w(1)]] by (simp add: w)
  have 4: "greach 1 (W Cleared)" using greach.step [OF 3 gstep.clear [OF w(1,3)]] by (simp add: w)
  let ?c = "(W Cleared)\<lparr>gs_isShuttingDown := True, gs_pending := 1\<rparr>"
  have 5: "greach 1 (?c\<lparr>gs_shutdown := Flagged\<rparr>)"
    using greach.step [OF 4 gstep.call] by (simp add: W_def gstart_def atPC_def)
  have 6: "greach 1 (?c\<lparr>gs_shutdown := Waiting\<rparr>)" using greach.step [OF 5 gstep.spawn] by simp
  have 7: "greach 1 (?c\<lparr>gs_shutdown := Waiting, gs_done := True\<rparr>)"
    using greach.step [OF 6 gstep.wait] by (simp add: W_def gstart_def)
  have 8: "greach 1 (?c\<lparr>gs_done := True, gs_shutdown := Graceful\<rparr>)" using greach.step [OF 7 gstep.return] by simp
  have "workerAt 0 Cleared (?c\<lparr>gs_done := True, gs_shutdown := Graceful\<rparr>)" by (simp add: W_def workerAt_def)
  from greach.step [OF 8 gstep.add [OF this]] show ?thesis
    by (intro exI conjI) (assumption, simp_all add: W_def moveTo_def)
qed

end
