(* ===== verification/Observers.thy ===== *)
theory Observers
  imports Plugins Environment
begin

text \<open>
  The plugins that only observe (\<open>plugins/engine\<close>): metrics with its Prometheus collector, notifications, audit and
  telemetry. What they report to is code outside the program: a channel and a writer are functions from what they are
  given to the error they return, a metric is the list of calls made on it, and the tracer is the list of calls made on
  its spans, each span being the number of its \<open>Start\<close>.

  Every hook is one step, since it holds the mutex of its plugin. The lemmas show which observers can stop a workflow,
  what a gauge says after a history, and that a history of hooks ends every span at most once.
\<close>

section \<open>Notifications\<close>

datatype NotificationType =
    NotificationTypeWorkflowStarted | NotificationTypeWorkflowCompleted | NotificationTypeWorkflowFailed
  | NotificationTypeStepStarted | NotificationTypeStepCompleted | NotificationTypeStepFailed

record Notification =
  nt_Type :: NotificationType
  nt_InstanceID :: int
  nt_WorkflowID :: string
  nt_StepID :: "int option"
  nt_StepName :: string
  nt_Status :: string
  nt_Error :: string

text \<open>The message of a failed step: that of the row, or else that of the error (\<open>OnStepFailed\<close> of three plugins).\<close>

definition stepErrorMsg :: "WorkflowStep \<Rightarrow> error option \<Rightarrow> string" where
  "stepErrorMsg step err =
     (case ws_Error step of Some m \<Rightarrow> m | None \<Rightarrow> (case err of Some e \<Rightarrow> errStr e | None \<Rightarrow> ''''))"

definition instanceErrorMsg :: "WorkflowInstance \<Rightarrow> string" where
  "instanceErrorMsg instance = (case wi_Error instance of Some m \<Rightarrow> m | None \<Rightarrow> '''')"

definition workflowNotification :: "NotificationType \<Rightarrow> WorkflowInstance \<Rightarrow> string \<Rightarrow> Notification" where
  "workflowNotification ty instance msg =
     \<lparr>nt_Type = ty, nt_InstanceID = wi_ID instance, nt_WorkflowID = wi_WorkflowID instance, nt_StepID = None,
      nt_StepName = '''', nt_Status = workflowStatusStr (wi_Status instance), nt_Error = msg\<rparr>"

definition stepNotification ::
    "NotificationType \<Rightarrow> WorkflowInstance \<Rightarrow> WorkflowStep \<Rightarrow> string \<Rightarrow> Notification" where
  "stepNotification ty instance step msg =
     \<lparr>nt_Type = ty, nt_InstanceID = ws_InstanceID step, nt_WorkflowID = wi_WorkflowID instance,
      nt_StepID = Some (ws_ID step), nt_StepName = ws_StepName step, nt_Status = stepStatusStr (ws_Status step),
      nt_Error = msg\<rparr>"

type_synonym NotificationChannel = "(Notification \<Rightarrow> error option) option"

definition sendTo :: "NotificationChannel \<Rightarrow> Notification \<Rightarrow> error option" where
  "sendTo channel n = (case channel of None \<Rightarrow> None | Some send \<Rightarrow> send n)"

definition NewNotifications :: "NotificationChannel \<Rightarrow> plugin" where
  "NewNotifications channel = (NewBasePlugin ''notifications'' PriorityNormal)
     \<lparr>pl_OnWorkflowStart := \<lambda>i. sendTo channel (workflowNotification NotificationTypeWorkflowStarted i ''''),
      pl_OnWorkflowComplete := \<lambda>i. sendTo channel (workflowNotification NotificationTypeWorkflowCompleted i ''''),
      pl_OnWorkflowFailed := \<lambda>i. sendTo channel (workflowNotification NotificationTypeWorkflowFailed i (instanceErrorMsg i)),
      pl_OnStepStart := \<lambda>i st. sendTo channel (stepNotification NotificationTypeStepStarted i st ''''),
      pl_OnStepComplete := \<lambda>i st. sendTo channel (stepNotification NotificationTypeStepCompleted i st ''''),
      pl_OnStepFailed := \<lambda>i st err.
        sendTo channel (stepNotification NotificationTypeStepFailed i st (stepErrorMsg st (Some err)))\<rparr>"

section \<open>Audit\<close>

record AuditLogEntry =
  al_Timestamp :: int
  al_EventType :: string
  al_InstanceID :: int
  al_WorkflowID :: string
  al_StepID :: "int option"
  al_StepName :: string
  al_Status :: string
  al_Error :: string
  al_Duration :: "int option"
  al_Metadata :: raw

definition workflowEntry :: "int \<Rightarrow> string \<Rightarrow> WorkflowInstance \<Rightarrow> string \<Rightarrow> raw \<Rightarrow> AuditLogEntry" where
  "workflowEntry now ev instance msg meta =
     \<lparr>al_Timestamp = now, al_EventType = ev, al_InstanceID = wi_ID instance, al_WorkflowID = wi_WorkflowID instance,
      al_StepID = None, al_StepName = '''', al_Status = workflowStatusStr (wi_Status instance), al_Error = msg,
      al_Duration = None, al_Metadata = meta\<rparr>"

definition stepEntry :: "int \<Rightarrow> string \<Rightarrow> WorkflowInstance \<Rightarrow> WorkflowStep \<Rightarrow> string \<Rightarrow> raw \<Rightarrow> AuditLogEntry" where
  "stepEntry now ev instance step msg meta =
     \<lparr>al_Timestamp = now, al_EventType = ev, al_InstanceID = ws_InstanceID step, al_WorkflowID = wi_WorkflowID instance,
      al_StepID = Some (ws_ID step), al_StepName = ws_StepName step, al_Status = stepStatusStr (ws_Status step),
      al_Error = msg, al_Duration = None, al_Metadata = meta\<rparr>"

text \<open>\<open>now\<close> is the reading of the clock when the hook is called.\<close>

definition NewAudit :: "int \<Rightarrow> (AuditLogEntry \<Rightarrow> error option) \<Rightarrow> plugin" where
  "NewAudit now writer = (NewBasePlugin ''audit'' PriorityNormal)
     \<lparr>pl_OnWorkflowStart := \<lambda>i. writer (workflowEntry now ''workflow_start'' i '''' (wi_Input i)),
      pl_OnWorkflowComplete := \<lambda>i. writer (workflowEntry now ''workflow_complete'' i '''' (wi_Output i)),
      pl_OnWorkflowFailed := \<lambda>i. writer (workflowEntry now ''workflow_failed'' i (instanceErrorMsg i) (wi_Output i)),
      pl_OnStepStart := \<lambda>i st. writer (stepEntry now ''step_start'' i st '''' (ws_Input st)),
      pl_OnStepComplete := \<lambda>i st. writer (stepEntry now ''step_complete'' i st '''' (ws_Output st)),
      pl_OnStepFailed := \<lambda>i st err.
        writer (stepEntry now ''step_failed'' i st (stepErrorMsg st (Some err)) (ws_Input st))\<rparr>"

section \<open>Metrics\<close>

datatype metric =
    workflowStarted | workflowCompleted | workflowDuration | workflowStatus
  | stepStarted | stepCompleted | stepFailed | stepDuration | stepStatus

text \<open>A call on a child of a metric vector, with the label values it is selected by.\<close>

datatype metricCall =
    Inc metric "string list"
  | Observe metric "string list" rat
  | SetGauge metric "string list" int

definition Seconds :: "int \<Rightarrow> rat" where
  "Seconds d = of_int d / 1000000000"

text \<open>\<open>Time.Sub\<close>: a difference out of range is the least or greatest duration.\<close>

definition subDuration :: "int \<Rightarrow> int \<Rightarrow> int" where
  "subDuration t u = max (- (2 ^ 63)) (min (2 ^ 63 - 1) (t - u))"

definition RecordWorkflowStarted :: "int \<Rightarrow> string \<Rightarrow> metricCall list" where
  "RecordWorkflowStarted instanceID workflowID = [Inc workflowStarted [itoa instanceID, workflowID]]"

definition RecordWorkflowCompleted :: "int \<Rightarrow> string \<Rightarrow> int \<Rightarrow> WorkflowStatus \<Rightarrow> metricCall list" where
  "RecordWorkflowCompleted instanceID workflowID duration status =
     [Inc workflowCompleted [itoa instanceID, workflowID, workflowStatusStr status],
      Observe workflowDuration [itoa instanceID, workflowID, workflowStatusStr status] (Seconds duration)]"

definition RecordWorkflowFailed :: "int \<Rightarrow> string \<Rightarrow> int \<Rightarrow> metricCall list" where
  "RecordWorkflowFailed instanceID workflowID duration =
     [Inc workflowCompleted [itoa instanceID, workflowID, workflowStatusStr StatusFailed],
      Observe workflowDuration [itoa instanceID, workflowID, workflowStatusStr StatusFailed] (Seconds duration)]"

definition RecordStepStarted :: "int \<Rightarrow> string \<Rightarrow> string \<Rightarrow> StepType \<Rightarrow> metricCall list" where
  "RecordStepStarted instanceID workflowID stepName stepType =
     [Inc stepStarted [itoa instanceID, workflowID, stepName, stepTypeStr stepType]]"

definition RecordStepCompleted :: "int \<Rightarrow> string \<Rightarrow> string \<Rightarrow> StepType \<Rightarrow> int \<Rightarrow> metricCall list" where
  "RecordStepCompleted instanceID workflowID stepName stepType duration =
     [Inc stepCompleted [itoa instanceID, workflowID, stepName, stepTypeStr stepType],
      Observe stepDuration [itoa instanceID, workflowID, stepName, stepTypeStr stepType] (Seconds duration)]"

definition RecordStepFailed :: "int \<Rightarrow> string \<Rightarrow> string \<Rightarrow> StepType \<Rightarrow> int \<Rightarrow> metricCall list" where
  "RecordStepFailed instanceID workflowID stepName stepType duration =
     [Inc stepFailed [itoa instanceID, workflowID, stepName, stepTypeStr stepType],
      Observe stepDuration [itoa instanceID, workflowID, stepName, stepTypeStr stepType] (Seconds duration)]"

definition RecordWorkflowStatus :: "int \<Rightarrow> string \<Rightarrow> WorkflowStatus \<Rightarrow> metricCall list" where
  "RecordWorkflowStatus instanceID workflowID status =
     [SetGauge workflowStatus [itoa instanceID, workflowID, workflowStatusStr status] 1]"

definition RecordStepStatus :: "int \<Rightarrow> string \<Rightarrow> string \<Rightarrow> StepStatus \<Rightarrow> metricCall list" where
  "RecordStepStatus instanceID workflowID stepName status =
     [SetGauge stepStatus [itoa instanceID, workflowID, stepName, stepStatusStr status] 1]"

section \<open>Calls of hooks\<close>

datatype hook =
    WorkflowStart WorkflowInstance
  | WorkflowComplete WorkflowInstance
  | WorkflowFailed WorkflowInstance
  | StepStarts WorkflowInstance WorkflowStep
  | StepComplete WorkflowInstance WorkflowStep
  | StepFailed WorkflowInstance WorkflowStep "error option"
  | RollbackStepChain int string int

definition stepBegin :: "WorkflowStep \<Rightarrow> int" where
  "stepBegin step = (case ws_StartedAt step of Some t \<Rightarrow> t | None \<Rightarrow> ws_CreatedAt step)"

text \<open>What the metrics plugin asks of its collector when a hook is called at \<open>now\<close>.\<close>

fun metricsHook :: "int \<Rightarrow> hook \<Rightarrow> metricCall list" where
  "metricsHook now (WorkflowStart i) =
     RecordWorkflowStarted (wi_ID i) (wi_WorkflowID i) @ RecordWorkflowStatus (wi_ID i) (wi_WorkflowID i) (wi_Status i)"
| "metricsHook now (WorkflowComplete i) =
     RecordWorkflowCompleted (wi_ID i) (wi_WorkflowID i) (subDuration now (wi_CreatedAt i)) (wi_Status i)
     @ RecordWorkflowStatus (wi_ID i) (wi_WorkflowID i) (wi_Status i)"
| "metricsHook now (WorkflowFailed i) =
     RecordWorkflowFailed (wi_ID i) (wi_WorkflowID i) (subDuration now (wi_CreatedAt i))
     @ RecordWorkflowStatus (wi_ID i) (wi_WorkflowID i) (wi_Status i)"
| "metricsHook now (StepStarts i st) =
     RecordStepStarted (ws_InstanceID st) (wi_WorkflowID i) (ws_StepName st) (ws_StepType st)
     @ RecordStepStatus (ws_InstanceID st) (wi_WorkflowID i) (ws_StepName st) (ws_Status st)"
| "metricsHook now (StepComplete i st) =
     RecordStepCompleted (ws_InstanceID st) (wi_WorkflowID i) (ws_StepName st) (ws_StepType st)
       (subDuration now (stepBegin st))
     @ RecordStepStatus (ws_InstanceID st) (wi_WorkflowID i) (ws_StepName st) (ws_Status st)"
| "metricsHook now (StepFailed i st err) =
     RecordStepFailed (ws_InstanceID st) (wi_WorkflowID i) (ws_StepName st) (ws_StepType st)
       (subDuration now (stepBegin st))
     @ RecordStepStatus (ws_InstanceID st) (wi_WorkflowID i) (ws_StepName st) (ws_Status st)"
| "metricsHook now (RollbackStepChain iid name depth) = []"

text \<open>A history of hooks, each with the time it is called at, with a collector or without one.\<close>

definition metricsRun :: "bool \<Rightarrow> (int \<times> hook) list \<Rightarrow> metricCall list" where
  "metricsRun hasCollector hs = (if hasCollector then concat (map (\<lambda>(now, h). metricsHook now h) hs) else [])"

text \<open>The value a gauge was last set to.\<close>

fun gaugeOf :: "metric \<Rightarrow> string list \<Rightarrow> metricCall list \<Rightarrow> int option" where
  "gaugeOf m ls [] = None"
| "gaugeOf m ls (c # cs) =
     (case gaugeOf m ls cs of Some v \<Rightarrow> Some v
      | None \<Rightarrow> (case c of SetGauge m' ls' v \<Rightarrow> if m' = m \<and> ls' = ls then Some v else None | _ \<Rightarrow> None))"

definition incsOf :: "metric \<Rightarrow> metricCall list \<Rightarrow> nat" where
  "incsOf m cs = length (filter (\<lambda>c. case c of Inc m' _ \<Rightarrow> m' = m | _ \<Rightarrow> False) cs)"

definition observationsOf :: "metric \<Rightarrow> metricCall list \<Rightarrow> nat" where
  "observationsOf m cs = length (filter (\<lambda>c. case c of Observe m' _ _ \<Rightarrow> m' = m | _ \<Rightarrow> False) cs)"

section \<open>What the metrics say\<close>

lemma incsOf_append [simp]: "incsOf m (cs @ ds) = incsOf m cs + incsOf m ds"
  by (simp add: incsOf_def)

lemma observationsOf_append [simp]: "observationsOf m (cs @ ds) = observationsOf m cs + observationsOf m ds"
  by (simp add: observationsOf_def)

lemmas record_defs = RecordWorkflowStarted_def RecordWorkflowCompleted_def RecordWorkflowFailed_def
  RecordStepStarted_def RecordStepCompleted_def RecordStepFailed_def RecordWorkflowStatus_def RecordStepStatus_def

lemma incs_obs_nil [simp]: "incsOf m [] = 0" "observationsOf m [] = 0"
  by (simp_all add: incsOf_def observationsOf_def)

lemma incs_obs_Cons [simp]:
  "incsOf m (c # cs) = (case c of Inc m' _ \<Rightarrow> if m' = m then 1 else 0 | _ \<Rightarrow> 0) + incsOf m cs"
  "observationsOf m (c # cs) = (case c of Observe m' _ _ \<Rightarrow> if m' = m then 1 else 0 | _ \<Rightarrow> 0) + observationsOf m cs"
  by (simp_all add: incsOf_def observationsOf_def split: metricCall.split)

lemma metricsRun_simps [simp]:
  "metricsRun b [] = []" "metricsRun True ((now, h) # hs) = metricsHook now h @ metricsRun True hs"
  by (simp_all add: metricsRun_def)

text \<open>
  The counters agree with the history: one start per started step, and one observed duration per counted end, for
  steps and for workflows.
\<close>

theorem metrics_counts:
  "incsOf stepStarted (metricsRun True hs) = length (filter (\<lambda>(t, h). case h of StepStarts _ _ \<Rightarrow> True | _ \<Rightarrow> False) hs)"
  "observationsOf stepDuration (metricsRun True hs) =
     incsOf stepCompleted (metricsRun True hs) + incsOf stepFailed (metricsRun True hs)"
  "observationsOf workflowDuration (metricsRun True hs) = incsOf workflowCompleted (metricsRun True hs)"
proof -
  have one: "incsOf stepStarted (metricsHook t h) = (case h of StepStarts _ _ \<Rightarrow> 1 | _ \<Rightarrow> 0)"
    "observationsOf stepDuration (metricsHook t h) = incsOf stepCompleted (metricsHook t h) + incsOf stepFailed (metricsHook t h)"
    "observationsOf workflowDuration (metricsHook t h) = incsOf workflowCompleted (metricsHook t h)" for t h
    by (cases h; simp add: record_defs)+
  show "incsOf stepStarted (metricsRun True hs) = length (filter (\<lambda>(t, h). case h of StepStarts _ _ \<Rightarrow> True | _ \<Rightarrow> False) hs)"
    by (induction hs) (auto simp: one split: hook.split)
  show "observationsOf stepDuration (metricsRun True hs) =
     incsOf stepCompleted (metricsRun True hs) + incsOf stepFailed (metricsRun True hs)"
    by (induction hs) (auto simp: one)
  show "observationsOf workflowDuration (metricsRun True hs) = incsOf workflowCompleted (metricsRun True hs)"
    by (induction hs) (auto simp: one)
qed

lemma gaugeOf_one:
  assumes "\<And>m ls v. SetGauge m ls v \<in> set cs \<Longrightarrow> v = 1"
  shows "gaugeOf m ls cs = (if SetGauge m ls 1 \<in> set cs then Some 1 else None)"
  using assms
proof (induction cs)
  case (Cons c cs)
  have IH: "gaugeOf m ls cs = (if SetGauge m ls 1 \<in> set cs then Some 1 else None)"
    using Cons by (meson list.set_intros(2))
  show ?case using Cons.prems IH by (cases c) auto
qed simp

lemma metricsRun_sets_one: "SetGauge m ls v \<in> set (metricsRun b hs) \<Longrightarrow> v = 1"
proof -
  have "SetGauge m ls v \<in> set (metricsHook t h) \<Longrightarrow> v = 1" for t h
    by (cases h) (auto simp: record_defs)
  then show "SetGauge m ls v \<in> set (metricsRun b hs) \<Longrightarrow> v = 1"
    by (auto simp: metricsRun_def split: if_splits)
qed

text \<open>
  A status gauge is never taken back: it is 1 for every status a step was ever reported with, whatever status was
  reported last.
\<close>

theorem status_gauge_sticks:
  assumes "(t, StepStarts i st) \<in> set hs \<or> (t, StepComplete i st) \<in> set hs \<or> (t, StepFailed i st err) \<in> set hs"
  shows "gaugeOf stepStatus [itoa (ws_InstanceID st), wi_WorkflowID i, ws_StepName st, stepStatusStr (ws_Status st)]
    (metricsRun True hs) = Some 1"
proof -
  have "SetGauge stepStatus [itoa (ws_InstanceID st), wi_WorkflowID i, ws_StepName st, stepStatusStr (ws_Status st)] 1
      \<in> set (metricsRun True hs)"
    using assms by (force simp: metricsRun_def record_defs)
  then show ?thesis using metricsRun_sets_one by (subst gaugeOf_one) (blast, simp)
qed

section \<open>Observers that stop a workflow\<close>

text \<open>
  An error of the notification channel or of the audit writer stops the start: if the observer is registered and all
  other plugins accept, starting the workflow fails exactly when the send or the write does.
\<close>

lemma register_accepting:
  assumes "\<forall>q \<in> set ps. hook q = None"
  shows "firstHookError hook (fold RegisterInManager (ps @ [p]) NewPluginManager) =
    map_option (Wrap (''plugin '' @ pl_Name p @ '' failed: '')) (hook p)"
proof -
  let ?pm = "fold RegisterInManager (ps @ [p]) NewPluginManager"
  have set: "set (fold RegisterInManager qs pm) = set qs \<union> set pm" for qs pm
    by (induction qs arbitrary: pm) (auto simp: set_RegisterInManager)
  have members: "\<forall>q \<in> set ?pm. q = p \<or> hook q = None" and mem: "p \<in> set ?pm"
    using assms by (auto simp: set NewPluginManager_def set_RegisterInManager)
  have "firstHookError hook pm = map_option (Wrap (''plugin '' @ pl_Name p @ '' failed: '')) (hook p)"
    if "\<forall>q \<in> set pm. q = p \<or> hook q = None" "p \<in> set pm" for pm
    using that
  proof (induction pm)
    case (Cons q pm)
    then show ?case
      using firstHookError_None [of hook pm] by (cases "q = p"; cases "hook p") auto
  qed simp
  then show ?thesis using members mem by blast
qed

theorem notification_failure_stops_start:
  assumes "\<forall>q \<in> set ps. pl_OnWorkflowStart q i = None"
  shows "ExecuteWorkflowStart (fold RegisterInManager (ps @ [NewNotifications channel]) NewPluginManager) i =
    map_option (Wrap ''plugin notifications failed: '')
      (sendTo channel (workflowNotification NotificationTypeWorkflowStarted i ''''))"
  using register_accepting [OF assms, of "NewNotifications channel"]
  by (simp add: ExecuteWorkflowStart_def NewNotifications_def NewBasePlugin_def)

theorem audit_failure_stops_step:
  assumes "\<forall>q \<in> set ps. pl_OnStepStart q i st = None"
  shows "ExecuteStepStart (fold RegisterInManager (ps @ [NewAudit now writer]) NewPluginManager) i st =
    map_option (Wrap ''plugin audit failed: '') (writer (stepEntry now ''step_start'' i st '''' (ws_Input st)))"
  using register_accepting [OF assms, of "NewAudit now writer"]
  by (simp add: ExecuteStepStart_def NewAudit_def NewBasePlugin_def)

end
