(* ===== verification/Telemetry.thy ===== *)
theory Telemetry
  imports Observers
begin

text \<open>
  \<open>plugins/engine/telemetry/plugin.go\<close>: one span per started workflow and per started step, kept in a map until the
  workflow or the step ends or the span expires. The tracer is outside the program: the state holds the calls made on
  it, and a span is the number of its \<open>Start\<close>. Each reading of the clock is numbered.

  The invariant \<open>spans_wf\<close> and its preservation say that every span is ended at most once and that a span in the map is
  open; \<open>spans_kept\<close> says when none is lost.
\<close>

datatype attr = AttrInt string int | AttrString string string

datatype tctx = CallerCtx | SpanCtx nat   \<comment> \<open>the context of the call, or the one \<open>Start\<close> returned with a span\<close>

datatype spanKind = SpanKindServer | SpanKindInternal

datatype code = CodeOk | CodeError

datatype spanCall =
    SStart nat tctx string spanKind
  | SSetAttributes nat "attr list"
  | SSetStatus nat code string
  | SRecordError nat error
  | SEnd nat

record spanEntry =
  se_span :: nat
  se_createdAt :: int
  se_stepType :: StepType

record workflowCtxEntry =
  wc_ctx :: tctx
  wc_createdAt :: int

record TelemetryPlugin =
  tp_spans :: "(string \<times> spanEntry) list"
  tp_workflowCtxs :: "(int \<times> workflowCtxEntry) list"
  tp_defaultTTL :: int
  tp_humanStepTTL :: int
  tp_started :: nat                 \<comment> \<open>spans started so far\<close>
  tp_reads :: nat                   \<comment> \<open>readings of the clock so far\<close>
  tp_calls :: "spanCall list"       \<comment> \<open>calls on the tracer and its spans, in order\<close>

type_synonym TelemetryOption = "TelemetryPlugin \<Rightarrow> TelemetryPlugin"

definition WithDefaultTTL :: "int \<Rightarrow> TelemetryOption" where
  "WithDefaultTTL ttl p = p\<lparr>tp_defaultTTL := ttl\<rparr>"

definition WithHumanStepTTL :: "int \<Rightarrow> TelemetryOption" where
  "WithHumanStepTTL ttl p = p\<lparr>tp_humanStepTTL := ttl\<rparr>"

definition NewTelemetry :: "TelemetryOption list \<Rightarrow> TelemetryPlugin" where
  "NewTelemetry opts = fold (\<lambda>opt. opt) opts
     \<lparr>tp_spans = [], tp_workflowCtxs = [], tp_defaultTTL = 3600000000000, tp_humanStepTTL = 24 * 3600000000000,
      tp_started = 0, tp_reads = 0, tp_calls = []\<rparr>"

text \<open>Calls on the tracer. A reading of the clock moves to the next one.\<close>

definition emit :: "spanCall list \<Rightarrow> TelemetryPlugin \<Rightarrow> TelemetryPlugin" where
  "emit cs p = p\<lparr>tp_calls := tp_calls p @ cs\<rparr>"

definition startSpan :: "tctx \<Rightarrow> string \<Rightarrow> spanKind \<Rightarrow> TelemetryPlugin \<Rightarrow> TelemetryPlugin" where
  "startSpan ctx name kind p =
     (emit [SStart (tp_started p) ctx name kind] p)\<lparr>tp_started := Suc (tp_started p)\<rparr>"

definition tick :: "TelemetryPlugin \<Rightarrow> TelemetryPlugin" where
  "tick p = p\<lparr>tp_reads := Suc (tp_reads p)\<rparr>"

definition workflowKey :: "int \<Rightarrow> string" where
  "workflowKey iid = ''workflow:'' @ itoa iid"

definition stepKey :: "int \<Rightarrow> string" where
  "stepKey sid = ''step:'' @ itoa sid"

definition putSpan :: "env \<Rightarrow> string \<Rightarrow> nat \<Rightarrow> StepType \<Rightarrow> TelemetryPlugin \<Rightarrow> TelemetryPlugin" where
  "putSpan E key sp ty p =
     tick (p\<lparr>tp_spans := AList.update key \<lparr>se_span = sp, se_createdAt = clk E (tp_reads p), se_stepType = ty\<rparr> (tp_spans p)\<rparr>)"

section \<open>Expiry\<close>

definition ttlOf :: "TelemetryPlugin \<Rightarrow> spanEntry \<Rightarrow> int" where
  "ttlOf p e = (if se_stepType e = StepTypeHuman then tp_humanStepTTL p else tp_defaultTTL p)"

definition spanExpired :: "int \<Rightarrow> TelemetryPlugin \<Rightarrow> spanEntry \<Rightarrow> bool" where
  "spanExpired now p e \<longleftrightarrow> subDuration now (se_createdAt e) > ttlOf p e"

definition cleanupExpired :: "env \<Rightarrow> TelemetryPlugin \<Rightarrow> TelemetryPlugin" where
  "cleanupExpired E p =
     (let now = clk E (tp_reads p);
          old = filter (\<lambda>(k, e). spanExpired now p e) (tp_spans p)
      in emit (concat (map (\<lambda>(k, e). [SSetStatus (se_span e) CodeError ''span expired due to TTL'', SEnd (se_span e)]) old))
           (tick (p\<lparr>tp_spans := filter (\<lambda>(k, e). \<not> spanExpired now p e) (tp_spans p),
                    tp_workflowCtxs := filter (\<lambda>(i, c). \<not> subDuration now (wc_createdAt c) > tp_defaultTTL p) (tp_workflowCtxs p)\<rparr>)))"

section \<open>Hooks\<close>

definition instanceAttrs :: "WorkflowInstance \<Rightarrow> attr list" where
  "instanceAttrs i = [AttrInt ''instance.id'' (wi_ID i), AttrString ''instance.workflow_id'' (wi_WorkflowID i),
     AttrString ''instance.status'' (workflowStatusStr (wi_Status i))]"

definition errorAttr :: "string \<Rightarrow> string option \<Rightarrow> attr list" where
  "errorAttr key e = (case e of None \<Rightarrow> [] | Some m \<Rightarrow> [AttrString key m])"

definition telOnWorkflowStart :: "env \<Rightarrow> WorkflowInstance \<Rightarrow> TelemetryPlugin \<Rightarrow> TelemetryPlugin" where
  "telOnWorkflowStart E i p =
     (let sp = tp_started p;
          p1 = emit [SSetAttributes sp (instanceAttrs i)]
                 (startSpan CallerCtx (''workflow.'' @ wi_WorkflowID i) SpanKindServer p);
          p2 = putSpan E (workflowKey (wi_ID i)) sp (StepTypeOther '''') p1;
          p3 = tick (p2\<lparr>tp_workflowCtxs := AList.update (wi_ID i)
                 \<lparr>wc_ctx = SpanCtx sp, wc_createdAt = clk E (tp_reads p2)\<rparr> (tp_workflowCtxs p2)\<rparr>)
      in cleanupExpired E p3)"

text \<open>A span of the map is given its last calls, ended and taken out; a key that is not there changes nothing.\<close>

definition endSpan :: "string \<Rightarrow> (nat \<Rightarrow> spanCall list) \<Rightarrow> TelemetryPlugin \<Rightarrow> TelemetryPlugin" where
  "endSpan key calls p =
     (case map_of (tp_spans p) key of
        None \<Rightarrow> p
      | Some e \<Rightarrow> (emit (calls (se_span e) @ [SEnd (se_span e)]) p)\<lparr>tp_spans := AList.delete key (tp_spans p)\<rparr>)"

definition statusAttr :: "WorkflowInstance \<Rightarrow> attr list" where
  "statusAttr i = [AttrString ''instance.status'' (workflowStatusStr (wi_Status i))]"

definition telOnWorkflowComplete :: "WorkflowInstance \<Rightarrow> TelemetryPlugin \<Rightarrow> TelemetryPlugin" where
  "telOnWorkflowComplete i p =
     (let p1 = endSpan (workflowKey (wi_ID i))
            (\<lambda>sp. [SSetAttributes sp (statusAttr i), SSetStatus sp CodeOk ''workflow completed'']) p
      in p1\<lparr>tp_workflowCtxs := AList.delete (wi_ID i) (tp_workflowCtxs p1)\<rparr>)"

definition telOnWorkflowFailed :: "WorkflowInstance \<Rightarrow> TelemetryPlugin \<Rightarrow> TelemetryPlugin" where
  "telOnWorkflowFailed i p =
     (let p1 = endSpan (workflowKey (wi_ID i))
            (\<lambda>sp. SSetAttributes sp (statusAttr i)
               # (case wi_Error i of None \<Rightarrow> [] | Some _ \<Rightarrow> [SSetAttributes sp (errorAttr ''instance.error'' (wi_Error i))])
               @ [SSetStatus sp CodeError ''workflow failed'']) p
      in p1\<lparr>tp_workflowCtxs := AList.delete (wi_ID i) (tp_workflowCtxs p1)\<rparr>)"

definition linkedCtx :: "int \<Rightarrow> TelemetryPlugin \<Rightarrow> tctx" where
  "linkedCtx iid p = (case map_of (tp_workflowCtxs p) iid of None \<Rightarrow> CallerCtx | Some c \<Rightarrow> wc_ctx c)"

definition stepAttrs :: "WorkflowInstance \<Rightarrow> WorkflowStep \<Rightarrow> attr list" where
  "stepAttrs i st =
     [AttrInt ''step.id'' (ws_ID st), AttrInt ''step.instance_id'' (ws_InstanceID st),
      AttrString ''step.step_name'' (ws_StepName st), AttrString ''step.step_type'' (stepTypeStr (ws_StepType st)),
      AttrString ''step.status'' (stepStatusStr (ws_Status st)), AttrInt ''step.retry_count'' (ws_RetryCount st),
      AttrInt ''step.compensation_retry_count'' (ws_CompensationRetryCount st),
      AttrString ''step.idempotency_key'' (ws_IdempotencyKey st)]
     @ instanceAttrs i @ errorAttr ''step.error'' (ws_Error st)"

definition telOnStepStart :: "env \<Rightarrow> WorkflowInstance \<Rightarrow> WorkflowStep \<Rightarrow> TelemetryPlugin \<Rightarrow> TelemetryPlugin" where
  "telOnStepStart E i st p =
     (let sp = tp_started p;
          p1 = emit [SSetAttributes sp (stepAttrs i st)]
                 (startSpan (linkedCtx (wi_ID i) p) (''step.'' @ ws_StepName st) SpanKindInternal p)
      in cleanupExpired E (putSpan E (stepKey (ws_ID st)) sp (ws_StepType st) p1))"

definition stepEndAttrs :: "WorkflowStep \<Rightarrow> attr list" where
  "stepEndAttrs st = [AttrString ''step.status'' (stepStatusStr (ws_Status st)),
     AttrInt ''step.retry_count'' (ws_RetryCount st),
     AttrInt ''step.compensation_retry_count'' (ws_CompensationRetryCount st)]"

definition telOnStepComplete :: "WorkflowStep \<Rightarrow> TelemetryPlugin \<Rightarrow> TelemetryPlugin" where
  "telOnStepComplete st =
     endSpan (stepKey (ws_ID st))
       (\<lambda>sp. [SSetAttributes sp (stepEndAttrs st), SSetStatus sp CodeOk ''step completed''])"

definition telOnStepFailed :: "WorkflowStep \<Rightarrow> error option \<Rightarrow> TelemetryPlugin \<Rightarrow> TelemetryPlugin" where
  "telOnStepFailed st err =
     endSpan (stepKey (ws_ID st))
       (\<lambda>sp. SSetAttributes sp (stepEndAttrs st)
          # (case ws_Error st of None \<Rightarrow> [] | Some _ \<Rightarrow> [SSetAttributes sp (errorAttr ''step.error'' (ws_Error st))])
          @ (case err of None \<Rightarrow> [] | Some e \<Rightarrow> [SRecordError sp e])
          @ [SSetStatus sp CodeError ''step failed''])"

definition telOnRollbackStepChain :: "int \<Rightarrow> string \<Rightarrow> int \<Rightarrow> TelemetryPlugin \<Rightarrow> TelemetryPlugin" where
  "telOnRollbackStepChain iid name depth p =
     (let sp = tp_started p in
      emit [SSetAttributes sp [AttrInt ''instance.id'' iid, AttrString ''step.step_name'' name, AttrInt ''rollback.depth'' depth],
            SSetStatus sp CodeOk ''rollback completed'', SEnd sp]
        (startSpan (linkedCtx iid p) (''rollback.'' @ name) SpanKindInternal p))"

fun telemetryHook :: "env \<Rightarrow> hook \<Rightarrow> TelemetryPlugin \<Rightarrow> TelemetryPlugin" where
  "telemetryHook E (WorkflowStart i) p = telOnWorkflowStart E i p"
| "telemetryHook E (WorkflowComplete i) p = telOnWorkflowComplete i p"
| "telemetryHook E (WorkflowFailed i) p = telOnWorkflowFailed i p"
| "telemetryHook E (StepStarts i st) p = telOnStepStart E i st p"
| "telemetryHook E (StepComplete i st) p = telOnStepComplete st p"
| "telemetryHook E (StepFailed i st err) p = telOnStepFailed st err p"
| "telemetryHook E (RollbackStepChain iid name depth) p = telOnRollbackStepChain iid name depth p"

definition telemetryRun :: "env \<Rightarrow> hook list \<Rightarrow> TelemetryPlugin \<Rightarrow> TelemetryPlugin" where
  "telemetryRun E hs = fold (telemetryHook E) hs"

section \<open>Every span ends at most once\<close>

definition endsIn :: "spanCall list \<Rightarrow> nat \<Rightarrow> nat" where
  "endsIn cs n = length (filter (\<lambda>c. c = SEnd n) cs)"

abbreviation ends :: "TelemetryPlugin \<Rightarrow> nat \<Rightarrow> nat" where
  "ends p \<equiv> endsIn (tp_calls p)"

definition openSpans :: "TelemetryPlugin \<Rightarrow> nat list" where
  "openSpans p = map (se_span \<circ> snd) (tp_spans p)"

text \<open>Spans that were started, are not in the map and were never ended: nobody will end them.\<close>

definition lostSpans :: "TelemetryPlugin \<Rightarrow> nat set" where
  "lostSpans p = {n. n < tp_started p \<and> n \<notin> set (openSpans p) \<and> ends p n = 0}"

definition spans_wf :: "TelemetryPlugin \<Rightarrow> bool" where
  "spans_wf p \<longleftrightarrow> distinct (map fst (tp_spans p)) \<and> distinct (openSpans p) \<and>
     (\<forall>n \<in> set (openSpans p). n < tp_started p \<and> ends p n = 0) \<and>
     (\<forall>n. ends p n \<le> 1) \<and> (\<forall>n \<ge> tp_started p. ends p n = 0)"

lemma endsIn_simps [simp]:
  "endsIn [] n = 0"
  "endsIn (c # cs) n = (if c = SEnd n then 1 else 0) + endsIn cs n"
  "endsIn (cs @ ds) n = endsIn cs n + endsIn ds n"
  by (simp_all add: endsIn_def)

lemma tel_fields [simp]:
  "tp_spans (emit cs p) = tp_spans p" "tp_started (emit cs p) = tp_started p"
  "tp_calls (emit cs p) = tp_calls p @ cs" "tp_reads (emit cs p) = tp_reads p"
  "tp_spans (tick p) = tp_spans p" "tp_started (tick p) = tp_started p" "tp_calls (tick p) = tp_calls p"
  "tp_spans (startSpan ctx nm kd p) = tp_spans p" "tp_started (startSpan ctx nm kd p) = Suc (tp_started p)"
  "tp_calls (startSpan ctx nm kd p) = tp_calls p @ [SStart (tp_started p) ctx nm kd]"
  "tp_started (putSpan E key sp ty p) = tp_started p" "tp_calls (putSpan E key sp ty p) = tp_calls p"
  by (simp_all add: emit_def tick_def startSpan_def putSpan_def)

text \<open>The invariant and the lost spans depend on the map, the number of spans and the ends only.\<close>

lemma spans_cong:
  assumes "tp_spans q = tp_spans p" "tp_started q = tp_started p" "\<And>n. ends q n = ends p n"
  shows "spans_wf q = spans_wf p" "lostSpans q = lostSpans p"
  using assms by (simp_all add: spans_wf_def lostSpans_def openSpans_def)

lemma open_update:
  assumes "distinct (map fst al)"
  shows "set (map (f \<circ> snd) (AList.update k v al)) =
      insert (f v) (set (map (f \<circ> snd) (AList.delete k al)))"
    and "distinct (map (f \<circ> snd) al) \<Longrightarrow> f v \<notin> set (map (f \<circ> snd) al) \<Longrightarrow>
      distinct (map (f \<circ> snd) (AList.update k v al))"
proof -
  show "set (map (f \<circ> snd) (AList.update k v al)) = insert (f v) (set (map (f \<circ> snd) (AList.delete k al)))"
    using assms
  proof (induction al)
    case (Cons a al)
    then show ?case by (cases a) (auto simp: delete_id)
  qed simp
  have sub: "set (map (f \<circ> snd) (AList.update k v al)) \<subseteq> insert (f v) (set (map (f \<circ> snd) al))" for al
    using set_update_subset [of k v al] by auto
  show "distinct (map (f \<circ> snd) al) \<Longrightarrow> f v \<notin> set (map (f \<circ> snd) al) \<Longrightarrow>
      distinct (map (f \<circ> snd) (AList.update k v al))"
  proof (induction al)
    case (Cons a al)
    then show ?case using sub [of al] by (cases a) auto
  qed simp
qed

lemma open_delete:
  assumes "distinct (map fst al)" "distinct (map (f \<circ> snd) al)" "map_of al k = Some e"
  shows "set (map (f \<circ> snd) (AList.delete k al)) = set (map (f \<circ> snd) al) - {f e}"
    and "distinct (map (f \<circ> snd) (AList.delete k al))"
  using assms
proof (induction al)
  case (Cons a al)
  obtain k' v where a: "a = (k', v)" by (cases a)
  {
    case 1
    show ?case
    proof (cases "k' = k")
      case True
      with 1 a show ?thesis by (auto simp: delete_id)
    next
      case False
      with 1 a Cons.IH(1) have "set (map (f \<circ> snd) (AList.delete k al)) = set (map (f \<circ> snd) al) - {f e}" by simp
      moreover have "f v \<noteq> f e" using False 1 a by (force dest!: map_of_SomeD)
      ultimately show ?thesis using False a by auto
    qed
  next
    case 2
    then show ?case using a Cons.IH by (auto simp: delete_id split: if_splits)
  }
qed simp_all

definition overwritten :: "string \<Rightarrow> TelemetryPlugin \<Rightarrow> nat set" where
  "overwritten key p = (case map_of (tp_spans p) key of None \<Rightarrow> {} | Some e \<Rightarrow> {se_span e})"

lemma open_lt: "spans_wf p \<Longrightarrow> n \<in> set (openSpans p) \<Longrightarrow> n < tp_started p \<and> ends p n = 0"
  by (simp add: spans_wf_def)

lemma open_mem:
  assumes "map_of (tp_spans p) key = Some e"
  shows "se_span e \<in> set (openSpans p)"
  using imageI [OF map_of_SomeD [OF assms], of "se_span \<circ> snd"] by (simp add: openSpans_def)

lemma span_put:
  assumes wf: "spans_wf p" and spans: "tp_spans q = AList.update key e (tp_spans p)" and e: "se_span e = tp_started p"
    and st: "tp_started q = Suc (tp_started p)" and ends: "\<And>n. ends q n = ends p n"
  shows "spans_wf q" and "lostSpans q = lostSpans p \<union> overwritten key p"
proof -
  have dk: "distinct (map fst (tp_spans p))" and d: "distinct (map (se_span \<circ> snd) (tp_spans p))"
    using wf by (simp_all add: spans_wf_def openSpans_def)
  have new: "tp_started p \<notin> set (openSpans p)" using open_lt [OF wf] by blast
  have del: "set (map (se_span \<circ> snd) (AList.delete key (tp_spans p))) = set (openSpans p) - overwritten key p"
  proof (cases "map_of (tp_spans p) key")
    case None
    then have "AList.delete key (tp_spans p) = tp_spans p" by (simp add: map_of_eq_None_iff delete_id)
    with None show ?thesis by (simp add: overwritten_def openSpans_def)
  next
    case (Some v)
    then show ?thesis using open_delete(1) [OF dk d Some] by (simp add: overwritten_def openSpans_def)
  qed
  have opn: "set (openSpans q) = insert (tp_started p) (set (openSpans p) - overwritten key p)"
    unfolding openSpans_def spans open_update(1) [OF dk] e using del by (simp add: openSpans_def)
  have dis: "distinct (openSpans q)"
    unfolding openSpans_def spans using open_update(2) [OF dk d] new e by (simp add: openSpans_def)
  have ov: "overwritten key p \<subseteq> set (openSpans p)"
    using open_mem by (auto simp: overwritten_def split: option.split)
  show "spans_wf q"
    using wf dis dk by (auto simp: spans_wf_def opn st ends spans intro!: distinct_update)
  show "lostSpans q = lostSpans p \<union> overwritten key p"
    using open_lt [OF wf] new ov unfolding lostSpans_def opn st ends by (auto simp: less_Suc_eq)
qed

lemma span_end:
  assumes wf: "spans_wf p" and quiet: "\<And>sp n. endsIn (calls sp) n = 0"
  shows "spans_wf (endSpan key calls p)" and "lostSpans (endSpan key calls p) = lostSpans p"
proof -
  have "spans_wf (endSpan key calls p) \<and> lostSpans (endSpan key calls p) = lostSpans p"
  proof (cases "map_of (tp_spans p) key")
    case None
    then show ?thesis using wf by (simp add: endSpan_def)
  next
    case (Some e)
    let ?q = "endSpan key calls p"
    have dk: "distinct (map fst (tp_spans p))" and d: "distinct (map (se_span \<circ> snd) (tp_spans p))"
      using wf by (simp_all add: spans_wf_def openSpans_def)
    have q: "tp_spans ?q = AList.delete key (tp_spans p)" "tp_started ?q = tp_started p"
      "\<And>n. ends ?q n = ends p n + (if n = se_span e then 1 else 0)"
      using Some quiet by (simp_all add: endSpan_def)
    have opn: "set (openSpans ?q) = set (openSpans p) - {se_span e}" and dis: "distinct (openSpans ?q)"
      using open_delete [OF dk d Some] by (simp_all add: openSpans_def q(1))
    have mem: "se_span e \<in> set (openSpans p)"
      using open_mem [OF Some] .
    note b = open_lt [OF wf mem]
    have "spans_wf ?q"
      using wf dis dk b by (auto simp: spans_wf_def opn q intro!: distinct_delete)
    moreover have "lostSpans ?q = lostSpans p"
      using b mem unfolding lostSpans_def opn q by (auto split: if_splits)
    ultimately show ?thesis by simp
  qed
  then show "spans_wf (endSpan key calls p)" and "lostSpans (endSpan key calls p) = lostSpans p" by simp_all
qed

lemma endsIn_expiry:
  assumes "distinct (map (se_span \<circ> snd) xs)"
  shows "endsIn (concat (map (\<lambda>(k, e). [SSetStatus (se_span e) CodeError msg, SEnd (se_span e)]) xs)) n =
    (if n \<in> set (map (se_span \<circ> snd) xs) then 1 else 0)"
  using assms by (induction xs) (auto simp: rev_image_eqI)

lemma filter_split_set:
  "distinct (map f xs) \<Longrightarrow> set (map f (filter P xs)) = set (map f xs) - set (map f (filter (\<lambda>x. \<not> P x) xs))"
  by (induction xs) (auto simp: rev_image_eqI)

lemma span_cleanup:
  assumes wf: "spans_wf p"
  shows "spans_wf (cleanupExpired E p)" and "lostSpans (cleanupExpired E p) = lostSpans p"
proof -
  let ?q = "cleanupExpired E p" and ?now = "clk E (tp_reads p)"
  let ?old = "filter (\<lambda>(k, e). spanExpired ?now p e) (tp_spans p)"
  let ?dead = "set (map (se_span \<circ> snd) ?old)"
  have dk: "distinct (map fst (tp_spans p))" and d: "distinct (map (se_span \<circ> snd) (tp_spans p))"
    using wf by (simp_all add: spans_wf_def openSpans_def)
  have q: "tp_spans ?q = filter (\<lambda>x. \<not> (case x of (k, e) \<Rightarrow> spanExpired ?now p e)) (tp_spans p)" "tp_started ?q = tp_started p"
    by (simp_all add: cleanupExpired_def Let_def split_def)
  have "distinct (map (se_span \<circ> snd) ?old)" by (rule distinct_map_filter [OF d])
  then have ends: "ends ?q n = ends p n + (if n \<in> ?dead then 1 else 0)" for n
    by (simp add: cleanupExpired_def Let_def endsIn_expiry)
  have dead: "?dead \<subseteq> set (openSpans p)" by (auto simp: openSpans_def)
  have opn: "set (openSpans ?q) = set (openSpans p) - ?dead"
    unfolding openSpans_def q by (subst filter_split_set [OF d]) simp
  have dis: "distinct (openSpans ?q)" unfolding openSpans_def q by (rule distinct_map_filter [OF d])
  have dk': "distinct (map fst (tp_spans ?q))" unfolding q by (rule distinct_map_filter [OF dk])
  note b = open_lt [OF wf]
  define D where "D = ?dead"
  have e1: "ends ?q n = ends p n + (if n \<in> D then 1 else 0)" for n using ends by (simp add: D_def)
  have bD: "n < tp_started p \<and> ends p n = 0" if "n \<in> D" for n using that dead b by (auto simp: D_def)
  have "ends p n \<le> 1" "tp_started p \<le> n \<Longrightarrow> ends p n = 0" for n using wf by (simp_all add: spans_wf_def)
  then have "ends ?q n \<le> 1" "tp_started p \<le> n \<Longrightarrow> ends ?q n = 0" for n
    using bD [of n] by (simp_all add: e1) blast
  moreover have "n < tp_started p \<and> ends ?q n = 0" if "n \<in> set (openSpans ?q)" for n
    using that b [of n] unfolding opn [folded D_def] by (simp add: e1)
  ultimately show "spans_wf ?q" using dis dk' by (simp add: spans_wf_def q(2))
  show "lostSpans ?q = lostSpans p"
    unfolding lostSpans_def opn ends q(2) using dead b by auto
qed

fun startedKey :: "hook \<Rightarrow> string option" where
  "startedKey (WorkflowStart i) = Some (workflowKey (wi_ID i))"
| "startedKey (StepStarts i st) = Some (stepKey (ws_ID st))"
| "startedKey _ = None"

definition overwrites :: "hook \<Rightarrow> TelemetryPlugin \<Rightarrow> nat set" where
  "overwrites h p = (case startedKey h of None \<Rightarrow> {} | Some key \<Rightarrow> overwritten key p)"

lemma workflowStart_spans:
  assumes wf: "spans_wf p"
  shows "spans_wf (telOnWorkflowStart E i p)"
    and "lostSpans (telOnWorkflowStart E i p) = lostSpans p \<union> overwritten (workflowKey (wi_ID i)) p"
proof -
  let ?p1 = "emit [SSetAttributes (tp_started p) (instanceAttrs i)]
      (startSpan CallerCtx (''workflow.'' @ wi_WorkflowID i) SpanKindServer p)"
  let ?p2 = "putSpan E (workflowKey (wi_ID i)) (tp_started p) (StepTypeOther '''') ?p1"
  let ?p3 = "tick (?p2\<lparr>tp_workflowCtxs := AList.update (wi_ID i)
      \<lparr>wc_ctx = SpanCtx (tp_started p), wc_createdAt = clk E (tp_reads ?p2)\<rparr> (tp_workflowCtxs ?p2)\<rparr>)"
  have s: "tp_spans ?p3 = AList.update (workflowKey (wi_ID i))
      \<lparr>se_span = tp_started p, se_createdAt = clk E (tp_reads ?p1), se_stepType = StepTypeOther ''''\<rparr> (tp_spans p)"
    by (simp add: putSpan_def)
  note 3 = span_put [OF wf s]
  have "telOnWorkflowStart E i p = cleanupExpired E ?p3" by (simp add: telOnWorkflowStart_def Let_def)
  then show "spans_wf (telOnWorkflowStart E i p)"
    "lostSpans (telOnWorkflowStart E i p) = lostSpans p \<union> overwritten (workflowKey (wi_ID i)) p"
    using span_cleanup [of ?p3 E] 3 by simp_all
qed

lemma stepStart_spans:
  assumes wf: "spans_wf p"
  shows "spans_wf (telOnStepStart E i st p)"
    and "lostSpans (telOnStepStart E i st p) = lostSpans p \<union> overwritten (stepKey (ws_ID st)) p"
proof -
  let ?p1 = "emit [SSetAttributes (tp_started p) (stepAttrs i st)]
      (startSpan (linkedCtx (wi_ID i) p) (''step.'' @ ws_StepName st) SpanKindInternal p)"
  let ?p2 = "putSpan E (stepKey (ws_ID st)) (tp_started p) (ws_StepType st) ?p1"
  have s: "tp_spans ?p2 = AList.update (stepKey (ws_ID st))
      \<lparr>se_span = tp_started p, se_createdAt = clk E (tp_reads ?p1), se_stepType = ws_StepType st\<rparr> (tp_spans p)"
    by (simp add: putSpan_def)
  note 2 = span_put [OF wf s]
  have "telOnStepStart E i st p = cleanupExpired E ?p2" by (simp add: telOnStepStart_def Let_def)
  then show "spans_wf (telOnStepStart E i st p)"
    "lostSpans (telOnStepStart E i st p) = lostSpans p \<union> overwritten (stepKey (ws_ID st)) p"
    using span_cleanup [of ?p2 E] 2 by simp_all
qed

lemma rollback_spans:
  assumes "spans_wf p"
  shows "spans_wf (telOnRollbackStepChain iid name depth p)"
    and "lostSpans (telOnRollbackStepChain iid name depth p) = lostSpans p"
  using assms
  by (auto simp: spans_wf_def lostSpans_def openSpans_def telOnRollbackStepChain_def Let_def less_Suc_eq)

lemma workflowCtxs_irrelevant [simp]:
  "spans_wf (p\<lparr>tp_workflowCtxs := c\<rparr>) = spans_wf p" "lostSpans (p\<lparr>tp_workflowCtxs := c\<rparr>) = lostSpans p"
  by (rule spans_cong; simp)+

lemma hook_spans:
  assumes "spans_wf p"
  shows "spans_wf (telemetryHook E h p)"
    and "lostSpans (telemetryHook E h p) = lostSpans p \<union> overwrites h p"
  using assms
  by (cases h; simp add: overwrites_def workflowStart_spans stepStart_spans rollback_spans telOnWorkflowComplete_def
      telOnWorkflowFailed_def telOnStepComplete_def telOnStepFailed_def Let_def span_end split: option.split)+

lemma run_spans:
  assumes "spans_wf p"
  shows "spans_wf (telemetryRun E hs p)" and "lostSpans p \<subseteq> lostSpans (telemetryRun E hs p)"
  using assms
proof (induction hs arbitrary: p)
  case Nil
  {
    case 1
    then show ?case by (simp add: telemetryRun_def)
  next
    case 2
    then show ?case by (simp add: telemetryRun_def)
  }
next
  case (Cons h hs)
  note step = hook_spans [where h = h and E = E]
  {
    case 1
    then show ?case using Cons.IH(1) step by (simp add: telemetryRun_def)
  next
    case 2
    then show ?case using Cons.IH(2) step by (fastforce simp: telemetryRun_def)
  }
qed

text \<open>A history in which no start finds its key in the map.\<close>

fun freshStarts :: "env \<Rightarrow> hook list \<Rightarrow> TelemetryPlugin \<Rightarrow> bool" where
  "freshStarts E [] p \<longleftrightarrow> True"
| "freshStarts E (h # hs) p \<longleftrightarrow>
     (case startedKey h of None \<Rightarrow> True | Some key \<Rightarrow> key \<notin> fst ` set (tp_spans p)) \<and> freshStarts E hs (telemetryHook E h p)"

lemma freshStarts_kept:
  assumes "spans_wf p" "freshStarts E hs p"
  shows "lostSpans (telemetryRun E hs p) = lostSpans p"
  using assms
proof (induction hs arbitrary: p)
  case (Cons h hs)
  have "overwrites h p = {}"
    using Cons.prems(2) by (auto simp: overwrites_def overwritten_def map_of_eq_None_iff [symmetric] split: option.splits)
  then show ?case using Cons hook_spans [OF Cons.prems(1), of E h] by (simp add: telemetryRun_def)
qed (simp add: telemetryRun_def)

lemma NewTelemetry_spans:
  assumes "set opts \<subseteq> range WithDefaultTTL \<union> range WithHumanStepTTL"
  shows "spans_wf (NewTelemetry opts) \<and> lostSpans (NewTelemetry opts) = {}"
proof -
  have "tp_spans (fold (\<lambda>opt. opt) opts p) = tp_spans p \<and> tp_started (fold (\<lambda>opt. opt) opts p) = tp_started p \<and>
      tp_calls (fold (\<lambda>opt. opt) opts p) = tp_calls p" for p
    using assms by (induction opts arbitrary: p) (auto simp: WithDefaultTTL_def WithHumanStepTTL_def)
  then show ?thesis by (simp add: NewTelemetry_def spans_wf_def lostSpans_def openSpans_def)
qed

text \<open>
  C39. Every span is accounted for. After any history of hooks, a started span is still in the map and not ended, or was
  ended exactly once and is out of the map, or was lost because a start put another span under its key; a history in which
  no start finds its key taken loses none.
\<close>

theorem telemetry_spans:
  assumes opts: "set opts \<subseteq> range WithDefaultTTL \<union> range WithHumanStepTTL"
    and p: "p = telemetryRun E hs (NewTelemetry opts)" and n: "n < tp_started p"
  shows "((n \<in> set (openSpans p) \<and> ends p n = 0) \<or> (n \<notin> set (openSpans p) \<and> ends p n = 1) \<or> n \<in> lostSpans p) \<and>
    (freshStarts E hs (NewTelemetry opts) \<longrightarrow> n \<notin> lostSpans p)"
proof -
  note new = NewTelemetry_spans [OF opts]
  have wf: "spans_wf p" using run_spans(1) new p by blast
  then have "ends p n \<le> 1" and "n \<in> set (openSpans p) \<Longrightarrow> ends p n = 0" by (auto simp: spans_wf_def)
  then show ?thesis
    using n freshStarts_kept [of "NewTelemetry opts" E hs] new p by (auto simp: lostSpans_def)
qed

definition aStep :: WorkflowStep where
  "aStep = \<lparr>ws_ID = 7, ws_InstanceID = 1, ws_StepName = ''s'', ws_StepType = StepTypeTask, ws_Status = StepStatusPending,
     ws_Input = RawNil, ws_Output = RawNil, ws_Error = None, ws_RetryCount = 0, ws_MaxRetries = 0,
     ws_CompensationRetryCount = 0, ws_IdempotencyKey = ''k'', ws_StartedAt = None, ws_CompletedAt = None, ws_CreatedAt = 0\<rparr>"

text \<open>A workflow starts, its step starts, fails, starts again and completes: three spans, of which the first is open.\<close>

definition aHistory :: "hook list" where
  "aHistory = [WorkflowStart anInstance, StepStarts anInstance aStep, StepFailed anInstance aStep (Some (Err ''e'')),
     StepStarts anInstance aStep, StepComplete anInstance aStep]"

theorem telemetry_spans_witness:
  "let p = telemetryRun env0 aHistory (NewTelemetry [WithDefaultTTL 60000000000]) in
     tp_started p = 3 \<and> openSpans p = [0] \<and> 2 \<notin> lostSpans p \<and> ends p 2 = 1"
proof -
  define p where "p = telemetryRun env0 aHistory (NewTelemetry [WithDefaultTTL 60000000000])"
  have c: "tp_started p = 3" "openSpans p = [0]" "freshStarts env0 aHistory (NewTelemetry [WithDefaultTTL 60000000000])"
    unfolding p_def by code_simp+
  have "((2 \<in> set (openSpans p) \<and> ends p 2 = 0) \<or> (2 \<notin> set (openSpans p) \<and> ends p 2 = 1) \<or> 2 \<in> lostSpans p) \<and>
      (freshStarts env0 aHistory (NewTelemetry [WithDefaultTTL 60000000000]) \<longrightarrow> 2 \<notin> lostSpans p)"
    by (rule telemetry_spans [OF _ p_def]) (use c in auto)
  with c have "2 \<notin> lostSpans p \<and> ends p 2 = 1" by auto
  with c show ?thesis unfolding p_def [symmetric] Let_def by simp
qed

text \<open>
  A step started again while its span is in the map loses that span: no later hook ends it, nor does its expiry.
\<close>

theorem lost_span_never_ends:
  assumes "spans_wf p" "map_of (tp_spans p) (stepKey (ws_ID st)) = Some e"
  shows "ends (telemetryRun E (StepStarts i st # hs) p) (se_span e) = 0"
proof -
  let ?q = "telemetryHook E (StepStarts i st) p"
  have "se_span e \<in> lostSpans ?q"
    using hook_spans(2) [OF assms(1), of E "StepStarts i st"] assms(2)
    by (simp add: overwrites_def overwritten_def)
  then have "se_span e \<in> lostSpans (telemetryRun E hs ?q)"
    using run_spans(2) hook_spans(1) [OF assms(1), of E "StepStarts i st"] by blast
  then show ?thesis by (simp add: telemetryRun_def lostSpans_def)
qed

text \<open>
  Expiry. After the start of a workflow or of a step, no entry of the map is older than its limit at the time the
  expired ones were looked for.
\<close>

lemma cleanup_ttl:
  assumes "(k, e) \<in> set (tp_spans (cleanupExpired E p))"
  shows "subDuration (clk E (tp_reads p)) (se_createdAt e) \<le> ttlOf p e \<and> tp_reads (cleanupExpired E p) = Suc (tp_reads p)"
  using assms by (auto simp: cleanupExpired_def Let_def spanExpired_def tick_def emit_def)

lemma cleanup_limits [simp]:
  "ttlOf (cleanupExpired E p) e = ttlOf p e" "tp_reads (cleanupExpired E p) = Suc (tp_reads p)"
  by (simp_all add: cleanupExpired_def Let_def ttlOf_def emit_def tick_def)

theorem telemetry_expiry:
  assumes "startedKey h = Some key" and q: "q = telemetryHook E h p" and "(k, e) \<in> set (tp_spans q)"
  shows "subDuration (clk E (tp_reads q - 1)) (se_createdAt e) \<le> ttlOf q e"
proof -
  obtain p' where "q = cleanupExpired E p'"
    using assms(1) q by (cases h) (auto simp: telOnWorkflowStart_def telOnStepStart_def Let_def)
  with cleanup_ttl [of k e E p'] assms(3) show ?thesis by simp
qed

end
