(* ===== verification/Scripts.thy ===== *)
theory Scripts
  imports Yaml Handlers
begin

text \<open>
  The handlers the command line tools make from a YAML document (\<open>internal/handlers\<close>): a shell script, given inline or
  as a file, and an HTTP endpoint. The operating system, the network and the text form of JSON values are the parameter
  \<open>platform\<close>; the n-th handler call of the engine may find them in any state.

  The lemmas give the results of both handlers on every branch, the variables a script sees when its environment
  has several values for one name, and the kind of handler a line of the document makes.
\<close>

section \<open>Platform\<close>

record command =
  cm_args :: "string list"
  cm_env :: "string list"

datatype runError = ExitError int error | RunError error

record httpRequest =
  hq_url :: string
  hq_header :: "(string \<times> string) list"
  hq_body :: jval

record httpResponse =
  hp_StatusCode :: int
  hp_body :: "string \<times> error option"    \<comment> \<open>what \<open>ReadAll\<close> gets and its error\<close>

record platform =
  pf_exists :: "string \<Rightarrow> bool"                             \<comment> \<open>\<open>os.Stat\<close> finds something, or fails otherwise than by its absence\<close>
  pf_environ :: "string list"                                \<comment> \<open>\<open>os.Environ\<close>\<close>
  pf_run :: "nat \<Rightarrow> command \<Rightarrow> runError option \<times> string \<times> string" \<comment> \<open>error, standard output, standard error\<close>
  pf_request :: "string \<Rightarrow> error option"                      \<comment> \<open>\<open>http.NewRequestWithContext\<close> on the address\<close>
  pf_do :: "nat \<Rightarrow> httpRequest \<Rightarrow> error + httpResponse"         \<comment> \<open>\<open>Client.Do\<close>\<close>
  pf_keyPair :: "string \<Rightarrow> string \<Rightarrow> error option"             \<comment> \<open>\<open>tls.LoadX509KeyPair\<close>\<close>
  pf_readFile :: "string \<Rightarrow> error + string"                   \<comment> \<open>\<open>os.ReadFile\<close>\<close>
  pf_pem :: "string \<Rightarrow> bool"                                 \<comment> \<open>\<open>AppendCertsFromPEM\<close>\<close>
  pf_text :: "raw \<Rightarrow> string"                                 \<comment> \<open>the bytes of a \<open>json.RawMessage\<close>\<close>
  pf_parse :: "string \<Rightarrow> error + jval"                        \<comment> \<open>\<open>json.Unmarshal\<close> into a \<open>json.RawMessage\<close>\<close>
  pf_format :: "jval \<Rightarrow> string"                              \<comment> \<open>\<open>%v\<close> of a decoded value\<close>

section \<open>Shell scripts\<close>

record ShellHandler =
  sh_name :: string
  sh_execPath :: string
  sh_isScript :: bool
  sh_debug :: bool

definition NewShellHandler :: "platform \<Rightarrow> string \<Rightarrow> string \<Rightarrow> bool \<Rightarrow> ShellHandler" where
  "NewShellHandler pf name exec debug =
     \<lparr>sh_name = name, sh_execPath = exec, sh_isScript = (CHR 10 \<in> set exec \<and> \<not> pf_exists pf exec), sh_debug = debug\<rparr>"

text \<open>\<open>strings.ToUpper\<close> on ASCII letters.\<close>

definition upperChar :: "char \<Rightarrow> char" where
  "upperChar c = (if 97 \<le> (of_char c :: nat) \<and> (of_char c :: nat) \<le> 122 then char_of ((of_char c :: nat) - 32) else c)"

definition binding :: "string \<Rightarrow> string \<Rightarrow> string" where
  "binding k v = k @ CHR ''='' # v"

fun valueText :: "platform \<Rightarrow> jval \<Rightarrow> string" where
  "valueText pf (JStr s) = s"
| "valueText pf v = pf_format pf v"

definition inputBindings :: "platform \<Rightarrow> raw \<Rightarrow> string list" where
  "inputBindings pf input =
     (case unmarshalMap input of
        Some (Some kvs) \<Rightarrow> map (\<lambda>(k, v). binding (map upperChar k) (valueText pf v)) kvs
      | _ \<Rightarrow> [])"

definition boolText :: "bool \<Rightarrow> string" where
  "boolText b = (if b then ''true'' else ''false'')"

definition floxyBindings :: "ShellHandler \<Rightarrow> executionContext \<Rightarrow> string list" where
  "floxyBindings h ctx =
     [binding ''FLOXY_INSTANCE_ID'' (itoa (ec_instanceID ctx)), binding ''FLOXY_STEP_NAME'' (ec_stepName ctx),
      binding ''FLOXY_IDEMPOTENCY_KEY'' (ec_idempotencyKey ctx), binding ''FLOXY_RETRY_COUNT'' (itoa (ec_retryCount ctx)),
      binding ''FLOXY_DEBUG'' (boolText (sh_debug h))]"

definition commandEnv :: "platform \<Rightarrow> ShellHandler \<Rightarrow> executionContext \<Rightarrow> raw \<Rightarrow> string list" where
  "commandEnv pf h ctx input =
     [binding ''INPUT'' (pf_text pf input)] @ inputBindings pf input @ floxyBindings h ctx @ pf_environ pf"

definition shellFailure :: "runError \<Rightarrow> string \<Rightarrow> string \<Rightarrow> error" where
  "shellFailure e stdout stderr =
     (case e of
        ExitError code err \<Rightarrow>
          Err (''script execution failed with exit code '' @ itoa code @ '': '' @ errStr err @ [CHR 10] @ ''Stderr: '' @ stderr)
      | RunError err \<Rightarrow>
          if stderr = [] \<and> stdout = [] then Wrap ''script execution failed: '' err
          else Err (''script execution failed: '' @ errStr err
            @ (if stderr \<noteq> '''' then CHR 10 # ''Stderr: '' @ stderr else '''')
            @ (if stdout \<noteq> '''' then CHR 10 # ''Stdout: '' @ stdout else '''')))"

definition shellCommand :: "platform \<Rightarrow> ShellHandler \<Rightarrow> executionContext \<Rightarrow> raw \<Rightarrow> command" where
  "shellCommand pf h ctx input =
     \<lparr>cm_args = (if sh_isScript h then [''bash'', ''-c'', ''set -e'' @ CHR 10 # sh_execPath h] else [''bash'', sh_execPath h]),
      cm_env = commandEnv pf h ctx input\<rparr>"

definition shellExecute :: "platform \<Rightarrow> ShellHandler \<Rightarrow> nat \<Rightarrow> executionContext \<Rightarrow> raw \<Rightarrow> hres" where
  "shellExecute pf h n ctx input =
     (if \<not> sh_isScript h \<and> \<not> pf_exists pf (sh_execPath h)
      then HErr (Err (''script file not found: '' @ sh_execPath h))
      else case pf_run pf n (shellCommand pf h ctx input) of
        (Some e, stdout, stderr) \<Rightarrow> HErr (shellFailure e stdout stderr)
      | (None, stdout, stderr) \<Rightarrow>
          if stdout = '''' then HErr (Err ''script produced no output'')
          else case pf_parse pf stdout of
            Inl err \<Rightarrow> HErr (Err (''script output is not valid JSON: '' @ errStr err @ [CHR 10] @ ''Output: '' @ stdout))
          | Inr v \<Rightarrow> HOk (RawJson v))"

section \<open>HTTP endpoints\<close>

record HTTPHandler =
  ht_name :: string
  ht_url :: string
  ht_tlsConfig :: "TLSConfig option"
  ht_insecure :: bool
  ht_certificate :: "(string \<times> string) option"
  ht_rootCAs :: "string option"

definition plainHTTP :: "string \<Rightarrow> string \<Rightarrow> TLSConfig option \<Rightarrow> HTTPHandler" where
  "plainHTTP name url tls = \<lparr>ht_name = name, ht_url = url, ht_tlsConfig = tls, ht_insecure = False,
     ht_certificate = None, ht_rootCAs = None\<rparr>"

definition withCertificate :: "platform \<Rightarrow> TLSConfig \<Rightarrow> HTTPHandler \<Rightarrow> error + HTTPHandler" where
  "withCertificate pf tls h =
     (if tls_CertFile tls \<noteq> '''' \<and> tls_KeyFile tls \<noteq> ''''
      then case pf_keyPair pf (tls_CertFile tls) (tls_KeyFile tls) of
        Some err \<Rightarrow> Inl (Wrap ''failed to load client certificate: '' err)
      | None \<Rightarrow> Inr (h\<lparr>ht_certificate := Some (tls_CertFile tls, tls_KeyFile tls)\<rparr>)
      else Inr h)"

definition withRootCAs :: "platform \<Rightarrow> TLSConfig \<Rightarrow> HTTPHandler \<Rightarrow> error + HTTPHandler" where
  "withRootCAs pf tls h =
     (if tls_CAFile tls \<noteq> ''''
      then case pf_readFile pf (tls_CAFile tls) of
        Inl err \<Rightarrow> Inl (Wrap ''failed to read CA certificate: '' err)
      | Inr caCert \<Rightarrow> if \<not> pf_pem pf caCert then Inl (Err ''failed to parse CA certificate'')
                      else Inr (h\<lparr>ht_rootCAs := Some caCert\<rparr>)
      else Inr h)"

definition NewHTTPHandler :: "platform \<Rightarrow> string \<Rightarrow> string \<Rightarrow> TLSConfig option \<Rightarrow> error + HTTPHandler" where
  "NewHTTPHandler pf name url tlsConfig =
     (case tlsConfig of
        None \<Rightarrow> Inr (plainHTTP name url None)
      | Some tls \<Rightarrow>
          (case withCertificate pf tls ((plainHTTP name url tlsConfig)\<lparr>ht_insecure := tls_SkipVerify tls\<rparr>) of
             Inl err \<Rightarrow> Inl err
           | Inr h \<Rightarrow> withRootCAs pf tls h))"

definition stepHeader :: "executionContext \<Rightarrow> (string \<times> string) list" where
  "stepHeader ctx =
     [(''Content-Type'', ''application/json''), (''X-Floxy-Instance-ID'', itoa (ec_instanceID ctx)),
      (''X-Floxy-Step-Name'', ec_stepName ctx), (''X-Floxy-Idempotency-Key'', ec_idempotencyKey ctx),
      (''X-Floxy-Retry-Count'', itoa (ec_retryCount ctx))]"

fun rawErr :: "raw \<Rightarrow> error" where
  "rawErr (RawBad msg) = Err msg"
| "rawErr _ = Err ''''"

definition httpExecute :: "platform \<Rightarrow> HTTPHandler \<Rightarrow> nat \<Rightarrow> executionContext \<Rightarrow> raw \<Rightarrow> hres" where
  "httpExecute pf h n ctx input =
     (case marshalRaw input of
        None \<Rightarrow> HErr (Wrap ''failed to marshal request body: '' (rawErr input))
      | Some data \<Rightarrow>
          (case pf_request pf (ht_url h) of
             Some err \<Rightarrow> HErr (Wrap ''failed to create HTTP request: '' err)
           | None \<Rightarrow>
               (case pf_do pf n \<lparr>hq_url = ht_url h, hq_header = stepHeader ctx,
                    hq_body = JObj [(''data'', data), (''metadata'', JObj (CloneData ctx))]\<rparr> of
                  Inl err \<Rightarrow> HErr (Wrap ''HTTP request failed: '' err)
                | Inr resp \<Rightarrow>
                    (case hp_body resp of (body, readErr) \<Rightarrow>
                       if hp_StatusCode resp < 200 \<or> hp_StatusCode resp \<ge> 300
                       then HErr (Err (''HTTP request failed with status '' @ itoa (hp_StatusCode resp) @ '': '' @ body))
                       else case readErr of
                         Some err \<Rightarrow> HErr (Wrap ''failed to read response body: '' err)
                       | None \<Rightarrow>
                           if body = '''' then HErr (Err ''HTTP response is empty'')
                           else case pf_parse pf body of
                             Inl err \<Rightarrow> HErr (Err (''HTTP response is not valid JSON: '' @ errStr err @ [CHR 10] @ ''Response: '' @ body))
                           | Inr v \<Rightarrow> HOk (RawJson v)))))"

section \<open>From a document\<close>

definition isURL :: "string \<Rightarrow> bool" where
  "isURL s \<longleftrightarrow> prefix ''http://'' s \<or> prefix ''https://'' s"

definition CreateHandler ::
    "platform \<Rightarrow> string \<Rightarrow> string \<Rightarrow> TLSConfig option \<Rightarrow> TLSConfig option \<Rightarrow> bool \<Rightarrow> error + handler" where
  "CreateHandler pf handlerName exec0 globalTLS handlerTLS debug =
     (let exec = TrimSpace exec0 in
      if isURL exec
      then case NewHTTPHandler pf handlerName exec (if handlerTLS \<noteq> None then handlerTLS else globalTLS) of
        Inl err \<Rightarrow> Inl err
      | Inr h \<Rightarrow> Inr \<lparr>hn_Name = ht_name h, hn_Execute = httpExecute pf h\<rparr>
      else (let h = NewShellHandler pf handlerName exec debug in
            Inr \<lparr>hn_Name = sh_name h, hn_Execute = shellExecute pf h\<rparr>))"

section \<open>What a script sees\<close>

text \<open>\<open>os/exec\<close> starts the process with the last value of each name (documented at \<open>Cmd.Env\<close>).\<close>

definition envEntry :: "string \<Rightarrow> string \<times> string" where
  "envEntry b = (takeWhile (\<lambda>c. c \<noteq> CHR ''='') b, drop 1 (dropWhile (\<lambda>c. c \<noteq> CHR ''='') b))"

definition lookupEnv :: "string list \<Rightarrow> string \<Rightarrow> string option" where
  "lookupEnv env k = map_of (rev (map envEntry env)) k"

lemma envEntry_binding: "CHR ''='' \<notin> set k \<Longrightarrow> envEntry (binding k v) = (k, v)"
  by (induction k) (auto simp: envEntry_def binding_def)

lemma lookupEnv_append:
  "lookupEnv (xs @ ys) k = (case lookupEnv ys k of Some v \<Rightarrow> Some v | None \<Rightarrow> lookupEnv xs k)"
  by (simp add: lookupEnv_def map_add_def split: option.split)

lemma lookupEnv_floxy:
  "lookupEnv (floxyBindings h ctx) k =
     (if k = ''FLOXY_INSTANCE_ID'' then Some (itoa (ec_instanceID ctx))
      else if k = ''FLOXY_STEP_NAME'' then Some (ec_stepName ctx)
      else if k = ''FLOXY_IDEMPOTENCY_KEY'' then Some (ec_idempotencyKey ctx)
      else if k = ''FLOXY_RETRY_COUNT'' then Some (itoa (ec_retryCount ctx))
      else if k = ''FLOXY_DEBUG'' then Some (boolText (sh_debug h)) else None)"
  by (simp add: lookupEnv_def floxyBindings_def envEntry_binding)

text \<open>
  Which value wins. A name the process of the engine has in its own environment keeps that value, whatever the step
  is; otherwise the five names of the engine hold the step's own values, whatever the members of the input are.
\<close>

theorem script_environment:
  "lookupEnv (commandEnv pf h ctx input) k =
     (case lookupEnv (pf_environ pf) k of
        Some v \<Rightarrow> Some v
      | None \<Rightarrow>
          (case lookupEnv (floxyBindings h ctx) k of
             Some v \<Rightarrow> Some v
           | None \<Rightarrow>
               (case lookupEnv (inputBindings pf input) k of
                  Some v \<Rightarrow> Some v
                | None \<Rightarrow> if k = ''INPUT'' then Some (pf_text pf input) else None)))"
proof -
  have inp: "lookupEnv [binding ''INPUT'' (pf_text pf input)] k = (if k = ''INPUT'' then Some (pf_text pf input) else None)"
    by (simp add: lookupEnv_def envEntry_binding)
  show ?thesis unfolding commandEnv_def lookupEnv_append inp by (simp split: option.split)
qed

text \<open>A script started by a script: the inner step is given the outer step's instance.\<close>

corollary nested_script_identity:
  assumes "lookupEnv (pf_environ pf) ''FLOXY_INSTANCE_ID'' = Some outer"
  shows "lookupEnv (commandEnv pf h ctx input) ''FLOXY_INSTANCE_ID'' = Some outer"
  using assms by (simp add: script_environment)

section \<open>Results\<close>

text \<open>
  A script step succeeds exactly when the script can be run, exits without an error and prints text that is one JSON value,
  which is then the output; an HTTP step exactly when the input is valid, the endpoint answers with a status
  of the 200s and its whole body is one JSON value.
\<close>

theorem shellExecute_ok:
  "shellExecute pf h n ctx input = HOk out \<longleftrightarrow>
     (sh_isScript h \<or> pf_exists pf (sh_execPath h)) \<and>
     (\<exists>stdout stderr v. pf_run pf n (shellCommand pf h ctx input) = (None, stdout, stderr) \<and> stdout \<noteq> '''' \<and>
        pf_parse pf stdout = Inr v \<and> out = RawJson v)"
  by (auto simp: shellExecute_def split: prod.split option.split sum.split)

theorem httpExecute_ok:
  "httpExecute pf h n ctx input = HOk out \<longleftrightarrow>
     (\<exists>data resp body v. marshalRaw input = Some data \<and> pf_request pf (ht_url h) = None \<and>
        pf_do pf n \<lparr>hq_url = ht_url h, hq_header = stepHeader ctx,
          hq_body = JObj [(''data'', data), (''metadata'', JObj (CloneData ctx))]\<rparr> = Inr resp \<and>
        200 \<le> hp_StatusCode resp \<and> hp_StatusCode resp < 300 \<and> hp_body resp = (body, None) \<and> body \<noteq> [] \<and>
        pf_parse pf body = Inr v \<and> out = RawJson v)"
  by (auto simp: httpExecute_def split: option.split sum.split prod.split)

lemma shellExecute_never_panics: "shellExecute pf h n ctx input \<noteq> HPanic p"
  by (simp add: shellExecute_def split: prod.split option.split sum.split)

text \<open>A command given on one line is the name of a file, never a script.\<close>

lemma one_line_is_a_file:
  assumes "CHR 10 \<notin> set exec" "\<not> pf_exists pf exec"
  shows "shellExecute pf (NewShellHandler pf name exec debug) n ctx input = HErr (Err (''script file not found: '' @ exec))"
  using assms by (simp add: shellExecute_def NewShellHandler_def)

text \<open>
  A handler is registered under the name of the document; making it fails only for an address, and then by its TLS
  settings, those of the handler before those of the document.
\<close>

theorem CreateHandler_spec:
  assumes tls: "tls = (if handlerTLS \<noteq> None then handlerTLS else globalTLS)"
  shows "CreateHandler pf name exec globalTLS handlerTLS debug = Inr h \<Longrightarrow> hn_Name h = name"
    and "CreateHandler pf name exec globalTLS handlerTLS debug = Inl err \<longleftrightarrow>
      isURL (TrimSpace exec) \<and> NewHTTPHandler pf name (TrimSpace exec) tls = Inl err"
    and "tls = None \<Longrightarrow> \<exists>h. CreateHandler pf name exec globalTLS handlerTLS debug = Inr h"
proof -
  have nm: "NewHTTPHandler pf name url t = Inr g \<Longrightarrow> ht_name g = name" for url t g
    by (auto simp: NewHTTPHandler_def withCertificate_def withRootCAs_def plainHTTP_def
        split: option.splits sum.splits if_splits)
  show "CreateHandler pf name exec globalTLS handlerTLS debug = Inr h \<Longrightarrow> hn_Name h = name"
    by (auto simp: CreateHandler_def Let_def NewShellHandler_def dest: nm split: if_splits sum.splits)
  show "CreateHandler pf name exec globalTLS handlerTLS debug = Inl err \<longleftrightarrow>
      isURL (TrimSpace exec) \<and> NewHTTPHandler pf name (TrimSpace exec) tls = Inl err"
    by (auto simp: CreateHandler_def Let_def tls split: sum.splits)
  show "tls = None \<Longrightarrow> \<exists>h. CreateHandler pf name exec globalTLS handlerTLS debug = Inr h"
    by (simp add: CreateHandler_def Let_def tls NewHTTPHandler_def split: if_splits)
qed

end
