(* ===== verification/Tools.thy ===== *)
theory Tools
  imports Scripts Yaml_Props Pool Api
begin

text \<open>
  The command line tools: \<open>floxyctl run\<close> (\<open>internal/floxyctl/run.go\<close>), which runs the first workflow of a document on an engine over
  the in-memory store, the input of \<open>floxyctl start\<close>, durations and the configuration of
  \<open>floxyd\<close>. The workers of the pool run while the tool waits: the schedule says in which state of the engine each tick and each later
  call finds it.

  The lemmas show that a document which parses can be run, when waiting ends and with what, and which configurations
  are accepted.
\<close>

section \<open>Input\<close>

text \<open>What reading standard input gives, and its error.\<close>

type_synonym stdin = "string \<times> error option"

definition readInput :: "platform \<Rightarrow> stdin \<Rightarrow> string \<Rightarrow> raw res" where
  "readInput pf stdin inputFile =
     (if inputFile \<noteq> ''''
      then case pf_readFile pf inputFile of
        Inl err \<Rightarrow> Fail (Wrap ''failed to read input file: '' err)
      | Inr inputData \<Rightarrow>
          (case pf_parse pf inputData of Inl _ \<Rightarrow> Fail (Err ''input file is not valid JSON'') | Inr v \<Rightarrow> Ok (RawJson v))
      else case stdin of
        (inputData, Some err) \<Rightarrow> Fail (Wrap ''failed to read from stdin: '' err)
      | (inputData, None) \<Rightarrow>
          if inputData \<noteq> ''''
          then case pf_parse pf inputData of Inl _ \<Rightarrow> Fail (Err ''stdin input is not valid JSON'') | Inr v \<Rightarrow> Ok (RawJson v)
          else Ok (RawJson (JObj [])))"

text \<open>\<open>floxyctl start\<close> reads standard input only when it is not a terminal.\<close>

definition startInput :: "platform \<Rightarrow> bool \<Rightarrow> stdin \<Rightarrow> string \<Rightarrow> raw res" where
  "startInput pf terminal stdin inputFile =
     (if inputFile = '''' \<and> terminal then Ok (RawJson (JObj [])) else readInput pf stdin inputFile)"

section \<open>Running a document\<close>

record ctlConfig =
  cc_PoolWorkers :: int
  cc_WorkerInterval :: int
  cc_CompletionTimeout :: int
  cc_StatusCheckInterval :: int
  cc_Debug :: bool

definition loadRun :: "platform \<Rightarrow> (string \<Rightarrow> error + YamlRoot) \<Rightarrow> stdin \<Rightarrow> string \<Rightarrow> string \<Rightarrow>
    (YamlRoot \<times> execs \<times> WorkflowDefinition \<times> raw) res" where
  "loadRun pf unmarshal stdin yamlFile inputFile =
     (case pf_readFile pf yamlFile of
        Inl err \<Rightarrow> Fail (Wrap ''failed to read YAML file: '' err)
      | Inr yamlData \<Rightarrow>
          (case unmarshal yamlData of
             Inl err \<Rightarrow> Fail (Wrap ''failed to parse YAML: '' err)
           | Inr doc \<Rightarrow>
               (case ParseWorkflowYAML unmarshal yamlData 1 of
                  Fail err \<Rightarrow> Fail (Wrap ''failed to parse workflow YAML: '' err)
                | Ok (defs, handlersExec) \<Rightarrow>
                    (case defs of
                       [] \<Rightarrow> Fail (Err ''no workflows defined in YAML file'')
                     | (name, workflowDef) # _ \<Rightarrow>
                         rbind (readInput pf stdin inputFile) (\<lambda>input. Ok (doc, handlersExec, workflowDef, input)))
                | r \<Rightarrow> rbind r (\<lambda>_. Fail (Err '''')))))"

text \<open>The TLS settings of the last handler of that name.\<close>

definition handlerTLS :: "YamlRoot \<Rightarrow> string \<Rightarrow> TLSConfig option" where
  "handlerTLS doc name =
     (case map_of (rev (map (\<lambda>h. (yh_Name h, yh_TLS h)) (yr_Handlers doc))) name of None \<Rightarrow> None | Some tls \<Rightarrow> tls)"

definition registerExec :: "platform \<Rightarrow> YamlRoot \<Rightarrow> bool \<Rightarrow> string \<times> string \<Rightarrow> unit ego" where
  "registerExec pf doc debug ne =
     (case CreateHandler pf (fst ne) (snd ne) (yr_TLS doc) (handlerTLS doc (fst ne)) debug of
        Inl err \<Rightarrow> gfail (Wrap (''failed to create handler '' @ goQuote (fst ne) @ '': '') err)
      | Inr h \<Rightarrow> RegisterHandler h)"

definition runSetup :: "env \<Rightarrow> platform \<Rightarrow> bool \<Rightarrow> YamlRoot \<Rightarrow> execs \<Rightarrow> WorkflowDefinition \<Rightarrow> raw \<Rightarrow> int ego" where
  "runSetup E pf debug doc ex def input =
     gseq (gforeach (registerExec pf doc debug) ex)
     (gbind (gwrap ''failed to register workflow: '' (RegisterWorkflow E def)) (\<lambda>def'.
       gwrap ''failed to start workflow: '' (Start E (wd_ID def') input)))"

text \<open>
  The waiting loop on a sequence of events, each with the engine's state when it is seen. A tick carries the time read
  after the status; \<open>None\<close>: the loop is still waiting.
\<close>

datatype waitEvent = WaitDone error | WaitTick int

definition finished :: "WorkflowStatus \<Rightarrow> bool" where
  "finished st \<longleftrightarrow> st = StatusCompleted \<or> st = StatusFailed \<or> st = StatusCancelled \<or> st = StatusAborted"

fun waitForCompletion :: "int \<Rightarrow> int \<Rightarrow> (waitEvent \<times> Engine) list \<Rightarrow> WorkflowStatus res option" where
  "waitForCompletion deadline iid [] = None"
| "waitForCompletion deadline iid ((WaitDone err, w) # es) = Some (Fail err)"
| "waitForCompletion deadline iid ((WaitTick now, w) # es) =
     (case fst (GetStatus iid w) of
        Ok status \<Rightarrow> if finished status then Some (Ok status)
                     else if now > deadline then Some (Fail (Err ''timeout waiting for workflow completion''))
                     else waitForCompletion deadline iid es
      | r \<Rightarrow> Some r)"

text \<open>The icons are the bytes of a check mark, a cross and a circle.\<close>

definition statusIcon :: "StepStatus \<Rightarrow> string" where
  "statusIcon st =
     (if st = StepStatusFailed then [CHR 0xE2, CHR 0x9C, CHR 0x97]
      else if st \<noteq> StepStatusCompleted then [CHR 0xE2, CHR 0x97, CHR 0x8B]
      else [CHR 0xE2, CHR 0x9C, CHR 0x93])"

definition stepLine :: "WorkflowStep \<Rightarrow> string" where
  "stepLine st = ''  '' @ statusIcon (ws_Status st) @ CHR '' '' # ws_StepName st @ '' ('' @ stepStatusStr (ws_Status st) @ '')''
     @ (case ws_Error st of None \<Rightarrow> '''' | Some e \<Rightarrow> '' - Error: '' @ e)"

definition instanceLines :: "platform \<Rightarrow> WorkflowInstance \<Rightarrow> string list" where
  "instanceLines pf inst =
     (''Workflow completed with status: '' @ workflowStatusStr (wi_Status inst))
     # (if wi_Status inst = StatusCompleted \<and> wi_Output inst \<noteq> RawNil then [''Output: '' @ pf_text pf (wi_Output inst)]
        else if wi_Status inst = StatusFailed
        then (case wi_Error inst of None \<Rightarrow> [] | Some e \<Rightarrow> [''Error: '' @ e]) else [])"

record schedule =
  sc_events :: "(waitEvent \<times> Engine) list"
  sc_atInstance :: Engine     \<comment> \<open>when \<open>GetInstance\<close> is called\<close>
  sc_atSteps :: Engine        \<comment> \<open>when \<open>GetSteps\<close> is called\<close>

definition finishRun :: "platform \<Rightarrow> int \<Rightarrow> int \<Rightarrow> schedule \<Rightarrow> unit res option \<times> string list" where
  "finishRun pf deadline iid sc =
     (case waitForCompletion deadline iid (sc_events sc) of
        None \<Rightarrow> (None, [])
      | Some (Ok _) \<Rightarrow>
          (case fst (GetInstance iid (en_store (sc_atInstance sc))) of
             Ok inst \<Rightarrow>
               if wi_Status inst = StatusFailed then (Some (Fail (Err ''workflow failed'')), instanceLines pf inst)
               else (case fst (GetSteps iid (sc_atSteps sc)) of
                  Ok steps \<Rightarrow> (Some (Ok ()), instanceLines pf inst @ [[CHR 10] @ ''Steps executed:''] @ map stepLine steps)
                | Fail err \<Rightarrow> (Some (Fail (Wrap ''failed to get steps: '' err)), instanceLines pf inst)
                | r \<Rightarrow> (Some (rbind r (\<lambda>_. Ok ())), instanceLines pf inst))
           | Fail err \<Rightarrow> (Some (Fail (Wrap ''failed to get instance: '' err)), [])
           | r \<Rightarrow> (Some (rbind r (\<lambda>_. Ok ())), []))
      | Some (Fail err) \<Rightarrow> (Some (Fail (Wrap ''error waiting for workflow completion: '' err)), [])
      | Some r \<Rightarrow> (Some (rbind r (\<lambda>_. Ok ())), []))"

text \<open>\<open>start\<close> is the time when waiting begins. A pool of negative size panics in \<open>make\<close>, an interval
  that is not positive in \<open>time.NewTicker\<close>, of a worker or of the waiting loop.\<close>

definition RunWorkflow :: "env \<Rightarrow> platform \<Rightarrow> (string \<Rightarrow> error + YamlRoot) \<Rightarrow> stdin \<Rightarrow> int \<Rightarrow> (int \<Rightarrow> Engine \<Rightarrow> schedule) \<Rightarrow>
    string \<Rightarrow> string \<Rightarrow> ctlConfig \<Rightarrow> unit res option \<times> string list" where
  "RunWorkflow E pf unmarshal stdin start sched yamlFile inputFile config =
     (case loadRun pf unmarshal stdin yamlFile inputFile of
        Ok (doc, ex, def, input) \<Rightarrow>
          (case runSetup E pf (cc_Debug config) doc ex def input (NewEngineWith NewMemoryStore [WithEngineStore NewMemoryStore]) of
             (Ok iid, w) \<Rightarrow>
               (let line = ''Workflow started with instance ID: '' @ itoa iid in
                if cc_PoolWorkers config < 0 then (Some (Panic ''runtime error: makeslice: len out of range''), [line])
                else if cc_PoolWorkers config > 0 \<and> cc_WorkerInterval config \<le> 0 \<or> cc_StatusCheckInterval config \<le> 0
                then (Some (Panic ''non-positive interval for NewTicker''), [line])
                else (case finishRun pf (start + cc_CompletionTimeout config) iid (sched iid w) of (r, out) \<Rightarrow> (r, line # out)))
           | (r, w) \<Rightarrow> (Some (rbind r (\<lambda>_. Ok ())), []))
      | r \<Rightarrow> (Some (rbind r (\<lambda>_. Ok ())), []))"

section \<open>Configuration\<close>

text \<open>\<open>duration\<close> stands for \<open>time.ParseDuration\<close>.\<close>

definition ctlParseDuration :: "(string \<Rightarrow> error + int) \<Rightarrow> string \<Rightarrow> error + int" where
  "ctlParseDuration duration s =
     (let s = TrimSpace s in if s = '''' then Inl (Err ''empty duration'') else duration s)"

record floxydConfig =
  fd_DBHost :: string
  fd_DBPort :: string
  fd_DBUser :: string
  fd_DBPassword :: string
  fd_DBName :: string
  fd_Workers :: int
  fd_WorkerInterval :: int

text \<open>\<open>getenv\<close> answers the empty string for a variable that is not set.\<close>

definition getEnvOrDefault :: "(string \<Rightarrow> string) \<Rightarrow> string \<Rightarrow> string \<Rightarrow> string" where
  "getEnvOrDefault getenv key d = (if getenv key \<noteq> '''' then getenv key else d)"

definition getIntEnvOrDefault :: "(string \<Rightarrow> string) \<Rightarrow> string \<Rightarrow> int \<Rightarrow> int" where
  "getIntEnvOrDefault getenv key d =
     (if getenv key \<noteq> '''' then (case ParseInt (getenv key) of Inr n \<Rightarrow> n | Inl _ \<Rightarrow> d) else d)"

definition getDurationEnvOrDefault :: "(string \<Rightarrow> error + int) \<Rightarrow> (string \<Rightarrow> string) \<Rightarrow> string \<Rightarrow> int \<Rightarrow> int" where
  "getDurationEnvOrDefault duration getenv key d =
     (if getenv key \<noteq> '''' then (case duration (getenv key) of Inr n \<Rightarrow> n | Inl _ \<Rightarrow> d) else d)"

definition LoadConfig :: "(string \<Rightarrow> error + int) \<Rightarrow> (string \<Rightarrow> string) \<Rightarrow> error + floxydConfig" where
  "LoadConfig duration getenv =
     (let config = \<lparr>fd_DBHost = getEnvOrDefault getenv ''FLOXY_DB_HOST'' '''', fd_DBPort = getEnvOrDefault getenv ''FLOXY_DB_PORT'' '''',
            fd_DBUser = getEnvOrDefault getenv ''FLOXY_DB_USER'' '''', fd_DBPassword = getenv ''FLOXY_DB_PASSWORD'',
            fd_DBName = getEnvOrDefault getenv ''FLOXY_DB_NAME'' '''', fd_Workers = getIntEnvOrDefault getenv ''FLOXY_WORKERS'' 3,
            fd_WorkerInterval = getDurationEnvOrDefault duration getenv ''FLOXY_WORKER_INTERVAL'' 100000000\<rparr>
      in if fd_DBHost config = '''' then Inl (Err ''FLOXY_DB_HOST environment variable is required'')
         else if fd_DBPort config = '''' then Inl (Err ''FLOXY_DB_PORT environment variable is required'')
         else if fd_DBUser config = '''' then Inl (Err ''FLOXY_DB_USER environment variable is required'')
         else if fd_DBName config = '''' then Inl (Err ''FLOXY_DB_NAME environment variable is required'')
         else Inr config)"

section \<open>A document that parses can be run\<close>

lemma registerExecs_run:
  assumes "\<forall>(n, e) \<in> set ex. \<exists>h. CreateHandler pf n e (yr_TLS doc) (handlerTLS doc n) debug = Inr h"
    and "reachable E w"
  shows "\<exists>hs. gforeach (registerExec pf doc debug) ex w = (Ok (), w\<lparr>en_handlers := hs\<rparr>) \<and> reachable E (w\<lparr>en_handlers := hs\<rparr>) \<and>
    dom (map_of hs) = fst ` set ex \<union> dom (map_of (en_handlers w))"
  using assms
proof (induction ex arbitrary: w)
  case Nil
  then show ?case by (intro exI [of _ "en_handlers w"]) (simp add: gret_def)
next
  case (Cons x ex)
  obtain n e where x: "x = (n, e)" by (cases x)
  obtain h where h: "CreateHandler pf n e (yr_TLS doc) (handlerTLS doc n) debug = Inr h"
    using Cons.prems(1) x by auto
  have nm: "hn_Name h = n" using CreateHandler_spec(1) [OF HOL.refl h] .
  let ?w = "w\<lparr>en_handlers := AList.update n h (en_handlers w)\<rparr>"
  have step: "registerExec pf doc debug x w = (Ok (), ?w)"
    by (simp add: registerExec_def x h RegisterHandler_def gmodify_def nm)
  have "?w = snd (RegisterHandler h w)" by (simp add: RegisterHandler_def gmodify_def nm)
  then have r: "reachable E ?w" using reachable.step [OF Cons.prems(2) estep.handler] by simp
  have "\<forall>(n, e) \<in> set ex. \<exists>h. CreateHandler pf n e (yr_TLS doc) (handlerTLS doc n) debug = Inr h"
    using Cons.prems(1) by simp
  from Cons.IH [OF this r] obtain hs where
    "gforeach (registerExec pf doc debug) ex ?w = (Ok (), ?w\<lparr>en_handlers := hs\<rparr>)" "reachable E (?w\<lparr>en_handlers := hs\<rparr>)"
    "dom (map_of hs) = fst ` set ex \<union> dom (map_of (en_handlers ?w))" by blast
  then show ?case using step x by (intro exI [of _ hs]) (simp add: gseq_def gbind_def)
qed

lemma loadRun_Ok:
  assumes "loadRun pf unmarshal stdin yamlFile inputFile = Ok (doc, ex, def, input)"
  shows "\<exists>yml defs. pf_readFile pf yamlFile = Inr yml \<and> unmarshal yml = Inr doc \<and>
    ParseWorkflowYAML unmarshal yml 1 = Ok (defs, ex) \<and> (\<exists>n rest. defs = (n, def) # rest) \<and>
    validateDefinition def = None \<and> readInput pf stdin inputFile = Ok input"
proof -
  obtain yml defs n rest where l: "pf_readFile pf yamlFile = Inr yml" "unmarshal yml = Inr doc"
    "ParseWorkflowYAML unmarshal yml 1 = Ok (defs, ex)" "defs = (n, def) # rest" "readInput pf stdin inputFile = Ok input"
    using assms by (auto simp: loadRun_def rbind_def split: sum.splits res.splits list.splits prod.splits)
  have "filed 1 defs" using ParseWorkflowYAML_Ok [OF l(3)] by blast
  moreover have "map_of defs n = Some def" using l(4) by simp
  ultimately have "validateDefinition def = None" unfolding filed_def by blast
  with l show ?thesis by blast
qed


text \<open>A platform for examples: every file is there and empty, every script prints an empty object.\<close>

definition platform0 :: platform where
  "platform0 = \<lparr>pf_exists = (\<lambda>_. True), pf_environ = [''PATH=/bin''], pf_run = (\<lambda>_ _. (None, ''{}'', '''')),
     pf_request = (\<lambda>_. None), pf_do = (\<lambda>_ _. Inr \<lparr>hp_StatusCode = 200, hp_body = (''{}'', None)\<rparr>), pf_keyPair = (\<lambda>_ _. None),
     pf_readFile = (\<lambda>_. Inr ''''), pf_pem = (\<lambda>_. True), pf_text = (\<lambda>_. ''{}''), pf_parse = (\<lambda>_. Inr (JObj [])),
     pf_format = (\<lambda>_. '''')\<rparr>"


section \<open>Waiting\<close>

lemma GetStatus_run:
  "GetStatus iid w = (case map_of (ms_instances (en_store w)) iid of
     None \<Rightarrow> (Fail (Wrap ''get instance: '' EntityNotFound), w) | Some inst \<Rightarrow> (Ok (wi_Status inst), w))"
  by (simp add: GetStatus_def GetInstance_run GetInstance_missing split: option.split)

text \<open>
  Waiting ends: at the latest at the first tick after the deadline, whatever the engine does; and a status it returns is
  final, and was the instance's status at a tick.
\<close>

theorem waitForCompletion_returns:
  assumes "(WaitTick now, w) \<in> set es" "now > deadline"
  shows "waitForCompletion deadline iid es \<noteq> None"
  using assms
proof (induction deadline iid es rule: waitForCompletion.induct)
  case (3 deadline iid now' w' es)
  then show ?case by (cases "fst (GetStatus iid w')") auto
qed auto

theorem waitForCompletion_status:
  assumes "waitForCompletion deadline iid es = Some (Ok st)"
  shows "finished st \<and> (\<exists>now w inst. (WaitTick now, w) \<in> set es \<and> map_of (ms_instances (en_store w)) iid = Some inst \<and>
    wi_Status inst = st)"
  using assms
proof (induction deadline iid es rule: waitForCompletion.induct)
  case (3 deadline iid now w es)
  show ?case
  proof (cases "map_of (ms_instances (en_store w)) iid")
    case None
    with 3 show ?thesis by (simp add: GetStatus_run)
  next
    case (Some inst)
    with 3 show ?thesis by (cases "finished (wi_Status inst)") (auto simp: GetStatus_run split: if_splits)
  qed
qed auto

text \<open>
  An instance in the dead letter queue is not waited for by \<open>StartAwait\<close>, which returns at the first tick; \<open>floxyctl run\<close> goes on until its
  time is over and then reports a timeout.
\<close>

theorem run_waits_on_dlq:
  assumes "\<forall>(e, w) \<in> set es. \<exists>now inst. e = WaitTick now \<and> now \<le> deadline \<and>
      map_of (ms_instances (en_store w)) iid = Some inst \<and> wi_Status inst = StatusDLQ"
    and "map_of (ms_instances (en_store w)) iid = Some inst" "wi_Status inst = StatusDLQ" "now > deadline"
  shows "waitForCompletion deadline iid es = None"
    and "waitForCompletion deadline iid (es @ [(WaitTick now, w)]) = Some (Fail (Err ''timeout waiting for workflow completion''))"
    and "awaitCompletion iid [(TickerFired, w)] \<noteq> None"
proof -
  have "waitForCompletion deadline iid (es @ fs) = waitForCompletion deadline iid fs" for fs
    using assms(1) by (induction deadline iid es rule: waitForCompletion.induct) (auto simp: GetStatus_run finished_def)
  from this [of "[]"] this [of "[(WaitTick now, w)]"] assms(2-)
  show "waitForCompletion deadline iid es = None"
    "waitForCompletion deadline iid (es @ [(WaitTick now, w)]) = Some (Fail (Err ''timeout waiting for workflow completion''))"
    by (simp_all add: GetStatus_run finished_def)
  show "awaitCompletion iid [(TickerFired, w)] \<noteq> None"
    using assms(2,3) by (simp add: awaitTick_run isTerminalStatus_def)
qed

text \<open>The flags are not checked: such a number of workers or such an interval stops the tool after the workflow was started.\<close>

lemma RunWorkflow_flags:
  assumes "loadRun pf unmarshal stdin yamlFile inputFile = Ok (doc, ex, def, input)"
    and "runSetup E pf (cc_Debug config) doc ex def input (NewEngineWith NewMemoryStore [WithEngineStore NewMemoryStore]) = (Ok iid, w)"
    and "cc_PoolWorkers config < 0 \<or> cc_StatusCheckInterval config \<le> 0"
  shows "\<exists>p. fst (RunWorkflow E pf unmarshal stdin start sched yamlFile inputFile config) = Some (Panic p)"
  using assms by (auto simp: RunWorkflow_def Let_def)

text \<open>A cancelled or aborted workflow is no failure of the tool.\<close>

lemma finishRun_cancelled:
  assumes "waitForCompletion deadline iid (sc_events sc) = Some (Ok st)"
    and "map_of (ms_instances (en_store (sc_atInstance sc))) iid = Some inst" "wi_Status inst \<in> {StatusCancelled, StatusAborted}"
  shows "fst (finishRun pf deadline iid sc) = Some (Ok ())"
  using assms by (auto simp: finishRun_def GetInstance_def GetSteps_def onStore_def gzoom_def GetStepsByInstance_def split: prod.split)

section \<open>Settings\<close>

text \<open>
  \<open>LoadConfig\<close> accepts exactly the environments that name the database; a number of workers that does not parse is silently the
  default.
\<close>

theorem LoadConfig_ok:
  "(\<exists>config. LoadConfig duration getenv = Inr config) \<longleftrightarrow>
     (\<forall>k \<in> {''FLOXY_DB_HOST'', ''FLOXY_DB_PORT'', ''FLOXY_DB_USER'', ''FLOXY_DB_NAME''}. getenv k \<noteq> '''')"
  "LoadConfig duration getenv = Inr config \<Longrightarrow> fd_Workers config =
     (case ParseInt (getenv ''FLOXY_WORKERS'') of Inr n \<Rightarrow> n | Inl _ \<Rightarrow> 3)"
proof -
  have "ParseInt '''' = Inl (numErrorErr '''' ErrSyntax)" by (simp add: ParseInt_def)
  then show "LoadConfig duration getenv = Inr config \<Longrightarrow> fd_Workers config =
     (case ParseInt (getenv ''FLOXY_WORKERS'') of Inr n \<Rightarrow> n | Inl _ \<Rightarrow> 3)"
    by (auto simp: LoadConfig_def Let_def getIntEnvOrDefault_def split: if_splits)
  show "(\<exists>config. LoadConfig duration getenv = Inr config) \<longleftrightarrow>
     (\<forall>k \<in> {''FLOXY_DB_HOST'', ''FLOXY_DB_PORT'', ''FLOXY_DB_USER'', ''FLOXY_DB_NAME''}. getenv k \<noteq> '''')"
    by (simp add: LoadConfig_def Let_def getEnvOrDefault_def)
qed

end
