(* ===== verification/Commands.thy ===== *)
theory Commands
  imports Tools
begin

text \<open>
  The commands of \<open>floxyctl\<close> (\<open>internal/floxyctl/command.go\<close>, \<open>db.go\<close>, \<open>start.go\<close>, \<open>cancel.go\<close>, \<open>abort.go\<close>) and the daemon \<open>floxyd\<close>
  (\<open>cmd/floxyd/main.go\<close>): flags, the connection string, the calls of the engine, the start and the end of the daemon. The library that
  parses flags, the terminal, the database and the migrations are arguments. Both tools use the engine over the PostgreSQL
  store; here it is the engine over the in-memory one, with the content of the database.

  The lemmas show that every flag a command reads is defined with its type, that a connection string determines
  what it was made of, and that the daemon and \<open>floxyctl run\<close> give a document the same handlers.
\<close>

section \<open>The connection string\<close>

record DBConfig =
  db_Host :: string
  db_Port :: string
  db_User :: string
  db_Password :: string
  db_Database :: string

text \<open>The escaping of \<open>net/url\<close>: the characters each part of a URL keeps, and two hexadecimal digits for every other byte.\<close>

definition isAlnum :: "char \<Rightarrow> bool" where
  "isAlnum c \<longleftrightarrow> (let n = of_char c :: nat in 97 \<le> n \<and> n \<le> 122 \<or> 65 \<le> n \<and> n \<le> 90 \<or> 48 \<le> n \<and> n \<le> 57)"

definition keepUserPassword :: "char \<Rightarrow> bool" where
  "keepUserPassword c \<longleftrightarrow> isAlnum c \<or> c \<in> set ''-_.~$&+,;=''"

definition keepHost :: "char \<Rightarrow> bool" where
  "keepHost c \<longleftrightarrow> isAlnum c \<or> c \<in> set ''!$&()*+,;=:[]<>-_.~'' \<or> c = CHR 0x27 \<or> c = CHR 0x22"

definition keepPath :: "char \<Rightarrow> bool" where
  "keepPath c \<longleftrightarrow> isAlnum c \<or> c \<in> set ''-_.~$&+,/:;=@''"

definition upperhex :: "nat \<Rightarrow> char" where
  "upperhex n = ''0123456789ABCDEF'' ! n"

definition escapeChar :: "(char \<Rightarrow> bool) \<Rightarrow> char \<Rightarrow> string" where
  "escapeChar keep c = (if keep c then [c] else [CHR ''%'', upperhex (of_char c div 16), upperhex (of_char c mod 16)])"

definition urlEscape :: "(char \<Rightarrow> bool) \<Rightarrow> string \<Rightarrow> string" where
  "urlEscape keep s = concat (map (escapeChar keep) s)"

text \<open>The query lists its keys in order.\<close>

definition connString :: "DBConfig \<Rightarrow> string" where
  "connString config =
     ''postgres://'' @ urlEscape keepUserPassword (db_User config) @ '':'' @ urlEscape keepUserPassword (db_Password config) @ ''@'' @
     urlEscape keepHost (db_Host config @ '':'' @ db_Port config) @ urlEscape keepPath (''/'' @ db_Database config) @
     ''?search_path=workflows&sslmode=disable''"

section \<open>The world outside\<close>

record outside =
  ow_getenv :: "string \<Rightarrow> string"
  ow_readPassword :: "error + string"          \<comment> \<open>\<open>term.ReadPassword\<close>\<close>
  ow_connect :: "string \<Rightarrow> error option"      \<comment> \<open>\<open>pgxpool.New\<close>\<close>
  ow_ping :: "string \<Rightarrow> error option"
  ow_migrate :: "error option"                 \<comment> \<open>\<open>RunMigrations\<close>\<close>
  ow_terminal :: bool                          \<comment> \<open>whether standard input is a terminal\<close>
  ow_stdin :: stdin

definition ConnectDB :: "outside \<Rightarrow> DBConfig \<Rightarrow> error + string" where
  "ConnectDB ow config =
     (let connStr = connString config in
      case ow_connect ow connStr of
        Some err \<Rightarrow> Inl (Wrap ''failed to connect to database: '' err)
      | None \<Rightarrow> (case ow_ping ow connStr of Some err \<Rightarrow> Inl (Wrap ''failed to ping database: '' err) | None \<Rightarrow> Inr connStr))"

definition ReadPassword :: "outside \<Rightarrow> error + string" where
  "ReadPassword ow = (case ow_readPassword ow of Inl err \<Rightarrow> Inl (Wrap ''failed to read password: '' err) | Inr p \<Rightarrow> Inr p)"

text \<open>\<open>CreateEngineFromDB\<close>, then \<open>k\<close> with the engine, which is shut down in the end.\<close>

definition withEngine :: "outside \<Rightarrow> 'a ego \<Rightarrow> 'a ego" where
  "withEngine ow k =
     (case ow_migrate ow of
        Some err \<Rightarrow> gfail (Wrap ''failed to create engine: '' (Wrap ''failed to run migrations: '' err))
      | None \<Rightarrow> gfinally k Shutdown)"

section \<open>Commands of floxyctl\<close>

definition ctlStartWorkflow :: "env \<Rightarrow> platform \<Rightarrow> outside \<Rightarrow> string \<Rightarrow> string \<Rightarrow> string ego" where
  "ctlStartWorkflow E pf ow workflowID inputFile =
     withEngine ow
       (gbind (\<lambda>w. (startInput pf (ow_terminal ow) (ow_stdin ow) inputFile, w)) (\<lambda>input.
        gbind (gwrap ''failed to start workflow: '' (Start E workflowID input)) (\<lambda>instanceID.
        gret (''Workflow instance started with ID: '' @ itoa instanceID))))"

text \<open>Who asks: the flag, the variable \<open>USER\<close>, the tool.\<close>

definition requester :: "outside \<Rightarrow> string \<Rightarrow> string" where
  "requester ow requestedBy =
     (if requestedBy \<noteq> '''' then requestedBy else if ow_getenv ow ''USER'' \<noteq> '''' then ow_getenv ow ''USER'' else ''floxyctl'')"

definition ctlCancelWorkflow :: "env \<Rightarrow> outside \<Rightarrow> string \<Rightarrow> string \<Rightarrow> string \<Rightarrow> string ego" where
  "ctlCancelWorkflow E ow objectID requestedBy reason =
     (case ParseInt objectID of
        Inl err \<Rightarrow> gfail (Wrap ''invalid instance ID: '' err)
      | Inr instanceID \<Rightarrow> withEngine ow
          (gseq (gwrap ''failed to cancel workflow: '' (CancelWorkflow E instanceID (requester ow requestedBy)
                   (if reason = '''' then ''Cancelled via floxyctl'' else reason)))
            (gret (''Workflow instance '' @ itoa instanceID @ '' cancellation requested''))))"

definition ctlAbortWorkflow :: "env \<Rightarrow> outside \<Rightarrow> string \<Rightarrow> string \<Rightarrow> string \<Rightarrow> string ego" where
  "ctlAbortWorkflow E ow objectID requestedBy reason =
     (case ParseInt objectID of
        Inl err \<Rightarrow> gfail (Wrap ''invalid instance ID: '' err)
      | Inr instanceID \<Rightarrow> withEngine ow
          (gseq (gwrap ''failed to abort workflow: '' (AbortWorkflow E instanceID (requester ow requestedBy)
                   (if reason = '''' then ''Aborted via floxyctl'' else reason)))
            (gret (''Workflow instance '' @ itoa instanceID @ '' abort requested''))))"

section \<open>Flags\<close>

datatype flagValue = FString string | FInt int | FBool bool

record flagDef =
  fl_name :: string
  fl_short :: string
  fl_default :: flagValue
  fl_required :: bool

definition optional :: "string \<Rightarrow> string \<Rightarrow> flagValue \<Rightarrow> flagDef" where
  "optional n short v = \<lparr>fl_name = n, fl_short = short, fl_default = v, fl_required = False\<rparr>"

definition required :: "string \<Rightarrow> string \<Rightarrow> flagDef" where
  "required n short = \<lparr>fl_name = n, fl_short = short, fl_default = FString '''', fl_required = True\<rparr>"

definition addDBFlags :: "flagDef list" where
  "addDBFlags = [required ''host'' '''', required ''port'' '''', required ''user'' '''', optional ''password'' ''W'' (FBool False),
     required ''database'' '''']"

definition runFlagDefs :: "flagDef list" where
  "runFlagDefs = [required ''file'' ''f'', optional ''input'' ''i'' (FString ''''), optional ''workers'' ''w'' (FInt 3),
     optional ''worker-interval'' '''' (FString ''100ms''), optional ''completion-timeout'' '''' (FString ''10m''),
     optional ''status-check-interval'' '''' (FString ''500ms''), optional ''debug'' ''D'' (FBool False)]"

definition startFlagDefs :: "flagDef list" where
  "startFlagDefs = addDBFlags @ [required ''object'' ''o'', optional ''input'' ''i'' (FString '''')]"

definition requestFlagDefs :: "flagDef list" where
  "requestFlagDefs = addDBFlags @ [required ''object'' ''o'', optional ''requested-by'' '''' (FString ''''), optional ''reason'' '''' (FString '''')]"

text \<open>What \<open>cmd.Flags()\<close> answers.\<close>

record cmdFlags =
  cf_getString :: "string \<Rightarrow> error + string"
  cf_getInt :: "string \<Rightarrow> error + int"
  cf_getBool :: "string \<Rightarrow> error + bool"

definition withValue :: "error + 'a \<Rightarrow> ('a \<Rightarrow> error + 'b) \<Rightarrow> error + 'b" where
  "withValue r k = (case r of Inl err \<Rightarrow> Inl err | Inr v \<Rightarrow> k v)"

definition withFlag :: "string \<Rightarrow> error + 'a \<Rightarrow> ('a \<Rightarrow> error + 'b) \<Rightarrow> error + 'b" where
  "withFlag msg r k = (case r of Inl err \<Rightarrow> Inl (Wrap msg err) | Inr v \<Rightarrow> k v)"

definition getDBConfig :: "outside \<Rightarrow> cmdFlags \<Rightarrow> error + DBConfig" where
  "getDBConfig ow fl =
     withFlag ''failed to get host flag: '' (cf_getString fl ''host'') (\<lambda>host.
     withFlag ''failed to get port flag: '' (cf_getString fl ''port'') (\<lambda>port.
     withFlag ''failed to get user flag: '' (cf_getString fl ''user'') (\<lambda>user.
     withFlag ''failed to get database flag: '' (cf_getString fl ''database'') (\<lambda>database.
     withFlag ''failed to get password flag: '' (cf_getBool fl ''password'') (\<lambda>needPassword.
     withValue (if needPassword then ReadPassword ow else Inr (ow_getenv ow ''PG_PASSWORD'')) (\<lambda>password.
     Inr \<lparr>db_Host = host, db_Port = port, db_User = user, db_Password = password, db_Database = database\<rparr>))))))"

text \<open>An error before the engine is reached is the error of the command.\<close>

definition orReport :: "error + 'a ego \<Rightarrow> 'a ego" where
  "orReport r = (case r of Inl err \<Rightarrow> gfail err | Inr m \<Rightarrow> m)"

definition startCommand :: "env \<Rightarrow> platform \<Rightarrow> outside \<Rightarrow> cmdFlags \<Rightarrow> string ego" where
  "startCommand E pf ow fl = orReport (
     withFlag ''failed to get object flag: '' (cf_getString fl ''object'') (\<lambda>workflowID.
     withFlag ''failed to get input flag: '' (cf_getString fl ''input'') (\<lambda>inputFile.
     withValue (getDBConfig ow fl) (\<lambda>dbConfig.
     withValue (ConnectDB ow dbConfig) (\<lambda>pool.
     Inr (ctlStartWorkflow E pf ow workflowID inputFile))))))"

definition requestCommand :: "(string \<Rightarrow> string \<Rightarrow> string \<Rightarrow> string ego) \<Rightarrow> outside \<Rightarrow> cmdFlags \<Rightarrow> string ego" where
  "requestCommand request ow fl = orReport (
     withFlag ''failed to get object flag: '' (cf_getString fl ''object'') (\<lambda>objectID.
     withFlag ''failed to get requested-by flag: '' (cf_getString fl ''requested-by'') (\<lambda>requestedBy.
     withFlag ''failed to get reason flag: '' (cf_getString fl ''reason'') (\<lambda>reason.
     withValue (getDBConfig ow fl) (\<lambda>dbConfig.
     withValue (ConnectDB ow dbConfig) (\<lambda>pool.
     Inr (request objectID requestedBy reason)))))))"

definition cancelCommand :: "env \<Rightarrow> outside \<Rightarrow> cmdFlags \<Rightarrow> string ego" where
  "cancelCommand E ow = requestCommand (ctlCancelWorkflow E ow) ow"

definition abortCommand :: "env \<Rightarrow> outside \<Rightarrow> cmdFlags \<Rightarrow> string ego" where
  "abortCommand E ow = requestCommand (ctlAbortWorkflow E ow) ow"

definition runCommand :: "(string \<Rightarrow> error + int) \<Rightarrow> (string \<Rightarrow> string \<Rightarrow> ctlConfig \<Rightarrow> unit res option \<times> string list) \<Rightarrow> cmdFlags \<Rightarrow>
    unit res option \<times> string list" where
  "runCommand duration run fl =
     (case
        withFlag ''failed to get file flag: '' (cf_getString fl ''file'') (\<lambda>yamlFile.
        withFlag ''failed to get input flag: '' (cf_getString fl ''input'') (\<lambda>inputFile.
        withFlag ''failed to get workers flag: '' (cf_getInt fl ''workers'') (\<lambda>workers.
        withFlag ''failed to get worker-interval flag: '' (cf_getString fl ''worker-interval'') (\<lambda>workerIntervalStr.
        withFlag ''invalid worker-interval: '' (ctlParseDuration duration workerIntervalStr) (\<lambda>workerInterval.
        withFlag ''failed to get completion-timeout flag: '' (cf_getString fl ''completion-timeout'') (\<lambda>completionTimeoutStr.
        withFlag ''invalid completion-timeout: '' (ctlParseDuration duration completionTimeoutStr) (\<lambda>completionTimeout.
        withFlag ''failed to get status-check-interval flag: '' (cf_getString fl ''status-check-interval'') (\<lambda>statusCheckIntervalStr.
        withFlag ''invalid status-check-interval: '' (ctlParseDuration duration statusCheckIntervalStr) (\<lambda>statusCheckInterval.
        withFlag ''failed to get debug flag: '' (cf_getBool fl ''debug'') (\<lambda>debug.
        Inr (yamlFile, inputFile, \<lparr>cc_PoolWorkers = workers, cc_WorkerInterval = workerInterval, cc_CompletionTimeout = completionTimeout,
          cc_StatusCheckInterval = statusCheckInterval, cc_Debug = debug\<rparr>)))))))))))
      of Inl err \<Rightarrow> (Some (Fail err), [])
       | Inr (yamlFile, inputFile, config) \<Rightarrow> run yamlFile inputFile config)"

section \<open>The daemon\<close>

text \<open>\<open>order\<close> is the order in which a range over a map visits its entries.\<close>

definition daemonWorkflow :: "env \<Rightarrow> string \<times> WorkflowDefinition \<Rightarrow> unit ego" where
  "daemonWorkflow E nd =
     gbind (gwrap (''Failed to register workflow '' @ goQuote (fst nd) @ '': '') (RegisterWorkflow E (snd nd))) (\<lambda>_. gret ())"

definition daemonHandler :: "platform \<Rightarrow> YamlRoot \<Rightarrow> YamlHandler \<Rightarrow> unit ego" where
  "daemonHandler pf doc h =
     (if yh_Name h = '''' then gfail (Err ''Handler missing name'')
      else if yh_Exec h = '''' then gfail (Err (''Handler '' @ goQuote (yh_Name h) @ '' missing exec''))
      else case CreateHandler pf (yh_Name h) (yh_Exec h) (yr_TLS doc) (yh_TLS h) False of
        Inl err \<Rightarrow> gfail (Wrap (''Failed to create handler '' @ goQuote (yh_Name h) @ '': '') err)
      | Inr handler \<Rightarrow> RegisterHandler handler)"

definition daemonSetup :: "env \<Rightarrow> platform \<Rightarrow> (string \<Rightarrow> error + YamlRoot) \<Rightarrow>
    ((string \<times> WorkflowDefinition) list \<Rightarrow> (string \<times> WorkflowDefinition) list) \<Rightarrow> string \<Rightarrow> unit ego" where
  "daemonSetup E pf unmarshal order yamlFile =
     (case pf_readFile pf yamlFile of
        Inl err \<Rightarrow> gfail (Wrap ''Failed to read YAML file: '' err)
      | Inr yamlData \<Rightarrow>
          (case unmarshal yamlData of
             Inl err \<Rightarrow> gfail (Wrap ''Failed to parse YAML: '' err)
           | Inr yamlRoot \<Rightarrow>
               gbind (gwrap ''Failed to parse workflow YAML: '' (\<lambda>w. (ParseWorkflowYAML unmarshal yamlData 1, w))) (\<lambda>(defs, ex).
               gseq (gforeach (daemonWorkflow E) (order defs))
                 (gforeach (daemonHandler pf yamlRoot) (yr_Handlers yamlRoot)))))"

definition daemonDB :: "floxydConfig \<Rightarrow> DBConfig" where
  "daemonDB config = \<lparr>db_Host = fd_DBHost config, db_Port = fd_DBPort config, db_User = fd_DBUser config,
     db_Password = fd_DBPassword config, db_Database = fd_DBName config\<rparr>"

text \<open>How the start of the daemon ends: with its version, an error, a panic, or the pool that runs.\<close>

datatype daemon = DaemonVersion string | DaemonFatal error | DaemonPanic string | DaemonRuns WorkerPool | DaemonStuck

definition floxydMain :: "env \<Rightarrow> platform \<Rightarrow> outside \<Rightarrow> (string \<Rightarrow> error + YamlRoot) \<Rightarrow> (string \<Rightarrow> error + int) \<Rightarrow>
    ((string \<times> WorkflowDefinition) list \<Rightarrow> (string \<times> WorkflowDefinition) list) \<Rightarrow> string \<Rightarrow> string \<Rightarrow> string list \<Rightarrow> MemoryStore \<Rightarrow> daemon" where
  "floxydMain E pf ow unmarshal duration order version commit args s =
     (case args of
        [] \<Rightarrow> DaemonFatal (Err ''Usage: floxyd <yaml-file>'')
      | yamlFile # _ \<Rightarrow>
          if yamlFile \<in> {''version'', ''--version'', ''-v''}
          then DaemonVersion (''floxyd version '' @ version @ '' (commit: '' @ commit @ '')'')
          else case LoadConfig duration (ow_getenv ow) of
            Inl err \<Rightarrow> DaemonFatal (Wrap ''Failed to load configuration: '' err)
          | Inr config \<Rightarrow>
              (case ConnectDB ow (daemonDB config) of
                 Inl err \<Rightarrow> DaemonFatal (Wrap ''Failed to connect to database: '' err)
               | Inr _ \<Rightarrow>
                   (case ow_migrate ow of
                      Some err \<Rightarrow> DaemonFatal (Wrap ''Failed to run migrations: '' err)
                    | None \<Rightarrow>
                        (case daemonSetup E pf unmarshal order yamlFile (NewEngine s) of
                           (Ok _, w) \<Rightarrow>
                             if fd_Workers config < 0 then DaemonPanic ''runtime error: makeslice: len out of range''
                             else if fd_Workers config > 0 \<and> fd_WorkerInterval config \<le> 0
                             then DaemonPanic ''non-positive interval for NewTicker''
                             else DaemonRuns (NewWorkerPool E w (nat (fd_Workers config)))
                         | (Fail err, _) \<Rightarrow> DaemonFatal err | (Panic p, _) \<Rightarrow> DaemonPanic p | _ \<Rightarrow> DaemonStuck))))"

text \<open>After a signal, deferred calls included.\<close>

definition daemonStop :: "WorkerPool \<Rightarrow> WorkerPool" where
  "daemonStop p = (let p1 = (StopPool p)\<lparr>wp_ctxDone := True\<rparr> in p1\<lparr>wp_engine := snd (Shutdown (wp_engine p1))\<rparr>)"

text \<open>The health endpoint: status code and body.\<close>

definition healthCheck :: "error option \<Rightarrow> int \<times> string" where
  "healthCheck ping =
     (let quote = (\<lambda>s. [CHR 0x22] @ s @ [CHR 0x22]) in
      case ping of
        Some err \<Rightarrow> (503, ''{'' @ quote ''status'' @ '':'' @ quote ''unhealthy'' @ '','' @ quote ''error'' @ '':'' @
          quote (''database connection failed: '' @ errStr err) @ ''}'')
      | None \<Rightarrow> (200, ''{'' @ quote ''status'' @ '':'' @ quote ''healthy'' @ ''}''))"

text \<open>What is logged when \<open>ListenAndServe\<close> returns.\<close>

definition ErrServerClosed :: error where
  "ErrServerClosed = Err ''http: Server closed''"

definition techServerLog :: "error option \<Rightarrow> string list" where
  "techServerLog r = (case r of None \<Rightarrow> [] | Some err \<Rightarrow> if err = ErrServerClosed then [''Tech server error: '' @ errStr err] else [])"

section \<open>What a connection string says\<close>

lemma upperhex_inject: "m < 16 \<Longrightarrow> n < 16 \<Longrightarrow> upperhex m = upperhex n \<longleftrightarrow> m = n"
  unfolding upperhex_def by (rule nth_eq_iff_index_eq) simp_all

lemma upperhex_alnum: "n < 16 \<Longrightarrow> isAlnum (upperhex n)"
proof -
  assume "n < 16"
  then have "upperhex n \<in> set ''0123456789ABCDEF''" unfolding upperhex_def by (intro nth_mem) simp
  moreover have "\<forall>c \<in> set ''0123456789ABCDEF''. isAlnum c" by code_simp
  ultimately show "isAlnum (upperhex n)" by blast
qed

lemma escapeChar_append_inject:
  assumes "\<not> keep (CHR ''%'')" "escapeChar keep c @ us = escapeChar keep d @ vs"
  shows "c = d \<and> us = vs"
proof -
  have b: "of_char e div 16 < (16 :: nat)" for e :: char
    using nat_of_char_less_256 [of e] by (simp add: less_mult_imp_div_less)
  have "c = d" if "upperhex (of_char c div 16) = upperhex (of_char d div 16)" "upperhex (of_char c mod 16) = upperhex (of_char d mod 16)"
  proof -
    have "of_char c div 16 = (of_char d div 16 :: nat)" "of_char c mod 16 = (of_char d mod 16 :: nat)" using that upperhex_inject b by simp_all
    then have "of_char c = (of_char d :: nat)" by (metis div_mult_mod_eq)
    then show ?thesis by simp
  qed
  with assms show ?thesis by (auto simp: escapeChar_def split: if_splits)
qed

lemma urlEscape_inject:
  assumes "\<not> keep (CHR ''%'')"
  shows "urlEscape keep s = urlEscape keep t \<longleftrightarrow> s = t"
proof
  assume "urlEscape keep s = urlEscape keep t"
  then show "s = t"
  proof (induction s arbitrary: t)
    case Nil
    then show ?case by (cases t) (auto simp: urlEscape_def escapeChar_def split: if_splits)
  next
    case (Cons c s)
    then obtain d t' where t: "t = d # t'" by (cases t) (auto simp: urlEscape_def escapeChar_def split: if_splits)
    with Cons.prems escapeChar_append_inject [of keep c "urlEscape keep s" d "urlEscape keep t'", OF assms] Cons.IH
    show ?case by (simp add: urlEscape_def)
  qed
qed simp

text \<open>A character that is not kept, and is no part of an escape, does not occur.\<close>

lemma urlEscape_free:
  assumes "\<not> keep c" "c \<noteq> CHR ''%''" "\<not> isAlnum c"
  shows "c \<notin> set (urlEscape keep s)"
proof -
  have "upperhex (of_char e div 16) \<noteq> c" "upperhex (of_char e mod 16) \<noteq> c" for e :: char
    using upperhex_alnum [of "of_char e div 16"] upperhex_alnum [of "of_char e mod 16"] assms(3) nat_of_char_less_256 [of e]
    by (auto simp: less_mult_imp_div_less)
  with assms show ?thesis by (induction s) (auto simp: urlEscape_def escapeChar_def)
qed

text \<open>
  C22. A connection string says what it was made of: whatever characters the user, the password, the host, the port and the database contain, two
  configurations with the same connection string have the same user, password and database and the same host and
  port, joined by a colon. No value can spill into another part of the string.
\<close>

theorem connString_inject:
  "connString c = connString c' \<longleftrightarrow> db_User c = db_User c' \<and> db_Password c = db_Password c' \<and> db_Database c = db_Database c' \<and>
     db_Host c @ '':'' @ db_Port c = db_Host c' @ '':'' @ db_Port c'"
proof -
  have keep: "\<not> keepUserPassword (CHR ''%'')" "\<not> keepHost (CHR ''%'')" "\<not> keepPath (CHR ''%'')"
    "CHR '':'' \<notin> set (urlEscape keepUserPassword s)" "CHR ''@'' \<notin> set (urlEscape keepUserPassword s)"
    "CHR ''/'' \<notin> set (urlEscape keepHost s)" "CHR ''?'' \<notin> set (urlEscape keepPath s)" for s
    by ((rule urlEscape_free)?, code_simp)+
  have slash: "urlEscape keepPath (''/'' @ s) = CHR ''/'' # urlEscape keepPath s" for s
    by (simp add: urlEscape_def escapeChar_def keepPath_def)
  show ?thesis
  proof
    assume "connString c = connString c'"
    then have eq: "urlEscape keepUserPassword (db_User c) @ CHR '':'' # urlEscape keepUserPassword (db_Password c) @ CHR ''@'' #
        urlEscape keepHost (db_Host c @ '':'' @ db_Port c) @ CHR ''/'' # urlEscape keepPath (db_Database c) @ CHR ''?'' # ''search_path=workflows&sslmode=disable'' =
      urlEscape keepUserPassword (db_User c') @ CHR '':'' # urlEscape keepUserPassword (db_Password c') @ CHR ''@'' #
        urlEscape keepHost (db_Host c' @ '':'' @ db_Port c') @ CHR ''/'' # urlEscape keepPath (db_Database c') @ CHR ''?'' # ''search_path=workflows&sslmode=disable''"
      by (simp add: connString_def slash del: append_Cons) simp
    note user = append_sep_inject [OF keep(4) keep(4) eq]
    note password = append_sep_inject [OF keep(5) keep(5) user [THEN conjunct2]]
    note host = append_sep_inject [OF keep(6) keep(6) password [THEN conjunct2]]
    note database = append_sep_inject [OF keep(7) keep(7) host [THEN conjunct2]]
    from user password host database
    show "db_User c = db_User c' \<and> db_Password c = db_Password c' \<and> db_Database c = db_Database c' \<and>
        db_Host c @ '':'' @ db_Port c = db_Host c' @ '':'' @ db_Port c'"
      by (simp add: urlEscape_inject keep(1-3))
  qed (simp add: connString_def)
qed

section \<open>The handlers of a document\<close>

lemma map_of_last:
  "map_of (rev (map (\<lambda>x. (k x, v x)) xs)) n = map_option v (find (\<lambda>x. k x = n) (rev xs))"
proof -
  have "map_of (map (\<lambda>x. (k x, v x)) ys) n = map_option v (find (\<lambda>x. k x = n) ys)" for ys
    by (induction ys) auto
  then show ?thesis by (simp add: rev_map)
qed

lemma execsFrom_last: "execsFrom i hs ex0 = Ok ex \<Longrightarrow> map_of ex = map_of ex0 ++ map_of (rev (map (\<lambda>h. (yh_Name h, yh_Exec h)) hs))"
  by (induction i hs ex0 rule: execsFrom.induct) (auto simp: map_add_upd_left split: if_splits)

lemma execsFrom_distinct: "execsFrom i hs ex0 = Ok ex \<Longrightarrow> distinct (map fst ex0) \<Longrightarrow> distinct (map fst ex)"
  by (induction i hs ex0 rule: execsFrom.induct) (auto simp: distinct_update split: if_splits)

text \<open>The loop that registers handlers, whatever makes them.\<close>

lemma registers:
  assumes "\<And>x w. x \<in> set xs \<Longrightarrow> f x w = (Ok (), w\<lparr>en_handlers := AList.update (k x) (v x) (en_handlers w)\<rparr>)"
  shows "\<exists>hs. gforeach f xs w = (Ok (), w\<lparr>en_handlers := hs\<rparr>) \<and> map_of hs = map_of (en_handlers w) ++ map_of (rev (map (\<lambda>x. (k x, v x)) xs))"
  using assms
proof (induction xs arbitrary: w)
  case Nil
  then show ?case by (intro exI [of _ "en_handlers w"]) simp
next
  case (Cons x xs)
  let ?w1 = "w\<lparr>en_handlers := AList.update (k x) (v x) (en_handlers w)\<rparr>"
  have "\<exists>hs. gforeach f xs ?w1 = (Ok (), ?w1\<lparr>en_handlers := hs\<rparr>) \<and>
      map_of hs = map_of (en_handlers ?w1) ++ map_of (rev (map (\<lambda>x. (k x, v x)) xs))"
    by (rule Cons.IH) (use Cons.prems in simp)
  then obtain hs where "gforeach f xs ?w1 = (Ok (), ?w1\<lparr>en_handlers := hs\<rparr>)"
    "map_of hs = map_of (en_handlers ?w1) ++ map_of (rev (map (\<lambda>x. (k x, v x)) xs))" by blast
  moreover have "f x w = (Ok (), ?w1)" using Cons.prems by simp
  ultimately show ?case
    by (intro exI [of _ hs]) (simp add: fun_eq_iff map_add_def update_conv' split: option.split)
qed

definition made :: "platform \<Rightarrow> YamlRoot \<Rightarrow> YamlHandler \<Rightarrow> error + handler" where
  "made pf doc h = CreateHandler pf (yh_Name h) (yh_Exec h) (yr_TLS doc) (yh_TLS h) False"

lemma made_name: "made pf doc h = Inr g \<Longrightarrow> hn_Name g = yh_Name h"
  unfolding made_def by (rule CreateHandler_spec(1) [OF HOL.refl])

lemma daemonHandler_run: "made pf doc h = Inr g \<Longrightarrow> yh_Name h \<noteq> '''' \<Longrightarrow> yh_Exec h \<noteq> '''' \<Longrightarrow>
    daemonHandler pf doc h w = (Ok (), w\<lparr>en_handlers := AList.update (yh_Name h) g (en_handlers w)\<rparr>)"
  using made_name [of pf doc h g] by (simp add: made_def daemonHandler_def RegisterHandler_def)

lemma daemon_made:
  assumes "gforeach (daemonHandler pf doc) hs w = (Ok (), w')" "h \<in> set hs"
  shows "\<exists>g. made pf doc h = Inr g \<and> yh_Name h \<noteq> '''' \<and> yh_Exec h \<noteq> ''''"
  using assms
proof (induction hs arbitrary: w)
  case (Cons x hs)
  then obtain w1 where w1: "daemonHandler pf doc x w = (Ok (), w1)" "gforeach (daemonHandler pf doc) hs w1 = (Ok (), w')"
    by (auto elim: gseq_OkE)
  from w1(1) have "\<exists>g. made pf doc x = Inr g \<and> yh_Name x \<noteq> '''' \<and> yh_Exec x \<noteq> ''''"
    by (auto simp: made_def daemonHandler_def gfail_def split: if_splits sum.splits)
  with Cons.IH [OF w1(2)] Cons.prems(2) show ?case by auto
qed simp

lemma registerExec_run:
  assumes "find (\<lambda>h. yh_Name h = n) (rev (yr_Handlers doc)) = Some h" "yh_Exec h = e" "made pf doc h = Inr c"
  shows "registerExec pf doc False (n, e) w = (Ok (), w\<lparr>en_handlers := AList.update n c (en_handlers w)\<rparr>)"
proof -
  have "yh_Name h = n" using assms(1) by (auto simp: find_Some_iff)
  moreover have "handlerTLS doc n = yh_TLS h" by (simp add: handlerTLS_def map_of_last assms(1))
  ultimately show ?thesis using assms(2,3) made_name [OF assms(3)] by (simp add: made_def registerExec_def RegisterHandler_def)
qed


text \<open>A document that names a handler twice.\<close>

definition twiceDoc :: YamlRoot where
  "twiceDoc = \<lparr>yr_TLS = None, yr_Handlers = [\<lparr>yh_Name = ''pack'', yh_Exec = ''./old.sh'', yh_TLS = None\<rparr>,
       \<lparr>yh_Name = ''pack'', yh_Exec = ''./new.sh'', yh_TLS = None\<rparr>],
     yr_Flows = [\<lparr>yf_Name = ''order'', yf_Steps = [YamlStep ''task'' (emptyYamlTask\<lparr>yt_Name := ''pack''\<rparr>) '''' [] '''' '''' []]\<rparr>]\<rparr>"


section \<open>Flags, requests and reports\<close>

text \<open>
  What the library promises of the flags it was told of: each can be read with the type it was given.
\<close>

definition answers :: "cmdFlags \<Rightarrow> flagDef list \<Rightarrow> bool" where
  "answers fl defs \<longleftrightarrow> (\<forall>d \<in> set defs. case fl_default d of
     FString _ \<Rightarrow> \<exists>v. cf_getString fl (fl_name d) = Inr v
   | FInt _ \<Rightarrow> \<exists>v. cf_getInt fl (fl_name d) = Inr v
   | FBool _ \<Rightarrow> \<exists>v. cf_getBool fl (fl_name d) = Inr v)"

text \<open>Every flag a command reads is one of its own: a command cannot fail on a flag that is missing or of another type.\<close>

lemma getDBConfig_total:
  assumes "answers fl defs" "set addDBFlags \<subseteq> set defs"
  shows "(\<exists>config. getDBConfig ow fl = Inr config) \<or> (\<exists>err. ReadPassword ow = Inl err \<and> getDBConfig ow fl = Inl err)"
proof -
  have "answers fl addDBFlags" using assms by (auto simp: answers_def)
  then show ?thesis
    by (auto simp: answers_def addDBFlags_def required_def optional_def getDBConfig_def withFlag_def withValue_def split: sum.split)
qed

lemma requestCommand_flags:
  assumes "answers fl requestFlagDefs" "ow_readPassword ow = Inr p" "\<And>s. ow_connect ow s = None" "\<And>s. ow_ping ow s = None"
  shows "\<exists>objectID requestedBy reason. requestCommand request ow fl = request objectID requestedBy reason \<and>
    cf_getString fl ''object'' = Inr objectID \<and> cf_getString fl ''requested-by'' = Inr requestedBy \<and> cf_getString fl ''reason'' = Inr reason"
proof -
  obtain config where "getDBConfig ow fl = Inr config"
    using getDBConfig_total [OF assms(1), of ow] assms(2) by (auto simp: requestFlagDefs_def ReadPassword_def)
  with assms show ?thesis
    by (auto simp: answers_def requestFlagDefs_def required_def optional_def requestCommand_def withFlag_def withValue_def
        orReport_def ConnectDB_def)
qed

text \<open>A request is passed on only for an identifier that is a number, and always with a requester and a reason.\<close>

lemma requester_nonempty: "requester ow requestedBy \<noteq> ''''"
  by (simp add: requester_def)

lemma ctlCancelWorkflow_invalid:
  "ParseInt objectID = Inl err \<Longrightarrow> ctlCancelWorkflow E ow objectID who reason w = (Fail (Wrap ''invalid instance ID: '' err), w)"
  by (simp add: ctlCancelWorkflow_def gfail_def)

text \<open>
  The condition in the log of the technical server is the wrong way round: a port that is taken is not reported, and the
  regular end is reported as an error.
\<close>

lemma listen_error_unreported:
  "err \<noteq> ErrServerClosed \<Longrightarrow> techServerLog (Some err) = []" "techServerLog (Some ErrServerClosed) \<noteq> []"
  by (simp_all add: techServerLog_def)

text \<open>A daemon that is stopped leaves the engine shut down and every worker told to stop.\<close>

lemma daemonStop_final: "en_isShuttingDown (wp_engine (daemonStop p))" "wp_ctxDone (daemonStop p)"
  by (simp_all add: daemonStop_def Shutdown_def Let_def)

end
