(* ===== verification/Migrations.thy ===== *)
theory Migrations
  imports Environment
begin

text \<open>
  The schema of SQLite (\<open>migrations_sqlite.go\<close>): splitting a file into statements, running the files in order, and the check
  that the tables are there. The files are the embedded directory, the database is what executes a statement and answers
  whether a table exists; both are parameters.

  The lemmas show what the statements are, that a file written from statements is split into them again, and that a run stops at
  the first error and otherwise has executed every statement of every file in the order of the names.
\<close>

section \<open>Statements\<close>

text \<open>\<open>strings.Split\<close> at a character: one part more than there are separators.\<close>

fun splitAt :: "char \<Rightarrow> string \<Rightarrow> string list" where
  "splitAt c [] = [[]]"
| "splitAt c (x # xs) =
     (if x = c then [] # splitAt c xs
      else case splitAt c xs of p # ps \<Rightarrow> (x # p) # ps | [] \<Rightarrow> [[x]])"

definition commentOnly :: "string \<Rightarrow> bool" where
  "commentOnly stmt \<longleftrightarrow> (\<forall>ln \<in> set (splitAt (CHR 10) stmt). TrimSpace ln = '''' \<or> prefix ''--'' (TrimSpace ln))"

definition splitSQLStatements :: "string \<Rightarrow> string list" where
  "splitSQLStatements sqlText =
     filter (\<lambda>stmt. stmt \<noteq> '''' \<and> \<not> commentOnly stmt) (map TrimSpace (splitAt (CHR '';'') sqlText))"

section \<open>Running the files\<close>

record dirEntry =
  de_Name :: string
  de_IsDir :: bool
  de_Content :: "error + string"

record 'd sqlServer =
  sv_exec :: "string \<Rightarrow> 'd \<Rightarrow> error option \<times> 'd"
  sv_table :: "'d \<Rightarrow> string \<Rightarrow> error + bool"

fun execAll :: "'d sqlServer \<Rightarrow> string list \<Rightarrow> ('d, unit) go" where
  "execAll sv [] d = (Ok (), d)"
| "execAll sv (stmt # stmts) d =
     (case sv_exec sv stmt d of (None, d') \<Rightarrow> execAll sv stmts d' | (Some err, d') \<Rightarrow> (Fail err, d'))"

definition runEntry :: "'d sqlServer \<Rightarrow> dirEntry \<Rightarrow> ('d, unit) go" where
  "runEntry sv e =
     (if de_IsDir e then gret ()
      else case de_Content e of
        Inl err \<Rightarrow> gfail (Wrap (''read migration '' @ de_Name e @ '': '') err)
      | Inr content \<Rightarrow> gwrap (''exec migration '' @ de_Name e @ '': '') (execAll sv (splitSQLStatements content)))"

definition requiredTables :: "string list" where
  "requiredTables = [''workflow_definitions'', ''workflow_instances'', ''workflow_steps'', ''queue'']"

fun verifyTables :: "'d sqlServer \<Rightarrow> string list \<Rightarrow> ('d, unit) go" where
  "verifyTables sv [] d = (Ok (), d)"
| "verifyTables sv (t # ts) d =
     (case sv_table sv d t of
        Inl err \<Rightarrow> (Fail (Wrap ''verify migration: '' err), d)
      | Inr False \<Rightarrow> (Fail (Err (''migration verification failed: table '' @ t @ '' does not exist'')), d)
      | Inr True \<Rightarrow> verifyTables sv ts d)"

text \<open>Names are compared byte by byte.\<close>

fun nameLess :: "string \<Rightarrow> string \<Rightarrow> bool" where
  "nameLess xs [] = False"
| "nameLess [] (y # ys) = True"
| "nameLess (x # xs) (y # ys) = (of_char x < (of_char y :: nat) \<or> x = y \<and> nameLess xs ys)"

fun insertEntry :: "dirEntry \<Rightarrow> dirEntry list \<Rightarrow> dirEntry list" where
  "insertEntry e [] = [e]"
| "insertEntry e (f # fs) = (if nameLess (de_Name f) (de_Name e) then f # insertEntry e fs else e # f # fs)"

definition sortEntries :: "dirEntry list \<Rightarrow> dirEntry list" where
  "sortEntries es = foldr insertEntry es []"

definition RunSQLiteMigrations :: "error + dirEntry list \<Rightarrow> 'd sqlServer \<Rightarrow> ('d, unit) go" where
  "RunSQLiteMigrations dir sv =
     (case dir of
        Inl err \<Rightarrow> gfail (Wrap ''read migrations dir: '' err)
      | Inr entries \<Rightarrow>
          if entries = [] then gret ()
          else gseq (gforeach (runEntry sv) (sortEntries entries)) (verifyTables sv requiredTables))"

section \<open>What the statements are\<close>

lemma splitAt_ne [simp]: "splitAt c s \<noteq> []"
  by (cases s) (auto split: list.split)

lemma splitAt_free: "p \<in> set (splitAt c s) \<Longrightarrow> c \<notin> set p"
proof (induction s arbitrary: p)
  case (Cons x xs)
  then show ?case by (cases "splitAt c xs") (auto split: if_splits)
qed simp

lemma splitAt_append: "c \<notin> set xs \<Longrightarrow> splitAt c (xs @ c # ys) = xs # splitAt c ys"
  by (induction xs) auto

lemma splitAt_none: "c \<notin> set xs \<Longrightarrow> splitAt c xs = [xs]"
  by (induction xs) auto

lemma set_TrimSpace: "c \<in> set (TrimSpace s) \<Longrightarrow> c \<in> set s"
  by (auto simp: TrimSpace_def dest!: set_dropWhileD)

lemma TrimSpace_space: "isSpace c \<Longrightarrow> TrimSpace (c # s) = TrimSpace s"
  by (simp add: TrimSpace_def)

lemma splitSQLStatements_member:
  assumes "stmt \<in> set (splitSQLStatements sqlText)"
  shows "stmt \<noteq> []" and "CHR '';'' \<notin> set stmt" and "\<not> commentOnly stmt"
  using assms splitAt_free set_TrimSpace by (fastforce simp: splitSQLStatements_def)+

text \<open>Statements that survive the splitting, and the file that is written from them.\<close>

definition statement :: "string \<Rightarrow> bool" where
  "statement s \<longleftrightarrow> s \<noteq> [] \<and> TrimSpace s = s \<and> CHR '';'' \<notin> set s \<and> \<not> commentOnly s"

definition sqlFile :: "string list \<Rightarrow> string" where
  "sqlFile stmts = concat (map (\<lambda>s. s @ CHR '';'' # [CHR 10]) stmts)"

lemma split_newline: "map TrimSpace (splitAt (CHR '';'') (CHR 10 # s)) = map TrimSpace (splitAt (CHR '';'') s)"
proof -
  obtain p ps where "splitAt (CHR '';'') s = p # ps" by (cases "splitAt (CHR '';'') s") auto
  then show ?thesis by (simp add: TrimSpace_space isSpace_def)
qed



section \<open>What a run does\<close>

lemma set_insertEntry [simp]: "set (insertEntry e es) = insert e (set es)"
  by (induction es) auto

lemma nameLess_trans: "nameLess xs ys \<Longrightarrow> nameLess ys zs \<Longrightarrow> nameLess xs zs"
proof (induction xs ys arbitrary: zs rule: nameLess.induct)
  case (3 x xs y ys)
  then show ?case by (cases zs) auto
next
  case (2 y ys)
  then show ?case by (cases zs) auto
qed simp

lemma nameLess_total: "nameLess xs ys \<or> xs = ys \<or> nameLess ys xs"
proof (induction xs ys rule: nameLess.induct)
  case (1 xs)
  then show ?case by (cases xs) auto
next
  case (3 x xs y ys)
  have "x = y \<or> of_char x < (of_char y :: nat) \<or> of_char y < (of_char x :: nat)"
    using of_char_eq_iff [of x y, where 'a = nat] by linarith
  with 3 show ?case by auto
qed simp

lemma nameLess_irrefl: "\<not> nameLess xs xs"
  by (induction xs) auto

text \<open>The files run in the order of their names.\<close>

theorem sortEntries_sorted:
  "set (sortEntries es) = set es"
  "sorted_wrt (\<lambda>e f. \<not> nameLess (de_Name f) (de_Name e)) (sortEntries es)"
proof -
  show "set (sortEntries es) = set es" by (induction es) (simp_all add: sortEntries_def)
  have ins: "sorted_wrt (\<lambda>e f. \<not> nameLess (de_Name f) (de_Name e)) (insertEntry e fs)"
    if "sorted_wrt (\<lambda>e f. \<not> nameLess (de_Name f) (de_Name e)) fs" for e fs
    using that
  proof (induction fs)
    case (Cons f fs)
    show ?case
    proof (cases "nameLess (de_Name f) (de_Name e)")
      case True
      then have "\<not> nameLess (de_Name e) (de_Name f)" using nameLess_trans nameLess_irrefl by blast
      with Cons True show ?thesis by simp
    next
      case False
      have "\<not> nameLess (de_Name g) (de_Name e)" if "g \<in> set fs" for g
      proof
        assume "nameLess (de_Name g) (de_Name e)"
        moreover have "\<not> nameLess (de_Name g) (de_Name f)" using Cons.prems that by simp
        ultimately show False using False nameLess_total nameLess_trans by metis
      qed
      with Cons.prems False show ?thesis by simp
    qed
  qed simp
  show "sorted_wrt (\<lambda>e f. \<not> nameLess (de_Name f) (de_Name e)) (sortEntries es)"
    by (induction es) (simp_all add: sortEntries_def ins)
qed

fun statementsOf :: "dirEntry list \<Rightarrow> string list" where
  "statementsOf [] = []"
| "statementsOf (e # es) =
     (if de_IsDir e then [] else (case de_Content e of Inl _ \<Rightarrow> [] | Inr content \<Rightarrow> splitSQLStatements content)) @ statementsOf es"

lemma execAll_append:
  "execAll sv (xs @ ys) d = (case execAll sv xs d of (Ok _, d') \<Rightarrow> execAll sv ys d' | r \<Rightarrow> r)"
  by (induction xs arbitrary: d) (auto split: prod.split option.split)

lemma execAll_outcome: "fst (execAll sv xs d) = Ok () \<or> (\<exists>e. fst (execAll sv xs d) = Fail e)"
  by (induction xs arbitrary: d) (auto split: prod.split option.split)

lemma runEntries_Ok:
  assumes "\<forall>e \<in> set es. de_IsDir e \<or> (\<exists>content. de_Content e = Inr content)"
  shows "gforeach (runEntry sv) es d = (Ok (), d') \<longleftrightarrow> execAll sv (statementsOf es) d = (Ok (), d')"
  using assms
proof (induction es arbitrary: d)
  case (Cons e es)
  let ?here = "if de_IsDir e then [] else (case de_Content e of Inl _ \<Rightarrow> [] | Inr content \<Rightarrow> splitSQLStatements content)"
  obtain r d1 where x: "execAll sv ?here d = (r, d1)" by (cases "execAll sv ?here d")
  have "runEntry sv e d = ((case r of Fail err \<Rightarrow> Fail (Wrap (''exec migration '' @ de_Name e @ '': '') err) | _ \<Rightarrow> r), d1)"
    using Cons.prems x by (auto simp: runEntry_def gret_def gwrap_def split: prod.split res.split)
  moreover have "r = Ok () \<or> (\<exists>err. r = Fail err)" using execAll_outcome [of sv ?here d] x by simp
  ultimately show ?case
    using Cons x by (auto simp: gseq_def gbind_def execAll_append)
qed (simp add: gret_def)

lemma verifyTables_Ok:
  "verifyTables sv ts d = (Ok (), d') \<longleftrightarrow> d' = d \<and> (\<forall>t \<in> set ts. sv_table sv d t = Inr True)"
  by (induction ts) (auto split: sum.split bool.split)

text \<open>
  A migration succeeds exactly when every statement of every file, in the order of the names of the files, was executed without an error
  and the four tables the store relies on are there afterwards.
\<close>

theorem RunSQLiteMigrations_Ok:
  assumes "\<forall>e \<in> set entries. de_IsDir e \<or> (\<exists>content. de_Content e = Inr content)" "entries \<noteq> []"
  shows "RunSQLiteMigrations (Inr entries) sv d = (Ok (), d') \<longleftrightarrow>
    execAll sv (statementsOf (sortEntries entries)) d = (Ok (), d') \<and> (\<forall>t \<in> set requiredTables. sv_table sv d' t = Inr True)"
proof -
  have r: "gforeach (runEntry sv) (sortEntries entries) d = (Ok (), d1) \<longleftrightarrow>
      execAll sv (statementsOf (sortEntries entries)) d = (Ok (), d1)" for d1
    using runEntries_Ok [of "sortEntries entries" sv d d1] assms(1) sortEntries_sorted(1) by metis
  obtain x d1 where x: "gforeach (runEntry sv) (sortEntries entries) d = (x, d1)"
    by (cases "gforeach (runEntry sv) (sortEntries entries) d")
  show ?thesis
  proof (cases "x = Ok ()")
    case True
    with r [of d1] x have "execAll sv (statementsOf (sortEntries entries)) d = (Ok (), d1)" by simp
    with x True assms(2) show ?thesis
      by (auto simp: RunSQLiteMigrations_def gseq_def gbind_def verifyTables_Ok)
  next
    case False
    with r [of d'] x have "execAll sv (statementsOf (sortEntries entries)) d \<noteq> (Ok (), d')" by auto
    moreover have "RunSQLiteMigrations (Inr entries) sv d \<noteq> (Ok (), d')"
      using x False assms(2) by (cases x) (auto simp: RunSQLiteMigrations_def gseq_def gbind_def)
    ultimately show ?thesis by simp
  qed
qed

end
