(* ===== verification/Monitor.thy ===== *)
theory Monitor
  imports PgStore
begin

text \<open>
  The monitor and the clean-up service of \<open>monitor.go\<close>, on the tables of \<open>PgStore\<close> and the views of \<open>migrations_pro\<close>. A row of a query is
  the list of its columns, and \<open>Scan\<close> wants as many places as there are columns. Which functions the database has
  is a parameter.

  The lemmas show that the statistics are those of the store, that the list of active workflows fails as soon as there is one,
  and that the clean-up needs a function the schema does not define.
\<close>

datatype column = CInt int | CStr string | CStatus WorkflowStatus | CTime int | CFloat rat

record ActiveWorkflow =
  av_InstanceID :: int
  av_WorkflowID :: string
  av_Status :: WorkflowStatus
  av_CreatedAt :: int
  av_Duration :: int
  av_TotalSteps :: int
  av_CompletedSteps :: int
  av_FailedSteps :: int
  av_RunningSteps :: int
  av_CompensationSteps :: int
  av_RolledBackSteps :: int

text \<open>The view \<open>active_workflows\<close>, as far as the query selects its columns, at the time \<open>now\<close> of the statement.\<close>

definition activeRow :: "int \<Rightarrow> PgDb \<Rightarrow> WorkflowInstance \<Rightarrow> column list" where
  "activeRow now d i =
     (let mine = filter (\<lambda>st. ws_InstanceID st = wi_ID i) (pd_steps d);
          count = (\<lambda>status. int (length (filter (\<lambda>st. ws_Status st = status) mine)))
      in [CInt (wi_ID i), CStr (wi_WorkflowID i), CStatus (wi_Status i), CTime (wi_CreatedAt i),
          CFloat (of_int (now - wi_CreatedAt i) / 1000000000), CInt (int (length mine)), CInt (count StepStatusCompleted),
          CInt (count StepStatusFailed), CInt (count StepStatusRunning)])"

definition activeRows :: "int \<Rightarrow> PgDb \<Rightarrow> column list list" where
  "activeRows now d =
     map (activeRow now d) (filter (\<lambda>i. wi_Status i \<in> {StatusPending, StatusRunning, StatusDLQ}) (pd_instances d))"

definition scanCount :: "nat \<Rightarrow> column list \<Rightarrow> error option" where
  "scanCount n cols =
     (if length cols = n then None
      else Some (Err (''number of field descriptions must equal number of destinations, got '' @ itoa (int (length cols))
             @ '' and '' @ itoa (int n))))"

text \<open>Eleven places: the identifier, the workflow, the status, the time, the duration and six counts.\<close>

datatype kind = KInt | KStr | KStatus | KTime | KFloat

fun kindOf :: "column \<Rightarrow> kind" where
  "kindOf (CInt _) = KInt"
| "kindOf (CStr _) = KStr"
| "kindOf (CStatus _) = KStatus"
| "kindOf (CTime _) = KTime"
| "kindOf (CFloat _) = KFloat"

definition activePlaces :: "kind list" where
  "activePlaces = [KInt, KStr, KStatus, KTime, KFloat, KInt, KInt, KInt, KInt, KInt, KInt]"

definition intAt :: "column list \<Rightarrow> nat \<Rightarrow> int" where
  "intAt cols n = (case cols ! n of CInt i \<Rightarrow> i | _ \<Rightarrow> 0)"

definition scanActive :: "column list \<Rightarrow> error + ActiveWorkflow" where
  "scanActive cols =
     (case scanCount (length activePlaces) cols of
        Some e \<Rightarrow> Inl e
      | None \<Rightarrow>
          if map kindOf cols \<noteq> activePlaces then Inl (Err ''cannot scan'')
          else Inr \<lparr>av_InstanceID = intAt cols 0, av_WorkflowID = (case cols ! 1 of CStr w \<Rightarrow> w | _ \<Rightarrow> ''''),
            av_Status = (case cols ! 2 of CStatus st \<Rightarrow> st | _ \<Rightarrow> StatusPending),
            av_CreatedAt = (case cols ! 3 of CTime t \<Rightarrow> t | _ \<Rightarrow> 0),
            av_Duration = (case cols ! 4 of CFloat d \<Rightarrow> truncRat (d * 1000000000) | _ \<Rightarrow> 0),
            av_TotalSteps = intAt cols 5, av_CompletedSteps = intAt cols 6, av_FailedSteps = intAt cols 7,
            av_RunningSteps = intAt cols 8, av_CompensationSteps = intAt cols 9, av_RolledBackSteps = intAt cols 10\<rparr>)"

fun scanRows :: "column list list \<Rightarrow> error + ActiveWorkflow list" where
  "scanRows [] = Inr []"
| "scanRows (r # rs) =
     (case scanActive r of Inl e \<Rightarrow> Inl e | Inr a \<Rightarrow> (case scanRows rs of Inl e \<Rightarrow> Inl e | Inr wfs \<Rightarrow> Inr (a # wfs)))"

definition GetActiveWorkflows :: "env \<Rightarrow> ActiveWorkflow list pgo" where
  "GetActiveWorkflows E = gbind (now_pg E) (\<lambda>now. queryDb (\<lambda>d.
     case scanRows (activeRows now d) of Inl e \<Rightarrow> Fail e | Inr wfs \<Rightarrow> Ok wfs))"

text \<open>The query, the view and the conversion of the average are those of \<open>GetWorkflowStats_pg\<close>.\<close>

definition monitorWorkflowStats :: "WorkflowStats list pgo" where
  "monitorWorkflowStats = GetWorkflowStats_pg"

definition GetQueueLength :: "int pgo" where
  "GetQueueLength = queryDb (\<lambda>d. Ok (int (length (filter (\<lambda>q. qi_AttemptedAt q = None) (pd_queue d)))))"

text \<open>
  \<open>CleanupService.CleanupOldWorkflows\<close> calls a function of the database with a point in time; \<open>functions\<close> says which functions
  there are, by name and argument type, and what they delete.
\<close>

definition cleanupService ::
    "(string \<Rightarrow> string \<Rightarrow> (int \<Rightarrow> PgDb \<Rightarrow> error + PgDb) option) \<Rightarrow> env \<Rightarrow> int \<Rightarrow> int pgo" where
  "cleanupService functions E olderThan =
     gbind (read_pg E) (\<lambda>now. \<lambda>s.
       case functions ''workflows.cleanup_old_workflows'' ''timestamptz'' of
         None \<Rightarrow> (Fail (Err ''ERROR: function workflows.cleanup_old_workflows(timestamp with time zone) does not exist''), s)
       | Some f \<Rightarrow> (case f (now - olderThan) (st_db s) of Inl e \<Rightarrow> (Fail e, s) | Inr d \<Rightarrow> (Ok 1, s\<lparr>st_db := d\<rparr>)))"

section \<open>What the queries answer\<close>

lemma activeRow_columns: "length (activeRow now d i) = 9"
  by (simp add: activeRow_def Let_def)

text \<open>
  The query selects nine columns and the row is scanned into eleven places: the monitor answers with the empty list while nothing is
  active and with an error as soon as a workflow is pending, running or in the dead letter queue.
\<close>

theorem GetActiveWorkflows_fails:
  "fst (GetActiveWorkflows E s) =
     (if \<exists>i \<in> set (pd_instances (st_db s)). wi_Status i \<in> {StatusPending, StatusRunning, StatusDLQ}
      then Fail (Err ''number of field descriptions must equal number of destinations, got 9 and 11'') else Ok [])"
proof -
  have scan: "scanActive (activeRow now d i) = Inl (Err ''number of field descriptions must equal number of destinations, got 9 and 11'')"
    for now d i
  proof -
    have "itoa 9 = ''9''" "itoa 11 = ''11''" by code_simp+
    then show ?thesis by (simp add: activeRow_def Let_def scanCount_def scanActive_def activePlaces_def)
  qed
  have "scanRows (activeRows now d) =
      (if \<exists>i \<in> set (pd_instances d). wi_Status i \<in> {StatusPending, StatusRunning, StatusDLQ}
       then Inl (Err ''number of field descriptions must equal number of destinations, got 9 and 11'') else Inr [])" for now d
  proof -
    have "scanRows (map (activeRow now d) xs) =
        (if xs \<noteq> [] then Inl (Err ''number of field descriptions must equal number of destinations, got 9 and 11'') else Inr [])" for xs
      using scan by (cases xs) simp_all
    then show ?thesis unfolding activeRows_def by (simp add: filter_empty_conv)
  qed
  then show ?thesis
    by (simp add: GetActiveWorkflows_def gbind_def now_pg_def read_pg_def gret_def queryDb_def)
qed

text \<open>The queue length counts the entries that no worker has claimed.\<close>

lemma GetQueueLength_claim:
  "fst (GetQueueLength s) = Ok (int (length (pd_queue (st_db s)) - length (filter (\<lambda>q. qi_AttemptedAt q \<noteq> None) (pd_queue (st_db s)))))"
  using sum_length_filter_compl [of "\<lambda>q. qi_AttemptedAt q = None" "pd_queue (st_db s)"]
  by (simp add: GetQueueLength_def queryDb_def)

text \<open>On a schema without the function, as \<open>migrations_pro\<close> leaves it, nothing is ever deleted.\<close>

lemma cleanupService_missing:
  "functions ''workflows.cleanup_old_workflows'' ''timestamptz'' = None \<Longrightarrow>
     (\<exists>e. fst (cleanupService functions E olderThan s) = Fail e) \<and> st_db (snd (cleanupService functions E olderThan s)) = st_db s"
  by (simp add: cleanupService_def gbind_def read_pg_def)

end
